(* ===== verification/Prelude.thy ===== *)
theory Prelude
  imports Complex_Main "HOL-Library.Word" "HOL-Library.Multiset" "HOL-Library.Log_Nat"
begin

text \<open>
  What every component of the harness shares.

  \<^item> Go values. Go's \<open>int\<close>, \<open>int64\<close> and \<open>time.Duration\<close> are \<open>int\<close> (a place where their
    64-bit width can show says so and writes the wrap-around out); the fixed-width unsigned
    integers of the wire protocol are \<open>word\<close>s; Go strings are byte strings, as HOL
    \<open>string\<close>s; byte slices are lists of 8-bit words; a map is a partial function.
  \<^item> Go control flow. A run-time panic is a value of \<open>panic\<close>, and a function that may panic
    returns \<open>panic + 'a\<close>. An \<open>error\<close> result is a sum as well, with an error type of the
    component or, where the code only passes the message on, a string.
  \<^item> \<open>counter\<close>, the contract of the statistics loops: a fold over results in which a
    field goes up by one exactly on the results of one class.
\<close>

subsection \<open>Types of the model\<close>

type_synonym byte = "8 word"
type_synonym bytes = "8 word list"

text \<open>The run-time panics of Go that the code can raise.\<close>

datatype panic =
    IndexOutOfRange
  | SliceOutOfRange
  | NilDereference
  | TypeAssertion
  | CloseOfClosedChannel
  | InvalidIntnArgument
  | MakeSliceLenOutOfRange
  | UnhashableKey
  | BadTickerInterval

text \<open>Sequencing of computations that may fail: the first failure is the result.\<close>

fun bind_sum :: "'e + 'a \<Rightarrow> ('a \<Rightarrow> 'e + 'b) \<Rightarrow> 'e + 'b" where
  "bind_sum (Inl e) f = Inl e"
| "bind_sum (Inr x) f = f x"

fun map_sum_list :: "('a \<Rightarrow> 'e + 'b) \<Rightarrow> 'a list \<Rightarrow> 'e + 'b list" where
  "map_sum_list f [] = Inr []"
| "map_sum_list f (x # xs) =
     bind_sum (f x) (\<lambda>y. bind_sum (map_sum_list f xs) (\<lambda>ys. Inr (y # ys)))"

text \<open>\<open>xs[i]\<close> and \<open>xs[lo:hi]\<close> with Go's bounds checks.\<close>

definition index_at :: "'a list \<Rightarrow> int \<Rightarrow> panic + 'a" where
  "index_at xs i = (if 0 \<le> i \<and> i < int (length xs) then Inr (xs ! nat i) else Inl IndexOutOfRange)"

definition slice_of :: "'a list \<Rightarrow> nat \<Rightarrow> nat \<Rightarrow> 'a list" where
  "slice_of xs lo hi = take (hi - lo) (drop lo xs)"

subsection \<open>Collections of facts\<close>

named_theorems bind_simps \<open>rewriting of sequenced computations\<close>
named_theorems code_defs \<open>the definitions a proof by evaluation unfolds\<close>

lemma bind_sum_Inr_iff [bind_simps]:
  "bind_sum m f = Inr y \<longleftrightarrow> (\<exists>x. m = Inr x \<and> f x = Inr y)"
  by (cases m) auto

lemma bind_sum_Inl_iff [bind_simps]:
  "bind_sum m f = Inl e \<longleftrightarrow> m = Inl e \<or> (\<exists>x. m = Inr x \<and> f x = Inl e)"
  by (cases m) auto

lemma bind_sum_assoc [bind_simps]:
  "bind_sum (bind_sum m f) g = bind_sum m (\<lambda>x. bind_sum (f x) g)"
  by (cases m) auto

lemma map_sum_list_Inr_length: "map_sum_list f xs = Inr ys \<Longrightarrow> length ys = length xs"
  by (induction xs arbitrary: ys) (auto simp: bind_simps)

lemma map_sum_list_cong [fundef_cong]:
  "xs = ys \<Longrightarrow> (\<And>x. x \<in> set ys \<Longrightarrow> f x = g x) \<Longrightarrow> map_sum_list f xs = map_sum_list g ys"
  by (induction ys arbitrary: xs) auto

lemma map_sum_list_Inr: "map_sum_list f xs = Inr ys \<longleftrightarrow> list_all2 (\<lambda>x y. f x = Inr y) xs ys"
  by (induction xs arbitrary: ys) (auto simp: bind_simps list_all2_Cons1)

lemma map_sum_list_total:
  "(\<And>x. x \<in> set xs \<Longrightarrow> f x = Inr (g x)) \<Longrightarrow> map_sum_list f xs = Inr (map g xs)"
  by (induction xs) auto

lemma length_slice [simp]: "hi \<le> length xs \<Longrightarrow> length (slice_of xs lo hi) = hi - lo"
  by (simp add: slice_of_def)

lemma slice_empty [simp]: "slice_of xs i i = []" "length xs \<le> lo \<Longrightarrow> slice_of xs lo hi = []"
  by (simp_all add: slice_of_def)

lemma slice_all [simp]: "length xs \<le> hi \<Longrightarrow> slice_of xs 0 hi = xs"
  by (simp add: slice_of_def)

lemma slice_append: "slice_of (xs @ ys) lo hi = slice_of xs lo hi @ slice_of ys (lo - length xs) (hi - length xs)"
  by (cases "lo \<le> length xs") (auto simp: slice_of_def)

lemma slices_concat:
  assumes "lo \<le> mid" "mid \<le> hi"
  shows "slice_of xs lo mid @ slice_of xs mid hi = slice_of xs lo hi"
proof -
  obtain a b where "mid = lo + a" "hi = lo + a + b"
    using assms by (metis le_Suc_ex)
  then show ?thesis by (simp add: slice_of_def take_add add.commute)
qed

subsection \<open>Statistics loops\<close>

text \<open>
  Every report of the harness is a loop \<open>for _, r := range results\<close> whose body
  increments a field on the results of one class and leaves it alone on the others. The
  body is \<open>step\<close>, the field \<open>cnt\<close> and the class \<open>cls\<close>.
\<close>

locale counter =
  fixes step :: "'c \<Rightarrow> 'r \<Rightarrow> 'c"
    and cnt :: "'c \<Rightarrow> int"
    and cls :: "'r \<Rightarrow> bool"
  assumes cnt_step: "cnt (step c r) = cnt c + (if cls r then 1 else 0)"
begin

lemma cnt_foldl: "cnt (foldl step c rs) = cnt c + int (length (filter cls rs))"
  by (induction rs arbitrary: c) (auto simp: cnt_step)

lemma cnt_mono: "cnt c \<le> cnt (foldl step c rs)"
  by (simp add: cnt_foldl)

lemma cnt_bound: "cnt (foldl step c rs) \<le> cnt c + int (length rs)"
  by (simp add: cnt_foldl)

lemma cnt_zero_iff: "cnt c = 0 \<Longrightarrow> cnt (foldl step c rs) = 0 \<longleftrightarrow> (\<forall>r \<in> set rs. \<not> cls r)"
  by (simp add: cnt_foldl filter_empty_conv)

end

text \<open>Two counters of one loop whose classes partition the results.\<close>

locale counter_pair = pos: counter step cnt cls + neg: counter step cnt' "\<lambda>r. \<not> cls r"
  for step :: "'c \<Rightarrow> 'r \<Rightarrow> 'c" and cnt cnt' cls
begin

lemma cnt_sum:
  "cnt (foldl step c rs) + cnt' (foldl step c rs) = cnt c + cnt' c + int (length rs)"
  using sum_length_filter_compl [of cls rs] by (simp add: pos.cnt_foldl neg.cnt_foldl)

end

text \<open>Counting over a partition of a list, for the reports with more than two classes.\<close>

lemma length_filter_update:
  "i < length ws \<Longrightarrow> length (filter P (ws[i := w])) + (if P (ws ! i) then 1 else 0) =
    length (filter P ws) + (if P w then 1 else 0)"
proof (induction ws arbitrary: i)
  case (Cons a ws)
  then show ?case by (cases i) auto
qed simp

lemma length_filter_split:
  "length (filter P xs) = length (filter (\<lambda>x. P x \<and> Q x) xs) + length (filter (\<lambda>x. P x \<and> \<not> Q x) xs)"
  by (induction xs) auto

text \<open>\<open>m[k]++\<close> on a Go map, whose missing entries read as zero.\<close>

definition count_of :: "('k \<rightharpoonup> int) \<Rightarrow> 'k \<Rightarrow> int" where
  "count_of m k = (case m k of None \<Rightarrow> 0 | Some n \<Rightarrow> n)"

definition bump :: "('k \<rightharpoonup> int) \<Rightarrow> 'k \<Rightarrow> ('k \<rightharpoonup> int)" where
  "bump m k = m(k \<mapsto> count_of m k + 1)"

lemma count_of_bump [simp]: "count_of (bump m k) k' = count_of m k' + (if k' = k then 1 else 0)"
  by (simp add: count_of_def bump_def)

lemma count_of_empty [simp]: "count_of Map.empty k = 0"
  by (simp add: count_of_def)

lemma foldl_append_snoc: "foldl (\<lambda>acc x. acc @ [f x]) acc xs = acc @ map f xs"
  by (induction xs arbitrary: acc) auto

lemma foldl_append_filter:
  "foldl (\<lambda>acc x. if P x then acc @ [f x] else acc) acc xs = acc @ map f (filter P xs)"
  by (induction xs arbitrary: acc) auto

subsection \<open>Go's 64-bit integers\<close>

text \<open>The value an \<open>int\<close> keeps of an arithmetic result: arithmetic wraps around.\<close>

definition i64 :: "int \<Rightarrow> int" where
  "i64 x = (x + 2 ^ 63) mod 2 ^ 64 - 2 ^ 63"

lemma i64_id: "- (2 ^ 63) \<le> x \<Longrightarrow> x < 2 ^ 63 \<Longrightarrow> i64 x = x"
  by (simp add: i64_def)

lemma i64_range: "- (2 ^ 63) \<le> i64 x" "i64 x < 2 ^ 63"
  using pos_mod_bound [of "2 ^ 64" "x + 2 ^ 63"] by (simp_all add: i64_def)

lemma i64_add: "i64 (i64 x + y) = i64 (x + y)"
proof -
  have "i64 (i64 x + y) = ((x + 2 ^ 63) mod 2 ^ 64 + y) mod 2 ^ 64 - 2 ^ 63" by (simp add: i64_def)
  also have "\<dots> = (x + 2 ^ 63 + y) mod 2 ^ 64 - 2 ^ 63" by (simp only: mod_add_left_eq)
  finally show ?thesis by (simp add: i64_def add_ac)
qed

lemma i64_add': "i64 (y + i64 x) = i64 (y + x)"
  using i64_add [of x y] by (simp add: add.commute)

text \<open>A loop of additions wraps like one addition of the sum.\<close>

lemma foldl_i64: "foldl (\<lambda>t x. i64 (t + f x)) (i64 t) xs = i64 (t + sum_list (map f xs))"
proof (induction xs arbitrary: t)
  case (Cons x xs)
  have "foldl (\<lambda>t x. i64 (t + f x)) (i64 t) (x # xs) = foldl (\<lambda>t x. i64 (t + f x)) (i64 (t + f x)) xs"
    by (simp add: i64_add)
  then show ?case using Cons [of "t + f x"] by (simp add: add_ac)
qed simp

end
