(* ===== verification/Float64.thy ===== *)
theory Float64
  imports Prelude
begin

text \<open>
  Go's \<open>float64\<close>: IEEE 754 binary64 with rounding to nearest, ties to even.

  A finite value is the rational number it denotes; the two infinities and NaN are
  constructors of their own. Every operation computes the exact rational result and rounds
  it once (\<open>round53\<close>: 53 significant bits, subnormals below \<open>2 powi (- 1022)\<close>), and
  a rounded result of absolute value \<open>2 ^ 1024\<close> or more overflows to an infinity.
  The two zeros are one value: the code never divides by a zero that could be negative and
  the sign of a zero shows in nothing it prints. Products and sums are rounded separately,
  as the compiler does on amd64 (Go may fuse them on other architectures), and the
  conversion to \<open>int64\<close> is that of amd64, where a NaN or a value out of range gives
  \<open>- 2 ^ 63\<close>.

  The lemmas: rounding is monotone, odd, exact on \<open>m * 2 powi k\<close> with \<open>\<bar>m\<bar> \<le> 2 ^ 53\<close>
  and hence idempotent; conversion from integers up to \<open>2 ^ 53\<close> is exact; the ordered
  operations are monotone. Closed terms evaluate by \<open>code_simp\<close>.
\<close>

subsection \<open>Rounding\<close>

text \<open>The binary exponent of a positive rational: \<open>2 powi ilog2 x \<le> x < 2 powi (ilog2 x + 1)\<close>.\<close>

definition ilog2 :: "rat \<Rightarrow> int" where
  "ilog2 x = (let (p, q) = quotient_of x; e = bitlen p - bitlen q
              in if 2 powi e \<le> x then e else e - 1)"

text \<open>The nearest integer, the even one of two equally near.\<close>

definition rne :: "rat \<Rightarrow> int" where
  "rne x = (let f = \<lfloor>x\<rfloor>; r = x - of_int f
            in if r < 1 / 2 then f else if 1 / 2 < r then f + 1
               else if even f then f else f + 1)"

definition round53 :: "rat \<Rightarrow> rat" where
  "round53 x = (if x = 0 then 0
     else let u = 2 powi (max (ilog2 \<bar>x\<bar>) (- 1022) - 52)
          in of_int (rne (x / u)) * u)"

lemma powi_2_pos [simp]: "0 < (2::rat) powi e"
  by simp

lemma powi_2_le_iff [simp]: "(2::rat) powi a \<le> 2 powi b \<longleftrightarrow> a \<le> b"
proof
  assume "a \<le> b"
  then show "(2::rat) powi a \<le> 2 powi b" by (simp add: power_int_increasing)
next
  assume *: "(2::rat) powi a \<le> 2 powi b"
  show "a \<le> b"
  proof (rule ccontr)
    assume "\<not> a \<le> b"
    then have "(2::rat) powi b < 2 powi a" by (simp add: power_int_strict_increasing)
    with * show False by simp
  qed
qed

lemma powi_2_less_iff [simp]: "(2::rat) powi a < 2 powi b \<longleftrightarrow> a < b"
  by (simp add: linorder_not_le [symmetric])

lemma powi_2_add: "(2::rat) powi (a + b) = 2 powi a * 2 powi b"
  by (simp add: power_int_add)

lemma powi_2_nat: "(2::rat) powi int n = 2 ^ n"
  by simp

lemma ilog2_bounds:
  assumes "0 < x"
  shows "2 powi ilog2 x \<le> x \<and> x < 2 powi (ilog2 x + 1)"
proof -
  obtain p q where pq: "quotient_of x = (p, q)" by (cases "quotient_of x")
  from pq have q: "0 < q" by (rule quotient_of_denom_pos)
  have x: "x = of_int p / of_int q" by (rule quotient_of_div [OF pq])
  with assms q have p: "0 < p" by (simp add: zero_less_divide_iff)
  have bits: "2 powi (bitlen n - 1) \<le> rat_of_int n \<and> rat_of_int n < 2 powi bitlen n" if "0 < n" for n
  proof -
    from that have "1 \<le> bitlen n" by (simp add: bitlen_alt_def)
    moreover have "rat_of_int (2 ^ nat (bitlen n - 1)) \<le> of_int n \<and> rat_of_int n < of_int (2 ^ nat (bitlen n))"
      using bitlen_bounds [OF that] by (simp only: of_int_le_iff of_int_less_iff)
    ultimately show ?thesis by (simp add: power_int_def)
  qed
  define e where "e = bitlen p - bitlen q"
  have up: "x < 2 powi (e + 1)"
  proof -
    have "rat_of_int p < 2 powi (e + 1) * of_int q"
    proof -
      have "rat_of_int p < 2 powi (e + 1 + (bitlen q - 1))" using bits [OF p] by (simp add: e_def)
      also have "\<dots> \<le> 2 powi (e + 1) * of_int q"
        unfolding powi_2_add [of "e + 1"] using bits [OF q] by (intro mult_left_mono) auto
      finally show ?thesis .
    qed
    with q show ?thesis by (simp add: x divide_less_eq)
  qed
  have low: "2 powi (e - 1) \<le> x"
  proof -
    have "2 powi (e - 1) * of_int q \<le> (2::rat) powi (e - 1) * 2 powi bitlen q"
      using bits [OF q] by (intro mult_left_mono) auto
    also have "\<dots> = 2 powi (bitlen p - 1)" by (simp add: e_def flip: powi_2_add)
    also have "\<dots> \<le> of_int p" using bits [OF p] by simp
    finally show ?thesis using q by (simp add: x le_divide_eq)
  qed
  show ?thesis
    using up low pq by (auto simp: ilog2_def Let_def simp flip: e_def)
qed

lemma ilog2_unique: "2 powi e \<le> x \<Longrightarrow> x < 2 powi (e + 1) \<Longrightarrow> ilog2 x = e"
proof -
  assume *: "2 powi e \<le> x" "x < 2 powi (e + 1)"
  have "0 < x" using *(1) powi_2_pos [of e] by linarith
  then have b: "2 powi ilog2 x \<le> x" "x < 2 powi (ilog2 x + 1)" using ilog2_bounds by auto
  from * b have "(2::rat) powi e < 2 powi (ilog2 x + 1)" "(2::rat) powi ilog2 x < 2 powi (e + 1)"
    by linarith+
  then show ?thesis by simp
qed

lemma ilog2_mono: "0 < x \<Longrightarrow> x \<le> y \<Longrightarrow> ilog2 x \<le> ilog2 y"
proof -
  assume "0 < x" "x \<le> y"
  then have "(2::rat) powi ilog2 x < 2 powi (ilog2 y + 1)"
    using ilog2_bounds [of x] ilog2_bounds [of y] by linarith
  then show ?thesis by simp
qed

lemma rne_bounds: "\<lfloor>x\<rfloor> \<le> rne x" "rne x \<le> \<lfloor>x\<rfloor> + 1"
  by (auto simp: rne_def Let_def)

lemma rne_near: "\<bar>of_int (rne x) - x\<bar> \<le> 1 / 2"
  using floor_correct [of x] by (simp add: rne_def Let_def abs_if) linarith

lemma rne_of_int [simp]: "rne (of_int n) = n"
  by (simp add: rne_def)

lemma rne_0 [simp]: "rne 0 = 0"
  using rne_of_int [of 0] by simp

lemma rne_mono: "x \<le> y \<Longrightarrow> rne x \<le> rne y"
proof -
  assume xy: "x \<le> y"
  show "rne x \<le> rne y"
  proof (cases "\<lfloor>x\<rfloor> = \<lfloor>y\<rfloor>")
    case True
    with xy show ?thesis by (auto simp: rne_def Let_def)
  next
    case False
    with xy have "\<lfloor>x\<rfloor> + 1 \<le> \<lfloor>y\<rfloor>" using floor_mono [OF xy] by linarith
    with rne_bounds [of x] rne_bounds [of y] show ?thesis by linarith
  qed
qed

lemma rne_minus: "rne (- x) = - rne x"
proof (cases "x = of_int \<lfloor>x\<rfloor>")
  case True
  then have "rne (- x) = rne (of_int (- \<lfloor>x\<rfloor>))" "rne x = rne (of_int \<lfloor>x\<rfloor>)" by simp_all
  then show ?thesis by (simp only: rne_of_int)
next
  case False
  then have "\<lfloor>- x\<rfloor> = - \<lfloor>x\<rfloor> - 1" by (simp add: floor_eq_iff) linarith
  then show ?thesis by (auto simp: rne_def Let_def)
qed

text \<open>
  \<open>scale x\<close> is the exponent of the last bit kept: with \<open>u = 2 powi scale x\<close>, the
  quotient \<open>x / u\<close> is below \<open>2 ^ 53\<close>, and at least \<open>2 ^ 52\<close> unless \<open>x\<close> is subnormal.
\<close>

definition scale :: "rat \<Rightarrow> int" where
  "scale x = max (ilog2 \<bar>x\<bar>) (- 1022) - 52"

lemma round53_scale: "round53 x = of_int (rne (x / 2 powi scale x)) * 2 powi scale x"
  by (cases "x = 0") (simp_all add: round53_def scale_def Let_def)

lemma round53_0 [simp]: "round53 0 = 0"
  by (simp add: round53_def)

lemma round53_minus: "round53 (- x) = - round53 x"
  by (simp add: round53_def Let_def rne_minus)

lemma scale_upper:
  assumes "0 < x"
  shows "x / 2 powi scale x < 2 ^ 53"
proof -
  have "x < 2 powi (ilog2 x + 1)" using ilog2_bounds [OF assms] by simp
  also have "\<dots> \<le> 2 powi (53 + scale x)" using assms by (simp add: scale_def)
  also have "\<dots> = 2 ^ 53 * 2 powi scale x" by (simp only: powi_2_add) simp
  finally show ?thesis by (simp add: divide_less_eq)
qed

lemma scale_lower:
  assumes "0 < x" "- 1074 < scale x"
  shows "2 ^ 52 \<le> x / 2 powi scale x"
proof -
  have "(2::rat) ^ 52 * 2 powi scale x = 2 powi (52 + scale x)" by (simp only: powi_2_add) simp
  also have "52 + scale x = ilog2 x" using assms by (simp add: scale_def)
  also have "2 powi ilog2 x \<le> x" using ilog2_bounds [OF assms(1)] by simp
  finally show ?thesis by (simp add: le_divide_eq)
qed

lemma scale_min: "- 1074 \<le> scale x"
  by (simp add: scale_def)

lemma scale_mono: "0 < x \<Longrightarrow> x \<le> y \<Longrightarrow> scale x \<le> scale y"
  using ilog2_mono [of x y] by (simp add: scale_def)

lemma rne_le: "x \<le> of_int n \<Longrightarrow> rne x \<le> n"
  using rne_mono [of x "of_int n"] by simp

lemma rne_ge: "of_int n \<le> x \<Longrightarrow> n \<le> rne x"
  using rne_mono [of "of_int n" x] by simp

lemma round53_nonneg: "0 \<le> x \<Longrightarrow> 0 \<le> round53 x"
  by (auto simp: round53_scale intro!: mult_nonneg_nonneg rne_ge)

lemma round53_mono_pos:
  assumes "0 < x" "x \<le> y"
  shows "round53 x \<le> round53 y"
proof (cases "scale x = scale y")
  case True
  then show ?thesis
    using assms(2) by (simp add: round53_scale rne_mono divide_right_mono)
next
  case False
  with scale_mono [OF assms] have less: "scale x < scale y" by simp
  have "rne (x / 2 powi scale x) \<le> 2 ^ 53"
    using scale_upper [OF assms(1)] by (intro rne_le) simp
  then have "rat_of_int (rne (x / 2 powi scale x)) \<le> of_int (2 ^ 53)"
    by (simp only: of_int_le_iff)
  then have "round53 x \<le> 2 ^ 53 * 2 powi scale x"
    unfolding round53_scale by (intro mult_right_mono) auto
  also have "\<dots> = 2 ^ 52 * 2 powi (scale x + 1)" by (simp add: powi_2_add)
  also have "\<dots> \<le> 2 ^ 52 * 2 powi scale y"
    using less by (intro mult_left_mono) (auto simp: power_int_increasing)
  also have "\<dots> \<le> round53 y"
  proof -
    have "2 ^ 52 \<le> y / 2 powi scale y"
      using assms less scale_min [of x] by (intro scale_lower) auto
    then have "2 ^ 52 \<le> rne (y / 2 powi scale y)" by (intro rne_ge) simp
    then have "rat_of_int (2 ^ 52) \<le> of_int (rne (y / 2 powi scale y))" by (simp only: of_int_le_iff)
    then show ?thesis unfolding round53_scale by (intro mult_right_mono) auto
  qed
  finally show ?thesis .
qed

lemma round53_mono: "x \<le> y \<Longrightarrow> round53 x \<le> round53 y"
proof -
  assume xy: "x \<le> y"
  consider "0 < x" | "x \<le> 0" "0 \<le> y" | "y < 0" using xy by linarith
  then show ?thesis
  proof cases
    case 1
    then show ?thesis using xy by (rule round53_mono_pos)
  next
    case 2
    then have "0 \<le> round53 (- x)" "0 \<le> round53 y" by (auto intro: round53_nonneg)
    then show ?thesis by (simp add: round53_minus)
  next
    case 3
    then have "round53 (- y) \<le> round53 (- x)" using xy by (intro round53_mono_pos) auto
    then show ?thesis by (simp add: round53_minus)
  qed
qed

text \<open>Every number with 53 significant bits and an exponent in range is its own rounding.\<close>

lemma on_grid:
  assumes "m \<le> 2 ^ 53" "- 1074 \<le> k"
    and low: "- 1074 < s \<Longrightarrow> 2 ^ 52 * 2 powi s \<le> rat_of_int m * 2 powi k"
  shows "\<exists>n. rat_of_int m * 2 powi k = of_int n * 2 powi s"
proof (cases "s \<le> k")
  case True
  have "(2::rat) powi k = 2 powi (k - s) * 2 powi s"
    using powi_2_add [of "k - s" s] by simp
  also have "(2::rat) powi (k - s) = 2 ^ nat (k - s)"
    using True by (simp add: power_int_def)
  finally have "rat_of_int m * 2 powi k = of_int (m * 2 ^ nat (k - s)) * 2 powi s"
    by (simp only: of_int_mult of_int_power of_int_numeral mult.assoc)
  then show ?thesis ..
next
  case False
  then have low: "2 ^ 52 * 2 powi s \<le> rat_of_int m * 2 powi k" using low assms(2) by simp
  have "rat_of_int m \<le> of_int (2 ^ 53)"
    using assms(1) by (simp only: of_int_le_iff)
  then have m: "rat_of_int m \<le> 2 ^ 53" by simp
  have "(2::rat) powi (52 + s) \<le> 2 powi (53 + k)"
  proof -
    have "(2::rat) powi (52 + s) = 2 ^ 52 * 2 powi s" by (simp add: powi_2_add)
    also note low
    also have "rat_of_int m * 2 powi k \<le> 2 ^ 53 * 2 powi k" using m by (intro mult_right_mono) auto
    also have "\<dots> = 2 powi (53 + k)" by (simp add: powi_2_add)
    finally show ?thesis .
  qed
  with False have s: "s = k + 1" by simp
  have "2 ^ 53 * 2 powi k \<le> rat_of_int m * 2 powi k"
    using low by (simp add: s powi_2_add)
  then have "rat_of_int m = 2 ^ 53" using m by simp
  then have "rat_of_int m * 2 powi k = of_int (2 ^ 52) * 2 powi s" by (simp add: s powi_2_add)
  then show ?thesis ..
qed

lemma round53_exact:
  assumes "\<bar>m\<bar> \<le> 2 ^ 53" "- 1074 \<le> k"
  shows "round53 (of_int m * 2 powi k) = of_int m * 2 powi k"
proof -
  have pos: "round53 (of_int m * 2 powi k) = of_int m * 2 powi k" if m: "0 < m" "m \<le> 2 ^ 53" for m
  proof -
    define x where "x = rat_of_int m * 2 powi k"
    have "0 < x" using m by (simp add: x_def)
    then have "2 ^ 52 * 2 powi scale x \<le> x" if "- 1074 < scale x"
      using scale_lower [of x] that by (simp add: le_divide_eq)
    then obtain n where n: "x = of_int n * 2 powi scale x"
      using on_grid [of m k "scale x"] m assms(2) by (auto simp flip: x_def)
    then have "x / 2 powi scale x = of_int n" by (simp add: divide_eq_eq)
    then show ?thesis using n by (simp add: round53_scale flip: x_def)
  qed
  consider "m = 0" | "0 < m" | "m < 0" by linarith
  then show ?thesis
  proof cases
    case 3
    then have "round53 (of_int (- m) * 2 powi k) = of_int (- m) * 2 powi k"
      using assms by (intro pos) auto
    then show ?thesis by (simp add: round53_minus)
  qed (use assms pos in auto)
qed

lemma round53_of_int [simp]: "\<bar>m\<bar> \<le> 2 ^ 53 \<Longrightarrow> round53 (of_int m) = of_int m"
  using round53_exact [of m 0] by simp

lemma round53_form: "\<exists>m k. round53 x = of_int m * 2 powi k \<and> \<bar>m\<bar> \<le> 2 ^ 53 \<and> - 1074 \<le> k"
proof -
  have pos: "\<exists>m k. round53 x = of_int m * 2 powi k \<and> \<bar>m\<bar> \<le> 2 ^ 53 \<and> - 1074 \<le> k" if "0 < x" for x
  proof (intro exI conjI)
    show "round53 x = of_int (rne (x / 2 powi scale x)) * 2 powi scale x" by (rule round53_scale)
    have "rne (x / 2 powi scale x) \<le> 2 ^ 53"
      using scale_upper [OF that] by (intro rne_le) simp
    moreover have "0 \<le> rne (x / 2 powi scale x)" using that by (intro rne_ge) simp
    ultimately show "\<bar>rne (x / 2 powi scale x)\<bar> \<le> 2 ^ 53" by simp
  qed (rule scale_min)
  consider "x = 0" | "0 < x" | "0 < - x" by linarith
  then show ?thesis
  proof cases
    case 1
    then show ?thesis by (intro exI [of _ 0] exI [of _ 0]) simp
  next
    case 3
    then obtain m k where "round53 (- x) = of_int m * 2 powi k" "\<bar>m\<bar> \<le> 2 ^ 53" "- 1074 \<le> k"
      using pos by blast
    then show ?thesis by (intro exI [of _ "- m"] exI [of _ k]) (simp add: round53_minus minus_equation_iff [of "round53 x"])
  qed (rule pos)
qed

lemma round53_idem [simp]: "round53 (round53 x) = round53 x"
  using round53_form [of x] round53_exact by metis

lemma round53_le: "x \<le> b \<Longrightarrow> round53 b = b \<Longrightarrow> round53 x \<le> b"
  using round53_mono [of x b] by simp

lemma round53_ge: "b \<le> x \<Longrightarrow> round53 b = b \<Longrightarrow> b \<le> round53 x"
  using round53_mono [of b x] by simp

subsection \<open>Values and operations\<close>

datatype f64 = Fin rat | PInf | NInf | NaN

text \<open>The float nearest to a rational: the meaning of a constant and of every operation.\<close>

definition to_f64 :: "rat \<Rightarrow> f64" where
  "to_f64 x = (let r = round53 x
     in if r \<noteq> 0 \<and> 1024 \<le> ilog2 \<bar>r\<bar> then (if 0 < r then PInf else NInf) else Fin r)"

lemma ilog2_ge_iff: "0 < x \<Longrightarrow> e \<le> ilog2 x \<longleftrightarrow> 2 powi e \<le> x"
proof
  assume "0 < x" "e \<le> ilog2 x"
  then have "(2::rat) powi e \<le> 2 powi ilog2 x" by simp
  with ilog2_bounds [OF \<open>0 < x\<close>] show "2 powi e \<le> x" by linarith
next
  assume "0 < x" "2 powi e \<le> x"
  then have "(2::rat) powi e < 2 powi (ilog2 x + 1)" using ilog2_bounds [of x] by linarith
  then show "e \<le> ilog2 x" by simp
qed

definition overflow :: rat where
  "overflow = 2 powi 1024"

lemma overflow_pos: "0 < overflow"
  by (simp only: overflow_def powi_2_pos)

lemma overflow_iff: "0 < x \<Longrightarrow> 1024 \<le> ilog2 x \<longleftrightarrow> overflow \<le> x"
  unfolding overflow_def by (rule ilog2_ge_iff)

lemma to_f64_alt: "to_f64 x = (let r = round53 x
     in if overflow \<le> r then PInf else if r \<le> - overflow then NInf else Fin r)"
proof -
  consider "round53 x = 0" | "0 < round53 x" | "0 < - round53 x" by linarith
  then show ?thesis
    using overflow_pos overflow_iff [of "round53 x"] overflow_iff [of "- round53 x"]
    by cases (auto simp: to_f64_def Let_def)
qed

fun f64_sgn :: "f64 \<Rightarrow> rat" where
  "f64_sgn (Fin a) = sgn a"
| "f64_sgn PInf = 1"
| "f64_sgn NInf = - 1"
| "f64_sgn NaN = 0"

definition inf_of_sgn :: "rat \<Rightarrow> f64" where
  "inf_of_sgn s = (if s = 0 then NaN else if 0 < s then PInf else NInf)"

fun f64_neg :: "f64 \<Rightarrow> f64" where
  "f64_neg (Fin a) = Fin (- a)"
| "f64_neg PInf = NInf"
| "f64_neg NInf = PInf"
| "f64_neg NaN = NaN"

fun f64_add :: "f64 \<Rightarrow> f64 \<Rightarrow> f64" where
  "f64_add (Fin a) (Fin b) = to_f64 (a + b)"
| "f64_add NaN _ = NaN"
| "f64_add _ NaN = NaN"
| "f64_add PInf NInf = NaN"
| "f64_add NInf PInf = NaN"
| "f64_add PInf _ = PInf"
| "f64_add _ PInf = PInf"
| "f64_add NInf _ = NInf"
| "f64_add _ NInf = NInf"

fun f64_mult :: "f64 \<Rightarrow> f64 \<Rightarrow> f64" where
  "f64_mult (Fin a) (Fin b) = to_f64 (a * b)"
| "f64_mult NaN _ = NaN"
| "f64_mult _ NaN = NaN"
| "f64_mult x y = inf_of_sgn (f64_sgn x * f64_sgn y)"

fun f64_div :: "f64 \<Rightarrow> f64 \<Rightarrow> f64" where
  "f64_div (Fin a) (Fin b) = (if b = 0 then inf_of_sgn (sgn a) else to_f64 (a / b))"
| "f64_div NaN _ = NaN"
| "f64_div _ NaN = NaN"
| "f64_div (Fin a) _ = Fin 0"
| "f64_div x (Fin b) = inf_of_sgn (f64_sgn x * (if b < 0 then - 1 else 1))"
| "f64_div _ _ = NaN"

fun f64_le :: "f64 \<Rightarrow> f64 \<Rightarrow> bool" where
  "f64_le (Fin a) (Fin b) = (a \<le> b)"
| "f64_le NaN _ = False"
| "f64_le _ NaN = False"
| "f64_le NInf _ = True"
| "f64_le _ PInf = True"
| "f64_le _ _ = False"

fun f64_less :: "f64 \<Rightarrow> f64 \<Rightarrow> bool" where
  "f64_less (Fin a) (Fin b) = (a < b)"
| "f64_less NaN _ = False"
| "f64_less _ NaN = False"
| "f64_less NInf y = (y \<noteq> NInf)"
| "f64_less x PInf = (x \<noteq> PInf)"
| "f64_less _ _ = False"

text \<open>
  The operations are the library's symbols, so a model reads like the Go expression. Only
  the syntactic classes are instantiated: floating-point addition is not associative and
  NaN is not below itself.
\<close>

instantiation f64 :: "{zero, one, plus, minus, uminus, times, inverse, ord}"
begin

definition zero_f64 :: f64 where "0 = Fin 0"
definition one_f64 :: f64 where "1 = Fin 1"
definition plus_f64 :: "f64 \<Rightarrow> f64 \<Rightarrow> f64" where "x + y = f64_add x y"
definition uminus_f64 :: "f64 \<Rightarrow> f64" where "- x = f64_neg x"
definition minus_f64 :: "f64 \<Rightarrow> f64 \<Rightarrow> f64" where "x - y = f64_add x (f64_neg y)"
definition times_f64 :: "f64 \<Rightarrow> f64 \<Rightarrow> f64" where "x * y = f64_mult x y"
definition divide_f64 :: "f64 \<Rightarrow> f64 \<Rightarrow> f64" where "x div y = f64_div x y"
definition inverse_f64 :: "f64 \<Rightarrow> f64" where "inverse x = f64_div (Fin 1) x"
definition less_eq_f64 :: "f64 \<Rightarrow> f64 \<Rightarrow> bool" where "x \<le> y = f64_le x y"
definition less_f64 :: "f64 \<Rightarrow> f64 \<Rightarrow> bool" where "x < y = f64_less x y"

instance ..

end

lemmas f64_defs = zero_f64_def one_f64_def plus_f64_def uminus_f64_def minus_f64_def
  times_f64_def divide_f64_def inverse_f64_def less_eq_f64_def less_f64_def

text \<open>Conversions: \<open>float64(n)\<close>, \<open>int(x)\<close>, \<open>math.Floor\<close> and \<open>math.Ceil\<close>.\<close>

definition of_int64 :: "int \<Rightarrow> f64" where
  "of_int64 n = to_f64 (of_int n)"

definition trunc_rat :: "rat \<Rightarrow> int" where
  "trunc_rat q = (if 0 \<le> q then \<lfloor>q\<rfloor> else \<lceil>q\<rceil>)"

fun int_of_f64 :: "f64 \<Rightarrow> int" where
  "int_of_f64 (Fin q) = (let t = trunc_rat q in if - (2 ^ 63) \<le> t \<and> t < 2 ^ 63 then t else - (2 ^ 63))"
| "int_of_f64 _ = - (2 ^ 63)"

fun f64_floor :: "f64 \<Rightarrow> f64" where
  "f64_floor (Fin q) = Fin (of_int \<lfloor>q\<rfloor>)"
| "f64_floor x = x"

fun f64_ceil :: "f64 \<Rightarrow> f64" where
  "f64_ceil (Fin q) = Fin (of_int \<lceil>q\<rceil>)"
| "f64_ceil x = x"

text \<open>The share \<open>float64(a) / float64(b) * 100\<close>, which six reports compute.\<close>

abbreviation percent_of :: "int \<Rightarrow> int \<Rightarrow> f64" where
  "percent_of a b \<equiv> of_int64 a / of_int64 b * Fin 100"

subsection \<open>Order and exactness\<close>

named_theorems f64_simps \<open>operations on finite operands\<close>

lemma f64_Fin_ops [f64_simps]:
  "Fin a + Fin b = to_f64 (a + b)" "Fin a - Fin b = to_f64 (a - b)" "Fin a * Fin b = to_f64 (a * b)"
  "b \<noteq> 0 \<Longrightarrow> Fin a / Fin b = to_f64 (a / b)" "- Fin a = Fin (- a)"
  "Fin a \<le> Fin b \<longleftrightarrow> a \<le> b" "Fin a < Fin b \<longleftrightarrow> a < b"
  by (simp_all add: f64_defs)

lemma f64_not_le_less: "x \<noteq> NaN \<Longrightarrow> y \<noteq> NaN \<Longrightarrow> \<not> x \<le> y \<longleftrightarrow> y < (x::f64)"
  by (cases x; cases y) (auto simp: f64_defs)

lemma f64_le_trans: "x \<le> y \<Longrightarrow> y \<le> z \<Longrightarrow> x \<le> (z::f64)"
  by (cases x; cases y; cases z) (auto simp: f64_defs)

lemma f64_le_refl [simp]: "x \<le> x \<longleftrightarrow> x \<noteq> (NaN::f64)"
  by (cases x) (auto simp: f64_defs)

lemma NaN_le [simp]: "\<not> NaN \<le> x" "\<not> x \<le> NaN" "\<not> NaN < x" "\<not> x < NaN"
  by (cases x; simp add: f64_defs)+

lemma to_f64_not_NaN [simp]: "to_f64 x \<noteq> NaN"
  by (auto simp: to_f64_def Let_def)

lemma to_f64_mono: "x \<le> y \<Longrightarrow> to_f64 x \<le> to_f64 y"
  using round53_mono [of x y] overflow_pos by (auto simp: to_f64_alt Let_def f64_defs)

lemma to_f64_small:
  assumes "\<bar>x\<bar> \<le> 2 ^ 1000"
  shows "to_f64 x = Fin (round53 x)"
proof -
  have r: "round53 (2 ^ 1000) = 2 ^ 1000" "round53 (- (2 ^ 1000)) = - (2 ^ 1000)"
    using round53_exact [of 1 1000] by (simp_all add: round53_minus)
  have "round53 x \<le> 2 ^ 1000" using assms r(1) by (intro round53_le) (auto simp: abs_le_iff)
  moreover have "- (2 ^ 1000) \<le> round53 x" using assms r(2) by (intro round53_ge) (auto simp: abs_le_iff)
  moreover have "(2::rat) ^ 1000 < overflow"
    unfolding overflow_def powi_2_nat [symmetric] powi_2_less_iff by simp
  ultimately obtain b where "round53 x \<le> b" "- b \<le> round53 x" "b < overflow" by blast
  then show ?thesis by (auto simp: to_f64_alt Let_def)
qed

lemma to_f64_53: "\<bar>x\<bar> \<le> 2 ^ 53 \<Longrightarrow> to_f64 x = Fin (round53 x)"
proof -
  assume "\<bar>x\<bar> \<le> 2 ^ 53"
  also have "(2::rat) ^ 53 \<le> 2 ^ 1000" by (rule power_increasing) auto
  finally show ?thesis by (rule to_f64_small)
qed

lemma of_int64_exact [f64_simps]: "\<bar>n\<bar> \<le> 2 ^ 53 \<Longrightarrow> of_int64 n = Fin (of_int n)"
proof -
  assume n: "\<bar>n\<bar> \<le> 2 ^ 53"
  then have "rat_of_int \<bar>n\<bar> \<le> of_int (2 ^ 53)" by (simp only: of_int_le_iff)
  then have "\<bar>rat_of_int n\<bar> \<le> 2 ^ 53" by simp
  then show ?thesis using n by (simp add: of_int64_def to_f64_53)
qed

lemma of_int64_mono: "m \<le> n \<Longrightarrow> of_int64 m \<le> of_int64 n"
  by (simp add: of_int64_def to_f64_mono)

lemma trunc_rat_mono: "p \<le> q \<Longrightarrow> trunc_rat p \<le> trunc_rat q"
  by (auto simp: trunc_rat_def floor_mono ceiling_mono)
     (meson ceiling_le_zero order_trans zero_le_floor linorder_le_cases)

lemma trunc_rat_of_int [simp]: "trunc_rat (of_int n) = n"
  by (simp add: trunc_rat_def)

text \<open>Float operations keep the order between bounds that are numbers.\<close>

lemma f64_between: "Fin a \<le> x \<Longrightarrow> x \<le> Fin b \<Longrightarrow> \<exists>q. x = Fin q \<and> a \<le> q \<and> q \<le> b"
  by (cases x) (auto simp: f64_defs)

lemma f64_mult_between:
  assumes "Fin a \<le> x" "x \<le> Fin b" "0 \<le> c"
  shows "Fin a * Fin c \<le> x * Fin c" "x * Fin c \<le> Fin b * Fin c"
  using f64_between [OF assms(1,2)] assms(3) by (auto simp: f64_simps intro!: to_f64_mono mult_right_mono)

lemma f64_add_between:
  assumes "Fin a \<le> x" "x \<le> Fin b" "Fin c \<le> y" "y \<le> Fin d"
  shows "Fin a + Fin c \<le> x + y" "x + y \<le> Fin b + Fin d"
  using f64_between [OF assms(1,2)] f64_between [OF assms(3,4)] by (auto simp: f64_simps intro!: to_f64_mono)

lemma f64_nonneg_add: "Fin 0 \<le> x \<Longrightarrow> Fin 0 \<le> y \<Longrightarrow> Fin 0 \<le> x + y"
  using to_f64_mono [of 0] by (cases x; cases y) (auto simp: f64_defs to_f64_def)

lemma f64_nonneg_mult: "Fin 0 \<le> x \<Longrightarrow> 0 < c \<Longrightarrow> Fin 0 \<le> x * Fin c"
  using to_f64_mono [of 0] by (cases x) (auto simp: f64_defs to_f64_def inf_of_sgn_def)

lemma of_int64_nonneg: "0 \<le> n \<Longrightarrow> Fin 0 \<le> of_int64 n"
  using of_int64_mono [of 0 n] of_int64_exact [of 0] by simp

text \<open>The percentage of a part in a whole: between 0 and 100, and 100 only for the whole.\<close>

lemma percent_of_part:
  assumes "0 \<le> a" "a \<le> b" "0 < b" "b \<le> 2 ^ 53"
  obtains q where "percent_of a b = Fin q" "0 \<le> q" "q \<le> 100" "q = 100 \<longleftrightarrow> a = b"
proof -
  define r where "r = round53 (of_int a / of_int b)"
  have le1: "rat_of_int a / of_int b \<le> 1" using assms by (simp add: divide_le_eq)
  have r: "0 \<le> r" "r \<le> 1"
    using assms le1 round53_of_int [of 1] unfolding r_def
    by (auto intro: round53_nonneg round53_le)
  have "0 \<le> rat_of_int a / of_int b" using assms by simp
  with le1 have "\<bar>rat_of_int a / of_int b\<bar> \<le> 1" by (simp only: abs_of_nonneg)
  then have "\<bar>rat_of_int a / of_int b\<bar> \<le> 2 ^ 53" by (rule order_trans) simp
  then have "to_f64 (of_int a / of_int b) = Fin r" by (simp only: to_f64_53 r_def)
  then have "of_int64 a / of_int64 b = Fin r"
    using assms by (simp add: f64_simps)
  then have eq: "percent_of a b = Fin (round53 (r * 100))"
    using r by (simp add: f64_simps to_f64_53)
  show ?thesis
  proof (rule that [OF eq])
    show "0 \<le> round53 (r * 100)" using r by (simp add: round53_nonneg)
    show "round53 (r * 100) \<le> 100"
      using r round53_of_int [of 100] by (intro round53_le) auto
    show "round53 (r * 100) = 100 \<longleftrightarrow> a = b"
    proof
      assume "a = b"
      then show "round53 (r * 100) = 100"
        using assms round53_of_int [of 1] round53_of_int [of 100] by (simp add: r_def)
    next
      assume *: "round53 (r * 100) = 100"
      show "a = b"
      proof (rule ccontr)
        assume "a \<noteq> b"
        with assms have "rat_of_int a + 1 \<le> of_int b" by (metis of_int_le_iff of_int_add of_int_1 zless_imp_add1_zle order_le_imp_less_or_eq)
        moreover have "rat_of_int b \<le> 2 ^ 53"
          using assms(4) by (metis of_int_le_iff of_int_power of_int_numeral)
        ultimately have "rat_of_int a / of_int b \<le> 1 - 1 / 2 ^ 53"
          using assms by (simp add: field_simps)
        moreover have "round53 (1 - 1 / 2 ^ 53) = 1 - 1 / 2 ^ 53" by code_simp
        ultimately have "r \<le> 1 - 1 / 2 ^ 53" unfolding r_def by (rule round53_le)
        then have "round53 (r * 100) \<le> round53 ((1 - 1 / 2 ^ 53) * 100)"
          by (intro round53_mono mult_right_mono) auto
        also have "\<dots> < 100" by code_simp
        finally show False using * by simp
      qed
    qed
  qed
qed

end
