(* ===== verification/GoText.thy ===== *)
theory GoText
  imports Float64 "HOL-Library.Sublist" "HOL-Library.Char_ord"
begin

text \<open>
  The parts of Go's \<open>fmt\<close>, \<open>strings\<close> and \<open>strconv\<close> packages that the harness
  calls, on byte strings.

  \<^item> The verbs \<open>%d\<close>, \<open>%04d\<close>, \<open>%08x\<close>, \<open>%t\<close> and \<open>%.Nf\<close>, the last one by rounding the
    exact value of the float to \<open>N\<close> decimals, ties to even, as \<open>strconv\<close> does.
  \<^item> \<open>fmt.Sscanf(s, "%d", &n)\<close> with the variable's old value 0, which a failed scan keeps.
  \<^item> \<open>strings.Split\<close>, \<open>SplitN\<close>, \<open>TrimSpace\<close>, \<open>Contains\<close>, \<open>HasPrefix\<close>, \<open>HasSuffix\<close>, \<open>ToLower\<close> and
    \<open>EqualFold\<close>; the case mappings and the white space are those of ASCII, which is what
    the station lists and tool outputs consist of.

  The lemmas are the round trips the components use: scanning a printed number gives it
  back, printing is injective, joining the parts of a split gives the string back.
\<close>

subsection \<open>Printing\<close>

definition digit :: "nat \<Rightarrow> char" where
  "digit d = char_of (48 + d)"

fun nat_str :: "nat \<Rightarrow> string" where
  "nat_str n = (if n < 10 then [digit n] else nat_str (n div 10) @ [digit (n mod 10)])"

declare nat_str.simps [simp del]

definition fmt_d :: "int \<Rightarrow> string" where
  "fmt_d i = (if i < 0 then CHR ''-'' # nat_str (nat (- i)) else nat_str (nat i))"

definition pad_left :: "nat \<Rightarrow> char \<Rightarrow> string \<Rightarrow> string" where
  "pad_left w c s = replicate (w - length s) c @ s"

definition pad_right :: "nat \<Rightarrow> char \<Rightarrow> string \<Rightarrow> string" where
  "pad_right w c s = s @ replicate (w - length s) c"

text \<open>\<open>%0wd\<close>: the sign counts towards the width.\<close>

definition fmt_0d :: "nat \<Rightarrow> int \<Rightarrow> string" where
  "fmt_0d w i = (if i < 0 then CHR ''-'' # pad_left (w - 1) CHR ''0'' (nat_str (nat (- i)))
     else pad_left w CHR ''0'' (nat_str (nat i)))"

definition hex_digit :: "nat \<Rightarrow> char" where
  "hex_digit d = (if d < 10 then digit d else char_of (87 + d))"

fun hex_str :: "nat \<Rightarrow> string" where
  "hex_str n = (if n < 16 then [hex_digit n] else hex_str (n div 16) @ [hex_digit (n mod 16)])"

declare hex_str.simps [simp del]

definition fmt_0x :: "nat \<Rightarrow> nat \<Rightarrow> string" where
  "fmt_0x w n = pad_left w CHR ''0'' (hex_str n)"

definition fmt_t :: "bool \<Rightarrow> string" where
  "fmt_t b = (if b then ''true'' else ''false'')"

text \<open>\<open>%.pf\<close> for \<open>p > 0\<close>.\<close>

fun fmt_f :: "nat \<Rightarrow> f64 \<Rightarrow> string" where
  "fmt_f p (Fin q) =
     (let s = pad_left (p + 1) CHR ''0'' (nat_str (nat (rne (\<bar>q\<bar> * 10 ^ p)))); k = length s - p
      in (if q < 0 then ''-'' else '''') @ take k s @ CHR ''.'' # drop k s)"
| "fmt_f p PInf = ''+Inf''"
| "fmt_f p NInf = ''-Inf''"
| "fmt_f p NaN = ''NaN''"

subsection \<open>Scanning\<close>

definition is_digit :: "char \<Rightarrow> bool" where
  "is_digit c \<longleftrightarrow> 48 \<le> (of_char c :: nat) \<and> (of_char c :: nat) \<le> 57"

definition digit_val :: "char \<Rightarrow> nat" where
  "digit_val c = of_char c - 48"

definition digits_val :: "string \<Rightarrow> nat" where
  "digits_val s = foldl (\<lambda>n c. 10 * n + digit_val c) 0 s"

text \<open>White space of \<open>strings.TrimSpace\<close> and of the scanner: tab, newline, VT, FF, CR, space.\<close>

definition is_space :: "char \<Rightarrow> bool" where
  "is_space c \<longleftrightarrow> (of_char c :: nat) \<in> {9, 10, 11, 12, 13, 32}"

text \<open>
  \<open>Sscanf\<close> of one \<open>%d\<close> into an \<open>int\<close> that is 0: leading spaces are skipped, a newline among
  them, a missing digit or a number out of range is an error and leaves 0; text after the
  digits is ignored.
\<close>

definition scan_digits :: "int \<Rightarrow> string \<Rightarrow> int" where
  "scan_digits sg s = (let ds = takeWhile is_digit s; n = sg * int (digits_val ds)
     in if ds = [] \<or> n < - (2 ^ 63) \<or> 2 ^ 63 \<le> n then 0 else n)"

definition sscanf_d :: "string \<Rightarrow> int" where
  "sscanf_d s = (let ws = takeWhile is_space s; rest = dropWhile is_space s
     in if CHR 0x0A \<in> set ws then 0
        else case rest of
          [] \<Rightarrow> 0
        | c # cs \<Rightarrow> if c = CHR ''-'' then scan_digits (- 1) cs
                   else if c = CHR ''+'' then scan_digits 1 cs
                   else scan_digits 1 rest)"

text \<open>\<open>strconv.Atoi\<close> accepts an optional sign and digits only, within the range of \<open>int\<close>.\<close>

definition atoi :: "string \<Rightarrow> string + int" where
  "atoi s =
     (let (sg, ds) = (case s of [] \<Rightarrow> (1, []) | c # cs \<Rightarrow> if c = CHR ''-'' then (- 1, cs) else if c = CHR ''+'' then (1, cs) else (1, s));
          n = sg * int (digits_val ds)
      in if ds = [] \<or> \<not> list_all is_digit ds then Inl ''invalid syntax''
         else if n < - (2 ^ 63) \<or> 2 ^ 63 \<le> n then Inl ''value out of range''
         else Inr n)"

subsection \<open>The strings package\<close>

fun split_on :: "char \<Rightarrow> string \<Rightarrow> string list" where
  "split_on c [] = [[]]"
| "split_on c (x # xs) =
     (if x = c then [] # split_on c xs
      else case split_on c xs of [] \<Rightarrow> [[x]] | w # ws \<Rightarrow> (x # w) # ws)"

text \<open>\<open>strings.SplitN(s, sep, n)\<close> with a one-byte separator: at most \<open>n\<close> parts, the last one unsplit.\<close>

fun split_n :: "nat \<Rightarrow> char \<Rightarrow> string \<Rightarrow> string list" where
  "split_n 0 c s = []"
| "split_n (Suc 0) c s = [s]"
| "split_n (Suc (Suc n)) c s =
     (if c \<in> set s then takeWhile (\<lambda>x. x \<noteq> c) s # split_n (Suc n) c (tl (dropWhile (\<lambda>x. x \<noteq> c) s))
      else [s])"

fun join_with :: "string \<Rightarrow> string list \<Rightarrow> string" where
  "join_with sep [] = []"
| "join_with sep [w] = w"
| "join_with sep (w # v # ws) = w @ sep @ join_with sep (v # ws)"

definition trim :: "string \<Rightarrow> string" where
  "trim s = rev (dropWhile is_space (rev (dropWhile is_space s)))"

fun contains :: "string \<Rightarrow> string \<Rightarrow> bool" where
  "contains [] sub = (sub = [])"
| "contains (c # cs) sub = (prefix sub (c # cs) \<or> contains cs sub)"

definition has_suffix :: "string \<Rightarrow> string \<Rightarrow> bool" where
  "has_suffix s suf \<longleftrightarrow> suffix suf s"

definition lower_char :: "char \<Rightarrow> char" where
  "lower_char c = (if 65 \<le> (of_char c :: nat) \<and> (of_char c :: nat) \<le> 90 then char_of (of_char c + 32 :: nat) else c)"

definition to_lower :: "string \<Rightarrow> string" where
  "to_lower s = map lower_char s"

definition equal_fold :: "string \<Rightarrow> string \<Rightarrow> bool" where
  "equal_fold s t \<longleftrightarrow> to_lower s = to_lower t"

text \<open>The bytes of a string, as \<open>[]byte(s)\<close> has them.\<close>

definition bytes_of :: "string \<Rightarrow> bytes" where
  "bytes_of s = map (\<lambda>c. of_char c) s"

subsection \<open>Digits\<close>

lemma of_char_digit: "d < 10 \<Longrightarrow> (of_char (digit d) :: nat) = 48 + d"
  by (simp add: digit_def)

lemma is_digit_digit [simp]: "d < 10 \<Longrightarrow> is_digit (digit d)"
  by (simp add: is_digit_def of_char_digit)

lemma digit_val_digit [simp]: "d < 10 \<Longrightarrow> digit_val (digit d) = d"
  by (simp add: digit_val_def of_char_digit)

lemma digit_not_space: "is_digit c \<Longrightarrow> \<not> is_space c"
  by (auto simp: is_digit_def is_space_def)

lemma minus_not_digit [simp]: "\<not> is_digit CHR ''-''" "\<not> is_digit CHR ''+''" "\<not> is_digit CHR ''.''"
    "\<not> is_digit CHR '':''" "\<not> is_digit CHR 0x0A"
  by (simp_all add: is_digit_def)

lemma nat_str_digits: "\<forall>c \<in> set (nat_str n). is_digit c"
proof (induction n rule: nat_str.induct)
  case (1 n)
  then show ?case by (cases "n < 10") (auto simp: nat_str.simps [of n])
qed

lemma nat_str_nonempty [simp]: "nat_str n \<noteq> []"
  by (simp add: nat_str.simps [of n])

lemma digits_val_snoc: "digits_val (s @ [c]) = 10 * digits_val s + digit_val c"
  by (simp add: digits_val_def)

lemma digits_val_nat_str [simp]: "digits_val (nat_str n) = n"
proof (induction n rule: nat_str.induct)
  case (1 n)
  then show ?case
    by (cases "n < 10") (auto simp: nat_str.simps [of n] digits_val_snoc, simp add: digits_val_def)
qed

lemma digits_val_zeros: "digits_val (replicate n CHR ''0'' @ s) = digits_val s"
proof -
  have "digit_val CHR ''0'' = 0" by code_simp
  then show ?thesis by (induction n) (simp_all add: digits_val_def)
qed

lemma digits_val_Nil [simp]: "digits_val [] = 0"
  by (simp add: digits_val_def)

lemma digits_val_append: "digits_val (s @ t) = digits_val s * 10 ^ length t + digits_val t"
proof (induction t rule: rev_induct)
  case (snoc c t)
  then show ?case by (simp add: digits_val_snoc digits_val_snoc [of "s @ t", simplified])
qed simp

lemma digits_val_Cons: "digits_val (c # s) = digit_val c * 10 ^ length s + digits_val s"
  using digits_val_append [of "[c]" s] by (simp add: digits_val_def)

lemma length_nat_str_le: "n < 10 ^ k \<Longrightarrow> 0 < k \<Longrightarrow> length (nat_str n) \<le> k"
proof (induction n arbitrary: k rule: nat_str.induct)
  case (1 n)
  show ?case
  proof (cases "n < 10")
    case True
    then show ?thesis using 1(3) by (simp add: nat_str.simps [of n])
  next
    case False
    then obtain j where k: "k = Suc j" "0 < j" using 1(2,3) by (cases k; cases "k - 1") auto
    then have "n div 10 < 10 ^ j" using 1(2) by auto
    then show ?thesis using 1(1) [OF False _ k(2)] False k by (simp add: nat_str.simps [of n])
  qed
qed

lemma nat_str_inject [simp]: "nat_str m = nat_str n \<longleftrightarrow> m = n"
  by (metis digits_val_nat_str)

lemma takeWhile_nat_str:
  "(\<And>c cs. s = c # cs \<Longrightarrow> \<not> is_digit c) \<Longrightarrow> takeWhile is_digit (nat_str n @ s) = nat_str n"
  using nat_str_digits [of n] by (cases s) (auto simp: takeWhile_append)

lemma fmt_d_inject [simp]: "fmt_d i = fmt_d j \<longleftrightarrow> i = j"
proof -
  have "CHR ''-'' # x \<noteq> nat_str n" "nat_str n \<noteq> CHR ''-'' # x" for x n
    using nat_str_digits [of n] by (cases "nat_str n"; auto)+
  then show ?thesis by (auto simp: fmt_d_def)
qed

text \<open>Scanning a printed number, whatever non-digit follows it, gives the number.\<close>

lemma sscanf_fmt_d:
  assumes "- (2 ^ 63) \<le> i" "i < 2 ^ 63" "\<And>c cs. s = c # cs \<Longrightarrow> \<not> is_digit c"
  shows "sscanf_d (fmt_d i @ s) = i"
proof (cases "i < 0")
  case True
  have "\<not> is_space CHR ''-''" by (simp add: is_space_def)
  then show ?thesis
    using True assms by (simp add: fmt_d_def sscanf_d_def scan_digits_def takeWhile_nat_str Let_def)
next
  case False
  obtain c cs where ns: "nat_str (nat i) = c # cs" by (cases "nat_str (nat i)") auto
  with nat_str_digits [of "nat i"] have c: "is_digit c" by simp
  then have "c \<noteq> CHR ''-''" "c \<noteq> CHR ''+''" "\<not> is_space c" by (auto dest: digit_not_space)
  moreover have "scan_digits 1 (nat_str (nat i) @ s) = i"
    using False assms by (auto simp: scan_digits_def takeWhile_nat_str Let_def le_nat_iff)
  ultimately show ?thesis using False by (simp add: fmt_d_def sscanf_d_def ns Let_def)
qed

lemma length_pad_left [simp]: "length (pad_left w c s) = max w (length s)"
  by (simp add: pad_left_def)

lemma length_pad_right [simp]: "length (pad_right w c s) = max w (length s)"
  by (simp add: pad_right_def)

subsection \<open>Splitting and trimming\<close>

lemma split_on_nonempty [simp]: "split_on c s \<noteq> []"
  by (induction s) (auto split: list.splits)

lemma join_with_append: "xs \<noteq> [] \<Longrightarrow> ys \<noteq> [] \<Longrightarrow> join_with c (xs @ ys) = join_with c xs @ c @ join_with c ys"
  by (induction c xs rule: join_with.induct) (auto simp: neq_Nil_conv)

lemma join_split_on: "join_with [c] (split_on c s) = s"
proof (induction s)
  case (Cons x xs)
  show ?case
  proof (cases "split_on c xs")
    case (Cons w ws)
    with Cons.IH show ?thesis by (cases ws) auto
  qed simp
qed simp

lemma split_on_free: "w \<in> set (split_on c s) \<Longrightarrow> c \<notin> set w"
  by (induction s arbitrary: w) (auto split: list.splits if_splits)

lemma split_on_noop: "c \<notin> set s \<Longrightarrow> split_on c s = [s]"
  by (induction s) auto

lemma split_on_append: "c \<notin> set w \<Longrightarrow> split_on c (w @ c # s) = w # split_on c s"
  by (induction w) auto

lemma split_on_join:
  "ws \<noteq> [] \<Longrightarrow> \<forall>w \<in> set ws. c \<notin> set w \<Longrightarrow> split_on c (join_with [c] ws) = ws"
proof (induction "[c]" ws rule: join_with.induct)
  case (3 w v ws)
  then show ?case by (simp add: split_on_append)
qed (auto simp: split_on_noop)

lemma split_n_length: "length (split_n n c s) \<le> n"
  by (induction n c s rule: split_n.induct) auto

lemma trim_idem [simp]: "trim (trim s) = trim s"
proof -
  define t where "t = dropWhile is_space s"
  have t: "t = [] \<or> \<not> is_space (hd t)" unfolding t_def by (metis hd_dropWhile)
  define r where "r = dropWhile is_space (rev t)"
  have r: "r = [] \<or> \<not> is_space (hd r)" unfolding r_def by (metis hd_dropWhile)
  have "dropWhile is_space (rev r) = rev r"
  proof (cases "r = []")
    case False
    obtain p where p: "rev t = p @ r" unfolding r_def by (metis takeWhile_dropWhile_id)
    then have "t = rev r @ rev p" by (metis rev_append rev_rev_ident)
    then have "hd (rev r) = hd t" using False by simp
    then show ?thesis using t False \<open>t = rev r @ rev p\<close> by (cases "rev r") auto
  qed simp
  moreover have "trim s = rev r" by (simp add: trim_def t_def r_def)
  moreover have "dropWhile is_space r = r" using r by (cases r) auto
  ultimately show ?thesis by (simp add: trim_def)
qed

lemma contains_iff: "contains s sub \<longleftrightarrow> (\<exists>a b. s = a @ sub @ b)"
proof (induction s)
  case (Cons c cs)
  show ?case
  proof
    assume "contains (c # cs) sub"
    then consider "prefix sub (c # cs)" | "contains cs sub" by auto
    then show "\<exists>a b. c # cs = a @ sub @ b"
    proof cases
      case 1
      then show ?thesis by (metis append_Nil prefix_def)
    next
      case 2
      then show ?thesis using Cons.IH by (metis append_Cons)
    qed
  next
    assume "\<exists>a b. c # cs = a @ sub @ b"
    then obtain a b where ab: "c # cs = a @ sub @ b" by blast
    show "contains (c # cs) sub"
    proof (cases a)
      case Nil
      with ab have "prefix sub (c # cs)" by (metis append_Nil prefix_def)
      then show ?thesis by simp
    next
      case (Cons x a')
      with ab Cons.IH show ?thesis by auto
    qed
  qed
qed simp

lemma equal_fold_refl [simp]: "equal_fold s s"
  by (simp add: equal_fold_def)

lemma equal_fold_sym: "equal_fold s t \<Longrightarrow> equal_fold t s"
  by (simp add: equal_fold_def)

text \<open>A separator that a word does not use cuts the places where the word can occur.\<close>

lemma prefix_before_sep: "c \<notin> set w \<Longrightarrow> prefix w (a @ c # b) \<longleftrightarrow> prefix w a"
proof (induction a arbitrary: w)
  case Nil
  then show ?case by (cases w) auto
next
  case (Cons x a)
  then show ?case by (cases w) auto
qed

lemma contains_sep:
  assumes "c \<notin> set w" "w \<noteq> []"
  shows "contains (a @ c # b) w \<longleftrightarrow> contains a w \<or> contains b w"
proof (induction a)
  case Nil
  then show ?case using assms by (cases w) auto
next
  case (Cons x a)
  have "prefix w ((x # a) @ c # b) \<longleftrightarrow> prefix w (x # a)" using prefix_before_sep [OF assms(1)] .
  then show ?case using Cons by simp
qed

end
