(* ===== verification/Protocol.thy ===== *)
theory Protocol
  imports GoText
begin

unbundle bit_operations_syntax

text \<open>
  The binary protocol of the weather station, \<^verbatim>\<open>pkg/protocol/validator.go\<close>.

  A message is a 24-byte header and a payload. The header is magic (4 bytes), version (2),
  type, flags, payload length (4), sequence number (4) and timestamp (8), all big endian.
  The theory models the specification table, the header codec (\<open>EncodeHeader\<close> and the
  field reads of \<open>ValidateHeader\<close>), the checks of a header and of a message in the order
  of the code, each error a constructor of \<open>proto_error\<close>, the construction of messages,
  the stream validator as a loop over an \<open>io.Reader\<close>, and the compliance report.

  \<open>byte_source\<close> is the interface the stream validator needs of its reader, what
  \<open>io.ReadFull\<close> promises: a successful read consumes exactly the bytes it returns, an
  \<open>io.EOF\<close> is only reported at the end. It is interpreted on the in-memory reader.
\<close>

subsection \<open>The specification\<close>

record message_type =
  mt_ID :: "8 word"
  mt_Name :: string
  mt_HasPayload :: bool
  mt_MaxPayload :: "32 word"
  mt_RequiredFields :: "string list"

record spec =
  sp_Version :: "16 word"
  sp_MagicNumber :: "32 word"
  sp_MaxPayload :: "32 word"
  sp_MessageTypes :: "8 word \<rightharpoonup> message_type"

record header =
  h_Magic :: "32 word"
  h_Version :: "16 word"
  h_Type :: "8 word"
  h_Flags :: "8 word"
  h_Length :: "32 word"
  h_Sequence :: "32 word"
  h_Timestamp :: "64 word"

definition DefaultMagic :: "32 word" where "DefaultMagic = 0x57454154"
definition CurrentVersion :: "16 word" where "CurrentVersion = 1"
definition HeaderSize :: nat where "HeaderSize = 24"
definition MaxPayloadSize :: "32 word" where "MaxPayloadSize = 65536"

definition MsgHeartbeat :: "8 word" where "MsgHeartbeat = 0x01"
definition MsgDataRequest :: "8 word" where "MsgDataRequest = 0x02"
definition MsgDataResponse :: "8 word" where "MsgDataResponse = 0x03"
definition MsgError :: "8 word" where "MsgError = 0x04"
definition MsgQuery :: "8 word" where "MsgQuery = 0x05"
definition MsgQueryResult :: "8 word" where "MsgQueryResult = 0x06"

lemmas proto_consts [code_defs] = DefaultMagic_def CurrentVersion_def HeaderSize_def MaxPayloadSize_def
  MsgHeartbeat_def MsgDataRequest_def MsgDataResponse_def MsgError_def MsgQuery_def MsgQueryResult_def

definition default_spec :: spec where
  "default_spec = \<lparr>sp_Version = CurrentVersion, sp_MagicNumber = DefaultMagic, sp_MaxPayload = MaxPayloadSize,
     sp_MessageTypes = [
       MsgHeartbeat \<mapsto> \<lparr>mt_ID = MsgHeartbeat, mt_Name = ''Heartbeat'', mt_HasPayload = False,
         mt_MaxPayload = 0, mt_RequiredFields = []\<rparr>,
       MsgDataRequest \<mapsto> \<lparr>mt_ID = MsgDataRequest, mt_Name = ''DataRequest'', mt_HasPayload = True,
         mt_MaxPayload = 1024, mt_RequiredFields = [''station_id'', ''start_date'', ''end_date'']\<rparr>,
       MsgDataResponse \<mapsto> \<lparr>mt_ID = MsgDataResponse, mt_Name = ''DataResponse'', mt_HasPayload = True,
         mt_MaxPayload = MaxPayloadSize, mt_RequiredFields = []\<rparr>,
       MsgError \<mapsto> \<lparr>mt_ID = MsgError, mt_Name = ''Error'', mt_HasPayload = True,
         mt_MaxPayload = 256, mt_RequiredFields = [''error_code'', ''error_message'']\<rparr>,
       MsgQuery \<mapsto> \<lparr>mt_ID = MsgQuery, mt_Name = ''Query'', mt_HasPayload = True,
         mt_MaxPayload = 512, mt_RequiredFields = [''query_type'', ''query_params'']\<rparr>,
       MsgQueryResult \<mapsto> \<lparr>mt_ID = MsgQueryResult, mt_Name = ''QueryResult'', mt_HasPayload = True,
         mt_MaxPayload = MaxPayloadSize, mt_RequiredFields = []\<rparr>]\<rparr>"

text \<open>\<open>NewValidator(spec)\<close>: a nil specification stands for the default one.\<close>

definition new_validator :: "spec option \<Rightarrow> spec" where
  "new_validator sp = (case sp of None \<Rightarrow> default_spec | Some s \<Rightarrow> s)"

subsection \<open>Big-endian integers\<close>

text \<open>
  \<open>binary.Write\<close> and \<open>binary.Read\<close> with \<open>binary.BigEndian\<close>: the first byte written is the
  most significant one; \<open>n\<close> is the width of the type in bytes.
\<close>

primrec put_be :: "nat \<Rightarrow> 'a::len word \<Rightarrow> bytes" where
  "put_be 0 w = []"
| "put_be (Suc n) w = ucast (drop_bit (8 * n) w) # put_be n w"

definition get_be :: "bytes \<Rightarrow> 'a::len word" where
  "get_be bs = foldl (\<lambda>w b. push_bit 8 w OR ucast b) 0 bs"

lemma length_put_be [simp]: "length (put_be n w) = n"
  by (induction n) auto

lemma get_be_Nil [simp]: "get_be [] = 0"
  by (simp add: get_be_def)

lemma get_be_snoc: "get_be (bs @ [b]) = push_bit 8 (get_be bs) OR ucast b"
  by (simp add: get_be_def)

lemma get_be_Cons: "get_be (b # bs) = push_bit (8 * length bs) (ucast b) OR get_be bs"
proof -
  have "foldl (\<lambda>w b. push_bit 8 w OR ucast b) w bs = push_bit (8 * length bs) w OR get_be bs"
    for w :: "'a word"
  proof (induction bs arbitrary: w rule: rev_induct)
    case (snoc x bs)
    have "foldl (\<lambda>w b. push_bit 8 w OR ucast b) w (bs @ [x]) =
        push_bit 8 (push_bit (8 * length bs) w OR get_be bs) OR ucast x"
      using snoc by (simp only: foldl_append foldl.simps)
    also have "\<dots> = push_bit (8 * length (bs @ [x])) w OR get_be (bs @ [x])"
      unfolding get_be_snoc push_bit_or push_bit_push_bit or.assoc by (simp add: add.commute)
    finally show ?case .
  qed (simp add: get_be_def)
  then have "foldl (\<lambda>w b. push_bit 8 w OR ucast b) (ucast b) bs = push_bit (8 * length bs) (ucast b :: 'a word) OR get_be bs" .
  then show ?thesis by (simp add: get_be_def [of "b # bs"])
qed

lemma get_be_bits: "bit (get_be bs :: 'a::len word) i \<Longrightarrow> i < 8 * length bs"
proof (induction bs)
  case (Cons b bs)
  then show ?case
    by (auto simp: get_be_Cons bit_simps dest: bit_imp_le_length)
qed simp

lemma take_bit_get_be: "take_bit (8 * length bs) (get_be bs) = (get_be bs :: 'a::len word)"
  by (rule bit_word_eqI) (auto simp: bit_simps dest: get_be_bits)

lemma get_put_be: "get_be (put_be n w) = take_bit (8 * n) w"
proof (induction n)
  case (Suc n)
  show ?case
  proof (rule bit_word_eqI)
    fix i assume "i < LENGTH('a)"
    then show "bit (get_be (put_be (Suc n) w) :: 'a word) i = bit (take_bit (8 * Suc n) w) i"
      using Suc by (cases "i < 8 * n") (auto simp: get_be_Cons bit_simps)
  qed
qed simp

lemma put_be_take_bit: "put_be n (take_bit (8 * n) w) = put_be n w"
proof -
  have "put_be n (take_bit m w) = put_be n w" if "8 * n \<le> m" for m
    using that
  proof (induction n)
    case (Suc n)
    have "(ucast (drop_bit (8 * n) (take_bit m w)) :: byte) = ucast (drop_bit (8 * n) w)"
      using Suc.prems by (intro bit_word_eqI) (auto simp: bit_simps)
    with Suc show ?case by simp
  qed simp
  then show ?thesis by simp
qed

lemma put_get_be:
  "8 * length bs \<le> LENGTH('a) \<Longrightarrow> put_be (length bs) (get_be bs :: 'a::len word) = bs"
proof (induction bs)
  case (Cons b bs)
  let ?w = "get_be (b # bs) :: 'a word"
  have "ucast (drop_bit (8 * length bs) ?w) = b"
    using Cons.prems
    by (intro bit_word_eqI) (auto simp: get_be_Cons bit_simps dest: get_be_bits)
  moreover have "put_be (length bs) ?w = bs"
  proof -
    have "take_bit (8 * length bs) ?w = get_be bs"
      by (rule bit_word_eqI) (auto simp: get_be_Cons bit_simps dest: get_be_bits)
    then have "put_be (length bs) ?w = put_be (length bs) (get_be bs :: 'a word)"
      by (metis put_be_take_bit)
    with Cons show ?thesis by simp
  qed
  ultimately show ?case by simp
qed simp

lemma get_put_full: "8 * n = LENGTH('a) \<Longrightarrow> get_be (put_be n (w :: 'a::len word)) = w"
  by (simp add: get_put_be take_bit_word_eq_self)

lemma put_get_full: "length bs = n \<Longrightarrow> 8 * n = LENGTH('a) \<Longrightarrow> put_be n (get_be bs :: 'a::len word) = bs"
  using put_get_be [of bs, where 'a='a] by simp

subsection \<open>Headers and messages\<close>

text \<open>The errors of \<open>ValidateHeader\<close> and \<open>ValidateMessage\<close>, with the numbers their texts print.\<close>

datatype proto_error =
    HeaderTooShort nat
  | InvalidMagic "32 word" "32 word"
  | UnsupportedVersion "16 word" "16 word"
  | UnknownMessageType "8 word"
  | PayloadTooLarge "32 word" "32 word"
  | MessageTooShort nat
  | UnexpectedPayload "8 word"
  | PayloadRequired "8 word"
  | PayloadExceedsType "8 word" "32 word" "32 word"
  | TruncatedMessage nat nat

fun proto_error_text :: "proto_error \<Rightarrow> string" where
  "proto_error_text (HeaderTooShort n) =
     ''header too short: got '' @ nat_str n @ '' bytes, need '' @ nat_str HeaderSize"
| "proto_error_text (InvalidMagic got want) =
     ''invalid magic number: got 0x'' @ fmt_0x 8 (unat got) @ '', want 0x'' @ fmt_0x 8 (unat want)"
| "proto_error_text (UnsupportedVersion got want) =
     ''unsupported version: got '' @ nat_str (unat got) @ '', want '' @ nat_str (unat want)"
| "proto_error_text (UnknownMessageType t) = ''unknown message type: 0x'' @ fmt_0x 2 (unat t)"
| "proto_error_text (PayloadTooLarge got mx) =
     ''payload too large: got '' @ nat_str (unat got) @ '', max '' @ nat_str (unat mx)"
| "proto_error_text (MessageTooShort n) = ''message too short: got '' @ nat_str n @ '' bytes''"
| "proto_error_text (UnexpectedPayload t) =
     ''message type 0x'' @ fmt_0x 2 (unat t) @ '' should not have payload''"
| "proto_error_text (PayloadRequired t) =
     ''message type 0x'' @ fmt_0x 2 (unat t) @ '' requires payload''"
| "proto_error_text (PayloadExceedsType t got mx) =
     ''payload exceeds max for type 0x'' @ fmt_0x 2 (unat t) @ '': got '' @ nat_str (unat got)
     @ '', max '' @ nat_str (unat mx)"
| "proto_error_text (TruncatedMessage got need) =
     ''truncated message: got '' @ nat_str got @ '' bytes, need '' @ nat_str need"

text \<open>The field reads of \<open>ValidateHeader\<close>, on at least 24 bytes.\<close>

definition read_header :: "bytes \<Rightarrow> header" where
  "read_header data = \<lparr>
     h_Magic = get_be (slice_of data 0 4),
     h_Version = get_be (slice_of data 4 6),
     h_Type = get_be (slice_of data 6 7),
     h_Flags = get_be (slice_of data 7 8),
     h_Length = get_be (slice_of data 8 12),
     h_Sequence = get_be (slice_of data 12 16),
     h_Timestamp = get_be (slice_of data 16 24)\<rparr>"

definition validate_header :: "spec \<Rightarrow> bytes \<Rightarrow> proto_error + header" where
  "validate_header sp data =
     (if length data < HeaderSize then Inl (HeaderTooShort (length data))
      else let h = read_header data in
        if h_Magic h \<noteq> sp_MagicNumber sp then Inl (InvalidMagic (h_Magic h) (sp_MagicNumber sp))
        else if h_Version h \<noteq> sp_Version sp then Inl (UnsupportedVersion (h_Version h) (sp_Version sp))
        else if sp_MessageTypes sp (h_Type h) = None then Inl (UnknownMessageType (h_Type h))
        else if sp_MaxPayload sp < h_Length h then Inl (PayloadTooLarge (h_Length h) (sp_MaxPayload sp))
        else Inr h)"

text \<open>A lookup of a missing key gives Go's zero value of the map's element type.\<close>

definition zero_message_type :: message_type where
  "zero_message_type = \<lparr>mt_ID = 0, mt_Name = [], mt_HasPayload = False, mt_MaxPayload = 0, mt_RequiredFields = []\<rparr>"

definition message_type_of :: "spec \<Rightarrow> 8 word \<Rightarrow> message_type" where
  "message_type_of sp t = (case sp_MessageTypes sp t of None \<Rightarrow> zero_message_type | Some mt \<Rightarrow> mt)"

definition validate_message :: "spec \<Rightarrow> bytes \<Rightarrow> proto_error + header \<times> bytes" where
  "validate_message sp data =
     (if length data < HeaderSize then Inl (MessageTooShort (length data))
      else bind_sum (validate_header sp (slice_of data 0 HeaderSize)) (\<lambda>h.
        let mt = message_type_of sp (h_Type h) in
        if \<not> mt_HasPayload mt \<and> 0 < h_Length h then Inl (UnexpectedPayload (h_Type h))
        else if mt_HasPayload mt \<and> h_Length h = 0 then Inl (PayloadRequired (h_Type h))
        else if mt_MaxPayload mt < h_Length h
          then Inl (PayloadExceedsType (h_Type h) (h_Length h) (mt_MaxPayload mt))
        else let expected = HeaderSize + unat (h_Length h) in
          if length data < expected then Inl (TruncatedMessage (length data) expected)
          else Inr (h, slice_of data HeaderSize expected)))"

definition create_header :: "spec \<Rightarrow> 8 word \<Rightarrow> 32 word \<Rightarrow> 32 word \<Rightarrow> header" where
  "create_header sp t len sq = \<lparr>h_Magic = sp_MagicNumber sp, h_Version = sp_Version sp, h_Type = t,
     h_Flags = 0, h_Length = len, h_Sequence = sq, h_Timestamp = 0\<rparr>"

definition encode_header :: "header \<Rightarrow> bytes" where
  "encode_header h = put_be 4 (h_Magic h) @ put_be 2 (h_Version h) @ put_be 1 (h_Type h) @ put_be 1 (h_Flags h)
     @ put_be 4 (h_Length h) @ put_be 4 (h_Sequence h) @ put_be 8 (h_Timestamp h)"

text \<open>\<open>uint32(len(payload))\<close> keeps the low 32 bits of the length.\<close>

definition create_message :: "spec \<Rightarrow> 8 word \<Rightarrow> bytes \<Rightarrow> 32 word \<Rightarrow> bytes" where
  "create_message sp t payload sq =
     (let h = (create_header sp t (word_of_nat (length payload)) sq)\<lparr>h_Timestamp := 0\<rparr>
      in encode_header h @ payload)"

subsection \<open>The header codec is a bijection\<close>

lemma length_encode_header [simp]: "length (encode_header h) = HeaderSize"
  by (simp add: encode_header_def HeaderSize_def)

lemma read_encode_header: "read_header (encode_header h @ rest) = h"
  by (simp add: read_header_def encode_header_def slice_append get_put_full del: put_be.simps)

lemma encode_read_header: "HeaderSize \<le> length data \<Longrightarrow> encode_header (read_header data) = slice_of data 0 HeaderSize"
  by (simp add: read_header_def encode_header_def HeaderSize_def put_get_full slices_concat del: put_be.simps)

subsection \<open>What the validators accept\<close>

text \<open>The contract of a header and of a message, independent of the order of the checks.\<close>

definition header_ok :: "spec \<Rightarrow> header \<Rightarrow> bool" where
  "header_ok sp h \<longleftrightarrow> h_Magic h = sp_MagicNumber sp \<and> h_Version h = sp_Version sp
     \<and> h_Type h \<in> dom (sp_MessageTypes sp) \<and> h_Length h \<le> sp_MaxPayload sp"

definition message_ok :: "spec \<Rightarrow> header \<Rightarrow> bytes \<Rightarrow> bool" where
  "message_ok sp h p \<longleftrightarrow> header_ok sp h \<and> length p = unat (h_Length h)
     \<and> (mt_HasPayload (message_type_of sp (h_Type h)) \<longleftrightarrow> p \<noteq> [])
     \<and> length p \<le> unat (mt_MaxPayload (message_type_of sp (h_Type h)))"

lemma validate_header_encode:
  "validate_header sp (encode_header h @ rest) =
     (if h_Magic h \<noteq> sp_MagicNumber sp then Inl (InvalidMagic (h_Magic h) (sp_MagicNumber sp))
      else if h_Version h \<noteq> sp_Version sp then Inl (UnsupportedVersion (h_Version h) (sp_Version sp))
      else if sp_MessageTypes sp (h_Type h) = None then Inl (UnknownMessageType (h_Type h))
      else if sp_MaxPayload sp < h_Length h then Inl (PayloadTooLarge (h_Length h) (sp_MaxPayload sp))
      else Inr h)"
  by (simp add: validate_header_def read_encode_header Let_def)

lemma validate_header_ok [simp]: "header_ok sp h \<Longrightarrow> validate_header sp (encode_header h @ rest) = Inr h"
  by (auto simp: validate_header_encode header_ok_def)

lemma validate_header_Inr: "validate_header sp data = Inr h \<longleftrightarrow>
    header_ok sp h \<and> HeaderSize \<le> length data \<and> encode_header h = slice_of data 0 HeaderSize"
  (is "?l \<longleftrightarrow> ?r")
proof
  assume l: ?l
  then have "HeaderSize \<le> length data" "h = read_header data" "header_ok sp h"
    by (auto simp: validate_header_def Let_def header_ok_def split: if_splits)
  then show ?r by (simp add: encode_read_header)
next
  assume r: ?r
  then have "data = encode_header h @ drop HeaderSize data" by (simp add: slice_of_def)
  with r show ?l by (metis validate_header_ok)
qed

text \<open>
  A message is accepted exactly when it begins with an encoded header and payload that
  satisfy the contract, whatever follows; the header and payload returned are those.
\<close>

lemma validate_message_Inr: "validate_message sp data = Inr (h, p) \<longleftrightarrow>
    message_ok sp h p \<and> (\<exists>rest. data = encode_header h @ p @ rest)" (is "?l \<longleftrightarrow> ?r")
proof
  assume l: ?l
  let ?mt = "message_type_of sp (h_Type h)"
  from l have len: "HeaderSize + unat (h_Length h) \<le> length data"
    and hdr: "validate_header sp (slice_of data 0 HeaderSize) = Inr h"
    and pay: "mt_HasPayload ?mt \<longleftrightarrow> h_Length h \<noteq> 0" "h_Length h \<le> mt_MaxPayload ?mt"
    and p: "p = slice_of data HeaderSize (HeaderSize + unat (h_Length h))"
    by (auto simp: validate_message_def Let_def bind_simps word_gt_0 not_less split: if_splits)
  from len have lp: "length p = unat (h_Length h)" by (simp add: p)
  then have "p \<noteq> [] \<longleftrightarrow> h_Length h \<noteq> 0"
    by (metis length_0_conv unat_eq_zero)
  with hdr pay lp have "message_ok sp h p"
    by (auto simp: message_ok_def validate_header_Inr word_le_nat_alt)
  moreover have "data = encode_header h @ p @ drop (length p) (drop HeaderSize data)"
    using hdr len lp by (simp add: validate_header_Inr p slice_of_def) (metis append_take_drop_id drop_drop add.commute)
  ultimately show ?r by blast
next
  assume ?r
  then obtain rest where ok: "message_ok sp h p" and data: "data = encode_header h @ p @ rest" by blast
  let ?mt = "message_type_of sp (h_Type h)"
  have hl: "h_Length h = 0 \<longleftrightarrow> p = []"
    using ok by (metis message_ok_def length_0_conv unat_eq_zero)
  have "validate_header sp (slice_of data 0 HeaderSize) = Inr h"
    using ok validate_header_ok [of sp h "[]"] by (simp add: data message_ok_def slice_append)
  moreover have "slice_of data HeaderSize (HeaderSize + unat (h_Length h)) = p"
    using ok by (simp add: data message_ok_def slice_append)
  ultimately show ?l
    using ok hl by (auto simp: validate_message_def message_ok_def Let_def data word_gt_0 word_le_nat_alt not_less)
qed

subsection \<open>The stream validator\<close>

text \<open>The error of \<open>io.ReadFull\<close>: end of file, end of file inside the buffer, or the reader's own.\<close>

datatype read_error = EOF | UnexpectedEOF | ReadFailure string

fun read_error_text :: "read_error \<Rightarrow> string" where
  "read_error_text EOF = ''EOF''"
| "read_error_text UnexpectedEOF = ''unexpected EOF''"
| "read_error_text (ReadFailure e) = e"

record validation_result =
  vr_Valid :: bool
  vr_Header :: "header option"
  vr_Payload :: bytes
  vr_Error :: string
  vr_Message :: "32 word"

definition invalid_result :: "string \<Rightarrow> 32 word \<Rightarrow> validation_result" where
  "invalid_result e sq = \<lparr>vr_Valid = False, vr_Header = None, vr_Payload = [], vr_Error = e, vr_Message = sq\<rparr>"

definition valid_result :: "header \<Rightarrow> bytes \<Rightarrow> 32 word \<Rightarrow> validation_result" where
  "valid_result h p sq = \<lparr>vr_Valid = True, vr_Header = Some h, vr_Payload = p, vr_Error = [], vr_Message = sq\<rparr>"

text \<open>
  The loop of \<open>ValidateStream\<close>, for any reader \<open>rf\<close>. It returns on \<open>io.EOF\<close> before a
  header only; every other failure is recorded and the loop goes on, so it need not return,
  and \<open>None\<close> is the value of a run that does not.
\<close>

partial_function (option) stream_loop ::
  "('r \<Rightarrow> nat \<Rightarrow> (read_error + bytes) \<times> 'r) \<Rightarrow> spec \<Rightarrow> 'r \<Rightarrow> 32 word \<Rightarrow> validation_result list
    \<Rightarrow> validation_result list option" where
  "stream_loop rf sp r sq results =
     (case rf r HeaderSize of (res, r1) \<Rightarrow>
       (case res of
          Inl e \<Rightarrow>
            if e = EOF then Some results
            else stream_loop rf sp r1 sq
              (results @ [invalid_result (''failed to read header: '' @ read_error_text e) sq])
        | Inr buf \<Rightarrow>
            (case validate_header sp buf of
               Inl err \<Rightarrow> stream_loop rf sp r1 sq (results @ [invalid_result (proto_error_text err) sq])
             | Inr h \<Rightarrow>
                 if 0 < h_Length h then
                   (case rf r1 (unat (h_Length h)) of (res2, r2) \<Rightarrow>
                     (case res2 of
                        Inl e \<Rightarrow> stream_loop rf sp r2 sq
                          (results @ [invalid_result (''failed to read payload: '' @ read_error_text e) sq])
                      | Inr payload \<Rightarrow> stream_loop rf sp r2 (sq + 1) (results @ [valid_result h payload sq])))
                 else stream_loop rf sp r1 (sq + 1) (results @ [valid_result h [] sq]))))"

definition validate_stream ::
  "('r \<Rightarrow> nat \<Rightarrow> (read_error + bytes) \<times> 'r) \<Rightarrow> spec \<Rightarrow> 'r \<Rightarrow> validation_result list option" where
  "validate_stream rf sp r = stream_loop rf sp r 0 []"

text \<open>
  An \<open>io.Reader\<close> over bytes that are already there, such as a \<open>bytes.Reader\<close> or a closed
  connection: it delivers them and then reports a clean end (\<open>None\<close>) or, for ever, a failure.
  \<open>read_full\<close> is \<open>io.ReadFull\<close> on it, for a non-empty buffer.
\<close>

record reader =
  rd_Pending :: bytes
  rd_Failure :: "string option"

definition read_full :: "reader \<Rightarrow> nat \<Rightarrow> (read_error + bytes) \<times> reader" where
  "read_full r n =
     (if n \<le> length (rd_Pending r)
      then (Inr (take n (rd_Pending r)), r\<lparr>rd_Pending := drop n (rd_Pending r)\<rparr>)
      else (Inl (case rd_Failure r of
                   Some e \<Rightarrow> ReadFailure e
                 | None \<Rightarrow> if rd_Pending r = [] then EOF else UnexpectedEOF),
            r\<lparr>rd_Pending := []\<rparr>))"

text \<open>
  What the stream validator relies on: \<open>avail\<close> is what the reader will still deliver and
  \<open>clean\<close> whether it ends with \<open>io.EOF\<close>.
\<close>

locale byte_source =
  fixes rf :: "'r \<Rightarrow> nat \<Rightarrow> (read_error + bytes) \<times> 'r"
    and avail :: "'r \<Rightarrow> bytes"
    and clean :: "'r \<Rightarrow> bool"
  assumes read_enough: "0 < n \<Longrightarrow> n \<le> length (avail r) \<Longrightarrow>
      \<exists>r'. rf r n = (Inr (take n (avail r)), r') \<and> avail r' = drop n (avail r) \<and> clean r' = clean r"
    and read_short: "length (avail r) < n \<Longrightarrow>
      \<exists>e r'. rf r n = (Inl e, r') \<and> avail r' = [] \<and> clean r' = clean r
        \<and> (e = EOF \<longleftrightarrow> clean r \<and> avail r = [])"
begin

lemma stream_at_end: "clean r \<Longrightarrow> avail r = [] \<Longrightarrow> stream_loop rf sp r sq acc = Some acc"
  using read_short [of r HeaderSize] by (auto simp: stream_loop.simps [of rf sp r] HeaderSize_def)

text \<open>On a source that ends with \<open>io.EOF\<close> the loop returns: every round consumes something.\<close>

lemma stream_returns: "clean r \<Longrightarrow> \<exists>res. stream_loop rf sp r sq acc = Some res"
proof (induction "length (avail r)" arbitrary: r sq acc rule: less_induct)
  case less
  show ?case
  proof (cases "avail r = []")
    case True
    with less.prems show ?thesis by (auto simp: stream_at_end)
  next
    case nonempty: False
    show ?thesis
    proof (cases "HeaderSize \<le> length (avail r)")
      case False
      with nonempty less.prems obtain e r' where
        "rf r HeaderSize = (Inl e, r')" "avail r' = []" "clean r'" "e \<noteq> EOF"
        using read_short [of r HeaderSize] by auto
      then show ?thesis
        using stream_at_end by (simp add: stream_loop.simps [of rf sp r])
    next
      case True
      then obtain r1 where r1: "rf r HeaderSize = (Inr (take HeaderSize (avail r)), r1)"
          "avail r1 = drop HeaderSize (avail r)" "clean r1"
        using read_enough [of HeaderSize r] less.prems by (auto simp: HeaderSize_def)
      have shorter: "length (avail r1) < length (avail r)"
        using True r1(2) by (simp add: HeaderSize_def)
      have rec: "\<exists>res. stream_loop rf sp r' sq' acc' = Some res"
        if "clean r'" "length (avail r') \<le> length (avail r1)" for r' sq' acc'
        using less.hyps that shorter by simp
      have pay: "\<exists>x r2. rf r1 n = (x, r2) \<and> clean r2 \<and> length (avail r2) \<le> length (avail r1)"
        if "0 < n" for n
        using read_enough [of n r1] read_short [of r1 n] that r1(3) by (cases "n \<le> length (avail r1)") auto
      show ?thesis
      proof (cases "validate_header sp (take HeaderSize (avail r))")
        case (Inl err)
        then show ?thesis using rec r1 by (simp add: stream_loop.simps [of rf sp r])
      next
        case (Inr h)
        show ?thesis
        proof (cases "0 < h_Length h")
          case True
          then have "0 < unat (h_Length h)" by (simp add: word_less_nat_alt)
          from pay [OF this] obtain x r2
            where "rf r1 (unat (h_Length h)) = (x, r2)" "clean r2" "length (avail r2) \<le> length (avail r1)" by blast
          then show ?thesis
            using Inr True r1 rec by (simp add: stream_loop.simps [of rf sp r] split: sum.splits)
        next
          case False
          then show ?thesis using Inr r1 rec by (simp add: stream_loop.simps [of rf sp r])
        qed
      qed
    qed
  qed
qed

text \<open>A source that fails otherwise keeps the loop running for ever.\<close>

lemma not_clean_step:
  "\<not> clean r \<Longrightarrow> 0 < n \<Longrightarrow> \<exists>x r'. rf r n = (x, r') \<and> \<not> clean r' \<and> x \<noteq> Inl EOF"
  using read_enough [of n r] read_short [of r n] by (cases "n \<le> length (avail r)") auto

lemma stream_never_returns:
  assumes "\<not> clean r"
  shows "stream_loop rf sp r sq acc = None"
proof (rule ccontr)
  assume "stream_loop rf sp r sq acc \<noteq> None"
  then obtain res where ret: "stream_loop rf sp r sq acc = Some res" by blast
  have "rf = rf \<longrightarrow> clean r"
  proof (rule stream_loop.raw_induct [where P = "\<lambda>rf' sp r sq acc res. rf' = rf \<longrightarrow> clean r", OF _ ret], goal_cases)
    case (1 loop rf' sp r sq results res)
    show ?case
    proof (intro impI, rule ccontr)
      assume rf: "rf' = rf" and nc: "\<not> clean r"
      obtain x r1 where r1: "rf r HeaderSize = (x, r1)" "\<not> clean r1" "x \<noteq> Inl EOF"
        using not_clean_step [OF nc, of HeaderSize] by (auto simp: HeaderSize_def)
      have pay: "\<not> clean r2" if "rf r1 (unat (h_Length h)) = (y, r2)" "0 < h_Length h" for h y r2
        using not_clean_step [OF r1(2), of "unat (h_Length h)"] that by (auto simp: word_less_nat_alt)
      have no: "loop rf sp r' sq' acc' \<noteq> Some res" if "\<not> clean r'" for r' sq' acc'
        using 1(1) [of rf sp r' sq' acc' res] that by auto
      show False
        using 1(2) r1 unfolding rf
        by (auto split: sum.splits if_splits prod.splits simp: no dest: pay)
    qed
  qed
  with assms show False by simp
qed

end

interpretation mem: byte_source read_full rd_Pending "\<lambda>r. rd_Failure r = None"
  by unfold_locales (auto simp: read_full_def split: option.splits)

text \<open>A frame is an encoded header with its payload; the stream validator checks the header only.\<close>

definition frame :: "header \<times> bytes \<Rightarrow> bytes" where
  "frame hp = encode_header (fst hp) @ snd hp"

definition frame_ok :: "spec \<Rightarrow> header \<times> bytes \<Rightarrow> bool" where
  "frame_ok sp hp \<longleftrightarrow> header_ok sp (fst hp) \<and> length (snd hp) = unat (h_Length (fst hp))"

fun numbered_results :: "32 word \<Rightarrow> (header \<times> bytes) list \<Rightarrow> validation_result list" where
  "numbered_results sq [] = []"
| "numbered_results sq ((h, p) # fs) = valid_result h p sq # numbered_results (sq + 1) fs"

context byte_source
begin

lemma read_prefix:
  assumes "avail r = xs @ ys" "length xs = n" "0 < n" "clean r"
  obtains r' where "rf r n = (Inr xs, r')" "avail r' = ys" "clean r'"
  using read_enough [of n r] assms by auto

lemma stream_frame:
  assumes "avail r = frame (h, p) @ rest" "frame_ok sp (h, p)" "clean r"
  obtains r' where "avail r' = rest" "clean r'"
    "stream_loop rf sp r sq acc = stream_loop rf sp r' (sq + 1) (acc @ [valid_result h p sq])"
proof -
  obtain r1 where r1: "rf r HeaderSize = (Inr (encode_header h), r1)" "avail r1 = p @ rest" "clean r1"
    using read_prefix [of r "encode_header h" "p @ rest" HeaderSize] assms
    by (auto simp: frame_def HeaderSize_def)
  have v: "validate_header sp (encode_header h) = Inr h"
    using assms(2) validate_header_ok [of sp h "[]"] by (simp add: frame_ok_def)
  show ?thesis
  proof (cases "0 < h_Length h")
    case True
    then have "0 < unat (h_Length h)" by (simp add: word_less_nat_alt)
    then obtain r2 where "rf r1 (unat (h_Length h)) = (Inr p, r2)" "avail r2 = rest" "clean r2"
      using read_prefix [of r1 p rest "unat (h_Length h)"] r1 assms(2) by (auto simp: frame_ok_def)
    then show ?thesis using that r1(1) v True by (simp add: stream_loop.simps [of rf sp r])
  next
    case False
    then have "p = []" using assms(2) by (simp add: frame_ok_def word_gt_0)
    then show ?thesis using that r1 v False by (simp add: stream_loop.simps [of rf sp r])
  qed
qed

lemma stream_frames:
  "avail r = concat (map frame fs) \<Longrightarrow> list_all (frame_ok sp) fs \<Longrightarrow> clean r \<Longrightarrow>
    stream_loop rf sp r sq acc = Some (acc @ numbered_results sq fs)"
proof (induction fs arbitrary: r sq acc)
  case Nil
  then show ?case by (simp add: stream_at_end)
next
  case (Cons hp fs)
  obtain h p where hp: "hp = (h, p)" by (cases hp)
  from Cons.prems obtain r' where "avail r' = concat (map frame fs)" "clean r'"
    "stream_loop rf sp r sq acc = stream_loop rf sp r' (sq + 1) (acc @ [valid_result h p sq])"
    using stream_frame [of r h p "concat (map frame fs)" sp] by (auto simp: hp)
  with Cons show ?case by (simp add: hp)
qed

end

subsection \<open>The compliance report\<close>

record compliance_report =
  cr_Compliant :: bool
  cr_TotalMessages :: int
  cr_ValidMessages :: int
  cr_InvalidMessages :: int
  cr_Errors :: "string list"
  cr_MessageTypes :: "8 word \<rightharpoonup> int"

definition compliance_step :: "compliance_report \<Rightarrow> validation_result \<Rightarrow> compliance_report" where
  "compliance_step rep r =
     (if vr_Valid r
      then let rep' = rep\<lparr>cr_ValidMessages := cr_ValidMessages rep + 1\<rparr>
           in (case vr_Header r of
                 None \<Rightarrow> rep'
               | Some h \<Rightarrow> rep'\<lparr>cr_MessageTypes := bump (cr_MessageTypes rep') (h_Type h)\<rparr>)
      else rep\<lparr>cr_InvalidMessages := cr_InvalidMessages rep + 1,
               cr_Errors := cr_Errors rep @ [''Message '' @ nat_str (unat (vr_Message r)) @ '': '' @ vr_Error r]\<rparr>)"

definition compliance_report :: "validation_result list \<Rightarrow> compliance_report" where
  "compliance_report results =
     (let rep = foldl compliance_step
        \<lparr>cr_Compliant = False, cr_TotalMessages = int (length results), cr_ValidMessages = 0,
         cr_InvalidMessages = 0, cr_Errors = [], cr_MessageTypes = Map.empty\<rparr> results
      in rep\<lparr>cr_Compliant := (cr_InvalidMessages rep = 0)\<rparr>)"

interpretation compliance: counter_pair compliance_step cr_ValidMessages cr_InvalidMessages vr_Valid
  by unfold_locales (auto simp: compliance_step_def Let_def split: option.splits)

lemma compliance_total [simp]: "cr_TotalMessages (foldl compliance_step rep rs) = cr_TotalMessages rep"
  by (induction rs arbitrary: rep) (auto simp: compliance_step_def Let_def split: option.splits)

lemma compliance_errors: "length (cr_Errors (foldl compliance_step rep rs)) =
    length (cr_Errors rep) + length (filter (\<lambda>r. \<not> vr_Valid r) rs)"
  by (induction rs arbitrary: rep) (auto simp: compliance_step_def Let_def split: option.splits)

lemma compliance_types:
  "count_of (cr_MessageTypes (foldl compliance_step rep rs)) t = count_of (cr_MessageTypes rep) t
     + int (length (filter (\<lambda>r. vr_Valid r \<and> map_option h_Type (vr_Header r) = Some t) rs))"
  by (induction rs arbitrary: rep)
     (auto simp: compliance_step_def Let_def split: option.splits)

subsection \<open>Properties\<close>

text \<open>
  C1. \<open>ValidateMessage\<close> accepts exactly the byte sequences that begin with the encoding of a
  header of the specification's magic, version, known type and bounded length, followed by
  a payload of the announced length that the type permits; it returns that header and payload.
\<close>
theorem validate_message_exact:
  "validate_message sp data = Inr (h, p) \<longleftrightarrow>
     message_ok sp h p \<and> (\<exists>rest. data = encode_header h @ p @ rest)"
  by (rule validate_message_Inr)

text \<open>
  C2. A message built by \<open>CreateMessage\<close> for a known type, with a payload the type permits, is
  accepted by \<open>ValidateMessage\<close>, which gives back the header (with the sequence number) and
  the payload, whatever bytes follow the message in the buffer.
\<close>
theorem create_message_roundtrip:
  assumes "sp_MessageTypes sp t = Some mt"
    and "mt_HasPayload mt \<longleftrightarrow> payload \<noteq> []"
    and "length payload \<le> unat (mt_MaxPayload mt)"
    and "length payload \<le> unat (sp_MaxPayload sp)"
  shows "validate_message sp (create_message sp t payload sq @ rest) =
    Inr (create_header sp t (word_of_nat (length payload)) sq, payload)"
proof -
  have "unat (sp_MaxPayload sp) < 2 ^ LENGTH(32)" by (rule unsigned_less)
  with assms(4) have "length payload < 2 ^ 32" by simp
  then have "unat (word_of_nat (length payload) :: 32 word) = length payload"
    by (simp add: unat_of_nat)
  with assms have "message_ok sp (create_header sp t (word_of_nat (length payload)) sq) payload"
    by (auto simp: message_ok_def header_ok_def create_header_def message_type_of_def word_le_nat_alt)
  then show ?thesis
    by (auto simp: validate_message_Inr create_message_def create_header_def Let_def)
qed

theorem create_message_roundtrip_witness:
  "validate_message default_spec (create_message default_spec MsgQuery [1, 2] 7 @ [9]) =
    Inr (create_header default_spec MsgQuery (word_of_nat 2) 7, [1, 2])"
  using create_message_roundtrip [of default_spec MsgQuery _ "[1, 2]" 7 "[9]"]
  by (simp add: default_spec_def code_defs)

text \<open>
  On a header of full length \<open>ValidateHeader\<close> reports the first violation in the order
  magic, version, message type, payload length, with the value found and the value wanted,
  and otherwise returns the header that was encoded.
\<close>
theorem validate_header_errors:
  "validate_header sp (encode_header h @ rest) =
     (if h_Magic h \<noteq> sp_MagicNumber sp then Inl (InvalidMagic (h_Magic h) (sp_MagicNumber sp))
      else if h_Version h \<noteq> sp_Version sp then Inl (UnsupportedVersion (h_Version h) (sp_Version sp))
      else if sp_MessageTypes sp (h_Type h) = None then Inl (UnknownMessageType (h_Type h))
      else if sp_MaxPayload sp < h_Length h then Inl (PayloadTooLarge (h_Length h) (sp_MaxPayload sp))
      else Inr h)"
  by (rule validate_header_encode)

text \<open>
  C6. \<open>ValidateStream\<close> returns exactly on the readers that end with \<open>io.EOF\<close>, whatever the bytes
  are. After any other error (a connection reset, a read deadline) it never returns: it records
  the failure and reads again, for ever.
\<close>
theorem validate_stream_terminates:
  "(\<exists>results. validate_stream read_full sp r = Some results) \<longleftrightarrow> rd_Failure r = None"
proof (cases "rd_Failure r = None")
  case True
  then show ?thesis unfolding validate_stream_def using mem.stream_returns by simp
next
  case False
  then show ?thesis unfolding validate_stream_def using mem.stream_never_returns by simp
qed

text \<open>On a reader that ends with \<open>io.EOF\<close>, \<open>ValidateStream\<close> returns, whatever the bytes are.\<close>
theorem validate_stream_returns:
  assumes "rd_Failure r = None"
  shows "\<exists>results. validate_stream read_full sp r = Some results"
  unfolding validate_stream_def using assms by (rule mem.stream_returns)

theorem validate_stream_returns_witness:
  "\<exists>results. validate_stream read_full default_spec \<lparr>rd_Pending = [1, 2, 3], rd_Failure = None\<rparr> = Some results"
  by (rule validate_stream_returns) simp

text \<open>
  On a reader that ends with any other error (a connection reset, a read deadline),
  \<open>ValidateStream\<close> never returns: it records the failure and reads again, for ever.
\<close>
theorem validate_stream_spins:
  assumes "rd_Failure r = Some e"
  shows "validate_stream read_full sp r = None"
  unfolding validate_stream_def by (rule mem.stream_never_returns) (simp add: assms)

theorem validate_stream_spins_witness:
  "validate_stream read_full default_spec \<lparr>rd_Pending = [], rd_Failure = Some ''connection reset''\<rparr> = None"
  by (rule validate_stream_spins [of _ "''connection reset''"]) simp

text \<open>
  C5. A stream of well-formed frames validates to one valid result per frame, in order, each
  with its header and payload and numbered from 0 (modulo \<open>2 ^ 32\<close>).
\<close>
theorem validate_stream_frames:
  assumes "list_all (frame_ok sp) fs"
  shows "validate_stream read_full sp \<lparr>rd_Pending = concat (map frame fs), rd_Failure = None\<rparr> =
    Some (numbered_results 0 fs)"
  unfolding validate_stream_def using mem.stream_frames [OF _ assms] by simp

theorem validate_stream_frames_witness:
  "validate_stream read_full default_spec
     \<lparr>rd_Pending = concat (map frame [(create_header default_spec MsgHeartbeat 0 3, []),
        (create_header default_spec MsgQuery 1 4, [42])]), rd_Failure = None\<rparr> =
   Some [valid_result (create_header default_spec MsgHeartbeat 0 3) [] 0,
         valid_result (create_header default_spec MsgQuery 1 4) [42] 1]"
  using validate_stream_frames [of default_spec "[(create_header default_spec MsgHeartbeat 0 3, []),
        (create_header default_spec MsgQuery 1 4, [42])]"]
  by (simp add: frame_ok_def header_ok_def create_header_def default_spec_def code_defs)

text \<open>
  \<open>ValidateStream\<close> applies no check of the message type's own constraints: a heartbeat with
  a payload, which \<open>ValidateMessage\<close> rejects, is a valid result of the stream.
\<close>
theorem stream_skips_type_checks:
  assumes "payload \<noteq> []" "length payload \<le> 65536"
  shows "validate_message default_spec (create_message default_spec MsgHeartbeat payload sq) =
      Inl (UnexpectedPayload MsgHeartbeat)
    \<and> validate_stream read_full default_spec
        \<lparr>rd_Pending = create_message default_spec MsgHeartbeat payload sq, rd_Failure = None\<rparr> =
      Some [valid_result (create_header default_spec MsgHeartbeat (word_of_nat (length payload)) sq) payload 0]"
proof -
  let ?h = "create_header default_spec MsgHeartbeat (word_of_nat (length payload)) sq"
  have un: "unat (word_of_nat (length payload) :: 32 word) = length payload"
    using assms(2) by (simp add: unat_of_nat)
  with assms(1) have pos: "0 < (word_of_nat (length payload) :: 32 word)"
    by (simp add: word_less_nat_alt)
  have msg: "create_message default_spec MsgHeartbeat payload sq = encode_header ?h @ payload"
    by (simp add: create_message_def create_header_def Let_def)
  have ok: "header_ok default_spec ?h"
    using un assms(2) by (simp add: header_ok_def create_header_def default_spec_def code_defs word_le_nat_alt)
  have "validate_header default_spec (encode_header ?h) = Inr ?h"
    using validate_header_ok [OF ok, of "[]"] by simp
  moreover have "\<not> mt_HasPayload (message_type_of default_spec (h_Type ?h))"
    by (simp add: message_type_of_def create_header_def default_spec_def code_defs)
  moreover have "0 < h_Length ?h" "h_Type ?h = MsgHeartbeat" using pos by (simp_all add: create_header_def)
  ultimately have "validate_message default_spec (create_message default_spec MsgHeartbeat payload sq) =
      Inl (UnexpectedPayload MsgHeartbeat)"
    by (simp add: validate_message_def msg slice_append)
  moreover have "frame_ok default_spec (?h, payload)"
    using ok un by (simp add: frame_ok_def create_header_def)
  ultimately show ?thesis
    using mem.stream_frames [of _ "[(?h, payload)]" default_spec 0 "[]"]
    by (simp add: validate_stream_def msg frame_def)
qed

theorem stream_skips_type_checks_witness:
  "validate_message default_spec (create_message default_spec MsgHeartbeat [1] 5) =
      Inl (UnexpectedPayload MsgHeartbeat)"
  using stream_skips_type_checks [of "[1]" 5] by simp

text \<open>
  The compliance report counts every result once, as valid or invalid, has one error text
  per invalid result, counts the valid results with a header per message type, and is
  compliant exactly when every result is valid.
\<close>
theorem compliance_report_counts:
  "cr_TotalMessages (compliance_report rs) = int (length rs)
   \<and> cr_ValidMessages (compliance_report rs) = int (length (filter vr_Valid rs))
   \<and> cr_ValidMessages (compliance_report rs) + cr_InvalidMessages (compliance_report rs) = int (length rs)
   \<and> int (length (cr_Errors (compliance_report rs))) = cr_InvalidMessages (compliance_report rs)
   \<and> (cr_Compliant (compliance_report rs) \<longleftrightarrow> list_all vr_Valid rs)
   \<and> count_of (cr_MessageTypes (compliance_report rs)) t =
       int (length (filter (\<lambda>r. vr_Valid r \<and> map_option h_Type (vr_Header r) = Some t) rs))"
  by (simp add: compliance_report_def Let_def compliance.pos.cnt_foldl compliance.neg.cnt_foldl
      compliance_errors compliance_types list_all_iff filter_empty_conv)
     (metis of_nat_add sum_length_filter_compl)

end
