(* ===== verification/MockServer.thy ===== *)
theory MockServer
  imports Protocol
begin

text \<open>
  The mock protocol server, \<^verbatim>\<open>pkg/mock/server.go\<close>.

  \<^item> The message path: \<open>handle_message\<close> parses a buffer, finds the handler and produces the
    bytes written to the connection; \<open>serve_loop\<close> is the read loop of one connection.
  \<^item> The life cycle: \<open>server_start\<close> and \<open>server_stop\<close> on the server's fields, and a step
    relation in which they interleave with the goroutines. An accept loop has a program
    counter: it polls the stop channel, reads the listener field, waits in \<open>Accept\<close>, counts the
    sessions and hands the connection to a new goroutine in separate steps, so that \<open>Start\<close>,
    \<open>Stop\<close> and the other goroutines run between any two of them. A connection goroutine
    registers a session, removes it when it ends and closes its connection.
\<close>

subsection \<open>Messages and handlers\<close>

record message =
  m_Type :: "8 word"
  m_Sequence :: "32 word"
  m_Payload :: bytes
  m_Timestamp :: int

type_synonym handler = "message \<Rightarrow> string + message option"

text \<open>The fields as \<open>handleMessage\<close> reads them, on at least 24 bytes.\<close>

definition parse_sequence :: "bytes \<Rightarrow> 32 word" where
  "parse_sequence data = push_bit 24 (ucast (data ! 10)) OR push_bit 16 (ucast (data ! 11))
     OR push_bit 8 (ucast (data ! 12)) OR ucast (data ! 13)"

definition parse_message :: "int \<Rightarrow> bytes \<Rightarrow> message" where
  "parse_message now data = \<lparr>m_Type = data ! 6, m_Sequence = parse_sequence data,
     m_Payload = drop 24 data, m_Timestamp = now\<rparr>"

text \<open>\<open>sendMessage\<close> writes 24 zero bytes and the payload: the header is never encoded.\<close>

definition send_message :: "message \<Rightarrow> bytes" where
  "send_message msg = replicate 24 0 @ m_Payload msg"

definition send_error :: "32 word \<Rightarrow> string \<Rightarrow> bytes" where
  "send_error sq e = send_message \<lparr>m_Type = 0x04, m_Sequence = sq, m_Payload = bytes_of e, m_Timestamp = 0\<rparr>"

text \<open>\<open>handleMessage\<close>: the list of the writes it makes to the connection, none or one.\<close>

definition handle_message :: "(8 word \<rightharpoonup> handler) \<Rightarrow> int \<Rightarrow> bytes \<Rightarrow> bytes list" where
  "handle_message hs now data =
     (if length data < 24 then []
      else let msg = parse_message now data in
        case hs (m_Type msg) of
          None \<Rightarrow> [send_error (m_Sequence msg) ''unknown message type'']
        | Some handler \<Rightarrow>
            (case handler msg of
               Inl e \<Rightarrow> [send_error (m_Sequence msg) e]
             | Inr None \<Rightarrow> []
             | Inr (Some response) \<Rightarrow> [send_message response]))"

definition reply :: "8 word \<Rightarrow> string \<Rightarrow> handler" where
  "reply t text msg = Inr (Some \<lparr>m_Type = t, m_Sequence = m_Sequence msg, m_Payload = bytes_of text, m_Timestamp = 0\<rparr>)"

definition default_handlers :: "8 word \<rightharpoonup> handler" where
  "default_handlers = [0x01 \<mapsto> reply 0x01 ''pong'', 0x02 \<mapsto> reply 0x03 ''data response'',
     0x05 \<mapsto> reply 0x06 ''query result'']"

text \<open>
  The read loop of \<open>handleConnection\<close>: each round first polls the stop channel, then reads up
  to 4096 bytes; a round is given as the answer of the poll, the clock and the read result.
\<close>

datatype conn_read = ReadBytes bytes | ReadError

fun serve_loop :: "(8 word \<rightharpoonup> handler) \<Rightarrow> (bool \<times> int \<times> conn_read) list \<Rightarrow> bytes list" where
  "serve_loop hs [] = []"
| "serve_loop hs ((stopped, now, rd) # rounds) =
     (if stopped then []
      else case rd of
        ReadError \<Rightarrow> []
      | ReadBytes data \<Rightarrow>
          (if 0 < length data then handle_message hs now data else []) @ serve_loop hs rounds)"

subsection \<open>The server and its life cycle\<close>

record config =
  cf_Address :: string
  cf_Port :: int
  cf_Protocol :: string
  cf_MaxClients :: int
  cf_Timeout :: int

text \<open>
  Where an accept loop stands: at the poll of the stop channel, about to read the listener
  field, in \<open>Accept\<close> on a listener, at the second poll after an error, with an accepted
  connection, with that connection and the number of sessions it counted, or returned.
\<close>

datatype accept_loop = AtPoll | AtAccept | InAccept nat | AtRecheck | Holding nat | Counted nat int | Quit

text \<open>
  \<open>sv_Listener\<close> numbers the listener in the field (0 before the first start), \<open>sv_Listening\<close>
  says that it is open; \<open>sv_Loops\<close> are the accept loops in the order of their start;
  \<open>sv_Incoming\<close> are the connections whose goroutine has not registered its session yet,
  \<open>sv_Active\<close> the registered goroutines as pairs of session id and connection, \<open>sv_Leaving\<close>
  the connections whose session is removed but which are not closed yet. \<open>sv_Handed\<close> and
  \<open>sv_ClosedConns\<close> are histories: the \<open>go handleConnection\<close> calls with the loop that made them,
  and the closed connections.
\<close>

record server =
  sv_Config :: config
  sv_Handlers :: "8 word \<rightharpoonup> handler"
  sv_Sessions :: "string \<rightharpoonup> nat"
  sv_Started :: bool
  sv_StopClosed :: bool
  sv_Listener :: nat
  sv_Listening :: bool
  sv_Loops :: "accept_loop list"
  sv_Handed :: "(nat \<times> nat) list"
  sv_Incoming :: "nat list"
  sv_Active :: "(string \<times> nat) list"
  sv_Leaving :: "nat list"
  sv_ClosedConns :: "nat list"

definition new_server :: "config \<Rightarrow> server" where
  "new_server c =
     (let c1 = (if cf_Address c = [] then c\<lparr>cf_Address := ''localhost''\<rparr> else c);
          c2 = (if cf_Port c1 = 0 then c1\<lparr>cf_Port := 9000\<rparr> else c1);
          c3 = (if cf_Protocol c2 = [] then c2\<lparr>cf_Protocol := ''tcp''\<rparr> else c2);
          c4 = (if cf_MaxClients c3 = 0 then c3\<lparr>cf_MaxClients := 100\<rparr> else c3);
          c5 = (if cf_Timeout c4 = 0 then c4\<lparr>cf_Timeout := 30 * 1000000000\<rparr> else c4)
      in \<lparr>sv_Config = c5, sv_Handlers = Map.empty, sv_Sessions = Map.empty, sv_Started = False,
          sv_StopClosed = False, sv_Listener = 0, sv_Listening = False, sv_Loops = [], sv_Handed = [],
          sv_Incoming = [], sv_Active = [], sv_Leaving = [], sv_ClosedConns = []\<rparr>)"

definition register_handler :: "server \<Rightarrow> 8 word \<Rightarrow> handler \<Rightarrow> server" where
  "register_handler s t h = s\<lparr>sv_Handlers := (sv_Handlers s)(t \<mapsto> h)\<rparr>"

text \<open>\<open>CreateMockServer\<close>; the map of default handlers is registered key by key, in any order.\<close>

definition create_mock_server :: "int \<Rightarrow> server" where
  "create_mock_server port =
     (let s = new_server \<lparr>cf_Address = ''localhost'', cf_Port = port, cf_Protocol = [], cf_MaxClients = 0, cf_Timeout = 0\<rparr>
      in foldl (\<lambda>s t. case default_handlers t of None \<Rightarrow> s | Some h \<Rightarrow> register_handler s t h) s [0x01, 0x02, 0x05])"

definition server_address :: "server \<Rightarrow> string" where
  "server_address s = cf_Address (sv_Config s) @ '':'' @ fmt_d (cf_Port (sv_Config s))"

text \<open>\<open>Start\<close>, given what \<open>net.Listen\<close> answers: the error returned and the new state.\<close>

definition server_start :: "string option \<Rightarrow> server \<Rightarrow> string option \<times> server" where
  "server_start listen_error s =
     (if sv_Started s then (Some ''server already started'', s)
      else case listen_error of
        Some e \<Rightarrow> (Some (''failed to listen: '' @ e), s)
      | None \<Rightarrow> (None, s\<lparr>sv_Listener := sv_Listener s + 1, sv_Listening := True, sv_Started := True,
                         sv_Loops := sv_Loops s @ [AtPoll]\<rparr>))"

text \<open>The connections of the sessions, in the order of the goroutines.\<close>

definition session_conns :: "server \<Rightarrow> nat list" where
  "session_conns s = map snd (filter (\<lambda>(i, c). sv_Sessions s i = Some c) (sv_Active s))"

definition server_stop :: "server \<Rightarrow> panic + server" where
  "server_stop s =
     (if \<not> sv_Started s then Inr s
      else if sv_StopClosed s then Inl CloseOfClosedChannel
      else Inr (s\<lparr>sv_StopClosed := True, sv_Started := False,
                  sv_ClosedConns := sv_ClosedConns s @ session_conns s, sv_Sessions := Map.empty,
                  sv_Listening := False\<rparr>))"

definition session_count :: "server \<Rightarrow> int" where
  "session_count s = int (card (dom (sv_Sessions s)))"

text \<open>\<open>generateSessionID\<close>, given the clock in nanoseconds.\<close>

definition session_id :: "int \<Rightarrow> string" where
  "session_id now = ''session-'' @ fmt_d now"

text \<open>Accept loop \<open>i\<close> stands at \<open>l\<close>, and moves on.\<close>

definition loop_at :: "server \<Rightarrow> nat \<Rightarrow> accept_loop \<Rightarrow> bool" where
  "loop_at s i l \<longleftrightarrow> i < length (sv_Loops s) \<and> sv_Loops s ! i = l"

definition goto_loop :: "nat \<Rightarrow> accept_loop \<Rightarrow> server \<Rightarrow> server" where
  "goto_loop i l s = s\<lparr>sv_Loops := (sv_Loops s)[i := l]\<rparr>"

text \<open>
  The steps of the server and its goroutines. \<open>Start\<close> and \<open>Stop\<close> hold the lock from their first
  to their last line and are one step: what runs beside them without the lock (the polls, the
  read of the listener field, \<open>Accept\<close>) could as well run before or after. \<open>Accept\<close> returns a
  connection only from a listener that is open, and may fail at any time. A goroutine ends
  when a read fails or the stop channel is closed, so at any time.
\<close>

inductive srv_step :: "server \<Rightarrow> server \<Rightarrow> bool" where
  start: "server_start le s = (res, s') \<Longrightarrow> srv_step s s'"
| stop: "server_stop s = Inr s' \<Longrightarrow> srv_step s s'"
| poll_quit: "loop_at s i AtPoll \<Longrightarrow> sv_StopClosed s \<Longrightarrow> srv_step s (goto_loop i Quit s)"
| poll_on: "loop_at s i AtPoll \<Longrightarrow> \<not> sv_StopClosed s \<Longrightarrow> srv_step s (goto_loop i AtAccept s)"
| read_listener: "loop_at s i AtAccept \<Longrightarrow> srv_step s (goto_loop i (InAccept (sv_Listener s)) s)"
| accept: "loop_at s i (InAccept l) \<Longrightarrow> l = sv_Listener s \<Longrightarrow> sv_Listening s \<Longrightarrow>
    srv_step s (goto_loop i (Holding conn) s)"
| accept_error: "loop_at s i (InAccept l) \<Longrightarrow> srv_step s (goto_loop i AtRecheck s)"
| recheck_quit: "loop_at s i AtRecheck \<Longrightarrow> sv_StopClosed s \<Longrightarrow> srv_step s (goto_loop i Quit s)"
| recheck_on: "loop_at s i AtRecheck \<Longrightarrow> \<not> sv_StopClosed s \<Longrightarrow> srv_step s (goto_loop i AtPoll s)"
| count_sessions: "loop_at s i (Holding conn) \<Longrightarrow> srv_step s (goto_loop i (Counted conn (session_count s)) s)"
| refuse: "loop_at s i (Counted conn n) \<Longrightarrow> cf_MaxClients (sv_Config s) \<le> n \<Longrightarrow>
    srv_step s (goto_loop i AtPoll (s\<lparr>sv_ClosedConns := sv_ClosedConns s @ [conn]\<rparr>))"
| hand_out: "loop_at s i (Counted conn n) \<Longrightarrow> n < cf_MaxClients (sv_Config s) \<Longrightarrow>
    srv_step s (goto_loop i AtPoll (s\<lparr>sv_Incoming := sv_Incoming s @ [conn], sv_Handed := sv_Handed s @ [(i, conn)]\<rparr>))"
| register: "sv_Incoming s = xs @ conn # ys \<Longrightarrow>
    srv_step s (s\<lparr>sv_Incoming := xs @ ys, sv_Sessions := (sv_Sessions s)(session_id now \<mapsto> conn),
                  sv_Active := (session_id now, conn) # sv_Active s\<rparr>)"
| finish: "sv_Active s = xs @ (i, conn) # ys \<Longrightarrow>
    srv_step s (s\<lparr>sv_Active := xs @ ys, sv_Sessions := (sv_Sessions s)(i := None),
                  sv_Leaving := conn # sv_Leaving s\<rparr>)"
| close_conn: "sv_Leaving s = xs @ conn # ys \<Longrightarrow>
    srv_step s (s\<lparr>sv_Leaving := xs @ ys, sv_ClosedConns := sv_ClosedConns s @ [conn]\<rparr>)"

inductive srv_reachable :: "config \<Rightarrow> server \<Rightarrow> bool" for c where
  init: "srv_reachable c (new_server c)"
| step: "srv_reachable c s \<Longrightarrow> srv_step s t \<Longrightarrow> srv_reachable c t"

text \<open>
  The connections that will register a session: those handed out, and those whose loop has
  counted fewer sessions than allowed. In a serial run a loop counts the sessions only when
  there is none.
\<close>

definition admitted :: "int \<Rightarrow> accept_loop \<Rightarrow> bool" where
  "admitted maxClients l = (case l of Counted conn n \<Rightarrow> n < maxClients | _ \<Rightarrow> False)"

definition in_flight :: "server \<Rightarrow> nat" where
  "in_flight s = length (sv_Incoming s) + length (filter (admitted (cf_MaxClients (sv_Config s))) (sv_Loops s))"

inductive serial_reachable :: "config \<Rightarrow> server \<Rightarrow> bool" for c where
  init: "serial_reachable c (new_server c)"
| step: "serial_reachable c s \<Longrightarrow> srv_step s t \<Longrightarrow>
    in_flight s = 0 \<or> in_flight t \<le> in_flight s \<Longrightarrow> serial_reachable c t"

lemma start_cases: "server_start le s = (res, s') \<Longrightarrow>
    s' = s \<or> \<not> sv_Started s \<and> s' = s\<lparr>sv_Listener := sv_Listener s + 1, sv_Listening := True, sv_Started := True,
                         sv_Loops := sv_Loops s @ [AtPoll]\<rparr>"
  by (auto simp: server_start_def split: if_splits option.splits)

lemma start_fields:
  assumes "server_start le s = (res, s')"
  shows "sv_Sessions s' = sv_Sessions s" "sv_Incoming s' = sv_Incoming s" "sv_Active s' = sv_Active s" "sv_Handed s' = sv_Handed s"
    "sv_StopClosed s' = sv_StopClosed s" "sv_Config s' = sv_Config s" "sv_Loops s' = sv_Loops s \<or> sv_Loops s' = sv_Loops s @ [AtPoll]"
  using start_cases [OF assms] by auto

lemma stop_cases: "server_stop s = Inr s' \<Longrightarrow>
    s' = s \<or> sv_Started s \<and> \<not> sv_StopClosed s \<and>
      s' = s\<lparr>sv_StopClosed := True, sv_Started := False,
             sv_ClosedConns := sv_ClosedConns s @ session_conns s, sv_Sessions := Map.empty,
             sv_Listening := False\<rparr>"
  by (auto simp: server_stop_def split: if_splits)

lemma goto_loop_fields [simp]:
  "sv_Config (goto_loop i l s) = sv_Config s" "sv_Sessions (goto_loop i l s) = sv_Sessions s"
  "sv_StopClosed (goto_loop i l s) = sv_StopClosed s" "sv_Incoming (goto_loop i l s) = sv_Incoming s"
  "sv_Active (goto_loop i l s) = sv_Active s" "sv_Handed (goto_loop i l s) = sv_Handed s"
  "sv_Loops (goto_loop i l s) = (sv_Loops s)[i := l]" "sv_Listening (goto_loop i l s) = sv_Listening s"
  "sv_Listener (goto_loop i l s) = sv_Listener s" "sv_Started (goto_loop i l s) = sv_Started s"
  "session_count (goto_loop i l s) = session_count s"
  by (simp_all add: goto_loop_def session_count_def)

text \<open>
  Ownership: every session of the table belongs to a goroutine that will remove it, and every
  goroutine serves a connection that an accept loop handed out.
\<close>

definition sessions_owned :: "server \<Rightarrow> bool" where
  "sessions_owned s \<longleftrightarrow> (\<forall>i c. sv_Sessions s i = Some c \<longrightarrow> (i, c) \<in> set (sv_Active s))
     \<and> set (sv_Incoming s) \<union> snd ` set (sv_Active s) \<subseteq> snd ` set (sv_Handed s)"

lemma step_sessions_owned: "srv_step s t \<Longrightarrow> sessions_owned s \<Longrightarrow> sessions_owned t"
proof (induction rule: srv_step.induct)
  case (start le s res s')
  then show ?case by (simp add: sessions_owned_def start_fields [OF start(1)])
next
  case (stop s s')
  from stop_cases [OF stop(1)] stop(2) show ?case by (elim disjE) (simp_all add: sessions_owned_def)
next
  case (finish s xs i conn ys)
  then show ?case by (auto simp: sessions_owned_def split: if_splits)
qed (auto simp: sessions_owned_def)

lemma step_config: "srv_step s t \<Longrightarrow> sv_Config t = sv_Config s"
  by (induction rule: srv_step.induct) (auto dest!: start_cases stop_cases)

lemma new_server_fields [simp]:
  "sv_Sessions (new_server c) = Map.empty" "sv_Started (new_server c) = False"
  "sv_StopClosed (new_server c) = False" "sv_Loops (new_server c) = []" "sv_Handed (new_server c) = []"
  "sv_Incoming (new_server c) = []" "sv_Active (new_server c) = []" "sv_Listener (new_server c) = 0"
  by (simp_all add: new_server_def Let_def)

lemma reachable_owned: "srv_reachable c s \<Longrightarrow> sessions_owned s"
proof (induction rule: srv_reachable.induct)
  case init
  show ?case by (simp add: sessions_owned_def)
next
  case (step s t)
  then show ?case using step_sessions_owned by blast
qed

text \<open>
  The loops past their poll: each may still hand out one connection. After the stop
  channel is closed no loop gets there any more, and those that hand out leave.
\<close>

definition busy :: "accept_loop \<Rightarrow> bool" where
  "busy l \<longleftrightarrow> (case l of AtAccept \<Rightarrow> True | InAccept n \<Rightarrow> True | Holding conn \<Rightarrow> True | Counted conn n \<Rightarrow> True | _ \<Rightarrow> False)"

lemma busy_simps [simp]:
  "busy AtAccept" "busy (InAccept n)" "busy (Holding conn)" "busy (Counted conn m)"
  "\<not> busy AtPoll" "\<not> busy AtRecheck" "\<not> busy Quit"
  by (simp_all add: busy_def)

definition late_hand_outs :: "server \<Rightarrow> (nat \<times> nat) list \<Rightarrow> server \<Rightarrow> bool" where
  "late_hand_outs s h t \<longleftrightarrow> sv_StopClosed t \<and> sv_Handed t = sv_Handed s @ h \<and> distinct (map fst h)
     \<and> (\<forall>i \<in> fst ` set h. i < length (sv_Loops s) \<and> busy (sv_Loops s ! i) \<and> i < length (sv_Loops t) \<and> \<not> busy (sv_Loops t ! i))
     \<and> (\<forall>i < length (sv_Loops t). busy (sv_Loops t ! i) \<longrightarrow> i < length (sv_Loops s) \<and> busy (sv_Loops s ! i))"

lemma late_goto:
  assumes "late_hand_outs s h t" "loop_at t i l" "busy l' \<longrightarrow> busy l"
  shows "late_hand_outs s h (goto_loop i l' t)"
  using assms by (auto simp: late_hand_outs_def loop_at_def nth_list_update)

lemma late_goto_ex:
  "loop_at t i l \<Longrightarrow> late_hand_outs s h t \<Longrightarrow> busy l' \<longrightarrow> busy l \<Longrightarrow> \<exists>h'. late_hand_outs s h' (goto_loop i l' t)"
  using late_goto by blast

lemma late_same:
  assumes "late_hand_outs s h t" "sv_StopClosed t' = sv_StopClosed t" "sv_Handed t' = sv_Handed t" "sv_Loops t' = sv_Loops t"
  shows "late_hand_outs s h t'"
  using assms by (simp add: late_hand_outs_def)

lemma late_hand_out:
  assumes "late_hand_outs s h t" "loop_at t i (Counted conn n)"
  shows "late_hand_outs s (h @ [(i, conn)]) (goto_loop i AtPoll (t\<lparr>sv_Incoming := inc, sv_Handed := sv_Handed t @ [(i, conn)]\<rparr>))"
proof -
  have "busy (sv_Loops t ! i)" "i < length (sv_Loops t)" using assms(2) by (simp_all add: loop_at_def)
  then show ?thesis using assms(1) by (force simp: late_hand_outs_def nth_list_update)
qed

lemma late_step:
  assumes "srv_step t t'" "late_hand_outs s h t"
  shows "\<exists>h'. late_hand_outs s h' t'"
  using assms
proof (induction rule: srv_step.induct)
  case (start le t res t')
  note f = start_fields [OF start(1)]
  from f(7) show ?case
  proof
    assume "sv_Loops t' = sv_Loops t"
    then show ?thesis using late_same [OF start(2)] f by blast
  next
    assume l: "sv_Loops t' = sv_Loops t @ [AtPoll]"
    have old: "i < length (sv_Loops t) \<and> busy (sv_Loops t ! i)" if "i < length (sv_Loops t')" "busy (sv_Loops t' ! i)" for i
      using that l by (cases "i < length (sv_Loops t)") (simp_all add: nth_append less_Suc_eq)
    have h: "\<forall>i \<in> fst ` set h. i < length (sv_Loops s) \<and> busy (sv_Loops s ! i) \<and> i < length (sv_Loops t') \<and> \<not> busy (sv_Loops t' ! i)"
      using start(2) old l unfolding late_hand_outs_def by force
    have "\<forall>i < length (sv_Loops t'). busy (sv_Loops t' ! i) \<longrightarrow> i < length (sv_Loops s) \<and> busy (sv_Loops s ! i)"
      using start(2) old unfolding late_hand_outs_def by blast
    then have "late_hand_outs s h t'" using start(2) f(4,5) h unfolding late_hand_outs_def by simp
    then show ?thesis by blast
  qed
next
  case (stop t t')
  then show ?case by (intro exI [of _ h]) (auto simp: late_hand_outs_def dest!: stop_cases)
next
  case (poll_on t i)
  then show ?case by (simp add: late_hand_outs_def)
next
  case (hand_out t i conn n)
  then show ?case using late_hand_out by blast
next
  case (refuse t i conn n)
  have "late_hand_outs s h (t\<lparr>sv_ClosedConns := sv_ClosedConns t @ [conn]\<rparr>)" by (rule late_same [OF refuse(3)]) simp_all
  then have "late_hand_outs s h (goto_loop i AtPoll (t\<lparr>sv_ClosedConns := sv_ClosedConns t @ [conn]\<rparr>))"
    by (rule late_goto [where l = "Counted conn n"]) (use refuse(1) in \<open>simp_all add: loop_at_def\<close>)
  then show ?case by blast
next
  case (register t xs conn ys now)
  show ?case by (rule exI [of _ h], rule late_same [OF register(2)]) simp_all
next
  case (finish t xs i conn ys)
  show ?case by (rule exI [of _ h], rule late_same [OF finish(2)]) simp_all
next
  case (close_conn t xs conn ys)
  show ?case by (rule exI [of _ h], rule late_same [OF close_conn(2)]) simp_all
qed (erule late_goto_ex, assumption, simp)+

lemma late_run:
  assumes "srv_step\<^sup>*\<^sup>* s t" "sv_StopClosed s"
  shows "\<exists>h. late_hand_outs s h t"
  using assms
proof (induction rule: rtranclp_induct)
  case base
  then show ?case by (intro exI [of _ "[]"]) (simp add: late_hand_outs_def)
next
  case (step t t')
  then show ?case using late_step by blast
qed

lemma owned_finite: "sessions_owned s \<Longrightarrow> finite (dom (sv_Sessions s))"
  by (rule finite_subset [of _ "fst ` set (sv_Active s)"]) (force simp: sessions_owned_def)+

lemma serial_is_reachable: "serial_reachable c s \<Longrightarrow> srv_reachable c s"
  by (induction rule: serial_reachable.induct) (auto intro: srv_reachable.intros)

lemma session_count_register:
  "finite (dom (sv_Sessions s)) \<Longrightarrow>
    card (dom ((sv_Sessions s)(i \<mapsto> c))) \<le> card (dom (sv_Sessions s)) + 1"
  by (simp add: card_insert_if)

lemma session_count_finish:
  "finite (dom (sv_Sessions s)) \<Longrightarrow> card (dom ((sv_Sessions s)(i := None))) \<le> card (dom (sv_Sessions s))"
  by (rule card_mono) auto

lemma admitted_simps [simp]:
  "admitted m (Counted conn n) = (n < m)" "\<not> admitted m AtPoll" "\<not> admitted m AtAccept" "\<not> admitted m (InAccept l)"
  "\<not> admitted m AtRecheck" "\<not> admitted m (Holding conn)" "\<not> admitted m Quit"
  by (simp_all add: admitted_def)

lemma in_flight_goto:
  assumes "loop_at s i l"
  shows "in_flight (goto_loop i l' s) + (if admitted (cf_MaxClients (sv_Config s)) l then 1 else 0)
    = in_flight s + (if admitted (cf_MaxClients (sv_Config s)) l' then 1 else 0)"
  using assms length_filter_update [of i "sv_Loops s" "admitted (cf_MaxClients (sv_Config s))" l']
  by (auto simp: in_flight_def loop_at_def)

definition serial_ok :: "server \<Rightarrow> bool" where
  "serial_ok s \<longleftrightarrow> session_count s + int (in_flight s) \<le> cf_MaxClients (sv_Config s)"

lemma serial_goto:
  assumes "serial_ok s" "loop_at s i l" "admitted (cf_MaxClients (sv_Config s)) l' \<longrightarrow> admitted (cf_MaxClients (sv_Config s)) l"
  shows "serial_ok (goto_loop i l' s)"
  using assms in_flight_goto [OF assms(2), of l'] by (auto simp: serial_ok_def split: if_splits)

lemma step_serial_bound:
  assumes "srv_step s t" "sessions_owned s" "in_flight s = 0 \<or> in_flight t \<le> in_flight s" "serial_ok s"
  shows "serial_ok t"
  using assms
proof (induction rule: srv_step.induct)
  case (start le s res s')
  then show ?case by (auto simp: serial_ok_def in_flight_def session_count_def dest!: start_cases)
next
  case (stop s s')
  then show ?case by (auto simp: serial_ok_def in_flight_def session_count_def dest!: stop_cases)
next
  case (count_sessions s i conn)
  then show ?case using in_flight_goto [OF count_sessions(1), of "Counted conn (session_count s)"]
    by (auto simp: serial_ok_def split: if_splits)
next
  case (hand_out s i conn n)
  let ?s = "s\<lparr>sv_Incoming := sv_Incoming s @ [conn], sv_Handed := sv_Handed s @ [(i, conn)]\<rparr>"
  have "in_flight ?s = in_flight s + 1" "session_count ?s = session_count s" by (simp_all add: in_flight_def session_count_def)
  then show ?case using hand_out in_flight_goto [of ?s i "Counted conn n" AtPoll] by (simp add: serial_ok_def loop_at_def)
next
  case (refuse s i conn n)
  let ?s = "s\<lparr>sv_ClosedConns := sv_ClosedConns s @ [conn]\<rparr>"
  have "serial_ok ?s" using refuse by (simp add: serial_ok_def in_flight_def session_count_def)
  then show ?case using refuse(1) by (intro serial_goto) (simp_all add: loop_at_def)
next
  case (register s xs conn ys now)
  then show ?case using session_count_register [of s "session_id now" conn] owned_finite [of s]
    by (simp add: serial_ok_def in_flight_def session_count_def)
next
  case (finish s xs i conn ys)
  then show ?case using session_count_finish [of s i] owned_finite [of s]
    by (simp add: serial_ok_def in_flight_def session_count_def)
next
  case (close_conn s xs conn ys)
  then show ?case by (simp add: serial_ok_def in_flight_def session_count_def)
qed (auto intro: serial_goto)

text \<open>The server that \<open>CreateMockServer\<close> hands out is in its initial state.\<close>

lemma create_mock_server_fields [simp]:
  "sv_Started (create_mock_server p) = False" "sv_StopClosed (create_mock_server p) = False"
  "sv_Sessions (create_mock_server p) = Map.empty" "sv_Incoming (create_mock_server p) = []"
  "sv_Config (create_mock_server p) = sv_Config (new_server \<lparr>cf_Address = ''localhost'', cf_Port = p,
     cf_Protocol = [], cf_MaxClients = 0, cf_Timeout = 0\<rparr>)"
  by (simp_all add: create_mock_server_def register_handler_def default_handlers_def Let_def del: One_nat_def)

lemma new_server_MaxClients [simp]:
  "cf_MaxClients (sv_Config (new_server c)) = (if cf_MaxClients c = 0 then 100 else cf_MaxClients c)"
  by (simp add: new_server_def Let_def)

subsection \<open>Properties\<close>

text \<open>
  The mock server reads type and payload where the protocol puts them, but takes bytes 10
  to 13 for the sequence number, which are the low half of the payload length and the high
  half of the sequence number of an encoded header.
\<close>
theorem mock_misreads_sequence:
  "parse_message now (encode_header h @ payload) =
     \<lparr>m_Type = h_Type h, m_Sequence = push_bit 16 (h_Length h) OR drop_bit 16 (h_Sequence h),
      m_Payload = payload, m_Timestamp = now\<rparr>"
proof -
  let ?d = "encode_header h @ payload"
  have n: "put_be 1 w = [ucast w]"
    "put_be 4 w' = [ucast (drop_bit 24 w'), ucast (drop_bit 16 w'), ucast (drop_bit 8 w'), ucast w']"
    "put_be 2 w'' = [ucast (drop_bit 8 w''), ucast w'']"
    for w :: "8 word" and w' :: "32 word" and w'' :: "16 word"
    by (simp_all add: numeral_eq_Suc)
  have at: "?d ! 6 = h_Type h" "?d ! 10 = ucast (drop_bit 8 (h_Length h))" "?d ! 11 = ucast (h_Length h)"
    "?d ! 12 = ucast (drop_bit 24 (h_Sequence h))" "?d ! 13 = ucast (drop_bit 16 (h_Sequence h))"
    by (simp_all add: encode_header_def n nth_append)
  have "parse_sequence ?d = push_bit 16 (h_Length h) OR drop_bit 16 (h_Sequence h)"
  proof (rule bit_word_eqI)
    fix i assume "i < LENGTH(32)"
    then have i: "i < 32" by simp
    then consider "i < 8" | "8 \<le> i" "i < 16" | "16 \<le> i" "i < 24" | "24 \<le> i" "i < 32" by linarith
    then show "bit (parse_sequence ?d) i = bit (push_bit 16 (h_Length h) OR drop_bit 16 (h_Sequence h)) i"
    proof cases
      case 4
      then have "8 + (i - 24) = i - 16" by simp
      with 4 show ?thesis unfolding parse_sequence_def at by (auto simp: bit_simps dest: bit_imp_le_length)
    next
      case 2
      then have "24 + (i - 8) = 16 + i" by simp
      with 2 show ?thesis unfolding parse_sequence_def at by (auto simp: bit_simps)
    qed (auto simp: parse_sequence_def at bit_simps dest: bit_imp_le_length)
  qed
  then show ?thesis
    using length_encode_header [of h] by (simp add: parse_message_def at HeaderSize_def)
qed

text \<open>
  Every reply of the mock server, whatever the handlers answer, is rejected by the protocol
  validator: its header is 24 zero bytes, so its magic number is 0.
\<close>
theorem mock_replies_rejected:
  assumes "w \<in> set (handle_message hs now data)" "sp_MagicNumber sp \<noteq> 0"
  shows "validate_header sp w = Inl (InvalidMagic 0 (sp_MagicNumber sp))"
proof -
  from assms(1) obtain p where w: "w = replicate 24 0 @ p"
    by (auto simp: handle_message_def send_error_def send_message_def Let_def
        split: if_splits option.splits sum.splits)
  have "replicate 24 0 = encode_header \<lparr>h_Magic = 0, h_Version = 0, h_Type = 0, h_Flags = 0,
      h_Length = 0, h_Sequence = 0, h_Timestamp = 0\<rparr>"
    by (simp add: encode_header_def numeral_eq_Suc)
  with w assms(2) show ?thesis by (simp only: validate_header_encode header.simps if_True simp_thms) auto
qed

theorem mock_replies_rejected_witness:
  "validate_header default_spec (replicate 24 0 @ bytes_of ''pong'') = Inl (InvalidMagic 0 DefaultMagic)"
proof -
  have t: "(replicate 6 0 @ 1 # replicate 17 0) ! 6 = (1::8 word)" by (simp add: nth_append)
  have "replicate 24 0 @ bytes_of ''pong'' \<in> set (handle_message default_handlers 0 (replicate 6 0 @ 1 # replicate 17 0))"
    by (simp add: handle_message_def parse_message_def default_handlers_def reply_def send_message_def Let_def t)
  moreover have "sp_MagicNumber default_spec = DefaultMagic" "DefaultMagic \<noteq> 0"
    by (simp_all add: default_spec_def DefaultMagic_def)
  ultimately show ?thesis using mock_replies_rejected [of _ default_handlers 0 _ default_spec] by metis
qed

definition sample_config :: "config" where
  "sample_config = \<lparr>cf_Address = [], cf_Port = 1, cf_Protocol = [], cf_MaxClients = 1, cf_Timeout = 1\<rparr>"

text \<open>
  C8. In every reachable state each session of the table belongs to a running connection
  goroutine, which removes it when it ends and serves a connection that an accept loop handed
  out. Once the stop channel is closed it stays so, and in any run from there, whatever is
  started again, only the accept loops that were past their poll of the channel at that
  moment hand out connections, each of them at most one.
\<close>
theorem mock_session_invariant:
  assumes "srv_reachable c s"
  shows "(\<forall>i conn. sv_Sessions s i = Some conn \<longrightarrow> (i, conn) \<in> set (sv_Active s))
    \<and> (\<forall>(i, conn) \<in> set (sv_Active s). \<exists>k. (k, conn) \<in> set (sv_Handed s))
    \<and> (sv_StopClosed s \<longrightarrow> (\<forall>t. srv_step\<^sup>*\<^sup>* s t \<longrightarrow> sv_StopClosed t
         \<and> (\<exists>h. sv_Handed t = sv_Handed s @ h \<and> distinct (map fst h)
              \<and> (\<forall>(k, conn) \<in> set h. k < length (sv_Loops s) \<and> busy (sv_Loops s ! k)))))"
proof -
  have o: "(i, conn) \<in> set (sv_Active s)" if "sv_Sessions s i = Some conn" for i conn
    using reachable_owned [OF assms] that by (simp add: sessions_owned_def)
  have a: "\<exists>k. (k, conn) \<in> set (sv_Handed s)" if "(i, conn) \<in> set (sv_Active s)" for i conn
  proof -
    have "conn \<in> snd ` set (sv_Active s)" using that by force
    then have "conn \<in> snd ` set (sv_Handed s)" using reachable_owned [OF assms] by (auto simp: sessions_owned_def)
    then show ?thesis by auto
  qed
  have l: "sv_StopClosed t \<and> (\<exists>h. sv_Handed t = sv_Handed s @ h \<and> distinct (map fst h)
      \<and> (\<forall>(k, conn) \<in> set h. k < length (sv_Loops s) \<and> busy (sv_Loops s ! k)))"
    if closed: "sv_StopClosed s" and run: "srv_step\<^sup>*\<^sup>* s t" for t
  proof -
    obtain h where h: "late_hand_outs s h t" using late_run [OF run closed] by blast
    then have "\<forall>(k, conn) \<in> set h. k < length (sv_Loops s) \<and> busy (sv_Loops s ! k)" by (auto simp: late_hand_outs_def)
    then show ?thesis using h by (auto simp: late_hand_outs_def)
  qed
  show ?thesis using o a l by blast
qed

theorem mock_session_invariant_witness:
  "\<exists>s s'. server_start None (new_server sample_config) = (None, s) \<and> server_stop s = Inr s' \<and> sv_StopClosed s'
    \<and> \<not> (\<exists>t. srv_step\<^sup>*\<^sup>* s' t \<and> sv_Handed t \<noteq> [])"
proof -
  define s where "s = snd (server_start None (new_server sample_config))"
  have s: "server_start None (new_server sample_config) = (None, s)" "sv_Loops s = [AtPoll]" "sv_Handed s = []"
    by (simp_all add: s_def server_start_def)
  obtain s' where s': "server_stop s = Inr s'" "sv_StopClosed s'" "sv_Loops s' = [AtPoll]" "sv_Handed s' = []"
    using s by (auto simp: s_def server_start_def server_stop_def)
  have "srv_reachable sample_config s'" using s(1) s'(1) by (meson srv_reachable.intros srv_step.start srv_step.stop)
  note inv = mock_session_invariant [OF this]
  have "sv_Handed t = []" if "srv_step\<^sup>*\<^sup>* s' t" for t
  proof -
    from inv s'(2) that have "\<exists>h. sv_Handed t = sv_Handed s' @ h \<and> distinct (map fst h)
        \<and> (\<forall>(k, conn) \<in> set h. k < length (sv_Loops s') \<and> busy (sv_Loops s' ! k))" by simp
    then obtain h where h: "sv_Handed t = sv_Handed s' @ h" "\<forall>(k, conn) \<in> set h. k < length (sv_Loops s') \<and> busy (sv_Loops s' ! k)"
      by (elim exE conjE)
    have "h = []"
    proof (cases h)
      case (Cons a h')
      then show ?thesis using h(2) s'(3) by (cases a) simp
    qed
    then show ?thesis using h(1) s'(4) by simp
  qed
  then show ?thesis using s s' by blast
qed

text \<open>
  A loop past its poll does hand out a connection after \<open>Stop\<close> has returned, to a server that is
  not started any more: it accepts, the server is stopped, it counts and hands out.
\<close>
theorem mock_late_connection:
  assumes "0 < cf_MaxClients c"
  shows "\<exists>s t. srv_reachable c s \<and> sv_StopClosed s \<and> \<not> sv_Started s \<and> sv_Incoming s = []
    \<and> srv_step\<^sup>*\<^sup>* s t \<and> \<not> sv_Started t \<and> sv_Incoming t = [7]"
proof -
  define s0 where "s0 = new_server c"
  define s1 where "s1 = s0\<lparr>sv_Listener := 1, sv_Listening := True, sv_Started := True, sv_Loops := [AtPoll]\<rparr>"
  define s2 where "s2 = goto_loop 0 AtAccept s1"
  define s3 where "s3 = goto_loop 0 (InAccept 1) s2"
  define s4 where "s4 = goto_loop 0 (Holding 7) s3"
  define s5 where "s5 = s4\<lparr>sv_StopClosed := True, sv_Started := False,
    sv_ClosedConns := sv_ClosedConns s4 @ session_conns s4, sv_Sessions := Map.empty, sv_Listening := False\<rparr>"
  define s6 where "s6 = goto_loop 0 (Counted 7 0) s5"
  define s7 where "s7 = goto_loop 0 AtPoll (s6\<lparr>sv_Incoming := [7], sv_Handed := sv_Handed s6 @ [(0, 7)]\<rparr>)"
  note d = s1_def s2_def s3_def s4_def s5_def s6_def s7_def loop_at_def
  have m: "0 < cf_MaxClients (sv_Config s0)" using assms by (simp add: s0_def new_server_def Let_def)
  have s0: "sv_Started s0 = False" "sv_StopClosed s0 = False" "sv_Loops s0 = []" "sv_Incoming s0 = []" "sv_Listener s0 = 0"
    by (simp_all add: s0_def)
  have "srv_step s0 s1" by (rule srv_step.start [of None _ None]) (simp add: server_start_def d s0)
  moreover have "srv_step s1 s2" using srv_step.poll_on [of s1 0] by (simp add: d s0)
  moreover have "srv_step s2 s3" using srv_step.read_listener [of s2 0] by (simp add: d s0)
  moreover have "srv_step s3 s4" using srv_step.accept [of s3 0 1 7] by (simp add: d s0)
  moreover have "srv_step s4 s5" by (rule srv_step.stop) (simp add: server_stop_def d s0)
  moreover have "srv_step s5 s6" using srv_step.count_sessions [of s5 0 7] by (simp add: d s0 session_count_def)
  moreover have "srv_step s6 s7" using srv_step.hand_out [of s6 0 7 0] m by (simp add: d s0)
  moreover have "srv_reachable c s0" by (simp add: s0_def srv_reachable.init)
  ultimately have "srv_reachable c s5" "srv_step\<^sup>*\<^sup>* s5 s7" by (metis srv_reachable.step, meson converse_rtranclp_into_rtranclp rtranclp.rtrancl_refl)
  then show ?thesis by (intro exI [of _ s5] exI [of _ s7]) (simp add: d s0)
qed

theorem mock_late_connection_witness:
  "\<exists>s t. srv_reachable sample_config s \<and> sv_StopClosed s \<and> \<not> sv_Started s \<and> sv_Incoming s = []
    \<and> srv_step\<^sup>*\<^sup>* s t \<and> \<not> sv_Started t \<and> sv_Incoming t = [7]"
  by (rule mock_late_connection) (simp add: sample_config_def)

text \<open>
  A server can be started again after it was stopped, but stopping it a second time
  panics: the stop channel is closed once and never replaced.
\<close>
theorem mock_restart_panics:
  assumes "\<not> sv_Started s" "\<not> sv_StopClosed s"
  shows "\<exists>s1 s2 s3. server_start None s = (None, s1) \<and> server_stop s1 = Inr s2
    \<and> server_start None s2 = (None, s3) \<and> sv_Started s3 \<and> server_stop s3 = Inl CloseOfClosedChannel"
  using assms by (simp add: server_start_def server_stop_def)

theorem mock_restart_panics_witness:
  "\<exists>s1 s2 s3. server_start None (create_mock_server 9000) = (None, s1) \<and> server_stop s1 = Inr s2
    \<and> server_start None s2 = (None, s3) \<and> sv_Started s3 \<and> server_stop s3 = Inl CloseOfClosedChannel"
  by (rule mock_restart_panics) simp_all

text \<open>
  If every admitted connection registers its session before a loop counts the sessions for
  the next one, the number of sessions never exceeds \<open>MaxClients\<close>.
\<close>
theorem mock_serial_client_limit:
  assumes "serial_reachable c s" "0 \<le> cf_MaxClients c"
  shows "session_count s + int (in_flight s) \<le> cf_MaxClients (sv_Config s)"
proof -
  have "serial_ok s" using assms(1)
  proof (induction rule: serial_reachable.induct)
    case init
    show ?case using assms(2) by (simp add: serial_ok_def in_flight_def session_count_def)
  next
    case (step s t)
    then have "sessions_owned s" using reachable_owned serial_is_reachable by blast
    from step_serial_bound [OF step.hyps(2) this step.hyps(3) step.IH] show ?case .
  qed
  then show ?thesis by (simp add: serial_ok_def)
qed

theorem mock_serial_client_limit_witness:
  "session_count (new_server \<lparr>cf_Address = [], cf_Port = 1, cf_Protocol = [], cf_MaxClients = 7, cf_Timeout = 1\<rparr>) \<le> 7"
  using mock_serial_client_limit [OF serial_reachable.init,
      of "\<lparr>cf_Address = [], cf_Port = 1, cf_Protocol = [], cf_MaxClients = 7, cf_Timeout = 1\<rparr>"]
  by simp

text \<open>One round of the first accept loop, when no session is registered.\<close>

lemma accept_round:
  assumes "srv_reachable c s" "sv_Loops s = [AtPoll]" "\<not> sv_StopClosed s" "sv_Listener s = 1" "sv_Listening s" "sv_Sessions s = Map.empty"
    and "0 < cf_MaxClients (sv_Config s)"
  shows "srv_reachable c (goto_loop 0 AtPoll (goto_loop 0 (Counted conn 0) (goto_loop 0 (Holding conn)
      (goto_loop 0 (InAccept 1) (goto_loop 0 AtAccept s))))\<lparr>sv_Incoming := sv_Incoming s @ [conn], sv_Handed := sv_Handed s @ [(0, conn)]\<rparr>)"
proof -
  define t1 where "t1 = goto_loop 0 AtAccept s"
  define t2 where "t2 = goto_loop 0 (InAccept 1) t1"
  define t3 where "t3 = goto_loop 0 (Holding conn) t2"
  define t4 where "t4 = goto_loop 0 (Counted conn 0) t3"
  define t5 where "t5 = goto_loop 0 AtPoll (t4\<lparr>sv_Incoming := sv_Incoming t4 @ [conn], sv_Handed := sv_Handed t4 @ [(0, conn)]\<rparr>)"
  note d = t1_def t2_def t3_def t4_def loop_at_def assms(2-6)
  have "srv_step s t1" using srv_step.poll_on [of s 0] by (simp add: d)
  moreover have "srv_step t1 t2" using srv_step.read_listener [of t1 0] by (simp add: d)
  moreover have "srv_step t2 t3" using srv_step.accept [of t2 0 1 conn] by (simp add: d)
  moreover have "srv_step t3 t4" using srv_step.count_sessions [of t3 0 conn] by (simp add: d session_count_def)
  moreover have "srv_step t4 t5" using srv_step.hand_out [of t4 0 conn 0] assms(7) by (simp add: d t5_def)
  ultimately have "srv_reachable c t5" using assms(1) by (meson srv_reachable.step)
  moreover have "t5 = goto_loop 0 AtPoll t4\<lparr>sv_Incoming := sv_Incoming s @ [conn], sv_Handed := sv_Handed s @ [(0, conn)]\<rparr>"
    by (simp add: t5_def t1_def t2_def t3_def t4_def goto_loop_def)
  ultimately show ?thesis by (simp only: t1_def t2_def t3_def t4_def)
qed

text \<open>
  C14. Without that order the limit can be exceeded: with \<open>MaxClients\<close> 1, two connections
  accepted before either registers give a reachable state with two sessions.
\<close>
theorem mock_client_limit_race:
  assumes "cf_MaxClients c = 1"
  shows "\<exists>s. srv_reachable c s \<and> cf_MaxClients (sv_Config s) < session_count s"
proof -
  define s0 where "s0 = new_server c"
  define s1 where "s1 = s0\<lparr>sv_Listener := 1, sv_Listening := True, sv_Started := True, sv_Loops := [AtPoll]\<rparr>"
  define round where "round conn s = goto_loop 0 AtPoll (goto_loop 0 (Counted conn 0) (goto_loop 0 (Holding conn)
      (goto_loop 0 (InAccept 1) (goto_loop 0 AtAccept s))))\<lparr>sv_Incoming := sv_Incoming s @ [conn], sv_Handed := sv_Handed s @ [(0, conn)]\<rparr>"
    for conn s
  define s2 where "s2 = round 1 s1"
  define s3 where "s3 = round 2 s2"
  define s4 where "s4 = s3\<lparr>sv_Incoming := [2], sv_Sessions := [session_id 1 \<mapsto> 1], sv_Active := [(session_id 1, 1)]\<rparr>"
  define s5 where "s5 = s4\<lparr>sv_Incoming := [], sv_Sessions := [session_id 1 \<mapsto> 1, session_id 2 \<mapsto> 2],
    sv_Active := [(session_id 2, 2), (session_id 1, 1)]\<rparr>"
  have s0: "sv_Sessions s0 = Map.empty" "sv_Started s0 = False" "sv_StopClosed s0 = False"
    "sv_Loops s0 = []" "sv_Incoming s0 = []" "sv_Active s0 = []" "sv_Listener s0 = 0"
    "cf_MaxClients (sv_Config s0) = 1"
    using assms by (simp_all add: s0_def)
  have round: "srv_reachable c (round conn s)"
    if "srv_reachable c s" "sv_Loops s = [AtPoll]" "\<not> sv_StopClosed s" "sv_Listener s = 1" "sv_Listening s"
      "sv_Sessions s = Map.empty" "cf_MaxClients (sv_Config s) = 1" for conn s
    using accept_round [OF that(1-6)] that(7) by (simp add: round_def)
  have "srv_step s0 s1" by (rule srv_step.start [of None _ None]) (simp add: server_start_def s1_def s0)
  then have "srv_reachable c s1" by (metis s0_def srv_reachable.intros)
  then have "srv_reachable c s2" unfolding s2_def by (rule round) (simp_all add: s1_def s0)
  then have "srv_reachable c s3" unfolding s3_def by (rule round) (simp_all add: s2_def round_def s1_def s0)
  moreover have f: "sv_Incoming s3 = [1, 2]" "sv_Sessions s3 = Map.empty" "sv_Active s3 = []" "cf_MaxClients (sv_Config s3) = 1"
    by (simp_all add: s3_def s2_def round_def s1_def s0)
  moreover have "srv_step s3 s4" using srv_step.register [of s3 "[]" 1 "[2]" 1] f by (simp add: s4_def)
  moreover have "srv_step s4 s5" using srv_step.register [of s4 "[]" 2 "[]" 2] by (simp add: s5_def s4_def)
  ultimately have "srv_reachable c s5" by (metis srv_reachable.step)
  moreover have "cf_MaxClients (sv_Config s5) < session_count s5"
  proof -
    have ids: "session_id 1 \<noteq> session_id 2" by code_simp
    have "dom (sv_Sessions s5) = {session_id 1, session_id 2}" by (auto simp: s5_def)
    moreover have "card {session_id 1, session_id 2} = 2" using ids by simp
    moreover have "cf_MaxClients (sv_Config s5) = 1" using f by (simp add: s5_def s4_def)
    ultimately show ?thesis by (simp add: session_count_def)
  qed
  ultimately show ?thesis by blast
qed

theorem mock_client_limit_race_witness:
  "\<exists>s. srv_reachable \<lparr>cf_Address = [], cf_Port = 1, cf_Protocol = [], cf_MaxClients = 1, cf_Timeout = 1\<rparr> s
    \<and> cf_MaxClients (sv_Config s) < session_count s"
  by (rule mock_client_limit_race) simp

text \<open>
  With the default handlers the server answers heartbeats, data requests and queries with
  their fixed texts, every other type with an error text, and buffers below 24 bytes with
  nothing; one buffer is one message, so a second message in it is read as payload.
\<close>
theorem mock_default_replies:
  "handle_message default_handlers now data =
     (if length data < 24 then []
      else [replicate 24 0 @ bytes_of (if data ! 6 = 0x01 then ''pong'' else if data ! 6 = 0x02 then ''data response''
              else if data ! 6 = 0x05 then ''query result'' else ''unknown message type'')])"
  by (simp add: handle_message_def default_handlers_def reply_def send_message_def send_error_def
      parse_message_def Let_def)

end
