(* ===== verification/GoSys.thy ===== *)
theory GoSys
  imports GoText "HOL-Library.Signed_Division"
begin

text \<open>
  What the harness uses of the packages \<open>time\<close>, \<open>path/filepath\<close> and \<open>os\<close>: instants with the
  offset of their zone and the layouts they are printed in, lexical path functions (Unix), and
  files as the answers of the operating system to a directory creation and a write.
\<close>

subsection \<open>Text with line breaks and quotes\<close>

definition nl :: string where "nl = [CHR 0x0A]"

definition dq :: string where "dq = [CHR 0x22]"

definition quoted :: "string \<Rightarrow> string" where
  "quoted s = dq @ s @ dq"

text \<open>The check mark and the ballot cross, three UTF-8 bytes each.\<close>

definition tick :: string where "tick = [CHR 0xE2, CHR 0x9C, CHR 0x93]"

definition cross :: string where "cross = [CHR 0xE2, CHR 0x9C, CHR 0x97]"

subsection \<open>Instants\<close>

text \<open>Seconds since 1970-01-01 UTC, nanoseconds within the second, zone offset in seconds.\<close>

record go_time =
  t_Unix :: int
  t_Nano :: int
  t_Offset :: int

definition epoch :: go_time where "epoch = \<lparr>t_Unix = 0, t_Nano = 0, t_Offset = 0\<rparr>"

definition day_ns :: int where "day_ns = 24 * 3600 * 1000000000"

text \<open>The proleptic Gregorian date of a day count since 1970-01-01.\<close>

definition civil_of_days :: "int \<Rightarrow> int \<times> int \<times> int" where
  "civil_of_days z =
     (let z' = z + 719468; era = z' div 146097; doe = z' mod 146097;
          yoe = (doe - doe div 1460 + doe div 36524 - doe div 146096) div 365;
          doy = doe - (365 * yoe + yoe div 4 - yoe div 100);
          mp = (5 * doy + 2) div 153; d = doy - (153 * mp + 2) div 5 + 1;
          m = (if mp < 10 then mp + 3 else mp - 9); y = yoe + era * 400
      in (if m \<le> 2 then y + 1 else y, m, d))"

definition days_of_civil :: "int \<Rightarrow> int \<Rightarrow> int \<Rightarrow> int" where
  "days_of_civil y m d =
     (let y' = (if m \<le> 2 then y - 1 else y); era = y' div 400; yoe = y' mod 400;
          doy = (153 * (if m > 2 then m - 3 else m + 9) + 2) div 5 + d - 1;
          doe = yoe * 365 + yoe div 4 - yoe div 100 + doy
      in era * 146097 + doe - 719468)"

definition local_secs :: "go_time \<Rightarrow> int" where
  "local_secs t = t_Unix t + t_Offset t"

definition fmt_date :: "go_time \<Rightarrow> string" where
  "fmt_date t = (case civil_of_days (local_secs t div 86400) of (y, m, d) \<Rightarrow>
     fmt_0d 4 y @ ''-'' @ fmt_0d 2 m @ ''-'' @ fmt_0d 2 d)"

definition fmt_clock :: "go_time \<Rightarrow> string" where
  "fmt_clock t = (let s = local_secs t mod 86400 in
     fmt_0d 2 (s div 3600) @ '':'' @ fmt_0d 2 (s div 60 mod 60) @ '':'' @ fmt_0d 2 (s mod 60))"

text \<open>The layouts \<open>2006-01-02 15:04:05\<close> and \<open>time.RFC3339\<close>.\<close>

definition fmt_datetime :: "go_time \<Rightarrow> string" where
  "fmt_datetime t = fmt_date t @ '' '' @ fmt_clock t"

definition fmt_zone :: "int \<Rightarrow> string" where
  "fmt_zone off =
     (if off = 0 then ''Z''
      else let m = \<bar>off\<bar> div 60 in
        (if off < 0 then ''-'' else ''+'') @ fmt_0d 2 (m div 60) @ '':'' @ fmt_0d 2 (m mod 60))"

definition fmt_rfc3339 :: "go_time \<Rightarrow> string" where
  "fmt_rfc3339 t = fmt_date t @ ''T'' @ fmt_clock t @ fmt_zone (t_Offset t)"

text \<open>\<open>Duration.Seconds\<close>, on nanoseconds.\<close>

definition seconds :: "int \<Rightarrow> f64" where
  "seconds d = of_int64 (d sdiv 1000000000) + of_int64 (d smod 1000000000) / Fin 1000000000"

subsection \<open>Paths\<close>

text \<open>\<open>filepath.Clean\<close> on the elements between the slashes; \<open>Dir\<close> and \<open>Join\<close>.\<close>

fun clean_elems :: "bool \<Rightarrow> string list \<Rightarrow> string list \<Rightarrow> string list" where
  "clean_elems rooted out [] = rev out"
| "clean_elems rooted out (e # es) =
     (if e = [] \<or> e = ''.'' then clean_elems rooted out es
      else if e = ''..'' then
        (case out of
           [] \<Rightarrow> clean_elems rooted (if rooted then [] else [''..'']) es
         | o1 # os \<Rightarrow> clean_elems rooted (if o1 = ''..'' then ''..'' # out else os) es)
      else clean_elems rooted (e # out) es)"

definition path_clean :: "string \<Rightarrow> string" where
  "path_clean p =
     (let rooted = (p \<noteq> [] \<and> hd p = CHR ''/'');
          body = join_with ''/'' (clean_elems rooted [] (split_on CHR ''/'' p))
      in if rooted then ''/'' @ body else if body = [] then ''.'' else body)"

definition path_dir :: "string \<Rightarrow> string" where
  "path_dir p = path_clean (rev (dropWhile (\<lambda>c. c \<noteq> CHR ''/'') (rev p)))"

definition path_join :: "string list \<Rightarrow> string" where
  "path_join es = (let ne = filter (\<lambda>e. e \<noteq> []) es in if ne = [] then [] else path_clean (join_with ''/'' ne))"

subsection \<open>Files\<close>

text \<open>
  The answers of the system: an error text of \<open>MkdirAll\<close> on a directory, of a write on a path.
  An operation that writes one file returns its error and the file written, if any.
\<close>

record os_answers =
  os_mkdir :: "string \<Rightarrow> string option"
  os_write :: "string \<Rightarrow> string option"

type_synonym file_result = "string option \<times> (string \<times> string) option"

definition write_file :: "os_answers \<Rightarrow> string \<Rightarrow> string \<Rightarrow> file_result" where
  "write_file os path content = (case os_write os path of
     Some e \<Rightarrow> (Some e, None) | None \<Rightarrow> (None, Some (path, content)))"

text \<open>A system that lets the program write wherever it wants.\<close>

definition willing :: "os_answers \<Rightarrow> bool" where
  "willing os \<longleftrightarrow> (\<forall>p. os_mkdir os p = None \<and> os_write os p = None)"

subsection \<open>Lemmas\<close>

lemma length_quoted [simp]: "length (quoted s) = length s + 2"
  by (simp add: quoted_def dq_def)

lemma quoted_inject [simp]: "quoted s = quoted t \<longleftrightarrow> s = t"
  by (simp add: quoted_def)

lemma write_file_error: "fst (write_file os p c) = os_write os p"
  by (simp add: write_file_def split: option.splits)

lemma write_file_content: "snd (write_file os p c) = Some f \<Longrightarrow> f = (p, c)"
  by (simp add: write_file_def split: option.splits)

lemma write_file_cases: "write_file os p c = (e, f) \<Longrightarrow> e = None \<and> f = Some (p, c) \<or> (\<exists>x. e = Some x) \<and> f = None"
  by (cases "os_write os p") (simp_all add: write_file_def, metis)

lemma days_of_civil_epoch: "days_of_civil 1970 1 1 = 0" "civil_of_days 0 = (1970, 1, 1)"
  by code_simp+

lemma clean_elems_kept: "\<forall>e \<in> set es. e \<noteq> [] \<and> e \<noteq> ''.'' \<and> e \<noteq> ''..'' \<Longrightarrow>
    clean_elems r out es = rev out @ es"
  by (induction r out es rule: clean_elems.induct) auto

lemma path_join_two:
  assumes "a \<noteq> []" "b \<noteq> []" "CHR ''/'' \<notin> set a" "CHR ''/'' \<notin> set b"
    and "a \<noteq> ''.''" "a \<noteq> ''..''" "b \<noteq> ''.''" "b \<noteq> ''..''"
  shows "path_join [a, b] = a @ ''/'' @ b"
proof -
  have "hd a \<noteq> CHR ''/''" using assms(1,3) hd_in_set by metis
  moreover have "split_on CHR ''/'' (a @ CHR ''/'' # b) = [a, b]"
    using assms by (simp add: split_on_append split_on_noop)
  moreover have "clean_elems False [] [a, b] = [a, b]" using assms by (subst clean_elems_kept) auto
  ultimately show ?thesis using assms by (simp add: path_join_def path_clean_def)
qed

end
