(* ===== verification/GoUtf8.thy ===== *)
theory GoUtf8
  imports GoSys
begin

text \<open>
  UTF-8 as \<open>unicode/utf8\<close> reads and writes it: how many bytes of a text make its first
  character (none when they are no UTF-8), a text with its invalid bytes replaced, and the bytes
  of a code point.
\<close>

definition is_tail :: "char \<Rightarrow> bool" where
  "is_tail c \<longleftrightarrow> 0x80 \<le> (of_char c :: nat) \<and> (of_char c :: nat) \<le> 0xBF"

text \<open>The length a first byte announces.\<close>

definition utf8_need :: "char \<Rightarrow> nat" where
  "utf8_need c = (let n = of_char c :: nat in
     if n < 0x80 then 1
     else if 0xC2 \<le> n \<and> n \<le> 0xDF then 2
     else if 0xE0 \<le> n \<and> n \<le> 0xEF then 3
     else if 0xF0 \<le> n \<and> n \<le> 0xF4 then 4
     else 0)"

text \<open>The second bytes that would make an overlong form, a surrogate or a number beyond the last code point.\<close>

definition second_ok :: "char \<Rightarrow> char \<Rightarrow> bool" where
  "second_ok c b = (let n = of_char c :: nat; m = of_char b :: nat in
     (n = 0xE0 \<longrightarrow> 0xA0 \<le> m) \<and> (n = 0xED \<longrightarrow> m \<le> 0x9F) \<and> (n = 0xF0 \<longrightarrow> 0x90 \<le> m) \<and> (n = 0xF4 \<longrightarrow> m \<le> 0x8F))"

definition utf8_len :: "string \<Rightarrow> nat" where
  "utf8_len s = (case s of [] \<Rightarrow> 0
     | c # cs \<Rightarrow> (let k = utf8_need c in
         if k \<le> length s \<and> list_all is_tail (take (k - 1) cs) \<and> (2 \<le> k \<longrightarrow> second_ok c (hd cs)) then k else 0))"

text \<open>The replacement character.\<close>

definition rune_error :: string where "rune_error = [CHR 0xEF, CHR 0xBF, CHR 0xBD]"

function utf8_clean :: "string \<Rightarrow> string" where
  "utf8_clean [] = []"
| "utf8_clean (c # cs) = (case utf8_len (c # cs) of
       0 \<Rightarrow> rune_error @ utf8_clean cs
     | Suc m \<Rightarrow> c # take m cs @ utf8_clean (drop m cs))"
  by pat_completeness auto

termination by (relation "measure length") auto

text \<open>The characters of a text, as \<open>range\<close> finds them; an invalid byte is a replacement character.\<close>

function runes :: "string \<Rightarrow> string list" where
  "runes [] = []"
| "runes (c # cs) = (case utf8_len (c # cs) of
       0 \<Rightarrow> rune_error # runes cs
     | Suc m \<Rightarrow> (c # take m cs) # runes (drop m cs))"
  by pat_completeness auto

termination by (relation "measure length") auto

definition utf8_encode :: "nat \<Rightarrow> string" where
  "utf8_encode r =
     (if r < 0x80 then [char_of r]
      else if r < 0x800 then [char_of (0xC0 + r div 64), char_of (0x80 + r mod 64)]
      else if 0xD800 \<le> r \<and> r \<le> 0xDFFF \<or> 0x10FFFF < r then rune_error
      else if r < 0x10000 then [char_of (0xE0 + r div 4096), char_of (0x80 + r div 64 mod 64), char_of (0x80 + r mod 64)]
      else [char_of (0xF0 + r div 262144), char_of (0x80 + r div 4096 mod 64), char_of (0x80 + r div 64 mod 64), char_of (0x80 + r mod 64)])"

subsection \<open>Lemmas\<close>

lemma utf8_len_le: "utf8_len s \<le> length s"
  by (cases s) (simp_all add: utf8_len_def Let_def)

lemma utf8_len_ascii: "(of_char c :: nat) < 128 \<Longrightarrow> utf8_len (c # cs) = 1"
  by (simp add: utf8_len_def utf8_need_def)

lemma utf8_len_bytes:
  assumes "utf8_len (c # cs) = Suc m"
  shows "m \<le> length cs" "list_all is_tail (take m cs)" "utf8_need c = Suc m"
  using assms by (auto simp: utf8_len_def Let_def split: if_splits)

lemma hd_take_append: "0 < m \<Longrightarrow> hd (take m xs @ ys) = (if xs = [] then hd ys else hd xs)"
  by (cases xs; cases m) auto

text \<open>The bytes of a character are read the same in front of any other text.\<close>

lemma utf8_len_prefix:
  assumes "utf8_len (c # cs) = Suc m"
  shows "utf8_len (c # take m cs @ t) = Suc m"
proof -
  note b = utf8_len_bytes [OF assms]
  have "second_ok c (hd (take m cs @ t))" if "0 < m"
  proof -
    have "cs \<noteq> []" using b(1) that by auto
    then show ?thesis using assms that b(3) by (simp add: hd_take_append) (simp add: utf8_len_def Let_def split: if_splits)
  qed
  then show ?thesis using b by (simp add: utf8_len_def Let_def)
qed

text \<open>A byte that continues no character ends one.\<close>

lemma utf8_len_stop:
  assumes "\<not> is_tail q"
  shows "utf8_len ((c # cs) @ q # t) = utf8_len (c # cs)"
proof -
  have tails: "list_all is_tail (take m (cs @ q # t)) \<longleftrightarrow> m \<le> length cs \<and> list_all is_tail (take m cs)" for m
  proof (cases "m \<le> length cs")
    case False
    then have "q \<in> set (take m (cs @ q # t))" by (auto simp: take_Cons')
    then show ?thesis using False assms by (auto simp: list_all_iff)
  qed simp
  have "hd (cs @ q # t) = hd cs" if "2 \<le> k" "k - 1 \<le> length cs" for k :: nat using that by (cases cs) auto
  then show ?thesis by (auto simp: utf8_len_def Let_def tails simp del: take_append)
qed

lemma utf8_clean_ascii: "list_all (\<lambda>c. (of_char c :: nat) < 128) s \<Longrightarrow> utf8_clean s = s"
  by (induction s) (auto simp: utf8_len_ascii)

lemma utf8_len_error: "utf8_len (rune_error @ t) = 3"
  by (simp add: rune_error_def utf8_len_def utf8_need_def second_ok_def is_tail_def numeral_eq_Suc)

text \<open>Cleaning gives UTF-8: it changes nothing any more.\<close>

lemma utf8_clean_idem: "utf8_clean (utf8_clean s) = utf8_clean s"
proof (induction s rule: utf8_clean.induct)
  case (2 c cs)
  show ?case
  proof (cases "utf8_len (c # cs)")
    case 0
    then have "utf8_clean (c # cs) = rune_error @ utf8_clean cs" by simp
    moreover have "utf8_clean (rune_error @ t) = rune_error @ utf8_clean t" for t
      using utf8_len_error [of t] by (simp add: rune_error_def numeral_eq_Suc)
    ultimately show ?thesis using 2(1) 0 by simp
  next
    case (Suc m)
    let ?t = "utf8_clean (drop m cs)"
    have m: "m \<le> length cs" using utf8_len_bytes(1) [OF Suc] .
    have "utf8_clean (c # take m cs @ ?t) = c # take m (take m cs @ ?t) @ utf8_clean (drop m (take m cs @ ?t))"
      using utf8_len_prefix [OF Suc, of ?t] by simp
    then show ?thesis using Suc 2(2) [OF Suc] m by simp
  qed
qed simp

text \<open>Of the bytes of a character only a single one is ASCII.\<close>

definition rune_ok :: "string \<Rightarrow> bool" where
  "rune_ok r \<longleftrightarrow> (\<exists>c. r = [c] \<and> (of_char c :: nat) < 128) \<or> r \<noteq> [] \<and> list_all (\<lambda>c. 128 \<le> (of_char c :: nat)) r"

lemma rune_ok_error: "rune_ok rune_error"
  by (simp add: rune_ok_def rune_error_def)

lemma runes_ok: "r \<in> set (runes s) \<Longrightarrow> rune_ok r"
proof (induction s rule: runes.induct)
  case (2 c cs)
  show ?case
  proof (cases "utf8_len (c # cs)")
    case 0
    then show ?thesis using 2 rune_ok_error by auto
  next
    case (Suc m)
    note b = utf8_len_bytes [OF Suc]
    have "rune_ok (c # take m cs)"
    proof (cases m)
      case 0
      then show ?thesis using b(3) by (auto simp: rune_ok_def utf8_need_def Let_def split: if_splits)
    next
      case (Suc j)
      then have "128 \<le> (of_char c :: nat)" using b(3) by (auto simp: utf8_need_def Let_def split: if_splits)
      moreover have "list_all (\<lambda>c. 128 \<le> (of_char c :: nat)) (take m cs)"
        using b(2) by (rule list.pred_mono_strong) (simp add: is_tail_def)
      ultimately show ?thesis by (simp add: rune_ok_def)
    qed
    then show ?thesis using 2 Suc by auto
  qed
qed simp

lemma concat_runes: "concat (runes s) = utf8_clean s"
  by (induction s rule: runes.induct) (simp_all split: nat.splits)

end
