(* ===== verification/GoJson.thy ===== *)
theory GoJson
  imports GoUtf8
begin

text \<open>
  The package \<open>encoding/json\<close> as the program uses it (the release of its \<^verbatim>\<open>go.mod\<close>, 1.21): the text
  of a tree of values, compact (\<open>Marshal\<close>) and indented by two spaces (\<open>MarshalIndent\<close>), with
  the escapes of its HTML-safe mode, and the parser. The theorem of this theory is that the
  parser reads back every text the encoder writes.
\<close>

subsection \<open>Trees\<close>

text \<open>Numbers are their literals; the members of an object are in the order of the text.\<close>

datatype jtree =
    TNull
  | TBool bool
  | TNum string
  | TStr string
  | TArr "jtree list"
  | TObj "(string \<times> jtree) list"

subsection \<open>Strings\<close>

definition hex4 :: "nat \<Rightarrow> string" where
  "hex4 n = [hex_digit (n div 4096 mod 16), hex_digit (n div 256 mod 16), hex_digit (n div 16 mod 16), hex_digit (n mod 16)]"

definition bs :: string where "bs = [CHR 0x5C]"

definition esc_ascii :: "char \<Rightarrow> string" where
  "esc_ascii c =
     (if c = CHR 0x22 \<or> c = CHR 0x5C then bs @ [c]
      else if c = CHR 0x0A then bs @ ''n''
      else if c = CHR 0x0D then bs @ ''r''
      else if c = CHR 0x09 then bs @ ''t''
      else if (of_char c :: nat) < 32 \<or> c = CHR ''<'' \<or> c = CHR ''>'' \<or> c = CHR ''&'' then bs @ ''u'' @ hex4 (of_char c)
      else [c])"

text \<open>The line separators U+2028 and U+2029 are escaped, invalid bytes become the replacement character.\<close>

definition esc_rune :: "string \<Rightarrow> string" where
  "esc_rune r = (if r = [CHR 0xE2, CHR 0x80, CHR 0xA8] then bs @ ''u2028''
     else if r = [CHR 0xE2, CHR 0x80, CHR 0xA9] then bs @ ''u2029'' else r)"

function json_esc :: "string \<Rightarrow> string" where
  "json_esc [] = []"
| "json_esc (c # cs) =
     (if (of_char c :: nat) < 128 then esc_ascii c @ json_esc cs
      else (case utf8_len (c # cs) of
          0 \<Rightarrow> bs @ ''ufffd'' @ json_esc cs
        | Suc m \<Rightarrow> esc_rune (c # take m cs) @ json_esc (drop m cs)))"
  by pat_completeness auto

termination by (relation "measure length") auto

definition json_string :: "string \<Rightarrow> string" where
  "json_string s = dq @ json_esc s @ dq"

subsection \<open>Encoding\<close>

text \<open>A line break and the indentation of a depth; nothing in the compact form.\<close>

definition brk :: "bool \<Rightarrow> nat \<Rightarrow> string" where
  "brk ind d = (if ind then nl @ replicate (2 * d) CHR '' '' else [])"

fun render :: "bool \<Rightarrow> nat \<Rightarrow> jtree \<Rightarrow> string"
  and render_rest :: "bool \<Rightarrow> nat \<Rightarrow> jtree list \<Rightarrow> string"
  and render_members :: "bool \<Rightarrow> nat \<Rightarrow> (string \<times> jtree) list \<Rightarrow> string" where
  "render ind d TNull = ''null''"
| "render ind d (TBool b) = fmt_t b"
| "render ind d (TNum s) = s"
| "render ind d (TStr s) = json_string s"
| "render ind d (TArr vs) = (case vs of [] \<Rightarrow> ''[]''
     | w # ws \<Rightarrow> ''['' @ brk ind (Suc d) @ render ind (Suc d) w @ render_rest ind (Suc d) ws @ brk ind d @ '']'')"
| "render ind d (TObj ms) = (case ms of [] \<Rightarrow> ''{}''
     | (k, w) # ns \<Rightarrow> ''{'' @ brk ind (Suc d) @ json_string k @ (if ind then '': '' else '':'') @ render ind (Suc d) w
         @ render_members ind (Suc d) ns @ brk ind d @ ''}'')"
| "render_rest ind d [] = []"
| "render_rest ind d (v # vs) = '','' @ brk ind d @ render ind d v @ render_rest ind d vs"
| "render_members ind d [] = []"
| "render_members ind d ((k, v) # ms) = '','' @ brk ind d @ json_string k @ (if ind then '': '' else '':'') @ render ind d v
     @ render_members ind d ms"

definition json_compact :: "jtree \<Rightarrow> string" where
  "json_compact = render False 0"

definition json_indented :: "jtree \<Rightarrow> string" where
  "json_indented = render True 0"

subsection \<open>Parsing\<close>

definition hex_val :: "char \<Rightarrow> nat option" where
  "hex_val c = (let n = of_char c :: nat in
     if 48 \<le> n \<and> n \<le> 57 then Some (n - 48)
     else if 97 \<le> n \<and> n \<le> 102 then Some (n - 87)
     else if 65 \<le> n \<and> n \<le> 70 then Some (n - 55)
     else None)"

fun read_hex4 :: "string \<Rightarrow> (nat \<times> string) option" where
  "read_hex4 (a # b # c # d # r) = (case (hex_val a, hex_val b, hex_val c, hex_val d) of
     (Some p, Some q, Some s, Some t) \<Rightarrow> Some (p * 4096 + q * 256 + s * 16 + t, r) | _ \<Rightarrow> None)"
| "read_hex4 _ = None"

text \<open>A low surrogate that follows, escaped.\<close>

definition read_low :: "string \<Rightarrow> (nat \<times> string) option" where
  "read_low r = (case r of b # u # r' \<Rightarrow>
       (if b = CHR 0x5C \<and> u = CHR ''u''
        then (case read_hex4 r' of Some (n, r'') \<Rightarrow> if 0xDC00 \<le> n \<and> n < 0xE000 then Some (n, r'') else None | None \<Rightarrow> None)
        else None)
     | _ \<Rightarrow> None)"

text \<open>What follows a backslash: the bytes it stands for.\<close>

definition unescape :: "string \<Rightarrow> (string \<times> string) option" where
  "unescape s = (case s of [] \<Rightarrow> None
     | c # r \<Rightarrow>
         if c = CHR 0x22 \<or> c = CHR 0x5C \<or> c = CHR ''/'' then Some ([c], r)
         else if c = CHR ''n'' then Some ([CHR 0x0A], r)
         else if c = CHR ''r'' then Some ([CHR 0x0D], r)
         else if c = CHR ''t'' then Some ([CHR 0x09], r)
         else if c = CHR ''b'' then Some ([CHR 0x08], r)
         else if c = CHR ''f'' then Some ([CHR 0x0C], r)
         else if c = CHR ''u'' then (case read_hex4 r of None \<Rightarrow> None
           | Some (n, r') \<Rightarrow>
               if 0xD800 \<le> n \<and> n < 0xDC00
               then (case read_low r' of Some (m, r'') \<Rightarrow> Some (utf8_encode (0x10000 + (n - 0xD800) * 0x400 + (m - 0xDC00)), r'')
                      | None \<Rightarrow> Some (rune_error, r'))
               else Some (utf8_encode n, r'))
         else None)"

lemma read_hex4_length: "read_hex4 s = Some (n, r) \<Longrightarrow> length r < length s"
  by (induction s rule: read_hex4.induct) (auto split: option.splits)

lemma unescape_length: "unescape s = Some (t, r) \<Longrightarrow> length r < length s"
  by (cases s) (auto simp: unescape_def read_low_def dest!: read_hex4_length split: if_splits option.splits list.splits)

text \<open>The rest of a string after its opening quote, and the text after its closing one.\<close>

function json_str :: "string \<Rightarrow> (string \<times> string) option" where
  "json_str [] = None"
| "json_str (c # cs) =
     (if c = CHR 0x22 then Some ([], cs)
      else if c = CHR 0x5C then (case unescape cs of None \<Rightarrow> None
          | Some (t, r) \<Rightarrow> map_option (\<lambda>(u, r'). (t @ u, r')) (json_str r))
      else if (of_char c :: nat) < 32 then None
      else (case utf8_len (c # cs) of
          0 \<Rightarrow> map_option (\<lambda>(u, r'). (rune_error @ u, r')) (json_str cs)
        | Suc m \<Rightarrow> map_option (\<lambda>(u, r'). (c # take m cs @ u, r')) (json_str (drop m cs))))"
  by pat_completeness auto

termination by (relation "measure length") (auto dest: unescape_length)

text \<open>Numbers: an integer without leading zeros, a fraction, an exponent, each with its digits.\<close>

definition json_int :: "string \<Rightarrow> (string \<times> string) option" where
  "json_int s =
     (let sg = (if s \<noteq> [] \<and> hd s = CHR ''-'' then ''-'' else []); r = drop (length sg) s; ds = takeWhile is_digit r
      in if ds = [] then None
         else if hd ds = CHR ''0'' then Some (sg @ ''0'', tl r)
         else Some (sg @ ds, dropWhile is_digit r))"

definition json_frac :: "string \<Rightarrow> (string \<times> string) option" where
  "json_frac s =
     (if s = [] \<or> hd s \<noteq> CHR ''.'' then Some ([], s)
      else (let ds = takeWhile is_digit (tl s) in if ds = [] then None else Some (''.'' @ ds, dropWhile is_digit (tl s))))"

definition json_exp :: "string \<Rightarrow> (string \<times> string) option" where
  "json_exp s =
     (if s = [] \<or> hd s \<notin> {CHR ''e'', CHR ''E''} then Some ([], s)
      else (let r = tl s; sg = (if r \<noteq> [] \<and> hd r \<in> {CHR ''+'', CHR ''-''} then [hd r] else []);
                r' = drop (length sg) r; ds = takeWhile is_digit r'
            in if ds = [] then None else Some (hd s # sg @ ds, dropWhile is_digit r')))"

definition json_num :: "string \<Rightarrow> (string \<times> string) option" where
  "json_num s = (case json_int s of None \<Rightarrow> None
     | Some (a, s1) \<Rightarrow> (case json_frac s1 of None \<Rightarrow> None
         | Some (b, s2) \<Rightarrow> map_option (\<lambda>(c, s3). (a @ b @ c, s3)) (json_exp s2)))"

definition json_ws :: "char \<Rightarrow> bool" where
  "json_ws c \<longleftrightarrow> c \<in> {CHR '' '', CHR 0x09, CHR 0x0A, CHR 0x0D}"

abbreviation skip_ws :: "string \<Rightarrow> string" where
  "skip_ws \<equiv> dropWhile json_ws"

text \<open>
  Values, the elements of an array after its bracket, and the members of an object. The number
  bounds the depth of the calls: every call but the one for the first element or member reads a
  byte before, so twice the length of the text is enough. (The limit of 10000 levels of nesting
  is left out.)
\<close>

fun parse_value :: "nat \<Rightarrow> string \<Rightarrow> (jtree \<times> string) option"
  and parse_elements :: "nat \<Rightarrow> string \<Rightarrow> (jtree list \<times> string) option"
  and parse_members :: "nat \<Rightarrow> string \<Rightarrow> ((string \<times> jtree) list \<times> string) option" where
  "parse_value 0 s = None"
| "parse_value (Suc n) s = (case skip_ws s of [] \<Rightarrow> None
     | c # r \<Rightarrow>
         if c = CHR 0x22 then map_option (\<lambda>(u, t). (TStr u, t)) (json_str r)
         else if c = CHR ''['' then
           (if skip_ws r \<noteq> [] \<and> hd (skip_ws r) = CHR '']'' then Some (TArr [], tl (skip_ws r))
            else map_option (\<lambda>(vs, t). (TArr vs, t)) (parse_elements n r))
         else if c = CHR ''{'' then
           (if skip_ws r \<noteq> [] \<and> hd (skip_ws r) = CHR ''}'' then Some (TObj [], tl (skip_ws r))
            else map_option (\<lambda>(ms, t). (TObj ms, t)) (parse_members n r))
         else if prefix ''null'' (c # r) then Some (TNull, drop 3 r)
         else if prefix ''true'' (c # r) then Some (TBool True, drop 3 r)
         else if prefix ''false'' (c # r) then Some (TBool False, drop 4 r)
         else map_option (\<lambda>(l, t). (TNum l, t)) (json_num (c # r)))"
| "parse_elements 0 s = None"
| "parse_elements (Suc n) s = (case parse_value n s of None \<Rightarrow> None
     | Some (v, r) \<Rightarrow> (case skip_ws r of [] \<Rightarrow> None
         | c # t \<Rightarrow> if c = CHR '','' then map_option (\<lambda>(vs, u). (v # vs, u)) (parse_elements n t)
                   else if c = CHR '']'' then Some ([v], t) else None))"
| "parse_members 0 s = None"
| "parse_members (Suc n) s = (case skip_ws s of [] \<Rightarrow> None
     | q # r0 \<Rightarrow> if q \<noteq> CHR 0x22 then None else (case json_str r0 of None \<Rightarrow> None
         | Some (k, r1) \<Rightarrow> (case skip_ws r1 of [] \<Rightarrow> None
             | d # r2 \<Rightarrow> if d \<noteq> CHR '':'' then None else (case parse_value n r2 of None \<Rightarrow> None
                 | Some (v, r) \<Rightarrow> (case skip_ws r of [] \<Rightarrow> None
                     | c # t \<Rightarrow> if c = CHR '','' then map_option (\<lambda>(ms, u). ((k, v) # ms, u)) (parse_members n t)
                               else if c = CHR ''}'' then Some ([(k, v)], t) else None)))))"

definition parse_json :: "string \<Rightarrow> jtree option" where
  "parse_json s = (case parse_value (2 * length s + 1) s of None \<Rightarrow> None
     | Some (v, r) \<Rightarrow> if skip_ws r = [] then Some v else None)"

subsection \<open>Strings read back\<close>

lemma of_char_hex_digit: "d < 16 \<Longrightarrow> (of_char (hex_digit d) :: nat) = (if d < 10 then 48 + d else 87 + d)"
  by (simp add: hex_digit_def of_char_digit)

lemma hex_val_hex_digit: "d < 16 \<Longrightarrow> hex_val (hex_digit d) = Some d"
  by (simp add: hex_val_def of_char_hex_digit)

lemma read_hex4_hex4: "n < 65536 \<Longrightarrow> read_hex4 (hex4 n @ t) = Some (n, t)"
proof -
  assume n: "n < 65536"
  define a b c where "a = n div 16" and "b = a div 16" and "c = b div 16"
  have "n div 256 = b" "n div 4096 = c" by (simp_all add: a_def b_def c_def div_mult2_eq [symmetric])
  moreover have "c < 16" using n by (simp add: a_def b_def c_def div_mult2_eq [symmetric] less_mult_imp_div_less)
  moreover have "a * 16 + n mod 16 = n" "b * 16 + a mod 16 = a" "c * 16 + b mod 16 = b"
    by (simp_all add: a_def b_def c_def)
  ultimately have "n div 4096 mod 16 * 4096 + n div 256 mod 16 * 256 + n div 16 mod 16 * 16 + n mod 16 = n"
    by (simp flip: a_def)
  moreover have "read_hex4 ([hex_digit p, hex_digit q, hex_digit i, hex_digit j] @ t) = Some (p * 4096 + q * 256 + i * 16 + j, t)"
    if "p < 16" "q < 16" "i < 16" "j < 16" for p q i j
    using that by (simp add: hex_val_hex_digit)
  ultimately show ?thesis unfolding hex4_def by (metis mod_less_divisor zero_less_numeral)
qed

abbreviation prepend :: "string \<Rightarrow> (string \<times> string) option \<Rightarrow> (string \<times> string) option" where
  "prepend u \<equiv> map_option (\<lambda>(v, r). (u @ v, r))"

lemma json_str_unescape: "unescape (x @ t) = Some (u, t) \<Longrightarrow> json_str (bs @ x @ t) = prepend u (json_str t)"
  by (simp add: bs_def)

lemma char_eq_of_char: "(of_char c :: nat) = n \<Longrightarrow> c = char_of n"
  by auto

lemma json_str_ascii:
  assumes "(of_char c :: nat) < 128"
  shows "json_str (esc_ascii c @ t) = prepend [c] (json_str t)"
proof -
  have u: "unescape ((''u'' @ hex4 (of_char c)) @ t) = Some ([c], t)"
    using assms read_hex4_hex4 [of "of_char c" t] by (simp add: unescape_def utf8_encode_def)
  consider (quote) "c = CHR 0x22 \<or> c = CHR 0x5C" | (nlc) "c = CHR 0x0A" | (cr) "c = CHR 0x0D" | (tab) "c = CHR 0x09"
    | (hex) "\<not> (c = CHR 0x22 \<or> c = CHR 0x5C)" "c \<noteq> CHR 0x0A" "c \<noteq> CHR 0x0D" "c \<noteq> CHR 0x09"
        "(of_char c :: nat) < 32 \<or> c = CHR ''<'' \<or> c = CHR ''>'' \<or> c = CHR ''&''"
    | (plain) "\<not> (c = CHR 0x22 \<or> c = CHR 0x5C)" "c \<noteq> CHR 0x0A" "c \<noteq> CHR 0x0D" "c \<noteq> CHR 0x09"
        "\<not> ((of_char c :: nat) < 32 \<or> c = CHR ''<'' \<or> c = CHR ''>'' \<or> c = CHR ''&'')"
    by blast
  then show ?thesis
  proof cases
    case quote
    then show ?thesis using json_str_unescape [of "[c]" t "[c]"] by (auto simp: esc_ascii_def unescape_def)
  next
    case nlc
    then show ?thesis using json_str_unescape [of "''n''" t "[c]"] by (simp add: esc_ascii_def unescape_def)
  next
    case cr
    then show ?thesis using json_str_unescape [of "''r''" t "[c]"] by (simp add: esc_ascii_def unescape_def)
  next
    case tab
    then show ?thesis using json_str_unescape [of "''t''" t "[c]"] by (simp add: esc_ascii_def unescape_def)
  next
    case hex
    then have "esc_ascii c = bs @ ''u'' @ hex4 (of_char c)" by (simp add: esc_ascii_def)
    then show ?thesis using json_str_unescape [OF u] by simp
  next
    case plain
    then have "esc_ascii c = [c]" by (simp add: esc_ascii_def)
    moreover have "json_str (c # t) = prepend [c] (json_str t)" using plain utf8_len_ascii [OF assms, of t] by simp
    ultimately show ?thesis by simp
  qed
qed

lemma rune_chars:
  "char_of (226::nat) = CHR 0xE2" "char_of (128::nat) = CHR 0x80" "char_of (168::nat) = CHR 0xA8" "char_of (169::nat) = CHR 0xA9"
  "char_of (239::nat) = CHR 0xEF" "char_of (191::nat) = CHR 0xBF" "char_of (189::nat) = CHR 0xBD"
  by code_simp+

lemma json_str_rune:
  assumes "\<not> (of_char c :: nat) < 128" "utf8_len (c # cs) = Suc m"
  shows "json_str (esc_rune (c # take m cs) @ t) = prepend (c # take m cs) (json_str t)"
proof -
  have e: "utf8_encode 0x2028 = [CHR 0xE2, CHR 0x80, CHR 0xA8]" "utf8_encode 0x2029 = [CHR 0xE2, CHR 0x80, CHR 0xA9]"
    by (simp_all add: utf8_encode_def rune_chars)
  have u: "unescape (''u2028'' @ t) = Some ([CHR 0xE2, CHR 0x80, CHR 0xA8], t)"
      "unescape (''u2029'' @ t) = Some ([CHR 0xE2, CHR 0x80, CHR 0xA9], t)"
    using e by (simp_all add: unescape_def hex_val_def)
  have "c \<noteq> CHR 0x22" "c \<noteq> CHR 0x5C" using assms(1) by auto
  then have "json_str ((c # take m cs) @ t) = prepend (c # take m cs) (json_str t)"
    using assms(1) utf8_len_prefix [OF assms(2), of t] utf8_len_bytes(1) [OF assms(2)] by simp
  then show ?thesis
    using json_str_unescape [OF u(1)] json_str_unescape [OF u(2)] by (auto simp: esc_rune_def)
qed

lemma json_str_esc: "json_str (json_esc s @ CHR 0x22 # rest) = Some (utf8_clean s, rest)"
proof (induction s rule: json_esc.induct)
  case (2 c cs)
  show ?case
  proof (cases "(of_char c :: nat) < 128")
    case True
    then show ?thesis using 2(1) json_str_ascii [OF True] utf8_len_ascii [OF True, of cs] by simp
  next
    case False
    have u: "unescape (''ufffd'' @ t) = Some (rune_error, t)" for t
      by (simp add: unescape_def hex_val_def utf8_encode_def rune_error_def rune_chars)
    show ?thesis
    proof (cases "utf8_len (c # cs)")
      case 0
      then show ?thesis using 2(2) False json_str_unescape [OF u] by simp
    next
      case (Suc m)
      then show ?thesis using 2(3) False json_str_rune [OF False Suc] by simp
    qed
  qed
qed simp

subsection \<open>Numbers read back\<close>

text \<open>What may follow a number without being taken for a part of it.\<close>

definition num_stop :: "string \<Rightarrow> bool" where
  "num_stop r \<longleftrightarrow> r = [] \<or> \<not> is_digit (hd r) \<and> hd r \<notin> {CHR ''.'', CHR ''e'', CHR ''E''}"

definition valid_num :: "string \<Rightarrow> bool" where
  "valid_num l \<longleftrightarrow> json_num l = Some (l, [])"

lemma digits_stop: "num_stop r \<Longrightarrow> takeWhile is_digit (s @ r) = takeWhile is_digit s \<and> dropWhile is_digit (s @ r) = dropWhile is_digit s @ r"
  by (induction s) (cases r; auto simp: num_stop_def)+

lemma json_int_stop: "json_int s = Some (a, t) \<Longrightarrow> num_stop r \<Longrightarrow> json_int (s @ r) = Some (a, t @ r)"
  using digits_stop [of r s] digits_stop [of r "tl s"]
  by (cases s; cases "tl s") (auto simp: json_int_def Let_def split: if_splits)

lemma json_frac_stop: "json_frac s = Some (a, t) \<Longrightarrow> num_stop r \<Longrightarrow> json_frac (s @ r) = Some (a, t @ r)"
  using digits_stop [of r "tl s"]
  by (cases s) (auto simp: json_frac_def Let_def num_stop_def split: if_splits)

lemma json_exp_stop: "json_exp s = Some (a, t) \<Longrightarrow> num_stop r \<Longrightarrow> json_exp (s @ r) = Some (a, t @ r)"
  using digits_stop [of r "tl s"] digits_stop [of r "tl (tl s)"]
  by (cases s; cases "tl s") (auto simp: json_exp_def Let_def num_stop_def split: if_splits)

lemma json_num_stop: "json_num s = Some (a, t) \<Longrightarrow> num_stop r \<Longrightarrow> json_num (s @ r) = Some (a, t @ r)"
  by (auto simp: json_num_def json_int_stop json_frac_stop json_exp_stop split: option.splits prod.splits)

lemma valid_num_read: "valid_num l \<Longrightarrow> num_stop r \<Longrightarrow> json_num (l @ r) = Some (l, r)"
  using json_num_stop [of l l "[]" r] by (simp add: valid_num_def)

lemma valid_num_hd:
  assumes "valid_num l"
  shows "l \<noteq> [] \<and> (is_digit (hd l) \<or> hd l = CHR ''-'')"
proof -
  obtain a t where i: "json_int l = Some (a, t)" using assms by (auto simp: valid_num_def json_num_def split: option.splits)
  show ?thesis
  proof (cases l)
    case Nil
    then show ?thesis using i by (simp add: json_int_def)
  next
    case (Cons c cs)
    have "is_digit c" if "c \<noteq> CHR ''-''" using i Cons that by (auto simp: json_int_def Let_def split: if_splits)
    then show ?thesis using Cons by auto
  qed
qed

subsection \<open>Trees read back\<close>

fun tree_ok :: "jtree \<Rightarrow> bool" where
  "tree_ok (TNum l) = valid_num l"
| "tree_ok (TArr vs) = list_all tree_ok vs"
| "tree_ok (TObj ms) = list_all (\<lambda>(_, v). tree_ok v) ms"
| "tree_ok _ = True"

text \<open>Strings come back in clean UTF-8.\<close>

fun tree_clean :: "jtree \<Rightarrow> jtree" where
  "tree_clean (TStr s) = TStr (utf8_clean s)"
| "tree_clean (TArr vs) = TArr (map tree_clean vs)"
| "tree_clean (TObj ms) = TObj (map (\<lambda>(k, v). (utf8_clean k, tree_clean v)) ms)"
| "tree_clean v = v"

abbreviation ws_text :: "string \<Rightarrow> bool" where
  "ws_text \<equiv> list_all json_ws"

lemma skip_ws_text: "ws_text w \<Longrightarrow> \<not> json_ws c \<Longrightarrow> skip_ws (w @ c # r) = c # r"
  by (induction w) auto

lemma skip_ws_append: "skip_ws s = c # r \<Longrightarrow> skip_ws (s @ t) = c # r @ t"
  by (induction s) (auto split: if_splits)

lemma brk_ws: "ws_text (brk ind d)"
  by (auto simp: brk_def nl_def json_ws_def list_all_iff)

lemma ws_stop: "ws_text w \<Longrightarrow> \<not> is_digit c \<Longrightarrow> c \<notin> {CHR ''.'', CHR ''e'', CHR ''E''} \<Longrightarrow> num_stop (w @ c # r)"
  by (cases w) (auto simp: num_stop_def json_ws_def is_digit_def)

text \<open>
  The texts of a tree, with any white space: a grammar of JSON. What a string literal denotes is
  what \<open>json_str\<close> makes of it.
\<close>

definition str_text :: "string \<Rightarrow> string \<Rightarrow> bool" where
  "str_text s u \<longleftrightarrow> (\<forall>rest. json_str (s @ CHR 0x22 # rest) = Some (u, rest))"

inductive jval :: "string \<Rightarrow> jtree \<Rightarrow> bool"
  and jels :: "string \<Rightarrow> jtree list \<Rightarrow> bool"
  and jmems :: "string \<Rightarrow> (string \<times> jtree) list \<Rightarrow> bool" where
  jval_null: "jval ''null'' TNull"
| jval_bool: "jval (fmt_t b) (TBool b)"
| jval_num: "valid_num l \<Longrightarrow> jval l (TNum l)"
| jval_str: "str_text s u \<Longrightarrow> jval (dq @ s @ dq) (TStr u)"
| jval_arr0: "ws_text w \<Longrightarrow> jval (''['' @ w @ '']'') (TArr [])"
| jval_arr: "jels s vs \<Longrightarrow> jval (''['' @ s @ '']'') (TArr vs)"
| jval_obj0: "ws_text w \<Longrightarrow> jval (''{'' @ w @ ''}'') (TObj [])"
| jval_obj: "jmems s ms \<Longrightarrow> jval (''{'' @ s @ ''}'') (TObj ms)"
| jels_one: "ws_text w \<Longrightarrow> jval s v \<Longrightarrow> ws_text w' \<Longrightarrow> jels (w @ s @ w') [v]"
| jels_more: "ws_text w \<Longrightarrow> jval s v \<Longrightarrow> ws_text w' \<Longrightarrow> jels t vs \<Longrightarrow> jels (w @ s @ w' @ '','' @ t) (v # vs)"
| jmems_one: "ws_text w \<Longrightarrow> str_text k u \<Longrightarrow> ws_text x \<Longrightarrow> jval s v \<Longrightarrow> ws_text w' \<Longrightarrow>
    jmems (w @ dq @ k @ dq @ '':'' @ x @ s @ w') [(u, v)]"
| jmems_more: "ws_text w \<Longrightarrow> str_text k u \<Longrightarrow> ws_text x \<Longrightarrow> jval s v \<Longrightarrow> ws_text w' \<Longrightarrow> jmems t ms \<Longrightarrow>
    jmems (w @ dq @ k @ dq @ '':'' @ x @ s @ w' @ '','' @ t) ((u, v) # ms)"

lemma jval_first: "jval s v \<Longrightarrow> \<exists>c r. s = c # r \<and> \<not> json_ws c \<and> c \<noteq> CHR '']''"
  by (erule jval.cases) (auto simp: fmt_t_def dq_def json_ws_def neq_Nil_conv is_digit_def dest!: valid_num_hd)

lemma first_ws:
  "\<not> json_ws CHR ''n''" "\<not> json_ws CHR ''t''" "\<not> json_ws CHR ''f''" "\<not> json_ws CHR 0x22" "\<not> json_ws CHR ''[''" "\<not> json_ws CHR '']''"
  "\<not> json_ws CHR ''{''" "\<not> json_ws CHR ''}''"
  by (simp_all add: json_ws_def)

text \<open>The parser reads every text of the grammar, up to whatever follows it.\<close>

definition reads :: "string \<Rightarrow> jtree \<Rightarrow> bool" where
  "reads s v \<longleftrightarrow> (\<forall>w rest n. ws_text w \<longrightarrow> num_stop rest \<longrightarrow> 2 * length s \<le> n \<longrightarrow> parse_value n (w @ s @ rest) = Some (v, rest))"

definition reads_els :: "string \<Rightarrow> jtree list \<Rightarrow> bool" where
  "reads_els t vs \<longleftrightarrow> (\<forall>rest n. 2 * length t + 1 \<le> n \<longrightarrow> parse_elements n (t @ CHR '']'' # rest) = Some (vs, rest))
     \<and> (\<exists>c r. skip_ws t = c # r \<and> c \<noteq> CHR '']'')"

definition reads_mems :: "string \<Rightarrow> (string \<times> jtree) list \<Rightarrow> bool" where
  "reads_mems t ms \<longleftrightarrow> (\<forall>rest n. 2 * length t + 1 \<le> n \<longrightarrow> parse_members n (t @ CHR ''}'' # rest) = Some (ms, rest))
     \<and> (\<exists>r. skip_ws t = CHR 0x22 # r)"

lemma readsD: "reads s v \<Longrightarrow> ws_text w \<Longrightarrow> num_stop rest \<Longrightarrow> 2 * length s \<le> n \<Longrightarrow> parse_value n (w @ s @ rest) = Some (v, rest)"
  by (simp add: reads_def)

text \<open>It is enough to read the value at its first byte, with one call to spare.\<close>

lemma readsI:
  assumes "\<And>w rest m. ws_text w \<Longrightarrow> num_stop rest \<Longrightarrow> 2 * length s \<le> Suc m \<Longrightarrow> parse_value (Suc m) (w @ s @ rest) = Some (v, rest)"
    and "s \<noteq> []"
  shows "reads s v"
  unfolding reads_def
proof (intro allI impI)
  fix w rest n
  assume "ws_text w" "num_stop rest" "2 * length s \<le> n"
  then show "parse_value n (w @ s @ rest) = Some (v, rest)" using assms by (cases n) simp_all
qed

lemma reads_num:
  assumes "valid_num l"
  shows "reads l (TNum l)"
proof -
  obtain c cs where l: "l = c # cs" "is_digit c \<or> c = CHR ''-''" using valid_num_hd [OF assms] by (cases l) auto
  have c: "c \<noteq> CHR 0x22" "c \<noteq> CHR ''[''" "c \<noteq> CHR ''{''" "c \<noteq> CHR ''n''" "c \<noteq> CHR ''t''" "c \<noteq> CHR ''f''" "\<not> json_ws c"
    using l(2) by (auto simp: is_digit_def json_ws_def)
  then show ?thesis using valid_num_read [OF assms] by (intro readsI) (auto simp: l(1) skip_ws_text)
qed

lemma reads_arr:
  assumes "reads_els s vs"
  shows "reads (''['' @ s @ '']'') (TArr vs)"
proof -
  obtain c r where "skip_ws s = c # r" "c \<noteq> CHR '']''" using assms by (auto simp: reads_els_def)
  then have "skip_ws (s @ t) = c # r @ t" "c \<noteq> CHR '']''" for t by (simp_all add: skip_ws_append)
  then show ?thesis using assms by (intro readsI) (auto simp: reads_els_def skip_ws_text first_ws)
qed

lemma reads_obj:
  assumes "reads_mems s ms"
  shows "reads (''{'' @ s @ ''}'') (TObj ms)"
proof -
  obtain r where "skip_ws s = CHR 0x22 # r" using assms by (auto simp: reads_mems_def)
  then have "skip_ws (s @ t) = CHR 0x22 # r @ t" for t by (simp add: skip_ws_append)
  then show ?thesis using assms by (intro readsI) (auto simp: reads_mems_def skip_ws_text first_ws)
qed

text \<open>One element, or one member, and what follows it: the bracket, or a comma and the rest.\<close>

lemma reads_then:
  assumes "reads s v" "ws_text w" "ws_text w'" "2 * length s \<le> n" "c \<in> {CHR '','', CHR '']'', CHR ''}''}"
  shows "parse_value n (w @ s @ w' @ c # rest) = Some (v, w' @ c # rest)" "skip_ws (w' @ c # rest) = c # rest"
proof -
  have c: "\<not> json_ws c" "\<not> is_digit c" "c \<notin> {CHR ''.'', CHR ''e'', CHR ''E''}" using assms(5) by (auto simp: json_ws_def is_digit_def)
  show "parse_value n (w @ s @ w' @ c # rest) = Some (v, w' @ c # rest)" by (rule readsD [OF assms(1,2) ws_stop [OF assms(3) c(2,3)] assms(4)])
  show "skip_ws (w' @ c # rest) = c # rest" by (rule skip_ws_text [OF assms(3) c(1)])
qed

lemma reads_els_one:
  assumes "reads s v" "ws_text w" "ws_text w'" "\<exists>c r. s = c # r \<and> \<not> json_ws c \<and> c \<noteq> CHR '']''"
  shows "reads_els (w @ s @ w') [v]"
  unfolding reads_els_def
proof (intro conjI allI impI)
  fix rest n
  assume "2 * length (w @ s @ w') + 1 \<le> n"
  then obtain m where m: "n = Suc m" "2 * length s \<le> m" by (cases n) auto
  then show "parse_elements n ((w @ s @ w') @ CHR '']'' # rest) = Some ([v], rest)"
    using reads_then [OF assms(1-3) m(2), of "CHR '']''"] by simp
qed (use assms(4) skip_ws_text [OF assms(2)] in auto)

lemma reads_els_more:
  assumes "reads s v" "ws_text w" "ws_text w'" "\<exists>c r. s = c # r \<and> \<not> json_ws c \<and> c \<noteq> CHR '']''" "reads_els t vs"
  shows "reads_els (w @ s @ w' @ '','' @ t) (v # vs)"
  unfolding reads_els_def
proof (intro conjI allI impI)
  fix rest n
  assume "2 * length (w @ s @ w' @ '','' @ t) + 1 \<le> n"
  then obtain m where m: "n = Suc m" "2 * length s \<le> m" "2 * length t + 1 \<le> m" by (cases n) auto
  then show "parse_elements n ((w @ s @ w' @ '','' @ t) @ CHR '']'' # rest) = Some (v # vs, rest)"
    using reads_then [OF assms(1-3) m(2), of "CHR '',''"] assms(5) by (simp add: reads_els_def)
qed (use assms(4) skip_ws_text [OF assms(2)] in auto)

lemma reads_key:
  assumes "ws_text w" "str_text k u"
  shows "skip_ws (w @ dq @ k @ dq @ t) = CHR 0x22 # k @ CHR 0x22 # t" "json_str (k @ CHR 0x22 # t) = Some (u, t)"
  using assms skip_ws_text [OF assms(1), of "CHR 0x22"] by (simp_all add: dq_def first_ws str_text_def)

lemma reads_mems_one:
  assumes "reads s v" "ws_text x" "ws_text w'" "ws_text w" "str_text k u"
  shows "reads_mems (w @ dq @ k @ dq @ '':'' @ x @ s @ w') [(u, v)]"
  unfolding reads_mems_def
proof (intro conjI allI impI)
  fix rest n
  assume "2 * length (w @ dq @ k @ dq @ '':'' @ x @ s @ w') + 1 \<le> n"
  then obtain m where m: "n = Suc m" "2 * length s \<le> m" by (cases n) auto
  then show "parse_members n ((w @ dq @ k @ dq @ '':'' @ x @ s @ w') @ CHR ''}'' # rest) = Some ([(u, v)], rest)"
    using reads_then [OF assms(1-3) m(2), of "CHR ''}''"] by (simp add: reads_key [OF assms(4,5)] json_ws_def)
qed (simp add: reads_key [OF assms(4,5)])

lemma reads_mems_more:
  assumes "reads s v" "ws_text x" "ws_text w'" "ws_text w" "str_text k u" "reads_mems t ms"
  shows "reads_mems (w @ dq @ k @ dq @ '':'' @ x @ s @ w' @ '','' @ t) ((u, v) # ms)"
  unfolding reads_mems_def
proof (intro conjI allI impI)
  fix rest n
  assume "2 * length (w @ dq @ k @ dq @ '':'' @ x @ s @ w' @ '','' @ t) + 1 \<le> n"
  then obtain m where m: "n = Suc m" "2 * length s \<le> m" "2 * length t + 1 \<le> m" by (cases n) auto
  then show "parse_members n ((w @ dq @ k @ dq @ '':'' @ x @ s @ w' @ '','' @ t) @ CHR ''}'' # rest) = Some ((u, v) # ms, rest)"
    using reads_then [OF assms(1-3) m(2), of "CHR '',''"] assms(6) by (simp add: reads_key [OF assms(4,5)] json_ws_def reads_mems_def)
qed (simp add: reads_key [OF assms(4,5)])

lemma layout_parses: "jval s v \<Longrightarrow> reads s v" "jels t vs \<Longrightarrow> reads_els t vs" "jmems t ms \<Longrightarrow> reads_mems t ms"
proof (induction rule: jval_jels_jmems.inducts)
  case (jels_one w s v w')
  then show ?case by (intro reads_els_one jval_first)
next
  case (jels_more w s v w' t vs)
  then show ?case by (intro reads_els_more jval_first)
next
  case (jmems_one w k u x s v w')
  then show ?case by (intro reads_mems_one)
next
  case (jmems_more w k u x s v w' t ms)
  then show ?case by (intro reads_mems_more)
next
  case (jval_arr s vs)
  then show ?case by (intro reads_arr)
next
  case (jval_obj s ms)
  then show ?case by (intro reads_obj)
next
  case (jval_num l)
  then show ?case by (rule reads_num)
next
  case (jval_bool b)
  show ?case by (rule readsI) (cases b; simp add: fmt_t_def first_ws skip_ws_text)+
qed (auto intro!: readsI simp: str_text_def dq_def first_ws skip_ws_text)

lemma layout_parse_json:
  assumes "jval s v" "ws_text w"
  shows "parse_json (s @ w) = Some v"
proof -
  have "num_stop w" using assms(2) by (cases w) (auto simp: num_stop_def json_ws_def is_digit_def)
  then have "parse_value (2 * length (s @ w) + 1) ([] @ s @ w) = Some (v, w)"
    by (intro readsD [OF layout_parses(1) [OF assms(1)]]) simp_all
  moreover have "skip_ws w = []" using assms(2) by (simp add: list_all_iff)
  ultimately show ?thesis by (simp only: parse_json_def append_Nil option.case prod.case simp_thms if_True)
qed

text \<open>What the encoder writes is in the grammar.\<close>

lemma json_string_text: "str_text (json_esc s) (utf8_clean s)"
  by (simp add: str_text_def json_str_esc)

text \<open>A string written as it is, between two quotes, is read if it needs no escape.\<close>

definition plain_str :: "string \<Rightarrow> bool" where
  "plain_str s \<longleftrightarrow> list_all (\<lambda>c. 32 \<le> (of_char c :: nat) \<and> c \<noteq> CHR 0x22 \<and> c \<noteq> CHR 0x5C) s"

lemma plain_str_text: "plain_str s \<Longrightarrow> str_text s (utf8_clean s)"
proof (induction s rule: utf8_clean.induct)
  case (2 c cs)
  have q: "\<not> is_tail CHR 0x22" by (simp add: is_tail_def)
  show ?case
  proof (cases "utf8_len (c # cs)")
    case 0
    then have "str_text cs (utf8_clean cs)" using 2 by (simp add: plain_str_def)
    then show ?thesis using 2(3) 0 utf8_len_stop [OF q, of c cs] by (simp add: str_text_def plain_str_def)
  next
    case (Suc m)
    then have "m \<le> length cs" by (simp add: utf8_len_bytes(1))
    moreover have "str_text (drop m cs) (utf8_clean (drop m cs))"
      using 2(2) [OF Suc] 2(3) by (auto simp: plain_str_def list_all_iff dest: in_set_dropD)
    ultimately show ?thesis using 2(3) Suc utf8_len_stop [OF q, of c cs] by (simp add: str_text_def plain_str_def)
  qed
qed (simp add: str_text_def)

text \<open>Values and members with white space around them, separated by commas.\<close>

definition jtext :: "string \<Rightarrow> jtree \<Rightarrow> bool" where
  "jtext s v \<longleftrightarrow> (\<exists>w x. ws_text w \<and> jval x v \<and> s = w @ x)"

definition jmem :: "string \<Rightarrow> string \<times> jtree \<Rightarrow> bool" where
  "jmem s m \<longleftrightarrow> (\<exists>w k x y w'. ws_text w \<and> str_text k (fst m) \<and> ws_text x \<and> jval y (snd m) \<and> ws_text w'
     \<and> s = w @ dq @ k @ dq @ '':'' @ x @ y @ w')"

lemma jels_join:
  assumes "list_all2 jtext ss vs" "ss \<noteq> []" "ws_text w" "ws_text w1"
  shows "ws_text w0 \<Longrightarrow> jels (w0 @ join_with ('','' @ w) ss @ w1) vs"
  using assms(1,2)
proof (induction arbitrary: w0 rule: list_all2_induct)
  case (Cons s ss v vs)
  obtain u x where s: "ws_text u" "jval x v" "s = u @ x" using Cons.hyps(1) by (auto simp: jtext_def)
  show ?case
  proof (cases ss)
    case Nil
    then show ?thesis using jels_one [of "w0 @ u" x v w1] s Cons.prems(1) Cons.hyps(2) assms(4) by simp
  next
    case (Cons r rs)
    have "jels (w @ join_with ('','' @ w) ss @ w1) vs" using Cons.IH [OF assms(3)] Cons by simp
    then show ?thesis using jels_more [of "w0 @ u" x v "[]"] s Cons.prems(1) Cons by simp
  qed
qed simp

lemma jmems_join:
  assumes "list_all2 jmem ss ms" "ss \<noteq> []"
  shows "jmems (join_with '','' ss) ms"
  using assms
proof (induction rule: list_all2_induct)
  case (Cons s ss m ms)
  obtain w k x y w' where s: "ws_text w" "str_text k (fst m)" "ws_text x" "jval y (snd m)" "ws_text w'"
      "s = w @ dq @ k @ dq @ '':'' @ x @ y @ w'"
    using Cons.hyps(1) by (auto simp: jmem_def)
  show ?case
  proof (cases ss)
    case Nil
    then show ?thesis using jmems_one [OF s(1-5)] Cons.hyps(2) by (simp add: s(6))
  next
    case (Cons r rs)
    then show ?thesis using jmems_more [OF s(1-5)] Cons.IH by (simp add: s(6))
  qed
qed simp

lemma jval_json_string: "jval (json_string s) (TStr (utf8_clean s))"
  unfolding json_string_def by (rule jval_str [OF json_string_text])

lemma render_rest_text:
  assumes "\<forall>x \<in> set (v # vs). jval (render ind d x) (tree_clean x)"
  shows "jels (brk ind d @ render ind d v @ render_rest ind d vs @ brk ind e) (map tree_clean (v # vs))"
  using assms
proof (induction vs arbitrary: v)
  case Nil
  then show ?case using jels_one [OF brk_ws _ brk_ws] by simp
next
  case (Cons x vs)
  then show ?case using jels_more [OF brk_ws, of "render ind d v" "tree_clean v" "[]"] by simp
qed

lemma render_members_text:
  assumes "\<forall>x \<in> set ((k, v) # ms). jval (render ind d (snd x)) (tree_clean (snd x))"
  shows "jmems (brk ind d @ json_string k @ (if ind then '': '' else '':'') @ render ind d v @ render_members ind d ms @ brk ind e)
    (map (\<lambda>(k, v). (utf8_clean k, tree_clean v)) ((k, v) # ms))"
  using assms
proof (induction ms arbitrary: k v)
  case Nil
  then show ?case
    using jmems_one [OF brk_ws json_string_text, of "if ind then '' '' else []" "render ind d v" "tree_clean v" "brk ind e"] brk_ws
    by (cases ind) (simp_all add: json_string_def json_ws_def)
next
  case (Cons x ms)
  then show ?case
    using jmems_more [OF brk_ws json_string_text, of "if ind then '' '' else []" "render ind d v" "tree_clean v" "[]"] 
    by (cases ind; cases x) (simp_all add: json_string_def json_ws_def)
qed

lemma render_text: "tree_ok v \<Longrightarrow> jval (render ind d v) (tree_clean v)"
proof (induction v arbitrary: d)
  case (TArr vs)
  show ?case
  proof (cases vs)
    case Nil
    then show ?thesis using jval_arr0 [of "[]"] by simp
  next
    case (Cons x xs)
    have "\<forall>y \<in> set (x # xs). jval (render ind (Suc d) y) (tree_clean y)" using TArr by (auto simp: Cons list_all_iff)
    then show ?thesis using jval_arr [OF render_rest_text, of x xs ind "Suc d" d] by (simp add: Cons)
  qed
next
  case (TObj ms)
  show ?case
  proof (cases ms)
    case Nil
    then show ?thesis using jval_obj0 [of "[]"] by simp
  next
    case (Cons kx xs)
    obtain k x where kx: "kx = (k, x)" by (cases kx)
    have "\<forall>y \<in> set ((k, x) # xs). jval (render ind (Suc d) (snd y)) (tree_clean (snd y))"
      using TObj by (fastforce simp: Cons kx list_all_iff)
    then show ?thesis using jval_obj [OF render_members_text, of k x xs ind "Suc d" d] by (simp add: Cons kx)
  qed
qed (simp_all add: jval_null jval_bool jval_num jval_json_string)

lemma json_roundtrip: "tree_ok v \<Longrightarrow> ws_text w \<Longrightarrow> parse_json (render ind 0 v @ w) = Some (tree_clean v)"
  by (rule layout_parse_json [OF render_text])

end
