(* ===== verification/GoFloat.thy ===== *)
theory GoFloat
  imports GoJson
begin

text \<open>
  Floats as JSON numbers: \<open>strconv.AppendFloat\<close> with the shortest decimal that reads back as the
  same float, in the plain or the exponent form \<open>encoding/json\<close> chooses, and the value a literal
  stands for. Reading what was written gives the float back.
\<close>

subsection \<open>The shortest decimal\<close>

text \<open>The decimal exponent of a positive number: \<open>10\<close> to it is at most the number.\<close>

definition ilog10 :: "rat \<Rightarrow> int" where
  "ilog10 x = (if 1 \<le> x then int (length (nat_str (nat \<lfloor>x\<rfloor>))) - 1 else - int (length (nat_str (nat (\<lceil>1 / x\<rceil> - 1)))))"

text \<open>The decimals of \<open>n\<close> digits next to a number that read back as it, the nearer one first.\<close>

definition dec_candidates :: "rat \<Rightarrow> nat \<Rightarrow> (int \<times> int) list" where
  "dec_candidates x n =
     (let e = ilog10 x - int n + 1; y = x / 10 powi e; lo = \<lfloor>y\<rfloor>; hi = \<lceil>y\<rceil>;
          near = (if y - of_int lo < of_int hi - y \<or> y - of_int lo = of_int hi - y \<and> even lo then [lo, hi] else [hi, lo])
      in map (\<lambda>m. (m, e)) (filter (\<lambda>m. to_f64 (of_int m * 10 powi e) = Fin x) near))"

text \<open>The first number of digits for which there is one; 17 are always enough.\<close>

fun first_candidate :: "rat \<Rightarrow> nat list \<Rightarrow> int \<times> int" where
  "first_candidate x [] = (0, 0)"
| "first_candidate x (n # ns) = (case dec_candidates x n of [] \<Rightarrow> first_candidate x ns | c # _ \<Rightarrow> c)"

definition shortest :: "rat \<Rightarrow> int \<times> int" where
  "shortest x = first_candidate x [1..<18]"

text \<open>Its digits without zeros at the end, and the place of the decimal point before or after them.\<close>

definition strip_zeros :: "string \<Rightarrow> string" where
  "strip_zeros s = rev (dropWhile (\<lambda>c. c = CHR ''0'') (rev s))"

definition dec_digits :: "int \<times> int \<Rightarrow> string \<times> int" where
  "dec_digits d = (let s = nat_str (nat (fst d)) in (strip_zeros s, int (length s) + snd d))"

definition plain_form :: "string \<Rightarrow> int \<Rightarrow> string" where
  "plain_form ds p =
     (if p \<le> 0 then ''0.'' @ replicate (nat (- p)) CHR ''0'' @ ds
      else if p < int (length ds) then take (nat p) ds @ ''.'' @ drop (nat p) ds
      else ds @ replicate (nat p - length ds) CHR ''0'')"

definition exp_form :: "string \<Rightarrow> int \<Rightarrow> string" where
  "exp_form ds p =
     (let x = p - 1 in take 1 ds @ (if length ds > 1 then ''.'' @ drop 1 ds else []) @ ''e''
        @ (if x < 0 then ''-'' @ nat_str (nat (- x)) else ''+'' @ pad_left 2 CHR ''0'' (nat_str (nat x))))"

text \<open>
  The literal of a float: small and large numbers have an exponent, of which a negative one loses
  its leading zero. Infinities and NaN are errors.
\<close>

definition json_float :: "f64 \<Rightarrow> string + string" where
  "json_float f =
     (case f of
        Fin x \<Rightarrow> if x = 0 then Inr ''0''
          else (case dec_digits (shortest \<bar>x\<bar>) of (ds, p) \<Rightarrow>
            Inr ((if x < 0 then ''-'' else []) @
              (if Fin \<bar>x\<bar> < to_f64 (1 / 10 ^ 6) \<or> \<not> Fin \<bar>x\<bar> < to_f64 (10 ^ 21) then exp_form ds p else plain_form ds p)))
      | PInf \<Rightarrow> Inl ''json: unsupported value: +Inf''
      | NInf \<Rightarrow> Inl ''json: unsupported value: -Inf''
      | NaN \<Rightarrow> Inl ''json: unsupported value: NaN'')"

subsection \<open>The value of a literal\<close>

definition num_exponent :: "string \<Rightarrow> int" where
  "num_exponent s = (if s = [] \<or> hd s \<notin> {CHR ''e'', CHR ''E''} then 0
     else if tl s \<noteq> [] \<and> hd (tl s) = CHR ''-'' then - int (digits_val (tl (tl s)))
     else if tl s \<noteq> [] \<and> hd (tl s) = CHR ''+'' then int (digits_val (tl (tl s)))
     else int (digits_val (tl s)))"

definition num_value :: "string \<Rightarrow> rat" where
  "num_value s =
     (let neg = (s \<noteq> [] \<and> hd s = CHR ''-''); r = (if neg then tl s else s);
          ip = takeWhile is_digit r; r1 = dropWhile is_digit r;
          dot = (r1 \<noteq> [] \<and> hd r1 = CHR ''.'');
          fp = (if dot then takeWhile is_digit (tl r1) else []);
          r2 = (if dot then dropWhile is_digit (tl r1) else r1)
      in (if neg then - 1 else 1) * of_nat (digits_val (ip @ fp)) * 10 powi (num_exponent r2 - int (length fp)))"

text \<open>\<open>strconv.ParseFloat\<close> on a literal: the nearest float.\<close>

definition parse_float64 :: "string \<Rightarrow> f64" where
  "parse_float64 s = to_f64 (num_value s)"

subsection \<open>Seventeen digits are enough\<close>

lemma nat_str_bounds: "n < 10 ^ length (nat_str n)" "0 < n \<Longrightarrow> 10 ^ (length (nat_str n) - 1) \<le> n"
proof -
  have *: "n < 10 ^ length (nat_str n) \<and> (0 < n \<longrightarrow> 10 ^ (length (nat_str n) - 1) \<le> n)" for n
  proof (induction n rule: nat_str.induct)
    case (1 n)
    show ?case
    proof (cases "n < 10")
      case True
      then show ?thesis by (simp add: nat_str.simps [of n])
    next
      case False
      let ?k = "length (nat_str (n div 10))"
      have k: "0 < ?k" by simp
      have up: "n div 10 < 10 ^ ?k" and lo: "10 ^ (?k - 1) \<le> n div 10" using 1 [OF False] False by auto
      have "n < 10 ^ Suc ?k" using up by (simp add: div_less_iff_less_mult mult.commute)
      moreover have "10 * 10 ^ (?k - 1) \<le> 10 * (n div 10)" using lo by (rule mult_le_mono2)
      then have "10 * 10 ^ (?k - 1) \<le> n" by (rule order_trans) simp
      then have "10 ^ ?k \<le> n" using k by (cases ?k) auto
      ultimately show ?thesis using False by (simp add: nat_str.simps [of n])
    qed
  qed
  show "n < 10 ^ length (nat_str n)" "0 < n \<Longrightarrow> 10 ^ (length (nat_str n) - 1) \<le> n" using * [of n] by auto
qed

lemma powi_10_nat: "(10::rat) powi int n = 10 ^ n"
  by simp

lemma ilog10_le:
  assumes "0 < x"
  shows "10 powi ilog10 x \<le> x"
proof (cases "1 \<le> x")
  case True
  let ?n = "nat \<lfloor>x\<rfloor>"
  have n: "0 < ?n" using True by simp
  have e: "ilog10 x = int (length (nat_str ?n) - 1)" using True by (simp add: ilog10_def of_nat_diff Suc_leI)
  have "10 powi ilog10 x = (of_nat (10 ^ (length (nat_str ?n) - 1)) :: rat)" unfolding e powi_10_nat by simp
  also have "\<dots> \<le> of_nat ?n" using nat_str_bounds(2) [OF n] by (simp only: of_nat_le_iff)
  also have "\<dots> = of_int \<lfloor>x\<rfloor>" using True by simp
  also have "\<dots> \<le> x" by simp
  finally show ?thesis .
next
  case False
  let ?n = "nat (\<lceil>1 / x\<rceil> - 1)" and ?k = "length (nat_str (nat (\<lceil>1 / x\<rceil> - 1)))"
  have "1 < 1 / x" using False assms by simp
  then have "1 < \<lceil>1 / x\<rceil>" by (simp only: less_ceiling_iff of_int_1)
  then have c: "1 \<le> \<lceil>1 / x\<rceil> - 1" by linarith
  have "1 / x \<le> of_int \<lceil>1 / x\<rceil>" by simp
  also have "\<lceil>1 / x\<rceil> = int (?n + 1)" using nat_0_le [of "\<lceil>1 / x\<rceil> - 1"] c by linarith
  also have "rat_of_int (int (?n + 1)) \<le> of_nat (10 ^ ?k)"
    using nat_str_bounds(1) [of ?n] by (simp only: of_int_of_nat_eq of_nat_le_iff)
  finally have "1 / x \<le> 10 ^ ?k" by simp
  then have "1 \<le> 10 ^ ?k * x" using assms by (simp add: divide_le_eq)
  moreover have "10 powi ilog10 x = (1 / 10 ^ ?k :: rat)" using False by (simp add: ilog10_def power_int_minus field_simps)
  ultimately show ?thesis by (simp add: divide_le_eq mult.commute)
qed

lemma rne_unique: "\<bar>z - of_int n\<bar> < 1 / 2 \<Longrightarrow> rne z = n"
proof -
  assume "\<bar>z - of_int n\<bar> < 1 / 2"
  moreover have "\<bar>of_int (rne z) - z\<bar> \<le> 1 / 2" by (rule rne_near)
  ultimately have "rat_of_int (rne z) < of_int n + 1" "rat_of_int n < of_int (rne z) + 1" by linarith+
  then show ?thesis by linarith
qed

lemma scale_ge: "0 < y \<Longrightarrow> 2 powi (52 + k) \<le> y \<Longrightarrow> k \<le> scale y"
  using ilog2_ge_iff [of y "52 + k"] by (simp add: scale_def)

text \<open>A number that misses a float by less than a part in \<open>2 ^ 54\<close> rounds to it.\<close>

lemma round53_near:
  assumes x: "0 < x" "round53 x = x" and near: "\<bar>y - x\<bar> * 2 ^ 54 < x"
  shows "round53 y = x"
proof -
  define s M where "s = scale x" and "M = rne (x / 2 powi s)"
  define u :: rat where "u = 2 powi s"
  have u: "0 < u" by (simp add: u_def)
  have xM: "x = of_int M * u" using x(2) by (simp add: round53_scale M_def s_def u_def)
  have "x / u < 2 ^ 53" using scale_upper [OF x(1)] by (simp add: s_def u_def)
  then have Mup: "of_int M < (2::rat) ^ 53" using u by (simp add: xM)
  then have "rat_of_int M < of_int (2 ^ 53)" by simp
  then have M53: "M + 1 \<le> 2 ^ 53" by (simp only: of_int_less_iff)
  have "x < 2 ^ 53 * u" using Mup u by (simp add: xM)
  then have half: "\<bar>y - x\<bar> < u / 2" using near by simp
  have "\<bar>y - x\<bar> \<le> \<bar>y - x\<bar> * 2 ^ 54" by (simp add: mult_le_cancel_left1)
  then have "\<bar>y - x\<bar> < x" using near by (rule order_le_less_trans)
  then have y: "0 < y" by (simp add: abs_less_iff)
  have "y / u - of_int M = (y - x) / u" using u by (simp add: xM diff_divide_distrib)
  then have "\<bar>y / u - of_int M\<bar> = \<bar>y - x\<bar> / u" using u by simp
  then have yM: "\<bar>y / u - of_int M\<bar> < 1 / 2" using half u by (simp add: divide_less_eq)
  have above: "scale y \<le> s"
  proof (rule ccontr)
    assume "\<not> scale y \<le> s"
    then have s1: "s + 1 \<le> scale y" "- 1074 < scale y" using scale_min [of x] by (auto simp: s_def)
    have "(2::rat) ^ 52 * 2 powi (s + 1) \<le> 2 ^ 52 * 2 powi scale y" using s1(1) by (intro mult_left_mono) auto
    also have "\<dots> \<le> y" using scale_lower [OF y s1(2)] by (simp add: le_divide_eq)
    finally have "2 ^ 53 * u \<le> y" by (simp add: powi_2_add u_def)
    then have "2 ^ 53 \<le> y / u" using u by (simp add: le_divide_eq)
    moreover have "rat_of_int (M + 1) \<le> of_int (2 ^ 53)" using M53 by (simp only: of_int_le_iff)
    then have "rat_of_int M + 1 \<le> 2 ^ 53" by (simp only: of_int_add of_int_1 of_int_power of_int_numeral)
    moreover have "y / u < of_int M + 1 / 2" using yM by (simp only: abs_diff_less_iff)
    ultimately show False by linarith
  qed
  show ?thesis
  proof (cases "scale y = s")
    case True
    have "rne (y / u) = M" using yM by (rule rne_unique)
    then show ?thesis using True xM by (simp add: round53_scale u_def)
  next
    case False
    then have lt: "scale y < s" using above by simp
    then have "- 1074 < s" using scale_min [of y] by simp
    then have "2 ^ 52 \<le> x / u" using scale_lower [OF x(1)] by (simp add: s_def u_def)
    then have Mlo: "(2::rat) ^ 52 \<le> of_int M" using u by (simp add: xM)
    have "y < 2 powi (52 + s)" using scale_ge [OF y, of s] lt by linarith
    then have y52: "y / u < 2 ^ 52" using u by (simp add: powi_2_add u_def divide_less_eq)
    have yM2: "of_int M - 1 / 2 < y / u" using yM by (simp only: abs_diff_less_iff)
    then have "rat_of_int M < 2 ^ 52 + 1" using y52 by linarith
    then have "rat_of_int M < of_int (2 ^ 52 + 1)" by simp
    then have "M < 2 ^ 52 + 1" by (simp only: of_int_less_iff)
    then have "rat_of_int M \<le> of_int (2 ^ 52)" by (simp only: of_int_le_iff)
    then have M: "of_int M = (2::rat) ^ 52" using Mlo by simp
    have "2 powi (52 + (s - 1)) \<le> y"
    proof -
      have "(2::rat) ^ 52 - 1 / 2 < y / u" using yM2 M by simp
      then have "(2 ^ 52 - 1 / 2) * u < y" using u by (simp add: less_divide_eq)
      moreover have "(2::rat) powi (52 + (s - 1)) = 2 ^ 51 * u" using powi_2_add [of 51 s] by (simp add: u_def add.commute)
      ultimately show ?thesis using u by (simp add: algebra_simps)
    qed
    then have sy: "scale y = s - 1" using scale_ge [OF y, of "s - 1"] lt by simp
    have u2: "2 powi (s - 1) = u / 2" using powi_2_add [of "s - 1" 1] by (simp add: u_def)
    have quarter: "\<bar>y - x\<bar> < u / 4" using near by (simp add: xM M)
    have "y / (u / 2) - of_int (2 ^ 53) = (y - x) / (u / 2)" using u by (simp add: xM M field_simps)
    then have "\<bar>y / (u / 2) - of_int (2 ^ 53)\<bar> = \<bar>y - x\<bar> / (u / 2)"
      by (simp only: abs_divide abs_of_pos [OF u] abs_numeral)
    also have "\<dots> < 1 / 2" using quarter u by (simp add: divide_less_eq)
    finally have "\<bar>y / (u / 2) - of_int (2 ^ 53)\<bar> < 1 / 2" .
    then have "rne (y / (u / 2)) = 2 ^ 53" by (rule rne_unique)
    then have "round53 y = 2 ^ 53 * (u / 2)" by (simp add: round53_scale sy u2)
    then show ?thesis by (simp add: xM M)
  qed
qed

text \<open>Of the two decimals of 17 digits next to a float, the nearer one misses it by less than that.\<close>

lemma floor_ceiling_near: "y - of_int \<lfloor>y\<rfloor> \<le> 1 / 2 \<or> of_int \<lceil>y\<rceil> - y \<le> (1 / 2 :: rat)"
proof -
  have "rat_of_int (\<lceil>y\<rceil> - \<lfloor>y\<rfloor>) \<le> 1" using ceiling_diff_floor_le_1 [of y] by (simp only: of_int_le_1_iff)
  then have "rat_of_int \<lceil>y\<rceil> \<le> of_int \<lfloor>y\<rfloor> + 1" by simp
  then show ?thesis by linarith
qed

lemma candidate_17:
  assumes x: "0 < x" "to_f64 x = Fin x"
  shows "dec_candidates x 17 \<noteq> []"
proof -
  define e y where "e = ilog10 x - 16" and "y = x / 10 powi e"
  have r: "round53 x = x" using x(2) by (auto simp: to_f64_def Let_def split: if_splits)
  have p: "(0::rat) < 10 powi e" by simp
  have "10 powi ilog10 x = (10::rat) ^ 16 * 10 powi e" by (simp add: e_def power_int_diff)
  then have big: "10 ^ 16 * 10 powi e \<le> x" using ilog10_le [OF x(1)] by simp
  have ok: "to_f64 (of_int m * 10 powi e) = Fin x" if m: "\<bar>of_int m - y\<bar> \<le> 1 / 2" for m
  proof -
    have "of_int m * 10 powi e - x = (of_int m - y) * 10 powi e" using p by (simp add: y_def left_diff_distrib)
    then have "\<bar>of_int m * 10 powi e - x\<bar> = \<bar>of_int m - y\<bar> * 10 powi e" using p by (simp add: abs_mult)
    also have "\<dots> \<le> 1 / 2 * 10 powi e" using m p by (intro mult_right_mono) auto
    finally have "\<bar>of_int m * 10 powi e - x\<bar> * 2 ^ 54 \<le> 2 ^ 53 * 10 powi e" by simp
    also have "\<dots> < 10 ^ 16 * 10 powi e" using p by (intro mult_strict_right_mono) auto
    also note big
    finally have "round53 (of_int m * 10 powi e) = x" using round53_near [OF x(1) r] by blast
    then show ?thesis using x(2) r by (simp add: to_f64_def)
  qed
  have "\<bar>of_int \<lfloor>y\<rfloor> - y\<bar> \<le> 1 / 2 \<or> \<bar>of_int \<lceil>y\<rceil> - y\<bar> \<le> 1 / 2"
    using floor_ceiling_near [of y] of_int_floor_le [of y] le_of_int_ceiling [of y] by (auto simp: abs_le_iff)
  then have "to_f64 (of_int \<lfloor>y\<rfloor> * 10 powi e) = Fin x \<or> to_f64 (of_int \<lceil>y\<rceil> * 10 powi e) = Fin x"
    using ok by blast
  then show ?thesis by (auto simp: dec_candidates_def Let_def e_def y_def)
qed

lemma dec_candidates_sound:
  assumes "0 < x" "(m, e) \<in> set (dec_candidates x n)"
  shows "0 < m \<and> to_f64 (of_int m * 10 powi e) = Fin x"
proof -
  have m: "to_f64 (of_int m * 10 powi e) = Fin x" "m = \<lfloor>x / 10 powi e\<rfloor> \<or> m = \<lceil>x / 10 powi e\<rceil>"
    using assms(2) by (auto simp: dec_candidates_def Let_def split: if_splits)
  have q: "0 < x / 10 powi e" using assms(1) by simp
  then have "0 \<le> \<lfloor>x / 10 powi e\<rfloor>" "0 \<le> \<lceil>x / 10 powi e\<rceil>" by (simp_all only: zero_le_floor) linarith
  then have "0 \<le> m" using m(2) by auto
  moreover have "m \<noteq> 0" using m(1) assms(1) by (auto simp: to_f64_def)
  ultimately show ?thesis using m(1) by simp
qed

lemma first_candidate_sound:
  assumes "\<exists>n \<in> set ns. dec_candidates x n \<noteq> []"
  shows "\<exists>n. first_candidate x ns \<in> set (dec_candidates x n)"
  using assms
proof (induction ns)
  case (Cons k ns)
  show ?case
  proof (cases "dec_candidates x k")
    case Nil
    then show ?thesis using Cons by auto
  next
    case (Cons c cs)
    then show ?thesis by (intro exI [of _ k]) simp
  qed
qed simp

lemma shortest_reads:
  assumes "0 < x" "to_f64 x = Fin x" "shortest x = (m, e)"
  shows "0 < m" "to_f64 (of_int m * 10 powi e) = Fin x"
proof -
  have "(17::nat) \<in> set [1..<18]" by simp
  then obtain n where "first_candidate x [1..<18] \<in> set (dec_candidates x n)"
    using first_candidate_sound candidate_17 [OF assms(1,2)] by blast
  then show "0 < m" "to_f64 (of_int m * 10 powi e) = Fin x"
    using dec_candidates_sound [OF assms(1), of m e n] assms(3) by (simp_all add: shortest_def)
qed

subsection \<open>Literals\<close>

lemma take_digits:
  "list_all is_digit ds \<Longrightarrow> takeWhile is_digit ds = ds \<and> dropWhile is_digit ds = []"
  "list_all is_digit ds \<Longrightarrow> \<not> is_digit c \<Longrightarrow> takeWhile is_digit (ds @ c # r) = ds \<and> dropWhile is_digit (ds @ c # r) = c # r"
  by (induction ds) auto

lemma digits_val_less: "list_all is_digit s \<Longrightarrow> digits_val s < 10 ^ length s"
proof (induction s)
  case (Cons c s)
  then have "digit_val c \<le> 9" "digits_val s < 10 ^ length s" by (auto simp: digit_val_def is_digit_def)
  then have "digit_val c * 10 ^ length s + digits_val s < 9 * 10 ^ length s + 10 ^ length s"
    by (intro add_le_less_mono mult_right_mono) auto
  then show ?case by (simp add: digits_val_Cons)
qed simp

lemma strip_zeros_digits:
  assumes "0 < m"
  obtains ds j where "strip_zeros (nat_str m) = ds" "nat_str m = ds @ replicate j CHR ''0''" "ds \<noteq> []" "list_all is_digit ds"
    "hd ds \<noteq> CHR ''0''" "m = digits_val ds * 10 ^ j"
proof -
  define ds zs where "ds = strip_zeros (nat_str m)" and "zs = takeWhile (\<lambda>c. c = CHR ''0'') (rev (nat_str m))"
  have "rev (nat_str m) = zs @ rev ds" by (simp add: ds_def zs_def strip_zeros_def)
  then have ns: "nat_str m = ds @ rev zs" by (metis rev_append rev_rev_ident)
  have "zs = replicate (length zs) CHR ''0''" by (rule replicate_eqI) (auto simp: zs_def dest: set_takeWhileD)
  then have zs: "rev zs = replicate (length zs) CHR ''0''" by (metis rev_replicate)
  have "digits_val (replicate n CHR ''0'') = 0" for n using digits_val_zeros [of n "[]"] by simp
  then have "digits_val (ds @ rev zs) = digits_val ds * 10 ^ length zs" unfolding zs by (simp add: digits_val_append)
  then have val: "m = digits_val ds * 10 ^ length zs" by (metis digits_val_nat_str ns)
  then have ne: "ds \<noteq> []" using assms by auto
  have dig: "list_all is_digit ds" using nat_str_digits [of m] unfolding ns by (simp add: list_all_iff)
  have "hd ds \<noteq> CHR ''0''"
  proof
    assume z: "hd ds = CHR ''0''"
    then have "nat_str m = CHR ''0'' # tl (nat_str m)" using ns ne by (cases ds) auto
    then have "digits_val (tl (nat_str m)) = m" using digits_val_zeros [of 1 "tl (nat_str m)"] by (metis One_nat_def append_Cons append_Nil digits_val_nat_str replicate_0 replicate_Suc)
    moreover have "list_all is_digit (tl (nat_str m))" using nat_str_digits [of m] by (cases "nat_str m") (auto simp: list_all_iff)
    then have "digits_val (tl (nat_str m)) < 10 ^ length (tl (nat_str m))" by (rule digits_val_less)
    ultimately show False using nat_str_bounds(2) [OF assms] by simp
  qed
  then show ?thesis using that ds_def ns zs ne dig val by metis
qed

lemma integer_literal:
  assumes "list_all is_digit s" "s \<noteq> []" "hd s \<noteq> CHR ''0''" "hd s \<noteq> CHR ''-''"
  shows "valid_num s"
  using assms by (simp add: valid_num_def json_num_def json_int_def json_frac_def json_exp_def Let_def take_digits(1) [OF assms(1)])

lemma plain_form_value:
  assumes "ds \<noteq> []" "list_all is_digit ds" "hd ds \<noteq> CHR ''0''"
  shows "num_value (plain_form ds p) = of_nat (digits_val ds) * 10 powi (p - int (length ds)) \<and> valid_num (plain_form ds p)
     \<and> is_digit (hd (plain_form ds p)) \<and> plain_form ds p \<noteq> []"
proof -
  have z: "is_digit CHR ''0''" "\<not> is_digit CHR ''.''" by (simp_all add: is_digit_def)
  have zs: "list_all is_digit (replicate n CHR ''0'')" for n using z by (simp add: list_all_iff)
  have minus: "hd ds \<noteq> CHR ''-''" using assms(1,2) by (cases ds) auto
  consider "p \<le> 0" | "0 < p" "p < int (length ds)" | "int (length ds) \<le> p" "0 < p" by linarith
  then show ?thesis
  proof cases
    case 1
    let ?f = "replicate (nat (- p)) CHR ''0'' @ ds"
    have f: "list_all is_digit ?f" "?f \<noteq> []" using zs assms by simp_all
    have s: "plain_form ds p = ''0.'' @ ?f" using 1 by (simp add: plain_form_def)
    have "digits_val (CHR ''0'' # ?f) = digits_val ds" using digits_val_zeros [of "Suc (nat (- p))" ds] by simp
    then have "num_value (plain_form ds p) = of_nat (digits_val ds) * 10 powi (p - int (length ds))"
      using 1 z by (simp add: s num_value_def num_exponent_def take_digits(1) [OF f(1)])
    moreover have "valid_num (plain_form ds p)"
      using z f(2) by (simp add: s valid_num_def json_num_def json_int_def json_frac_def json_exp_def Let_def take_digits(1) [OF f(1)])
    ultimately show ?thesis using z s by simp
  next
    case 2
    let ?a = "take (nat p) ds" and ?b = "drop (nat p) ds"
    have a: "list_all is_digit ?a" "list_all is_digit ?b" using assms(2) by (auto simp: list_all_iff dest: in_set_takeD in_set_dropD)
    have ab: "?a \<noteq> []" "?b \<noteq> []" "hd ?a = hd ds" using 2 assms(1) by (auto simp: hd_take)
    have s: "plain_form ds p = ?a @ CHR ''.'' # ?b" using 2 by (simp add: plain_form_def)
    note t = take_digits(2) [OF a(1) z(2), of ?b] take_digits(1) [OF a(2)]
    have "num_value (plain_form ds p) = of_nat (digits_val ds) * 10 powi (p - int (length ds))"
      using 2 ab minus by (simp add: s num_value_def num_exponent_def of_nat_diff t)
    moreover have "valid_num (plain_form ds p)"
      using ab minus assms(3) by (simp add: s valid_num_def json_num_def json_int_def json_frac_def json_exp_def t)
    ultimately show ?thesis using ab s assms by (auto simp: list_all_iff)
  next
    case 3
    let ?s = "ds @ replicate (nat p - length ds) CHR ''0''"
    have f: "list_all is_digit ?s" "?s \<noteq> []" "hd ?s = hd ds" using zs assms by simp_all
    have s: "plain_form ds p = ?s" using 3 by (simp add: plain_form_def)
    have "digits_val (replicate n CHR ''0'') = 0" for n using digits_val_zeros [of n "[]"] by simp
    then have "digits_val ?s = digits_val ds * 10 ^ (nat p - length ds)" by (simp add: digits_val_append)
    moreover have "(10::rat) powi (p - int (length ds)) = 10 ^ (nat p - length ds)"
      using 3 by (simp add: power_int_def nat_diff_distrib)
    ultimately have "num_value ?s = of_nat (digits_val ds) * 10 powi (p - int (length ds))"
      using f(2,3) minus by (simp add: num_value_def num_exponent_def take_digits(1) [OF f(1)])
    moreover have "valid_num ?s"
      using f minus assms(3) by (intro integer_literal) simp_all
    ultimately show ?thesis using s f assms by (auto simp: list_all_iff)
  qed
qed

lemma exp_form_value:
  assumes "ds \<noteq> []" "list_all is_digit ds" "hd ds \<noteq> CHR ''0''"
  shows "num_value (exp_form ds p) = of_nat (digits_val ds) * 10 powi (p - int (length ds)) \<and> valid_num (exp_form ds p)
     \<and> is_digit (hd (exp_form ds p)) \<and> exp_form ds p \<noteq> []"
proof -
  obtain c cs where ds: "ds = c # cs" using assms(1) by (cases ds) auto
  have c: "is_digit c" "list_all is_digit cs" "c \<noteq> CHR ''0''" "c \<noteq> CHR ''-''" using assms ds by auto
  define es where "es = (if p - 1 < 0 then nat_str (nat (- (p - 1))) else pad_left 2 CHR ''0'' (nat_str (nat (p - 1))))"
  define sg where "sg = (if p - 1 < 0 then CHR ''-'' else CHR ''+'')"
  have es: "list_all is_digit es" "es \<noteq> []"
    using nat_str_digits by (auto simp: es_def pad_left_def list_all_iff is_digit_def)
  have ev: "digits_val es = nat \<bar>p - 1\<bar>" by (auto simp: es_def pad_left_def digits_val_zeros)
  have n: "\<not> is_digit CHR ''e''" "\<not> is_digit CHR ''.''" "\<not> is_digit sg" by (auto simp: is_digit_def sg_def)
  have sgn: "sg = CHR ''-'' \<longleftrightarrow> p - 1 < 0" "sg \<in> {CHR ''+'', CHR ''-''}" by (auto simp: sg_def)
  have s: "exp_form ds p = c # (if cs \<noteq> [] then CHR ''.'' # cs else []) @ CHR ''e'' # sg # es"
    by (auto simp: exp_form_def es_def sg_def ds Let_def)
  have x: "num_exponent (CHR ''e'' # sg # es) = p - 1" using sgn by (auto simp: num_exponent_def ev)
  have je: "json_exp (CHR ''e'' # sg # es) = Some (CHR ''e'' # sg # es, [])"
    using sgn(2) es(2) by (simp add: json_exp_def take_digits(1) [OF es(1)])
  note t = take_digits(2) [OF c(2) n(1)]
  have "num_value (exp_form ds p) = of_nat (digits_val ds) * 10 powi (p - int (length ds))"
  proof (cases "cs = []")
    case True
    have "num_value (c # CHR ''e'' # sg # es) = of_nat (digits_val [c]) * 10 powi (p - 1)"
      using c n x by (simp add: num_value_def)
    then show ?thesis using True by (simp only: s) (simp add: ds)
  next
    case False
    have v: "num_value (c # CHR ''.'' # cs @ CHR ''e'' # sg # es) = of_nat (digits_val (c # cs)) * 10 powi (p - 1 - int (length cs))"
      using c n by (simp add: num_value_def t x)
    have "p - 1 - int (length cs) = p - int (length ds)" by (simp add: ds)
    then show ?thesis using v False by (simp only: s) (simp add: ds)
  qed
  moreover have "valid_num (exp_form ds p)"
    using c n(1,2) by (cases "cs = []") (simp_all add: s valid_num_def json_num_def json_int_def json_frac_def t je)
  ultimately show ?thesis using c s by simp
qed

lemma negative_literal:
  assumes "valid_num l" "is_digit (hd l)" "l \<noteq> []"
  shows "valid_num (CHR ''-'' # l) \<and> num_value (CHR ''-'' # l) = - num_value l"
proof -
  have m: "hd l \<noteq> CHR ''-''" using assms(2) by auto
  then have "json_int (CHR ''-'' # l) = map_option (\<lambda>(a, r). (CHR ''-'' # a, r)) (json_int l)"
    by (simp add: json_int_def Let_def)
  then have "json_num (CHR ''-'' # l) = map_option (\<lambda>(a, r). (CHR ''-'' # a, r)) (json_num l)"
    by (auto simp: json_num_def option.map_comp o_def case_prod_beta split: option.splits prod.splits intro!: option.map_cong0)
  then show ?thesis using assms m by (simp add: valid_num_def num_value_def Let_def)
qed

text \<open>Every number is written as a literal that reads back as it.\<close>

lemma json_float_reads:
  assumes "to_f64 x = Fin x"
  obtains l where "json_float (Fin x) = Inr l" "valid_num l" "parse_float64 l = Fin x"
proof (cases "x = 0")
  case True
  have "valid_num ''0''" "num_value ''0'' = 0"
    by (simp_all add: valid_num_def json_num_def json_int_def json_frac_def json_exp_def num_value_def is_digit_def digits_val_def digit_val_def)
  then show ?thesis using that [of "''0''"] True assms by (simp add: json_float_def parse_float64_def)
next
  case False
  obtain m e where me: "shortest \<bar>x\<bar> = (m, e)" by (cases "shortest \<bar>x\<bar>")
  have "to_f64 \<bar>x\<bar> = Fin \<bar>x\<bar>" using assms round53_minus [of x] by (cases "x < 0") (auto simp: to_f64_alt Let_def split: if_splits)
  then have m: "0 < m" "to_f64 (of_int m * 10 powi e) = Fin \<bar>x\<bar>" using shortest_reads [OF _ _ me] False by simp_all
  obtain ds j where ds: "strip_zeros (nat_str (nat m)) = ds" "nat_str (nat m) = ds @ replicate j CHR ''0''" "ds \<noteq> []"
      "list_all is_digit ds" "hd ds \<noteq> CHR ''0''" "nat m = digits_val ds * 10 ^ j"
    using strip_zeros_digits [of "nat m"] m(1) by auto
  define p where "p = int (length (nat_str (nat m))) + e"
  have dd: "dec_digits (shortest \<bar>x\<bar>) = (ds, p)" using ds(1) by (simp add: dec_digits_def me p_def)
  define l where "l = (if Fin \<bar>x\<bar> < to_f64 (1 / 10 ^ 6) \<or> \<not> Fin \<bar>x\<bar> < to_f64 (10 ^ 21) then exp_form ds p else plain_form ds p)"
  have l: "num_value l = of_nat (digits_val ds) * 10 powi (p - int (length ds))" "valid_num l" "is_digit (hd l)" "l \<noteq> []"
    using plain_form_value [OF ds(3-5)] exp_form_value [OF ds(3-5)] by (auto simp: l_def)
  have "rat_of_int m = of_nat (nat m)" using m(1) by simp
  then have "rat_of_int m * 10 powi e = of_nat (digits_val ds) * (10 powi int j * 10 powi e)" by (simp add: ds(6))
  also have "(10::rat) powi int j * 10 powi e = 10 powi (int j + e)" by (rule power_int_add [symmetric]) simp
  also have "int j + e = p - int (length ds)" by (simp add: p_def ds(2))
  finally have v: "num_value l = of_int m * 10 powi e" using l(1) by simp
  show ?thesis
  proof (cases "x < 0")
    case True
    have "to_f64 (- num_value l) = Fin x"
      using m(2) True v overflow_pos by (auto simp: to_f64_alt Let_def round53_minus split: if_splits)
    then show ?thesis
      using that [of "CHR ''-'' # l"] negative_literal [OF l(2-4)] True False dd
      by (simp add: json_float_def parse_float64_def l_def)
  next
    case nonneg: False
    then show ?thesis using that [of l] l(2) m(2) v False dd by (simp add: json_float_def parse_float64_def l_def)
  qed
qed

end
