(* ===== verification/GoMarshal.thy ===== *)
theory GoMarshal
  imports GoFloat "HOL-Library.List_Lexorder"
begin

text \<open>
  The values the program hands to \<open>encoding/json\<close> and gets back from it. \<open>to_tree\<close> encodes a
  value, stopping at the first that has no JSON form; maps are written in the order of their
  keys. \<open>unmarshal_member\<close> decodes into a structure with one field, as the answers of the code
  forges are decoded.
\<close>

subsection \<open>Values\<close>

text \<open>\<open>JNull\<close> is a nil pointer; structures are objects with the names of their fields or tags.\<close>

datatype json =
    JNull
  | JBool bool
  | JStr string
  | JInt int
  | JFloat f64
  | JTime go_time
  | JObj "(string \<times> json) list"
  | JArr "json list"

text \<open>The members of a map, sorted by the bytes of the keys.\<close>

definition sorted_members :: "(string \<rightharpoonup> 'a) \<Rightarrow> (string \<times> 'a) list" where
  "sorted_members m = map (\<lambda>k. (k, the (m k))) (sorted_list_of_set (dom m))"

definition json_map :: "(string \<rightharpoonup> string) \<Rightarrow> json" where
  "json_map m = JObj (map (\<lambda>(k, v). (k, JStr v)) (sorted_members m))"

text \<open>\<open>Time.MarshalJSON\<close>: \<open>time.RFC3339Nano\<close>, for years of four digits and zones within a day.\<close>

definition fmt_fraction :: "int \<Rightarrow> string" where
  "fmt_fraction ns = (if ns = 0 then [] else ''.'' @ strip_zeros (fmt_0d 9 ns))"

definition year_of :: "go_time \<Rightarrow> int" where
  "year_of t = fst (civil_of_days (local_secs t div 86400))"

definition marshal_time :: "go_time \<Rightarrow> string + string" where
  "marshal_time t =
     (let failed = (\<lambda>e. Inl (''json: error calling MarshalJSON for type time.Time: Time.MarshalJSON: '' @ e))
      in if year_of t < 0 \<or> 9999 < year_of t then failed ''year outside of range [0,9999]''
         else if t_Offset t \<noteq> 0 \<and> 24 \<le> \<bar>t_Offset t\<bar> div 3600 then failed ''timezone hour outside of range [0,23]''
         else Inr (fmt_date t @ ''T'' @ fmt_clock t @ fmt_fraction (t_Nano t) @ fmt_zone (t_Offset t)))"

fun to_tree :: "json \<Rightarrow> string + jtree" where
  "to_tree JNull = Inr TNull"
| "to_tree (JBool b) = Inr (TBool b)"
| "to_tree (JStr s) = Inr (TStr s)"
| "to_tree (JInt i) = Inr (TNum (fmt_d i))"
| "to_tree (JFloat f) = map_sum id TNum (json_float f)"
| "to_tree (JTime t) = map_sum id TStr (marshal_time t)"
| "to_tree (JObj ms) = map_sum id TObj (map_sum_list (\<lambda>(k, v). map_sum id (Pair k) (to_tree v)) ms)"
| "to_tree (JArr vs) = map_sum id TArr (map_sum_list to_tree vs)"

definition marshal :: "json \<Rightarrow> string + string" where
  "marshal v = map_sum id json_compact (to_tree v)"

definition marshal_indent :: "json \<Rightarrow> string + string" where
  "marshal_indent v = map_sum id json_indented (to_tree v)"

subsection \<open>Decoding into a structure with one field\<close>

text \<open>
  A key is the name of a field up to case, where the long s and the Kelvin sign fold to letters.
\<close>

function fold_key :: "string \<Rightarrow> string" where
  "fold_key [] = []"
| "fold_key (c # r) =
     (if c = CHR 0xC5 \<and> take 1 r = [CHR 0xBF] then CHR ''s'' # fold_key (drop 1 r)
      else if c = CHR 0xE2 \<and> take 2 r = [CHR 0x84, CHR 0xAA] then CHR ''k'' # fold_key (drop 2 r)
      else lower_char c # fold_key r)"
  by pat_completeness auto

termination by (relation "measure length") auto

text \<open>A target of type \<open>'a\<close>: its value so far, and the first error, which does not stop the decoding.\<close>

type_synonym 'a target = "'a \<times> string option"

definition type_error :: "string \<Rightarrow> string \<Rightarrow> string \<Rightarrow> 'a target \<Rightarrow> 'a target" where
  "type_error what path typ t = (fst t, case snd t of Some e \<Rightarrow> Some e
     | None \<Rightarrow> Some (''json: cannot unmarshal '' @ what @ (if path = [] then '' into Go value of type '' else '' into Go struct field .'' @ path @ '' of type '') @ typ))"

definition kind_of :: "jtree \<Rightarrow> string" where
  "kind_of v = (case v of TNull \<Rightarrow> ''null'' | TBool _ \<Rightarrow> ''bool'' | TNum _ \<Rightarrow> ''number'' | TStr _ \<Rightarrow> ''string''
     | TArr _ \<Rightarrow> ''array'' | TObj _ \<Rightarrow> ''object'')"

text \<open>\<open>null\<close> leaves the target as it is.\<close>

definition into_int64 :: "string \<Rightarrow> jtree \<Rightarrow> int target \<Rightarrow> int target" where
  "into_int64 path v t =
     (case v of
        TNull \<Rightarrow> t
      | TNum l \<Rightarrow> (case json_int l of
            Some (_, []) \<Rightarrow> (let i = (if hd l = CHR ''-'' then - int (digits_val (tl l)) else int (digits_val l))
              in if - (2 ^ 63) \<le> i \<and> i < 2 ^ 63 then (i, snd t) else type_error (''number '' @ l) path ''int64'' t)
          | _ \<Rightarrow> type_error (''number '' @ l) path ''int64'' t)
      | _ \<Rightarrow> type_error (kind_of v) path ''int64'' t)"

definition into_string :: "string \<Rightarrow> jtree \<Rightarrow> string target \<Rightarrow> string target" where
  "into_string path v t = (case v of TNull \<Rightarrow> t | TStr s \<Rightarrow> (s, snd t) | _ \<Rightarrow> type_error (kind_of v) path ''string'' t)"

definition into_struct ::
    "string \<Rightarrow> string \<Rightarrow> string \<Rightarrow> (jtree \<Rightarrow> 'a target \<Rightarrow> 'a target) \<Rightarrow> jtree \<Rightarrow> 'a target \<Rightarrow> 'a target" where
  "into_struct name path typ into v t =
     (case v of
        TNull \<Rightarrow> t
      | TObj ms \<Rightarrow> foldl (\<lambda>t (k, w). if fold_key k = fold_key name then into w t else t) t ms
      | _ \<Rightarrow> type_error (kind_of v) path typ t)"

text \<open>\<open>json.Unmarshal\<close>: the text of a syntax error is a parameter.\<close>

definition unmarshal :: "(string \<Rightarrow> string) \<Rightarrow> (jtree \<Rightarrow> 'a target \<Rightarrow> 'a target) \<Rightarrow> 'a \<Rightarrow> string \<Rightarrow> string + 'a" where
  "unmarshal syntax_error into zero body =
     (case parse_json body of
        None \<Rightarrow> Inl (syntax_error body)
      | Some v \<Rightarrow> (case into v (zero, None) of (a, None) \<Rightarrow> Inr a | (_, Some e) \<Rightarrow> Inl e))"

subsection \<open>Lemmas\<close>

text \<open>The numbers of the program are floats: rounding does not change them.\<close>

definition is_f64 :: "f64 \<Rightarrow> bool" where
  "is_f64 f = (case f of Fin x \<Rightarrow> to_f64 x = Fin x | _ \<Rightarrow> True)"

lemma is_f64_to [simp]: "is_f64 (to_f64 x)"
  by (auto simp: is_f64_def to_f64_alt Let_def)

lemma is_f64_ops [simp]: "is_f64 (x + y)" "is_f64 (x * y)" "is_f64 (x / y)" "is_f64 (of_int64 n)" "is_f64 0"
proof -
  have "is_f64 (inf_of_sgn s)" for s by (simp add: is_f64_def inf_of_sgn_def)
  moreover have zero: "is_f64 (Fin 0)" using is_f64_to [of 0] using overflow_pos by (simp add: to_f64_alt Let_def round53_def split: if_splits)
  ultimately show "is_f64 (x + y)" "is_f64 (x * y)" "is_f64 (x / y)" "is_f64 (of_int64 n)" "is_f64 0"
    by (cases x; cases y; simp add: f64_defs of_int64_def; simp add: is_f64_def)+
qed

lemma json_float_valid:
  assumes "is_f64 f" "json_float f = Inr l"
  shows "valid_num l \<and> parse_float64 l = f"
proof (cases f)
  case (Fin x)
  then have "to_f64 x = Fin x" using assms(1) by (simp add: is_f64_def)
  then show ?thesis using assms(2) Fin by (metis json_float_reads sum.inject(2))
qed (use assms(2) in \<open>simp_all add: json_float_def\<close>)

lemma digit_0: "digit 0 = CHR ''0''"
  by code_simp

lemma nat_str_head: "n \<noteq> 0 \<Longrightarrow> hd (nat_str n) \<noteq> CHR ''0''"
proof -
  assume n: "n \<noteq> 0"
  obtain ds j where "nat_str n = ds @ replicate j CHR ''0''" "ds \<noteq> []" "hd ds \<noteq> CHR ''0''"
    by (rule strip_zeros_digits [of n]) (use n in simp, blast)
  then show ?thesis by simp
qed

lemma nat_str_literal: "is_digit (hd (nat_str n))" "json_int (nat_str n) = Some (nat_str n, [])"
proof -
  have d: "list_all is_digit (nat_str n)" "is_digit (hd (nat_str n))"
    using nat_str_digits [of n] hd_in_set [OF nat_str_nonempty] by (auto simp: list_all_iff)
  moreover have "hd (nat_str n) \<noteq> CHR ''-''" using d(2) by auto
  moreover have "nat_str 0 = ''0''" by (simp add: nat_str.simps digit_0)
  ultimately show "is_digit (hd (nat_str n))" "json_int (nat_str n) = Some (nat_str n, [])"
    using nat_str_head [of n] by (cases "n = 0"; simp add: json_int_def Let_def take_digits(1))+
qed

lemma fmt_d_literal: "json_int (fmt_d i) = Some (fmt_d i, [])"
proof -
  have "hd (nat_str n) \<noteq> CHR ''-''" for n using nat_str_literal(1) [of n] by auto
  then show ?thesis using nat_str_literal [of "nat i"] nat_str_literal [of "nat (- i)"]
    by (auto simp: fmt_d_def json_int_def Let_def split: if_splits)
qed

lemma fmt_d_valid [simp]: "valid_num (fmt_d i)"
  by (simp add: valid_num_def json_num_def fmt_d_literal json_frac_def json_exp_def)

lemma into_int64_fmt_d:
  assumes "- (2 ^ 63) \<le> i" "i < 2 ^ 63"
  shows "into_int64 path (TNum (fmt_d i)) t = (i, snd t)"
proof -
  have "hd (nat_str n) \<noteq> CHR ''-''" for n using nat_str_literal(1) [of n] by auto
  then have "(if hd (fmt_d i) = CHR ''-'' then - int (digits_val (tl (fmt_d i))) else int (digits_val (fmt_d i))) = i"
    by (auto simp: fmt_d_def)
  then show ?thesis using assms by (simp add: into_int64_def fmt_d_literal Let_def)
qed

text \<open>Every value whose floats are floats encodes to a well-formed tree, and fails only for infinities, NaN and dates.\<close>

fun json_ok :: "json \<Rightarrow> bool" where
  "json_ok (JFloat f) = is_f64 f"
| "json_ok (JObj ms) = list_all (\<lambda>(_, v). json_ok v) ms"
| "json_ok (JArr vs) = list_all json_ok vs"
| "json_ok _ = True"

lemma to_tree_ok: "json_ok j \<Longrightarrow> to_tree j = Inr t \<Longrightarrow> tree_ok t"
proof (induction j arbitrary: t)
  case (JObj ms)
  let ?f = "\<lambda>(k, v). map_sum id (Pair k) (to_tree v)"
  obtain ts where ts: "t = TObj ts" "map_sum_list ?f ms = Inr ts" using JObj.prems(2) by (cases "map_sum_list ?f ms") auto
  then have t: "t = TObj ts" "list_all2 (\<lambda>x y. ?f x = Inr y) ms ts" by (simp_all only: map_sum_list_Inr)
  have "tree_ok w" if kw: "(k, w) \<in> set ts" for k w
  proof -
    obtain i where i: "i < length ts" "ts ! i = (k, w)" using kw by (auto simp: in_set_conv_nth)
    then have f: "i < length ms" "?f (ms ! i) = Inr (k, w)" using t(2) by (auto simp: list_all2_conv_all_nth)
    obtain k' v where v: "ms ! i = (k', v)" by (cases "ms ! i")
    then have "(k', v) \<in> set ms" "to_tree v = Inr w" using f nth_mem [OF f(1)] by (cases "to_tree v"; simp)+
    then show ?thesis using JObj.IH JObj.prems(1) by (fastforce simp: list_all_iff)
  qed
  then show ?case by (auto simp: t list_all_iff)
next
  case (JArr vs)
  obtain ts where t: "t = TArr ts" "list_all2 (\<lambda>v y. to_tree v = Inr y) vs ts"
    using JArr.prems(2) by (cases "map_sum_list to_tree vs") (auto simp: map_sum_list_Inr)
  have "tree_ok w" if w: "w \<in> set ts" for w
  proof -
    obtain i where i: "i < length ts" "ts ! i = w" using w by (auto simp: in_set_conv_nth)
    then have "i < length vs" "to_tree (vs ! i) = Inr w" using t(2) by (auto simp: list_all2_conv_all_nth)
    then obtain v where "v \<in> set vs" "to_tree v = Inr w" using nth_mem by blast
    then show ?thesis using JArr.prems(1) by (intro JArr.IH [of v]) (auto simp: list_all_iff)
  qed
  then show ?case by (simp add: t list_all_iff)
next
  case (JFloat f)
  then show ?case by (cases "json_float f") (auto dest: json_float_valid)
next
  case (JTime x)
  then show ?case by (cases "marshal_time x") auto
qed auto

lemma to_tree_map [simp]: "to_tree (json_map m) = Inr (TObj (map (\<lambda>(k, v). (k, TStr v)) (sorted_members m)))"
proof -
  have "map_sum_list (\<lambda>(k, v). map_sum id (Pair k) (to_tree v)) (map (\<lambda>(k, v). (k, JStr v)) ms) = Inr (map (\<lambda>(k, v). (k, TStr v)) ms)"
    for ms :: "(string \<times> string) list"
    by (induction ms) auto
  then show ?thesis by (simp add: json_map_def)
qed

lemma json_ok_map [simp]: "json_ok (json_map m)"
  by (auto simp: json_map_def list_all_iff)

text \<open>Both texts of a value read back as its tree, with clean strings; trailing white space does not matter.\<close>

lemma marshal_reads:
  assumes "json_ok v" "ws_text w"
  shows "marshal v = Inr s \<Longrightarrow> \<exists>t. to_tree v = Inr t \<and> parse_json (s @ w) = Some (tree_clean t)"
    and "marshal_indent v = Inr s \<Longrightarrow> \<exists>t. to_tree v = Inr t \<and> parse_json (s @ w) = Some (tree_clean t)"
  using assms
  by (cases "to_tree v"; auto simp: marshal_def marshal_indent_def json_compact_def json_indented_def json_roundtrip to_tree_ok)+

text \<open>A sorted map has every key once, with its value.\<close>

lemma sorted_members:
  assumes "finite (dom m)"
  shows "map_of (sorted_members m) = m" "distinct (map fst (sorted_members m))" "sorted (map fst (sorted_members m))"
proof -
  show "map_of (sorted_members m) = m"
    using assms by (auto simp: sorted_members_def map_of_map_restrict restrict_map_def fun_eq_iff domIff)
qed (simp_all add: sorted_members_def o_def)

text \<open>Seconds of a 64-bit duration are a number.\<close>

lemma of_int64_range:
  assumes "\<bar>n\<bar> \<le> 2 ^ 63"
  obtains y where "of_int64 n = Fin y" "\<bar>y\<bar> \<le> 2 ^ 63"
proof -
  have "rat_of_int \<bar>n\<bar> \<le> of_int (2 ^ 63)" using assms by (simp only: of_int_le_iff)
  then have n: "\<bar>rat_of_int n\<bar> \<le> 2 ^ 63" by simp
  also have "(2::rat) ^ 63 \<le> 2 ^ 1000" by (rule power_increasing) auto
  finally have "of_int64 n = Fin (round53 (of_int n))" by (simp only: of_int64_def to_f64_small)
  moreover have r: "round53 (2 ^ 63) = 2 ^ 63" "round53 (- (2 ^ 63)) = - (2 ^ 63)"
    using round53_exact [of 1 63] by (simp_all add: round53_minus)
  then have "\<bar>round53 (rat_of_int n)\<bar> \<le> 2 ^ 63"
    using round53_le [of "of_int n" "2 ^ 63"] round53_ge [of "- (2 ^ 63)" "of_int n"] n by (simp add: abs_le_iff)
  ultimately show ?thesis by (rule that)
qed

lemma seconds_finite:
  assumes "\<bar>d\<bar> \<le> 2 ^ 63"
  obtains x where "seconds d = Fin x"
proof -
  have "\<bar>d sdiv 1000000000\<bar> \<le> \<bar>d\<bar> div 1000000000" by (simp add: signed_divide_int_def abs_mult abs_sgn_eq)
  also have "\<dots> \<le> \<bar>d\<bar>" using zdiv_mono2 [of "\<bar>d\<bar>" 1 1000000000] by simp
  finally have "\<bar>d sdiv 1000000000\<bar> \<le> 2 ^ 63" using assms by linarith
  then obtain y where y: "of_int64 (d sdiv 1000000000) = Fin y" "\<bar>y\<bar> \<le> 2 ^ 63" by (rule of_int64_range)
  have "\<bar>d smod 1000000000\<bar> \<le> \<bar>d\<bar> mod 1000000000" by (simp add: signed_modulo_int_def abs_mult abs_sgn_eq)
  moreover have "\<bar>d\<bar> mod 1000000000 < 1000000000" "(1000000000::int) \<le> 2 ^ 63" by simp_all
  ultimately have "\<bar>d smod 1000000000\<bar> \<le> 2 ^ 63" by linarith
  then obtain z where z: "of_int64 (d smod 1000000000) = Fin z" "\<bar>z\<bar> \<le> 2 ^ 63" by (rule of_int64_range)
  have small: "\<bar>q\<bar> \<le> 2 ^ 65 \<Longrightarrow> to_f64 q = Fin (round53 q)" for q :: rat
    by (rule to_f64_small) (rule order_trans, assumption, rule power_increasing, simp_all)
  define w where "w = round53 (z / 1000000000)"
  have q: "\<bar>z / 1000000000\<bar> \<le> 2 ^ 63" using z(2) by (simp add: abs_divide divide_le_eq)
  have r: "round53 (2 ^ 63) = 2 ^ 63" "round53 (- (2 ^ 63)) = - (2 ^ 63)"
    using round53_exact [of 1 63] by (simp_all add: round53_minus)
  have w: "\<bar>w\<bar> \<le> 2 ^ 63"
    using round53_le [of "z / 1000000000" "2 ^ 63"] round53_ge [of "- (2 ^ 63)" "z / 1000000000"] q r by (simp add: abs_le_iff w_def)
  have p: "(2::rat) ^ 63 + 2 ^ 63 \<le> 2 ^ 65" by simp
  have "\<bar>z / 1000000000\<bar> \<le> 2 ^ 65" using q by (rule order_trans) simp
  then have "Fin z / Fin 1000000000 = Fin w" by (simp add: f64_simps small w_def)
  moreover have "\<bar>y + w\<bar> \<le> 2 ^ 65"
    by (rule order_trans [OF abs_triangle_ineq order_trans [OF add_mono [OF y(2) w] p]])
  ultimately show ?thesis using that by (simp add: seconds_def y z f64_simps small)
qed

text \<open>A number that is no infinity is written, and read back.\<close>

lemma number_written:
  assumes "x = Fin q" "is_f64 x"
  obtains l where "json_float x = Inr l" "parse_float64 l = x"
  using assms json_float_reads [of q] by (auto simp: is_f64_def)

subsection \<open>Hand-written JSON\<close>

text \<open>The literals of \<open>%.pf\<close>, and texts put between quotes as they are.\<close>

lemma fixed_point_literal:
  assumes "list_all is_digit a" "list_all is_digit b" "a \<noteq> []" "b \<noteq> []" "hd a = CHR ''0'' \<longrightarrow> a = ''0''"
  shows "valid_num (a @ CHR ''.'' # b)"
proof -
  have d: "\<not> is_digit CHR ''.''" "is_digit CHR ''0''" by (simp_all add: is_digit_def)
  have "hd a \<noteq> CHR ''-''" using assms(1,3) by (cases a) auto
  then show ?thesis using assms(3-5)
    by (cases "hd a = CHR ''0''") (simp_all add: valid_num_def json_num_def json_int_def json_frac_def json_exp_def Let_def d
        take_digits(2) [OF assms(1) d(1), of b] take_digits(1) [OF assms(2)])
qed

lemma fmt_f_literal:
  assumes "0 < p"
  shows "valid_num (fmt_f p (Fin q))"
proof -
  define n where "n = nat (rne (\<bar>q\<bar> * 10 ^ p))"
  define s where "s = pad_left (p + 1) CHR ''0'' (nat_str n)"
  define a b where "a = take (length s - p) s" and "b = drop (length s - p) s"
  have s: "list_all is_digit s" "p < length s"
    using nat_str_digits [of n] by (auto simp: s_def pad_left_def list_all_iff is_digit_def)
  have ab: "list_all is_digit a" "list_all is_digit b" "a \<noteq> []" "b \<noteq> []"
    using s assms by (auto simp: a_def b_def list_all_iff dest: in_set_takeD in_set_dropD)
  have "a = ''0''" if z: "hd a = CHR ''0''"
  proof (cases "length (nat_str n) \<le> p + 1")
    case True
    then have "length s = p + 1" by (simp add: s_def pad_left_def)
    then have "length a = 1" by (simp add: a_def)
    then show ?thesis using z by (cases a) auto
  next
    case False
    then have "hd a = hd (nat_str n)" by (simp add: s_def pad_left_def a_def)
    moreover have "length (nat_str 0) = 1" by (simp add: nat_str.simps)
    then have "n \<noteq> 0" using False by (intro notI) simp
    ultimately show ?thesis using z nat_str_head [of n] by auto
  qed
  then have v: "valid_num (a @ CHR ''.'' # b)" by (intro fixed_point_literal ab) simp
  moreover have "is_digit (hd (a @ CHR ''.'' # b))" using ab by (cases a) auto
  ultimately have "valid_num (CHR ''-'' # a @ CHR ''.'' # b)" using negative_literal by blast
  moreover have "fmt_f p (Fin q) = (if q < 0 then ''-'' else []) @ a @ CHR ''.'' # b"
    by (simp only: fmt_f.simps Let_def a_def b_def s_def n_def)
  ultimately show ?thesis using v by (simp del: fmt_f.simps)
qed


text \<open>A time stamp is printable ASCII.\<close>

lemma fmt_rfc3339_plain [simp]: "plain_str (fmt_rfc3339 t)" "utf8_clean (fmt_rfc3339 t) = fmt_rfc3339 t"
proof -
  define ok where "ok c \<longleftrightarrow> is_digit c \<or> c \<in> set ''-:TZ+''" for c
  have "list_all is_digit (pad_left w CHR ''0'' (nat_str n))" for w n
    using nat_str_digits [of n] by (auto simp: pad_left_def list_all_iff is_digit_def)
  then have "list_all ok (pad_left w CHR ''0'' (nat_str n))" for w n by (auto simp: ok_def list_all_iff)
  then have "list_all ok (fmt_0d w i)" for w i by (simp add: fmt_0d_def ok_def)
  then have a: "list_all ok (fmt_rfc3339 t)"
    by (simp add: fmt_rfc3339_def fmt_date_def fmt_clock_def fmt_zone_def Let_def ok_def split: prod.splits)
  have c: "32 \<le> (of_char c :: nat) \<and> c \<noteq> CHR 0x22 \<and> c \<noteq> CHR 0x5C" "(of_char c :: nat) < 128" if "ok c" for c
    using that by (auto simp: ok_def is_digit_def)
  show "plain_str (fmt_rfc3339 t)" unfolding plain_str_def by (rule list.pred_mono_strong [OF a c(1)])
  show "utf8_clean (fmt_rfc3339 t) = fmt_rfc3339 t" by (rule utf8_clean_ascii [OF list.pred_mono_strong [OF a c(2)]])
qed

text \<open>One member of a hand-written object: its name, a colon and a space, and its value.\<close>

lemma jmem_line:
  assumes "ws_text w" "plain_str k" "utf8_clean k = k" "jval y v" "ws_text w'"
  shows "jmem (w @ dq @ k @ dq @ '': '' @ y @ w') (k, v)"
  unfolding jmem_def
  by (intro exI [of _ w] exI [of _ k] exI [of _ "'' ''"] exI [of _ y] exI [of _ w'])
    (use assms plain_str_text [OF assms(2)] in \<open>simp add: json_ws_def\<close>)

lemma jval_quoted: "plain_str s \<Longrightarrow> jval (quoted s) (TStr (utf8_clean s))"
  unfolding quoted_def by (intro jval_str plain_str_text)

lemma jval_strings:
  assumes "list_all plain_str ss"
  shows "jval (''['' @ join_with '', '' (map quoted ss) @ '']'') (TArr (map (\<lambda>s. TStr (utf8_clean s)) ss))"
proof (cases "ss = []")
  case True
  then show ?thesis using jval_arr0 [of "[]"] by simp
next
  case False
  have "jtext (quoted s) (TStr (utf8_clean s))" if "s \<in> set ss" for s
    unfolding jtext_def using assms jval_quoted that by (intro exI [of _ "[]"] exI [of _ "quoted s"]) (auto simp: list_all_iff)
  then have "list_all2 jtext (map quoted ss) (map (\<lambda>s. TStr (utf8_clean s)) ss)"
    by (simp add: list_all2_conv_all_nth)
  from jels_join [OF this, of "'' ''" "[]" "[]"] False show ?thesis using jval_arr by (simp add: json_ws_def)
qed

text \<open>Texts are handled by the lemmas from here on, not byte by byte.\<close>

declare utf8_clean.simps(2) [simp del] json_esc.simps(2) [simp del] json_str.simps [simp del] parse_value.simps [simp del]

end
