(* ===== verification/Scale.thy ===== *)
theory Scale
  imports Prelude
begin

text \<open>
  Letter scales: the grading calculator, the CI runner and the linter each turn a mark into a
  letter by a chain of thresholds. The locale states what such a chain promises, whatever the
  type of the marks; each component interprets it on its own function.
\<close>

fun first_cut :: "('n \<Rightarrow> 'n \<Rightarrow> bool) \<Rightarrow> ('n \<times> string) list \<Rightarrow> string \<Rightarrow> 'n \<Rightarrow> string" where
  "first_cut le [] bottom x = bottom"
| "first_cut le ((c, l) # cs) bottom x = (if le c x then l else first_cut le cs bottom x)"

text \<open>The rank of a letter: how many thresholds a mark with that letter is known to reach.\<close>

definition letter_rank :: "('n \<times> string) list \<Rightarrow> string \<Rightarrow> nat" where
  "letter_rank cs l = length (dropWhile (\<lambda>c. snd c \<noteq> l) cs)"

lemma first_cut_range: "first_cut le cs b x \<in> insert b (snd ` set cs)"
  by (induction le cs b x rule: first_cut.induct) auto

lemma first_cut_bottom:
  "b \<notin> snd ` set cs \<Longrightarrow> first_cut le cs b x = b \<longleftrightarrow> (\<forall>c \<in> set cs. \<not> le (fst c) x)"
  by (induction le cs b x rule: first_cut.induct) (auto simp: image_iff)

lemma letter_rank_bottom: "b \<notin> snd ` set cs \<Longrightarrow> letter_rank cs b = 0"
  by (auto simp: letter_rank_def dropWhile_eq_Nil_conv image_iff)

lemma letter_rank_Cons: "letter_rank ((c, l) # cs) l' = (if l = l' then Suc (length cs) else letter_rank cs l')"
  by (simp add: letter_rank_def)

lemma letter_rank_le: "letter_rank cs l \<le> length cs"
  by (simp add: letter_rank_def length_dropWhile_le)

lemma first_cut_mono:
  assumes "\<And>c. c \<in> set cs \<Longrightarrow> le (fst c) x \<Longrightarrow> le (fst c) y"
    and "distinct (map snd cs)" "b \<notin> snd ` set cs"
  shows "letter_rank cs (first_cut le cs b x) \<le> letter_rank cs (first_cut le cs b y)"
  using assms
proof (induction cs)
  case Nil
  then show ?case by simp
next
  case (Cons cl cs)
  obtain c l where cl: "cl = (c, l)" by (cases cl)
  have IH: "letter_rank cs (first_cut le cs b x) \<le> letter_rank cs (first_cut le cs b y)"
    by (rule Cons.IH) (use Cons.prems in auto)
  have other: "first_cut le cs b z \<noteq> l" for z
    using first_cut_range [of le cs b z] Cons.prems(2,3) by (auto simp: cl)
  have step: "le c x \<Longrightarrow> le c y" using Cons.prems(1) [of "(c, l)"] by (simp add: cl)
  have top: "letter_rank ((c, l) # cs) l' \<le> Suc (length cs)" for l'
    using letter_rank_le [of "(c, l) # cs" l'] by simp
  have neq: "l \<noteq> first_cut le cs b z" for z using other [of z] by simp
  show ?case
  proof (cases "le c y")
    case True
    then show ?thesis using top by (simp add: cl letter_rank_Cons [of c l cs l])
  next
    case False
    with step have "\<not> le c x" by blast
    with False show ?thesis using IH by (simp add: cl letter_rank_Cons neq)
  qed
qed

locale letter_scale =
  fixes le :: "'n \<Rightarrow> 'n \<Rightarrow> bool" and letter :: "'n \<Rightarrow> string"
    and cuts :: "('n \<times> string) list" and bottom :: string
  assumes trans: "le x y \<Longrightarrow> le y z \<Longrightarrow> le x z"
    and cut: "letter x = first_cut le cuts bottom x"
    and dist: "distinct (map snd cuts)" "bottom \<notin> snd ` set cuts"
begin

lemma letter_range: "letter x \<in> insert bottom (snd ` set cuts)"
  unfolding cut by (rule first_cut_range)

lemma letter_bottom: "letter x = bottom \<longleftrightarrow> (\<forall>c \<in> set cuts. \<not> le (fst c) x)"
  unfolding cut by (rule first_cut_bottom [OF dist(2)])

lemma letter_mono: "le x y \<Longrightarrow> letter_rank cuts (letter x) \<le> letter_rank cuts (letter y)"
  unfolding cut by (rule first_cut_mono) (use dist trans in blast)+

end

end
