(* ===== verification/Grading.thy ===== *)
theory Grading
  imports GoMarshal Scale
begin

text \<open>
  The grade calculator, \<^verbatim>\<open>pkg/grading/calculator.go\<close>, and the \<open>grade\<close> command's use of it,
  \<^verbatim>\<open>pkg/cmd/grade.go\<close>.

  \<^item> \<open>calculator\<close> keeps the criteria and a map of results by criterion name; \<open>add_result\<close> and
    \<open>calculate\<close> are its operations, in binary64 arithmetic with Go's truncations to \<open>int\<close>.
  \<^item> The exports build the same text as the code; the file system answers are parameters.
\<close>

subsection \<open>Data\<close>

record submission =
  sb_StudentID :: string
  sb_StudentName :: string
  sb_Timestamp :: go_time
  sb_Repository :: string
  sb_CommitHash :: string

record criterion =
  cr_Name :: string
  cr_Weight :: f64
  cr_MaxPoints :: int
  cr_MustPass :: bool
  cr_Description :: string

datatype detail = DInt int | DString string | DBool bool

record category_result =
  ca_Criterion :: criterion
  ca_Score :: int
  ca_MaxPoints :: int
  ca_Percentage :: f64
  ca_Feedback :: "string list"
  ca_Details :: "string \<rightharpoonup> detail"
  ca_Pass :: bool

record grade =
  gr_Submission :: submission
  gr_TotalScore :: int
  gr_MaxScore :: int
  gr_Percentage :: f64
  gr_LetterGrade :: string
  gr_Passed :: bool
  gr_Categories :: "category_result list"
  gr_MustPassMet :: bool
  gr_Feedback :: "string list"
  gr_DetailedNotes :: "string list"
  gr_Timestamp :: go_time

record calculator =
  cl_submission :: submission
  cl_criteria :: "criterion list"
  cl_results :: "string \<rightharpoonup> category_result"

subsection \<open>The calculator\<close>

definition DefaultCriteria :: "criterion list" where
  "DefaultCriteria =
     [\<lparr>cr_Name = ''compilation'', cr_Weight = to_f64 (10 / 100), cr_MaxPoints = 10, cr_MustPass = True,
       cr_Description = ''All services compile without errors''\<rparr>,
      \<lparr>cr_Name = ''functionality'', cr_Weight = to_f64 (40 / 100), cr_MaxPoints = 40, cr_MustPass = False,
       cr_Description = ''Core functionality tests pass''\<rparr>,
      \<lparr>cr_Name = ''performance'', cr_Weight = to_f64 (30 / 100), cr_MaxPoints = 30, cr_MustPass = False,
       cr_Description = ''Performance benchmarks meet targets''\<rparr>,
      \<lparr>cr_Name = ''reliability'', cr_Weight = to_f64 (20 / 100), cr_MaxPoints = 20, cr_MustPass = False,
       cr_Description = ''Chaos tests and reliability metrics''\<rparr>]"

definition new_calculator :: "submission \<Rightarrow> calculator" where
  "new_calculator sb = \<lparr>cl_submission = sb, cl_criteria = DefaultCriteria, cl_results = Map.empty\<rparr>"

definition set_criteria :: "criterion list \<Rightarrow> calculator \<Rightarrow> calculator" where
  "set_criteria cs c = c\<lparr>cl_criteria := cs\<rparr>"

definition zero_criterion :: criterion where
  "zero_criterion = \<lparr>cr_Name = [], cr_Weight = 0, cr_MaxPoints = 0, cr_MustPass = False, cr_Description = []\<rparr>"

fun find_criterion :: "string \<Rightarrow> criterion list \<Rightarrow> criterion" where
  "find_criterion category [] = zero_criterion"
| "find_criterion category (crit # cs) = (if cr_Name crit = category then crit else find_criterion category cs)"

definition add_result :: "string \<Rightarrow> int \<Rightarrow> int \<Rightarrow> string list \<Rightarrow> (string \<rightharpoonup> detail) \<Rightarrow> calculator \<Rightarrow> calculator" where
  "add_result category score maxPoints feedback details c =
     (let criterion = find_criterion category (cl_criteria c);
          percentage = (if maxPoints > 0 then percent_of score maxPoints else 0);
          pass = (if cr_MustPass criterion then Fin 100 \<le> percentage else Fin 60 \<le> percentage)
      in c\<lparr>cl_results := (cl_results c)(category \<mapsto>
           \<lparr>ca_Criterion = criterion, ca_Score = score, ca_MaxPoints = maxPoints, ca_Percentage = percentage,
            ca_Feedback = feedback, ca_Details = details, ca_Pass = pass\<rparr>)\<rparr>)"

definition not_evaluated :: "criterion \<Rightarrow> category_result" where
  "not_evaluated crit = \<lparr>ca_Criterion = crit, ca_Score = 0, ca_MaxPoints = cr_MaxPoints crit, ca_Percentage = 0,
     ca_Feedback = [''Category not evaluated''], ca_Details = Map.empty, ca_Pass = False\<rparr>"

definition result_for :: "calculator \<Rightarrow> criterion \<Rightarrow> category_result" where
  "result_for c crit = (case cl_results c (cr_Name crit) of Some r \<Rightarrow> r | None \<Rightarrow> not_evaluated crit)"

definition weighted_score :: "calculator \<Rightarrow> criterion \<Rightarrow> int" where
  "weighted_score c crit = int_of_f64 (of_int64 (ca_Score (result_for c crit)) * cr_Weight crit)"

definition weighted_max :: "criterion \<Rightarrow> int" where
  "weighted_max crit = int_of_f64 (of_int64 (cr_MaxPoints crit) * cr_Weight crit)"

text \<open>The state of the loop of \<open>Calculate\<close> and one round of it.\<close>

record calc_loop =
  lp_Categories :: "category_result list"
  lp_Feedback :: "string list"
  lp_TotalScore :: int
  lp_TotalMax :: int
  lp_MustPassMet :: bool

definition calc_step :: "calculator \<Rightarrow> calc_loop \<Rightarrow> criterion \<Rightarrow> calc_loop" where
  "calc_step c l crit =
     (let r = result_for c crit;
          l1 = l\<lparr>lp_Categories := lp_Categories l @ [r],
                 lp_TotalScore := i64 (lp_TotalScore l + weighted_score c crit),
                 lp_TotalMax := i64 (lp_TotalMax l + weighted_max crit)\<rparr>
      in if cr_MustPass crit \<and> \<not> ca_Pass r
         then l1\<lparr>lp_MustPassMet := False,
                 lp_Feedback := lp_Feedback l @ [''Must-pass criterion failed: '' @ cr_Name crit]\<rparr>
         else l1)"

definition letter_grade :: "f64 \<Rightarrow> string" where
  "letter_grade p =
     (if Fin 93 \<le> p then ''A'' else if Fin 90 \<le> p then ''A-'' else if Fin 87 \<le> p then ''B+''
      else if Fin 83 \<le> p then ''B'' else if Fin 80 \<le> p then ''B-'' else if Fin 77 \<le> p then ''C+''
      else if Fin 73 \<le> p then ''C'' else if Fin 70 \<le> p then ''C-'' else if Fin 60 \<le> p then ''D''
      else ''F'')"

definition detailed_notes :: "category_result list \<Rightarrow> string list" where
  "detailed_notes cats = concat (map (\<lambda>cat.
     concat [(if ca_Pass cat then tick else cross), '' '', cr_Name (ca_Criterion cat), '': '',
        fmt_d (ca_Score cat), ''/'', fmt_d (ca_MaxPoints cat), '' ('', fmt_f 1 (ca_Percentage cat),
        ''%)''] #
     map (\<lambda>fb. ''    - '' @ fb) (ca_Feedback cat)) cats)"

definition calculate :: "go_time \<Rightarrow> calculator \<Rightarrow> string + grade" where
  "calculate now c =
     (let l = foldl (calc_step c)
                \<lparr>lp_Categories = [], lp_Feedback = [], lp_TotalScore = 0, lp_TotalMax = 0, lp_MustPassMet = True\<rparr>
                (cl_criteria c);
          percentage = (if lp_TotalMax l > 0 then percent_of (lp_TotalScore l) (lp_TotalMax l) else 0)
      in Inr \<lparr>gr_Submission = cl_submission c, gr_TotalScore = lp_TotalScore l, gr_MaxScore = lp_TotalMax l,
              gr_Percentage = percentage, gr_LetterGrade = letter_grade percentage,
              gr_Passed = (lp_MustPassMet l \<and> Fin 60 \<le> percentage), gr_Categories = lp_Categories l,
              gr_MustPassMet = lp_MustPassMet l, gr_Feedback = lp_Feedback l,
              gr_DetailedNotes = detailed_notes (lp_Categories l), gr_Timestamp = now\<rparr>)"

subsection \<open>Exports\<close>

definition json_category :: "category_result \<Rightarrow> string" where
  "json_category cat = concat [''    {'', nl, ''      '', dq, ''name'', dq, '': '', dq, cr_Name (ca_Criterion cat),
        dq, '','', nl, ''      '', dq, ''score'', dq, '': '', fmt_d (ca_Score cat), '','', nl,
        ''      '', dq, ''max_points'', dq, '': '', fmt_d (ca_MaxPoints cat), '','', nl, ''      '',
        dq, ''percentage'', dq, '': '', fmt_f 2 (ca_Percentage cat), '','', nl, ''      '', dq,
        ''passed'', dq, '': '', fmt_t (ca_Pass cat), '','', nl, ''      '', dq, ''must_pass'', dq,
        '': '', fmt_t (cr_MustPass (ca_Criterion cat)), nl, ''    }'']"

definition json_content :: "grade \<Rightarrow> string" where
  "json_content g =
     concat [''{'', nl, ''  '', dq, ''student_id'', dq, '': '', dq, sb_StudentID (gr_Submission g),
        dq, '','', nl, ''  '', dq, ''student_name'', dq, '': '', dq,
        sb_StudentName (gr_Submission g), dq, '','', nl, ''  '', dq, ''timestamp'', dq, '': '', dq,
        fmt_rfc3339 (gr_Timestamp g), dq, '','', nl, ''  '', dq, ''total_score'', dq, '': '',
        fmt_d (gr_TotalScore g), '','', nl, ''  '', dq, ''max_score'', dq, '': '',
        fmt_d (gr_MaxScore g), '','', nl, ''  '', dq, ''percentage'', dq, '': '',
        fmt_f 2 (gr_Percentage g), '','', nl, ''  '', dq, ''letter_grade'', dq, '': '', dq,
        gr_LetterGrade g, dq, '','', nl, ''  '', dq, ''passed'', dq, '': '', fmt_t (gr_Passed g),
        '','', nl, ''  '', dq, ''must_pass_met'', dq, '': '', fmt_t (gr_MustPassMet g), '','', nl,
        ''  '', dq, ''categories'', dq, '': ['', nl] @
     join_with ('','' @ nl) (map json_category (gr_Categories g)) @ (if gr_Categories g = [] then [] else nl) @
     concat [''  ],'', nl, ''  ''] @
     (if gr_Feedback g = [] then []
      else concat [dq, ''feedback'', dq, '': [''] @ join_with '', '' (map quoted (gr_Feedback g)) @ concat [''],'', nl, ''  '']) @
     concat [dq, ''detailed_notes'', dq, '': [''] @ join_with '', '' (map quoted (gr_DetailedNotes g)) @
     concat ['']'', nl, ''}'', nl]"

definition html_category :: "category_result \<Rightarrow> string" where
  "html_category cat =
     (let must_pass = (if cr_MustPass (ca_Criterion cat)
        then concat [''<span class='', dq, ''must-pass'', dq, ''>[MUST PASS]</span>''] else [])
      in concat [''            <div class='', dq, ''category '',
        (if ca_Pass cat then ''passed'' else ''failed''), dq, ''>'', nl, ''                <div>'',
        nl, ''                    <div class='', dq, ''category-name'', dq, ''>'',
        cr_Name (ca_Criterion cat), '' '', must_pass, ''</div>'', nl,
        ''                    <div style='', dq, ''color: #666; font-size: 12px;'', dq, ''>'',
        cr_Description (ca_Criterion cat), ''</div>'', nl, ''                </div>'', nl,
        ''                <div class='', dq, ''category-score'', dq, ''>'', nl,
        ''                    <div>'', fmt_d (ca_Score cat), ''/'', fmt_d (ca_MaxPoints cat),
        ''</div>'', nl, ''                    <div class='', dq, ''category-percent'', dq, ''>'',
        fmt_f 1 (ca_Percentage cat), ''%</div>'', nl, ''                </div>'', nl,
        ''            </div>'', nl])"

definition html_content :: "grade \<Rightarrow> string" where
  "html_content g =
     (let pass_status = (if gr_Passed g then ''Passed'' else ''Failed'');
          pass_class = (if gr_Passed g then ''passed'' else ''failed'')
      in concat [''<!DOCTYPE html>'', nl, ''<html>'', nl, ''<head>'', nl, ''    <meta charset='', dq,
        ''UTF-8'', dq, ''>'', nl, ''    <title>Grade Report - '', sb_StudentName (gr_Submission g),
        ''</title>'', nl, ''    <style>'', nl,
        ''        body { font-family: -apple-system, BlinkMacSystemFont, 'Segoe UI', Roboto, sans-serif; margin: 40px; background: #f5f5f5; }'',
        nl,
        ''        .container { max-width: 800px; margin: 0 auto; background: white; padding: 40px; border-radius: 8px; box-shadow: 0 2px 4px rgba(0,0,0,0.1); }'',
        nl, ''        h1 { color: #333; margin-bottom: 5px; }'', nl,
        ''        .subtitle { color: #666; margin-bottom: 30px; }'', nl,
        ''        .grade-box { text-align: center; padding: 30px; margin: 30px 0; border-radius: 8px; }'',
        nl, ''        .grade-box.passed { background: #e8f5e9; }'', nl,
        ''        .grade-box.failed { background: #ffebee; }'', nl,
        ''        .grade-letter { font-size: 72px; font-weight: bold; }'', nl,
        ''        .grade-percent { font-size: 24px; color: #666; margin-top: 10px; }'', nl,
        ''        .grade-status { font-size: 18px; margin-top: 10px; text-transform: uppercase; }'',
        nl, ''        .categories { margin-top: 30px; }'', nl,
        ''        .category { display: flex; justify-content: space-between; padding: 15px; margin-bottom: 10px; border-radius: 6px; }'',
        nl, ''        .category.passed { background: #e8f5e9; border-left: 4px solid #4caf50; }'',
        nl, ''        .category.failed { background: #ffebee; border-left: 4px solid #f44336; }'',
        nl, ''        .category-name { font-weight: 500; }'', nl,
        ''        .category-score { text-align: right; }'', nl,
        ''        .category-percent { font-size: 12px; color: #666; }'', nl,
        ''        .must-pass { color: #f44336; font-size: 12px; font-weight: bold; }'', nl,
        ''        .feedback { margin-top: 30px; padding: 20px; background: #fff3e0; border-radius: 6px; }'',
        nl, ''        .feedback h3 { margin-top: 0; }'', nl,
        ''        .feedback ul { margin: 0; padding-left: 20px; }'', nl,
        ''        .footer { margin-top: 30px; padding-top: 20px; border-top: 1px solid #e0e0e0; color: #999; font-size: 12px; }'',
        nl, ''    </style>'', nl, ''</head>'', nl, ''<body>'', nl, ''    <div class='', dq,
        ''container'', dq, ''>'', nl, ''        <h1>Grade Report</h1>'', nl, ''        <div class='',
        dq, ''subtitle'', dq, ''>'', sb_StudentName (gr_Submission g), '' - '',
        sb_StudentID (gr_Submission g), ''</div>'', nl, ''        '', nl, ''        <div class='',
        dq, ''grade-box '', pass_class, dq, ''>'', nl, ''            <div class='', dq,
        ''grade-letter'', dq, ''>'', gr_LetterGrade g, ''</div>'', nl, ''            <div class='',
        dq, ''grade-percent'', dq, ''>'', fmt_f 1 (gr_Percentage g), ''% ('',
        fmt_d (gr_TotalScore g), ''/'', fmt_d (gr_MaxScore g), '' points)</div>'', nl,
        ''            <div class='', dq, ''grade-status'', dq, ''>'', pass_status, ''</div>'', nl,
        ''        </div>'', nl, ''        '', nl, ''        <div class='', dq, ''categories'', dq,
        ''>'', nl, ''            <h2>Category Breakdown</h2>'', nl] @
        concat (map html_category (gr_Categories g)) @
        concat [''        </div>'', nl] @
        (if gr_Feedback g = [] then []
         else concat [''        <div class='', dq, ''feedback'', dq, ''>'', nl,
        ''            <h3>Feedback</h3>'', nl, ''            <ul>'', nl] @
              concat (map (\<lambda>fb. concat [''                <li>'', fb, ''</li>'', nl]) (gr_Feedback g)) @
              concat [''            </ul>'', nl, ''        </div>'', nl]) @
        concat [''        <div class='', dq, ''footer'', dq, ''>'', nl, ''            Generated: '',
        fmt_rfc3339 (gr_Timestamp g), ''<br>'', nl, ''            Repository: '',
        sb_Repository (gr_Submission g), ''<br>'', nl, ''            Commit: '',
        sb_CommitHash (gr_Submission g), nl, ''        </div>'', nl, ''    </div>'', nl, ''</body>'',
        nl, ''</html>''])"

definition text_category :: "category_result \<Rightarrow> string" where
  "text_category cat = concat [(if ca_Pass cat then tick else cross), '' '', cr_Name (ca_Criterion cat),
        (if cr_MustPass (ca_Criterion cat) then '' [MUST PASS]'' else []), '': '',
        fmt_d (ca_Score cat), ''/'', fmt_d (ca_MaxPoints cat), '' ('', fmt_f 1 (ca_Percentage cat),
        ''%)'', nl, ''    '', cr_Description (ca_Criterion cat), nl]"

definition text_content :: "grade \<Rightarrow> string" where
  "text_content g =
     (let pass_status = (if gr_Passed g then ''PASSED'' else ''FAILED'')
      in concat [''WEATHER STATION - FINAL ASSESSMENT'', nl, ''====================================='',
        nl, nl, ''Student: '', sb_StudentName (gr_Submission g), nl, ''ID: '',
        sb_StudentID (gr_Submission g), nl, ''Date: '', fmt_datetime (gr_Timestamp g), nl, nl,
        ''FINAL GRADE: '', gr_LetterGrade g, '' ('', fmt_f 1 (gr_Percentage g), ''%)'', nl,
        ''Status: '', pass_status, nl, nl, ''Score: '', fmt_d (gr_TotalScore g), ''/'',
        fmt_d (gr_MaxScore g), '' points'', nl, nl, ''CATEGORY BREAKDOWN'', nl,
        ''------------------'', nl] @
        concat (map text_category (gr_Categories g)) @
        (if gr_Feedback g = [] then []
         else concat [nl, ''FEEDBACK'', nl, ''--------'', nl] @
              concat (map (\<lambda>fb. concat [''- '', fb, nl]) (gr_Feedback g))) @
        (if gr_MustPassMet g then [] else concat [nl, ''NOTE: One or more must-pass criteria were not met.'', nl]) @
        concat [nl, ''Repository: '', sb_Repository (gr_Submission g), nl, ''Commit: '',
        sb_CommitHash (gr_Submission g), nl])"

text \<open>What the three export functions have in common: the directory, then the file.\<close>

definition export_file :: "os_answers \<Rightarrow> string \<Rightarrow> string \<Rightarrow> file_result" where
  "export_file os path content =
     (let dir = path_dir path in
      case (if dir \<noteq> [] \<and> dir \<noteq> ''.'' then os_mkdir os dir else None) of
        Some e \<Rightarrow> (Some (''failed to create directory: '' @ e), None)
      | None \<Rightarrow> write_file os path content)"

definition grade_export :: "os_answers \<Rightarrow> string \<Rightarrow> string \<Rightarrow> grade \<Rightarrow> file_result" where
  "grade_export os format path g =
     (if format = ''json'' then export_file os path (json_content g)
      else if format = ''html'' then export_file os path (html_content g)
      else if format = ''text'' \<or> format = ''txt'' then export_file os path (text_content g)
      else (Some (''unsupported format: '' @ format), None))"

definition grade_summary :: "grade \<Rightarrow> string" where
  "grade_summary g = concat [(if gr_Passed g then ''PASS'' else ''FAIL''), '': '', gr_LetterGrade g, '' ('',
        fmt_f 1 (gr_Percentage g), ''%) - '', fmt_d (gr_TotalScore g), ''/'', fmt_d (gr_MaxScore g),
        '' points'']"

subsection \<open>The grade command\<close>

definition run_grade_calculator :: "go_time \<Rightarrow> string \<Rightarrow> calculator" where
  "run_grade_calculator now student =
     (let st = (if student = [] then ''anonymous'' else student);
          c0 = new_calculator \<lparr>sb_StudentID = st, sb_StudentName = st, sb_Timestamp = now,
                 sb_Repository = ''local'', sb_CommitHash = ''unknown''\<rparr>;
          c1 = add_result ''compilation'' 10 10 [''All services compiled successfully'']
                 [''warnings'' \<mapsto> DInt 0] c0;
          c2 = add_result ''functionality'' 38 40 [''S4 peer discovery intermittent - connection timeout after 5s'']
                 [''tests_passed'' \<mapsto> DInt 42, ''tests_total'' \<mapsto> DInt 44] c1;
          c3 = add_result ''performance'' 18 20 [''Query latency measured 15ms, target 10ms'']
                 [''p50_latency_ms'' \<mapsto> DInt 8, ''p99_latency_ms'' \<mapsto> DInt 15] c2
      in add_result ''reliability'' 15 15 [''All chaos tests passed''] [''recovery_time_ms'' \<mapsto> DInt 250] c3)"

text \<open>The part of \<open>runGrade\<close> up to the export of the grade: its error and the file written.\<close>

definition run_grade :: "os_answers \<Rightarrow> go_time \<Rightarrow> string \<Rightarrow> string \<Rightarrow> string \<Rightarrow> file_result" where
  "run_grade os now student format output =
     (case calculate now (run_grade_calculator now student) of
        Inl e \<Rightarrow> (Some e, None)
      | Inr g \<Rightarrow>
          (if output = [] then (None, None)
           else grade_export os format
                  (path_join [output, (if student = [] then ''anonymous'' else student) @ ''-grade.'' @ format]) g))"

definition grade_flags_default :: "string \<times> string \<times> string" where
  "grade_flags_default = ([], ''console'', ''./reports'')"

subsection \<open>Lemmas\<close>

abbreviation must_pass_failed :: "calculator \<Rightarrow> criterion \<Rightarrow> bool" where
  "must_pass_failed c crit \<equiv> cr_MustPass crit \<and> \<not> ca_Pass (result_for c crit)"

lemma calc_loop_closed:
  "foldl (calc_step c) \<lparr>lp_Categories = cats, lp_Feedback = fb, lp_TotalScore = i64 s, lp_TotalMax = i64 m,
       lp_MustPassMet = ok\<rparr> cs =
     \<lparr>lp_Categories = cats @ map (result_for c) cs,
      lp_Feedback = fb @ map (\<lambda>crit. ''Must-pass criterion failed: '' @ cr_Name crit) (filter (must_pass_failed c) cs),
      lp_TotalScore = i64 (s + sum_list (map (weighted_score c) cs)),
      lp_TotalMax = i64 (m + sum_list (map weighted_max cs)),
      lp_MustPassMet = (ok \<and> \<not> list_ex (must_pass_failed c) cs)\<rparr>"
proof (induction cs arbitrary: cats fb s m ok)
  case (Cons crit cs)
  have "calc_step c \<lparr>lp_Categories = cats, lp_Feedback = fb, lp_TotalScore = i64 s, lp_TotalMax = i64 m,
      lp_MustPassMet = ok\<rparr> crit =
    \<lparr>lp_Categories = cats @ [result_for c crit],
     lp_Feedback = fb @ (if must_pass_failed c crit then [''Must-pass criterion failed: '' @ cr_Name crit] else []),
     lp_TotalScore = i64 (s + weighted_score c crit), lp_TotalMax = i64 (m + weighted_max crit),
     lp_MustPassMet = (ok \<and> \<not> must_pass_failed c crit)\<rparr>"
    by (simp add: calc_step_def Let_def i64_add)
  then show ?case by (simp add: Cons add.assoc)
qed simp

text \<open>The totals and the percentage the calculator computes, as sums over the criteria.\<close>

definition total_score :: "calculator \<Rightarrow> int" where
  "total_score c = i64 (sum_list (map (weighted_score c) (cl_criteria c)))"

definition total_max :: "calculator \<Rightarrow> int" where
  "total_max c = i64 (sum_list (map weighted_max (cl_criteria c)))"

definition total_percentage :: "calculator \<Rightarrow> f64" where
  "total_percentage c = (if total_max c > 0 then percent_of (total_score c) (total_max c) else 0)"

lemma i64_0 [simp]: "i64 0 = 0"
  by (simp add: i64_def)

lemma calculate_closed:
  "calculate now c = Inr \<lparr>gr_Submission = cl_submission c, gr_TotalScore = total_score c, gr_MaxScore = total_max c,
     gr_Percentage = total_percentage c, gr_LetterGrade = letter_grade (total_percentage c),
     gr_Passed = (\<not> list_ex (must_pass_failed c) (cl_criteria c) \<and> Fin 60 \<le> total_percentage c),
     gr_Categories = map (result_for c) (cl_criteria c),
     gr_MustPassMet = (\<not> list_ex (must_pass_failed c) (cl_criteria c)),
     gr_Feedback = map (\<lambda>crit. ''Must-pass criterion failed: '' @ cr_Name crit) (filter (must_pass_failed c) (cl_criteria c)),
     gr_DetailedNotes = detailed_notes (map (result_for c) (cl_criteria c)), gr_Timestamp = now\<rparr>"
  using calc_loop_closed [of c "[]" "[]" 0 0 True "cl_criteria c"]
  by (simp add: calculate_def total_score_def total_max_def total_percentage_def Let_def)

text \<open>
  The calculators that the exported functions can build, in any order of calls, and those
  whose criteria are set once, before the first result.
\<close>

inductive calc_reachable :: "calculator \<Rightarrow> bool" where
  init: "calc_reachable (new_calculator sb)"
| set: "calc_reachable c \<Longrightarrow> calc_reachable (set_criteria cs c)"
| add: "calc_reachable c \<Longrightarrow> calc_reachable (add_result n s m fb d c)"

inductive calc_built :: "criterion list \<Rightarrow> calculator \<Rightarrow> bool" for cs where
  init: "calc_built cs (set_criteria cs (new_calculator sb))"
| add: "calc_built cs c \<Longrightarrow> calc_built cs (add_result n s m fb d c)"

text \<open>A result is judged by the criterion that it carries, the one in force when it was added.\<close>

definition result_ok :: "category_result \<Rightarrow> bool" where
  "result_ok r \<longleftrightarrow>
     ca_Percentage r = (if ca_MaxPoints r > 0 then percent_of (ca_Score r) (ca_MaxPoints r) else 0)
     \<and> (ca_Pass r \<longleftrightarrow> (if cr_MustPass (ca_Criterion r) then Fin 100 \<le> ca_Percentage r else Fin 60 \<le> ca_Percentage r))"

lemma calc_reachable_ok: "calc_reachable c \<Longrightarrow> cl_results c n = Some r \<Longrightarrow> result_ok r"
  by (induction rule: calc_reachable.induct)
     (auto simp: set_criteria_def new_calculator_def add_result_def result_ok_def Let_def split: if_splits)

lemma calc_built_ok:
  "calc_built cs c \<Longrightarrow> cl_criteria c = cs \<and> (\<forall>n r. cl_results c n = Some r \<longrightarrow> ca_Criterion r = find_criterion n cs)"
  by (induction rule: calc_built.induct)
     (auto simp: set_criteria_def new_calculator_def add_result_def Let_def)

lemma find_criterion_distinct:
  "distinct (map cr_Name cs) \<Longrightarrow> crit \<in> set cs \<Longrightarrow> find_criterion (cr_Name crit) cs = crit"
  by (induction cs) (auto simp: image_iff)

lemma percent_full:
  assumes "\<bar>s\<bar> \<le> 2 ^ 53" "0 < m" "m \<le> 2 ^ 53" "Fin 100 \<le> percent_of s m"
  shows "m \<le> s"
proof (rule ccontr)
  assume "\<not> m \<le> s"
  then have s: "s < m" by simp
  show False
  proof (cases "0 \<le> s")
    case True
    then obtain q where "percent_of s m = Fin q" "0 \<le> q" "q \<le> 100" "q = 100 \<longleftrightarrow> s = m"
      using percent_of_part [of s m] assms s by auto
    with s assms(4) show False by (simp add: f64_defs)
  next
    case False
    have "rat_of_int s / rat_of_int m \<le> 0"
      using False assms(2) by (simp add: divide_nonpos_pos)
    then have "of_int64 s / of_int64 m \<le> 0 \<and> of_int64 s / of_int64 m \<noteq> NaN"
      using to_f64_mono [of "rat_of_int s / rat_of_int m" 0] assms
      by (auto simp: f64_simps f64_defs to_f64_53)
    moreover have "to_f64 0 = 0" by (simp add: to_f64_def zero_f64_def)
    ultimately have "percent_of s m \<le> 0"
      using to_f64_mono [of "x * 100" 0 for x]
      by (cases "of_int64 s / of_int64 m") (auto simp: f64_defs inf_of_sgn_def)
    with assms(4) have "Fin 100 \<le> (0 :: f64)" by (rule f64_le_trans)
    then show False by (simp add: f64_defs)
  qed
qed

text \<open>Weighted points of a bounded score: between zero and the weighted maximum.\<close>

lemma weighted_points:
  assumes "0 \<le> s" "s \<le> m" "m \<le> 2 ^ 31" "0 \<le> w" "w \<le> 1"
  shows "0 \<le> int_of_f64 (of_int64 s * Fin w)"
    and "int_of_f64 (of_int64 s * Fin w) \<le> int_of_f64 (of_int64 m * Fin w)"
    and "int_of_f64 (of_int64 m * Fin w) \<le> 2 ^ 31"
proof -
  have pts: "int_of_f64 (of_int64 k * Fin w) = \<lfloor>round53 (of_int k * w)\<rfloor> \<and> 0 \<le> round53 (of_int k * w)
      \<and> round53 (of_int k * w) \<le> 2 ^ 31" if k: "0 \<le> k" "k \<le> 2 ^ 31" for k
  proof -
    have r31: "rat_of_int k \<le> 2 ^ 31" using k(2) by (metis of_int_le_iff of_int_power of_int_numeral)
    have "of_int k * w \<le> of_int k * 1" using k(1) assms(5) by (intro mult_left_mono) auto
    with r31 have up: "of_int k * w \<le> 2 ^ 31" by simp
    have lo: "0 \<le> of_int k * w" using k(1) assms(4) by simp
    have r: "0 \<le> round53 (of_int k * w)" using lo by (rule round53_nonneg)
    have u: "round53 (of_int k * w) \<le> 2 ^ 31" using up round53_of_int [of "2 ^ 31"] by (intro round53_le) auto
    have "\<bar>of_int k * w\<bar> \<le> 2 ^ 53" using lo up by simp
    then have mul: "of_int64 k * Fin w = Fin (round53 (of_int k * w))"
      using k by (simp add: f64_simps to_f64_53)
    have "\<lfloor>round53 (of_int k * w)\<rfloor> \<le> 2 ^ 31" "0 \<le> \<lfloor>round53 (of_int k * w)\<rfloor>"
      using u r by (simp_all add: floor_le_iff)
    then show ?thesis unfolding mul using r u by (simp add: trunc_rat_def)
  qed
  have mono: "round53 (of_int s * w) \<le> round53 (of_int m * w)"
    by (rule round53_mono) (use assms in \<open>auto intro: mult_right_mono\<close>)
  show "0 \<le> int_of_f64 (of_int64 s * Fin w)" using pts [of s] assms by simp
  show "int_of_f64 (of_int64 s * Fin w) \<le> int_of_f64 (of_int64 m * Fin w)"
    using pts [of s] pts [of m] assms floor_mono [OF mono] by simp
  show "int_of_f64 (of_int64 m * Fin w) \<le> 2 ^ 31"
    using pts [of m] assms by (simp add: floor_le_iff)
qed

definition criterion_ok :: "criterion \<Rightarrow> bool" where
  "criterion_ok crit \<longleftrightarrow> 0 \<le> cr_MaxPoints crit \<and> cr_MaxPoints crit \<le> 2 ^ 31
     \<and> (case cr_Weight crit of Fin w \<Rightarrow> 0 \<le> w \<and> w \<le> 1 | _ \<Rightarrow> False)"

definition scores_ok :: "calculator \<Rightarrow> bool" where
  "scores_ok c \<longleftrightarrow> (\<forall>crit \<in> set (cl_criteria c). criterion_ok crit \<and>
     0 \<le> ca_Score (result_for c crit) \<and> ca_Score (result_for c crit) \<le> cr_MaxPoints crit)"

lemma criterion_points:
  assumes "scores_ok c" "crit \<in> set (cl_criteria c)"
  shows "0 \<le> weighted_score c crit \<and> weighted_score c crit \<le> weighted_max crit \<and> weighted_max crit \<le> 2 ^ 31"
proof -
  from assms have "criterion_ok crit" by (auto simp: scores_ok_def)
  then obtain w where "cr_Weight crit = Fin w" "0 \<le> w" "w \<le> 1"
    by (cases "cr_Weight crit") (auto simp: criterion_ok_def)
  then show ?thesis using weighted_points [of "ca_Score (result_for c crit)" "cr_MaxPoints crit" w] assms
    by (auto simp: scores_ok_def criterion_ok_def weighted_score_def weighted_max_def)
qed

lemma sum_list_bounds:
  assumes "\<forall>x \<in> set xs. 0 \<le> f x \<and> f x \<le> g x \<and> g x \<le> (b::int)"
  shows "0 \<le> sum_list (map f xs) \<and> sum_list (map f xs) \<le> sum_list (map g xs)
    \<and> sum_list (map g xs) \<le> int (length xs) * b"
  using assms by (induction xs) (auto simp: algebra_simps)

lemma totals_bounded:
  assumes "scores_ok c" "length (cl_criteria c) \<le> 2 ^ 20"
  shows "0 \<le> total_score c \<and> total_score c \<le> total_max c \<and> total_max c \<le> 2 ^ 51"
proof -
  let ?s = "sum_list (map (weighted_score c) (cl_criteria c))"
  let ?m = "sum_list (map weighted_max (cl_criteria c))"
  have b: "0 \<le> ?s \<and> ?s \<le> ?m \<and> ?m \<le> int (length (cl_criteria c)) * 2 ^ 31"
    by (rule sum_list_bounds) (use criterion_points [OF assms(1)] in blast)
  moreover have "int (length (cl_criteria c)) * 2 ^ 31 \<le> 2 ^ 20 * 2 ^ 31"
    using assms(2) by (intro mult_right_mono) (simp_all add: nat_le_iff)
  ultimately have "0 \<le> ?s" "?s \<le> ?m" "?m \<le> 2 ^ 51" by simp_all
  then show ?thesis unfolding total_score_def total_max_def by (simp add: i64_id)
qed

lemma total_percentage_bounded:
  assumes "scores_ok c" "length (cl_criteria c) \<le> 2 ^ 20"
  shows "0 \<le> total_percentage c \<and> total_percentage c \<le> Fin 100"
proof (cases "total_max c > 0")
  case True
  then obtain q where "percent_of (total_score c) (total_max c) = Fin q" "0 \<le> q" "q \<le> 100"
    using percent_of_part [of "total_score c" "total_max c"] totals_bounded [OF assms] by auto
  with True show ?thesis by (simp add: total_percentage_def f64_defs)
qed (simp add: total_percentage_def f64_defs)

text \<open>The letters of the calculator are a letter scale on binary64 percentages.\<close>

definition grade_cuts :: "(f64 \<times> string) list" where
  "grade_cuts = [(Fin 93, ''A''), (Fin 90, ''A-''), (Fin 87, ''B+''), (Fin 83, ''B''), (Fin 80, ''B-''),
     (Fin 77, ''C+''), (Fin 73, ''C''), (Fin 70, ''C-''), (Fin 60, ''D'')]"

interpretation grades: letter_scale "(\<le>)" letter_grade grade_cuts "''F''"
  by unfold_locales (auto simp: letter_grade_def grade_cuts_def intro: f64_le_trans)

lemma letter_F: "letter_grade p = ''F'' \<longleftrightarrow> \<not> Fin 60 \<le> p"
proof -
  have "Fin 60 \<le> Fin q" if "Fin b \<le> Fin q" "60 \<le> b" for b q
    using that by (simp add: f64_simps)
  then show ?thesis unfolding grades.letter_bottom
    by (cases p) (auto simp: grade_cuts_def f64_defs)
qed

lemma default_points:
  "map weighted_max DefaultCriteria = [1, 16, 9, 4]"
  by code_simp

lemma run_grade_results:
  "cl_criteria (run_grade_calculator now student) = DefaultCriteria"
  "map (weighted_score (run_grade_calculator now student)) DefaultCriteria = [1, 15, 5, 3]"
  "map (\<lambda>crit. ca_Pass (result_for (run_grade_calculator now student) crit)) DefaultCriteria = [True, True, True, True]"
proof -
  let ?r = "result_for (run_grade_calculator now student)"
  note d = run_grade_calculator_def new_calculator_def add_result_def DefaultCriteria_def result_for_def Let_def
  have p: "Fin 100 \<le> percent_of 10 10" "Fin 60 \<le> percent_of 38 40" "Fin 60 \<le> percent_of 18 20"
    "Fin 60 \<le> percent_of 15 15"
    by code_simp+
  have w: "int_of_f64 (of_int64 10 * to_f64 (10 / 100)) = 1" "int_of_f64 (of_int64 38 * to_f64 (40 / 100)) = 15"
    "int_of_f64 (of_int64 18 * to_f64 (30 / 100)) = 5" "int_of_f64 (of_int64 15 * to_f64 (20 / 100)) = 3"
    by code_simp+
  show "cl_criteria (run_grade_calculator now student) = DefaultCriteria"
    by (simp add: run_grade_calculator_def new_calculator_def add_result_def Let_def)
  show "map (weighted_score (run_grade_calculator now student)) DefaultCriteria = [1, 15, 5, 3]"
    using w by (simp add: d weighted_score_def)
  show "map (\<lambda>crit. ca_Pass (?r crit)) DefaultCriteria = [True, True, True, True]"
    using p by (simp add: d)
qed

subsection \<open>The JSON export reads back\<close>


text \<open>The tree of a grade, with its numbers as they are written.\<close>

definition category_tree :: "category_result \<Rightarrow> jtree" where
  "category_tree cat = TObj
     [(''name'', TStr (utf8_clean (cr_Name (ca_Criterion cat)))), (''score'', TNum (fmt_d (ca_Score cat))),
      (''max_points'', TNum (fmt_d (ca_MaxPoints cat))), (''percentage'', TNum (fmt_f 2 (ca_Percentage cat))),
      (''passed'', TBool (ca_Pass cat)), (''must_pass'', TBool (cr_MustPass (ca_Criterion cat)))]"

definition mid_members :: "grade \<Rightarrow> (string \<times> jtree) list" where
  "mid_members g =
     [(''timestamp'', TStr (fmt_rfc3339 (gr_Timestamp g))), (''total_score'', TNum (fmt_d (gr_TotalScore g))),
       (''max_score'', TNum (fmt_d (gr_MaxScore g))), (''percentage'', TNum (fmt_f 2 (gr_Percentage g))),
       (''letter_grade'', TStr (utf8_clean (gr_LetterGrade g))), (''passed'', TBool (gr_Passed g)),
       (''must_pass_met'', TBool (gr_MustPassMet g)), (''categories'', TArr (map category_tree (gr_Categories g)))]"

definition last_members :: "grade \<Rightarrow> (string \<times> jtree) list" where
  "last_members g =
     ((if gr_Feedback g = [] then [] else [(''feedback'', TArr (map (\<lambda>s. TStr (utf8_clean s)) (gr_Feedback g)))])
      @ [(''detailed_notes'', TArr (map (\<lambda>s. TStr (utf8_clean s)) (gr_DetailedNotes g)))])"

text \<open>The members of the student's name may be several, if the name has quotes in it.\<close>

definition grade_members :: "(string \<times> jtree) list \<Rightarrow> grade \<Rightarrow> (string \<times> jtree) list" where
  "grade_members named g =
     [(''student_id'', TStr (utf8_clean (sb_StudentID (gr_Submission g))))] @ named @ mid_members g @ last_members g"

definition plain_grade :: "grade \<Rightarrow> bool" where
  "plain_grade g \<longleftrightarrow> plain_str (sb_StudentID (gr_Submission g))
     \<and> plain_str (gr_LetterGrade g) \<and> list_all plain_str (gr_Feedback g) \<and> list_all plain_str (gr_DetailedNotes g)
     \<and> (\<exists>q. gr_Percentage g = Fin q)
     \<and> (\<forall>cat \<in> set (gr_Categories g). plain_str (cr_Name (ca_Criterion cat)) \<and> (\<exists>q. ca_Percentage cat = Fin q))"

lemma category_text:
  assumes "plain_str (cr_Name (ca_Criterion cat))" "ca_Percentage cat = Fin q"
  shows "jtext (json_category cat) (category_tree cat)"
proof -
  let ?w = "nl @ ''      ''"
  have w: "ws_text ?w" "ws_text (nl @ ''    '')" "ws_text ''    ''" "ws_text []" by (simp_all add: nl_def json_ws_def)
  have k: "plain_str ''name''" "plain_str ''score''" "plain_str ''max_points''" "plain_str ''percentage''" "plain_str ''passed''" "plain_str ''must_pass''"
    by (simp_all add: plain_str_def)
  have c: "utf8_clean ''name'' = ''name''" "utf8_clean ''score'' = ''score''" "utf8_clean ''max_points'' = ''max_points''"
      "utf8_clean ''percentage'' = ''percentage''" "utf8_clean ''passed'' = ''passed''" "utf8_clean ''must_pass'' = ''must_pass''"
    by (simp_all add: utf8_clean_ascii)
  have "list_all2 jmem
     [?w @ dq @ ''name'' @ dq @ '': '' @ quoted (cr_Name (ca_Criterion cat)) @ [],
      ?w @ dq @ ''score'' @ dq @ '': '' @ fmt_d (ca_Score cat) @ [],
      ?w @ dq @ ''max_points'' @ dq @ '': '' @ fmt_d (ca_MaxPoints cat) @ [],
      ?w @ dq @ ''percentage'' @ dq @ '': '' @ fmt_f 2 (ca_Percentage cat) @ [],
      ?w @ dq @ ''passed'' @ dq @ '': '' @ fmt_t (ca_Pass cat) @ [],
      ?w @ dq @ ''must_pass'' @ dq @ '': '' @ fmt_t (cr_MustPass (ca_Criterion cat)) @ (nl @ ''    '')]
     [(''name'', TStr (utf8_clean (cr_Name (ca_Criterion cat)))), (''score'', TNum (fmt_d (ca_Score cat))),
      (''max_points'', TNum (fmt_d (ca_MaxPoints cat))), (''percentage'', TNum (fmt_f 2 (ca_Percentage cat))),
      (''passed'', TBool (ca_Pass cat)), (''must_pass'', TBool (cr_MustPass (ca_Criterion cat)))]" (is "list_all2 jmem ?ss ?ms")
    unfolding list_all2_Cons list_all2_Nil
    by (intro conjI jmem_line w k c jval_quoted assms jval_num fmt_d_valid jval_bool refl) (simp add: assms(2) fmt_f_literal del: fmt_f.simps)
  then have "jval (''{'' @ join_with '','' ?ss @ ''}'') (category_tree cat)"
    unfolding category_tree_def by (intro jval_obj jmems_join) simp_all
  then show ?thesis unfolding jtext_def
    by (intro exI [of _ "''    ''"] exI [of _ "''{'' @ join_with '','' ?ss @ ''}''"] conjI w) (simp_all add: json_category_def quoted_def)
qed


lemma categories_text:
  assumes "\<forall>cat \<in> set cats. plain_str (cr_Name (ca_Criterion cat)) \<and> (\<exists>q. ca_Percentage cat = Fin q)"
  shows "jval (''['' @ nl @ join_with ('','' @ nl) (map json_category cats) @ (if cats = [] then [] else nl) @ ''  ]'')
    (TArr (map category_tree cats))"
proof (cases "cats = []")
  case True
  then show ?thesis using jval_arr0 [of "nl @ ''  ''"] by (simp add: nl_def json_ws_def)
next
  case False
  have "list_all2 jtext (map json_category cats) (map category_tree cats)"
    using assms category_text by (fastforce simp: list_all2_conv_all_nth)
  then have "jels (nl @ join_with ('','' @ nl) (map json_category cats) @ nl @ ''  '') (map category_tree cats)"
    using False by (intro jels_join) (simp_all add: nl_def json_ws_def)
  from jval_arr [OF this] show ?thesis using False by simp
qed

text \<open>The lines of the export, up to the commas between them.\<close>

definition mid_lines :: "grade \<Rightarrow> string list" where
  "mid_lines g =
     [(nl @ ''  '') @ dq @ ''timestamp'' @ dq @ '': '' @ quoted (fmt_rfc3339 (gr_Timestamp g)) @ [],
      (nl @ ''  '') @ dq @ ''total_score'' @ dq @ '': '' @ fmt_d (gr_TotalScore g) @ [],
      (nl @ ''  '') @ dq @ ''max_score'' @ dq @ '': '' @ fmt_d (gr_MaxScore g) @ [],
      (nl @ ''  '') @ dq @ ''percentage'' @ dq @ '': '' @ fmt_f 2 (gr_Percentage g) @ [],
      (nl @ ''  '') @ dq @ ''letter_grade'' @ dq @ '': '' @ quoted (gr_LetterGrade g) @ [],
      (nl @ ''  '') @ dq @ ''passed'' @ dq @ '': '' @ fmt_t (gr_Passed g) @ [],
      (nl @ ''  '') @ dq @ ''must_pass_met'' @ dq @ '': '' @ fmt_t (gr_MustPassMet g) @ [],
      (nl @ ''  '') @ dq @ ''categories'' @ dq @ '': '' @ (''['' @ nl @ join_with ('','' @ nl) (map json_category (gr_Categories g))
        @ (if gr_Categories g = [] then [] else nl) @ ''  ]'') @ []]"

definition last_lines :: "grade \<Rightarrow> string list" where
  "last_lines g =
     ((if gr_Feedback g = [] then []
       else [(nl @ ''  '') @ dq @ ''feedback'' @ dq @ '': '' @ (''['' @ join_with '', '' (map quoted (gr_Feedback g)) @ '']'') @ []])
      @ [(nl @ ''  '') @ dq @ ''detailed_notes'' @ dq @ '': '' @ (''['' @ join_with '', '' (map quoted (gr_DetailedNotes g)) @ '']'') @ nl])"

lemma plain_keys:
  "plain_str ''student_id''" "plain_str ''timestamp''" "plain_str ''total_score''"
  "plain_str ''max_score''" "plain_str ''percentage''" "plain_str ''letter_grade''" "plain_str ''passed''"
  "plain_str ''must_pass_met''" "plain_str ''categories''" "plain_str ''feedback''" "plain_str ''detailed_notes''"
  by (simp_all add: plain_str_def)

lemma clean_keys:
  "utf8_clean ''student_id'' = ''student_id''"
  "utf8_clean ''timestamp'' = ''timestamp''" "utf8_clean ''total_score'' = ''total_score''"
  "utf8_clean ''max_score'' = ''max_score''" "utf8_clean ''percentage'' = ''percentage''"
  "utf8_clean ''letter_grade'' = ''letter_grade''" "utf8_clean ''passed'' = ''passed''"
  "utf8_clean ''must_pass_met'' = ''must_pass_met''" "utf8_clean ''categories'' = ''categories''"
  "utf8_clean ''feedback'' = ''feedback''" "utf8_clean ''detailed_notes'' = ''detailed_notes''"
  by (simp_all add: utf8_clean_ascii)

lemma line_ws: "ws_text (nl @ ''  '')" "ws_text nl" "ws_text []"
  by (simp_all add: nl_def json_ws_def)

lemma mid_lines_text:
  assumes "plain_grade g"
  shows "list_all2 jmem (mid_lines g) (mid_members g)"
proof -
  have time: "jval (quoted (fmt_rfc3339 (gr_Timestamp g))) (TStr (fmt_rfc3339 (gr_Timestamp g)))"
    using jval_quoted [of "fmt_rfc3339 (gr_Timestamp g)"] by simp
  obtain q where q: "gr_Percentage g = Fin q" using assms by (auto simp: plain_grade_def)
  have p: "plain_str (gr_LetterGrade g)"
    "\<forall>cat \<in> set (gr_Categories g). plain_str (cr_Name (ca_Criterion cat)) \<and> (\<exists>q. ca_Percentage cat = Fin q)"
    using assms by (auto simp: plain_grade_def)
  show ?thesis
    unfolding mid_lines_def mid_members_def list_all2_Cons list_all2_Nil
    by (intro conjI jmem_line line_ws plain_keys clean_keys jval_quoted time p jval_num fmt_d_valid jval_bool categories_text refl)
      (simp add: q fmt_f_literal del: fmt_f.simps)
qed

lemma last_lines_text:
  assumes "plain_grade g"
  shows "list_all2 jmem (last_lines g) (last_members g)"
proof -
  have p: "list_all plain_str (gr_Feedback g)" "list_all plain_str (gr_DetailedNotes g)" using assms by (auto simp: plain_grade_def)
  show ?thesis
    using jmem_line [OF line_ws(1) plain_keys(10) clean_keys(10) jval_strings [OF p(1)] line_ws(3)]
      jmem_line [OF line_ws(1) plain_keys(11) clean_keys(11) jval_strings [OF p(2)] line_ws(2)]
    by (simp add: last_lines_def last_members_def)
qed

abbreviation name_line :: "string \<Rightarrow> string" where
  "name_line s \<equiv> (nl @ ''  '') @ dq @ ''student_name'' @ dq @ '': '' @ quoted s"

lemma grade_text:
  assumes "plain_grade g" "list_all2 jmem ss named" "ss \<noteq> []" "join_with '','' ss = name_line (sb_StudentName (gr_Submission g))"
  shows "parse_json (json_content g) = Some (TObj (grade_members named g))"
proof -
  let ?id = "(nl @ ''  '') @ dq @ ''student_id'' @ dq @ '': '' @ quoted (sb_StudentID (gr_Submission g)) @ []"
  let ?all = "[?id] @ ss @ mid_lines g @ last_lines g"
  have "plain_str (sb_StudentID (gr_Submission g))" using assms(1) by (simp add: plain_grade_def)
  then have "jmem ?id (''student_id'', TStr (utf8_clean (sb_StudentID (gr_Submission g))))"
    by (intro jmem_line line_ws plain_keys clean_keys jval_quoted)
  then have "list_all2 jmem ?all (grade_members named g)"
    unfolding grade_members_def by (intro list_all2_appendI assms(2) mid_lines_text last_lines_text assms(1)) simp
  then have "jval (''{'' @ join_with '','' ?all @ ''}'') (TObj (grade_members named g))" by (intro jval_obj jmems_join) simp_all
  from layout_parse_json [OF this line_ws(2)]
  have "parse_json ((''{'' @ join_with '','' ?all @ ''}'') @ nl) = Some (TObj (grade_members named g))" .
  moreover have "join_with '','' ?all = ?id @ '','' @ join_with '','' ss @ '','' @ join_with '','' (mid_lines g @ last_lines g)"
    using assms(3) join_with_append [of "[?id]" "ss @ mid_lines g @ last_lines g"] join_with_append [of ss "mid_lines g @ last_lines g"]
    by (simp add: mid_lines_def)
  moreover have "json_content g = (''{'' @ (?id @ '','' @ name_line (sb_StudentName (gr_Submission g)) @ '',''
      @ join_with '','' (mid_lines g @ last_lines g)) @ ''}'') @ nl"
    by (cases "gr_Feedback g = []") (simp_all add: json_content_def mid_lines_def last_lines_def quoted_def)
  ultimately show ?thesis using assms(4) by simp
qed

subsection \<open>Properties\<close>

text \<open>
  C3. \<open>Calculate\<close> never fails, and its loop computes the reference: one category per criterion in
  order, the sums of the truncated weighted points, the must-pass flag and one feedback line
  for each must-pass criterion that is not met, and a pass exactly when no must-pass criterion
  fails and the percentage is at least 60.
\<close>
theorem calculate_exact:
  "\<exists>g. calculate now c = Inr g \<and> gr_Categories g = map (result_for c) (cl_criteria c)
    \<and> gr_TotalScore g = i64 (\<Sum>crit \<leftarrow> cl_criteria c. weighted_score c crit)
    \<and> gr_MaxScore g = i64 (\<Sum>crit \<leftarrow> cl_criteria c. weighted_max crit)
    \<and> gr_Feedback g = map (\<lambda>crit. ''Must-pass criterion failed: '' @ cr_Name crit)
        (filter (\<lambda>crit. cr_MustPass crit \<and> \<not> ca_Pass (result_for c crit)) (cl_criteria c))
    \<and> (gr_MustPassMet g \<longleftrightarrow> gr_Feedback g = [])
    \<and> gr_Passed g = (gr_MustPassMet g \<and> Fin 60 \<le> gr_Percentage g)
    \<and> gr_LetterGrade g = letter_grade (gr_Percentage g)"
  by (simp add: calculate_closed total_score_def total_max_def list_ex_iff filter_empty_conv)

text \<open>
  C12. Of any calculator that the exported functions build, in any order of calls, with scores and
  maxima within 2^53: a grade that is passed has for each must-pass criterion a recorded result
  with a positive maximum and a percentage of at least 60, and with a score that reaches its maximum
  if the criterion was already must-pass when the result was added. That is the case for every
  must-pass criterion when the criteria were set before the first result and have distinct names.
  The letter is not F.
\<close>
theorem passed_meets_must_pass:
  assumes "calc_reachable c"
    and "\<forall>n r. cl_results c n = Some r \<longrightarrow> \<bar>ca_Score r\<bar> \<le> 2 ^ 53 \<and> ca_MaxPoints r \<le> 2 ^ 53"
    and "calculate now c = Inr g" "gr_Passed g" "crit \<in> set (cl_criteria c)" "cr_MustPass crit"
  shows "gr_LetterGrade g \<noteq> ''F'' \<and> (\<exists>r. cl_results c (cr_Name crit) = Some r
    \<and> 0 < ca_MaxPoints r \<and> ca_Percentage r = percent_of (ca_Score r) (ca_MaxPoints r) \<and> Fin 60 \<le> ca_Percentage r
    \<and> (cr_MustPass (ca_Criterion r) \<longrightarrow> ca_MaxPoints r \<le> ca_Score r)
    \<and> (calc_built (cl_criteria c) c \<and> distinct (map cr_Name (cl_criteria c)) \<longrightarrow>
          ca_Criterion r = crit \<and> ca_MaxPoints r \<le> ca_Score r))"
proof -
  have passed: "\<not> list_ex (must_pass_failed c) (cl_criteria c)" "Fin 60 \<le> total_percentage c"
    and letter: "gr_LetterGrade g = letter_grade (total_percentage c)"
    using assms(3,4) by (auto simp: calculate_closed)
  then have "ca_Pass (result_for c crit)" using assms(5,6) by (auto simp: list_ex_iff)
  then obtain r where r: "cl_results c (cr_Name crit) = Some r" "ca_Pass r"
    by (auto simp: result_for_def not_evaluated_def split: option.splits)
  note ok = calc_reachable_ok [OF assms(1) r(1), unfolded result_ok_def]
  have n: "\<not> Fin 100 \<le> 0" "\<not> Fin 60 \<le> 0" "Fin 100 \<le> x \<Longrightarrow> Fin 60 \<le> x" for x
    by (cases x; simp add: f64_defs)+
  have m: "0 < ca_MaxPoints r" "ca_Percentage r = percent_of (ca_Score r) (ca_MaxPoints r)" "Fin 60 \<le> ca_Percentage r"
    using ok r(2) n by (auto split: if_splits)
  have full: "ca_MaxPoints r \<le> ca_Score r" if "cr_MustPass (ca_Criterion r)"
  proof -
    have "Fin 100 \<le> percent_of (ca_Score r) (ca_MaxPoints r)" using ok r(2) that m(2) by simp
    then show ?thesis using percent_full m(1) assms(2) r(1) by blast
  qed
  have own: "ca_Criterion r = crit" if "calc_built (cl_criteria c) c" "distinct (map cr_Name (cl_criteria c))"
    using calc_built_ok [OF that(1)] find_criterion_distinct [OF that(2) assms(5)] r(1) by auto
  have "ca_MaxPoints r \<le> ca_Score r" if "calc_built (cl_criteria c) c" "distinct (map cr_Name (cl_criteria c))"
    using full own [OF that] assms(6) by simp
  moreover have "gr_LetterGrade g \<noteq> ''F''" using letter letter_F passed(2) by simp
  ultimately show ?thesis using r(1) m full own by blast
qed

theorem passed_meets_must_pass_witness:
  "\<exists>g r. calculate epoch (run_grade_calculator epoch ''station-1'') = Inr g \<and> gr_LetterGrade g \<noteq> ''F''
    \<and> cl_results (run_grade_calculator epoch ''station-1'') ''compilation'' = Some r \<and> ca_MaxPoints r \<le> ca_Score r"
proof -
  let ?c = "run_grade_calculator epoch ''station-1''"
  have "set_criteria DefaultCriteria (new_calculator sb) = new_calculator sb" for sb
    by (simp add: set_criteria_def new_calculator_def)
  then have built: "calc_built DefaultCriteria ?c" "calc_reachable ?c"
    unfolding run_grade_calculator_def Let_def by (metis calc_built.intros, metis calc_reachable.intros)
  have pc: "Fin 60 \<le> percent_of 24 30" by code_simp
  have tot: "total_score ?c = 24" "total_max ?c = 30"
    using run_grade_results(2) [of epoch "''station-1''"] default_points
    by (simp_all add: total_score_def total_max_def run_grade_results(1) i64_def)
  have "list_ex (\<lambda>crit. \<not> ca_Pass (result_for ?c crit)) DefaultCriteria = False"
    using run_grade_results(3) [of epoch "''station-1''"] by (auto simp: DefaultCriteria_def)
  then have "\<not> list_ex (must_pass_failed ?c) DefaultCriteria" by (auto simp: list_ex_iff)
  then obtain g where g: "calculate epoch ?c = Inr g" "gr_Passed g"
    using pc by (simp add: calculate_closed run_grade_results(1) total_percentage_def tot)
  have small: "\<forall>n r. cl_results ?c n = Some r \<longrightarrow> \<bar>ca_Score r\<bar> \<le> 2 ^ 53 \<and> ca_MaxPoints r \<le> 2 ^ 53"
    by (auto simp: run_grade_calculator_def new_calculator_def add_result_def Let_def split: if_splits)
  show ?thesis
    using passed_meets_must_pass [OF built(2) small g, of "hd DefaultCriteria"] g(1) built(1)
    by (auto simp: DefaultCriteria_def run_grade_results(1))
qed

text \<open>
  The order of the calls matters: a criterion made must-pass after its result was added does not
  hold the result to its maximum, and 70 points of 100 pass.
\<close>
theorem must_pass_set_late:
  "\<exists>g crit. calculate now (set_criteria [crit] (add_result ''x'' 70 100 [] Map.empty (new_calculator sb))) = Inr g
     \<and> cr_Name crit = ''x'' \<and> cr_MustPass crit \<and> gr_Passed g \<and> gr_MustPassMet g"
proof -
  define crit where "crit = \<lparr>cr_Name = ''x'', cr_Weight = Fin 1, cr_MaxPoints = 100, cr_MustPass = True, cr_Description = []\<rparr>"
  define c where "c = set_criteria [crit] (add_result ''x'' 70 100 [] Map.empty (new_calculator sb))"
  have pc: "Fin 60 \<le> percent_of 70 100" "int_of_f64 (of_int64 70 * Fin 1) = 70" "int_of_f64 (of_int64 100 * Fin 1) = 100"
    by code_simp+
  have f: "find_criterion ''x'' DefaultCriteria = zero_criterion" by (simp add: DefaultCriteria_def)
  have r: "ca_Pass (result_for c crit)" "ca_Score (result_for c crit) = 70" "cl_criteria c = [crit]"
    using pc(1) by (simp_all add: c_def crit_def set_criteria_def add_result_def result_for_def Let_def f new_calculator_def zero_criterion_def)
  have "total_score c = 70" "total_max c = 100" using pc r(2,3)
    by (simp_all add: total_score_def total_max_def weighted_score_def weighted_max_def crit_def i64_def)
  then have "Fin 60 \<le> total_percentage c" using pc(1) by (simp add: total_percentage_def)
  moreover have "\<not> list_ex (must_pass_failed c) [crit]" using r(1) by simp
  ultimately obtain g where "calculate now c = Inr g" "gr_Passed g" "gr_MustPassMet g"
    using r(3) by (simp add: calculate_closed)
  moreover have "cr_Name crit = ''x''" "cr_MustPass crit" by (simp_all add: crit_def)
  ultimately show ?thesis unfolding c_def by blast
qed

text \<open>
  With weights between 0 and 1 and scores between 0 and the criterion's maximum, the total
  never exceeds the maximum and the percentage lies between 0 and 100, rounding included.
\<close>
theorem grade_bounds:
  assumes "scores_ok c" "length (cl_criteria c) \<le> 2 ^ 20" "calculate now c = Inr g"
  shows "0 \<le> gr_TotalScore g \<and> gr_TotalScore g \<le> gr_MaxScore g
    \<and> 0 \<le> gr_Percentage g \<and> gr_Percentage g \<le> Fin 100"
  using assms(3) totals_bounded [OF assms(1,2)] total_percentage_bounded [OF assms(1,2)]
  by (auto simp: calculate_closed)

theorem grade_bounds_witness:
  "\<exists>g. calculate epoch (new_calculator (cl_submission (run_grade_calculator epoch ''s1''))) = Inr g \<and> gr_TotalScore g \<le> gr_MaxScore g \<and> gr_Percentage g \<le> Fin 100"
proof -
  let ?c = "new_calculator (cl_submission (run_grade_calculator epoch ''s1''))"
  have w: "criterion_ok crit" if "crit \<in> set DefaultCriteria" for crit
  proof -
    have "list_all criterion_ok DefaultCriteria" by code_simp
    with that show ?thesis by (simp add: list_all_iff)
  qed
  have len: "length (cl_criteria ?c) \<le> 2 ^ 20" by (simp add: new_calculator_def DefaultCriteria_def)
  have ok: "scores_ok ?c" using w
    by (auto simp: scores_ok_def new_calculator_def result_for_def not_evaluated_def criterion_ok_def)
  obtain g where "calculate epoch ?c = Inr g" by (simp add: calculate_closed)
  then show ?thesis using grade_bounds [OF ok len] by blast
qed

text \<open>
  The grades the \<open>grade\<close> command reports: the default criteria are worth 30 points, not 100,
  and because scores are not rescaled to the criterion's maximum, full marks in reliability
  (15 of 15) earn 3 of 4 points; the result is 24 of 30, 80.0%, B-, passed.
\<close>
theorem run_grade_reports:
  "\<exists>g. calculate now (run_grade_calculator now student) = Inr g \<and> gr_TotalScore g = 24 \<and> gr_MaxScore g = 30
    \<and> gr_Percentage g = Fin 80 \<and> gr_Passed g \<and> grade_summary g = ''PASS: B- (80.0%) - 24/30 points''
    \<and> weighted_max (DefaultCriteria ! 3) = 4
    \<and> weighted_score (run_grade_calculator now student) (DefaultCriteria ! 3) = 3
    \<and> list_all ca_Pass (gr_Categories g)"
proof -
  let ?c = "run_grade_calculator now student"
  note w = run_grade_results [of now student]
  have pc: "percent_of 24 30 = Fin 80" "letter_grade (Fin 80) = ''B-''" "fmt_f 1 (Fin 80) = ''80.0''"
    "fmt_d 24 = ''24''" "fmt_d 30 = ''30''"
    by code_simp+
  have tot: "total_score ?c = 24" "total_max ?c = 30"
    using w(2) default_points by (simp_all add: total_score_def total_max_def w(1) i64_def)
  then have pct: "total_percentage ?c = Fin 80" using pc(1) by (simp add: total_percentage_def)
  have pass: "\<forall>crit \<in> set DefaultCriteria. ca_Pass (result_for ?c crit)"
    using w(3) by (auto simp: DefaultCriteria_def)
  then have mp: "\<not> list_ex (must_pass_failed ?c) DefaultCriteria" by (auto simp: list_ex_iff)
  have w4: "weighted_max (DefaultCriteria ! 3) = 4" "weighted_score ?c (DefaultCriteria ! 3) = 3"
    using arg_cong [OF default_points, of "\<lambda>xs. xs ! 3"] arg_cong [OF w(2), of "\<lambda>xs. xs ! 3"]
    by (simp_all add: DefaultCriteria_def)
  have six: "Fin 60 \<le> Fin 80" by (simp add: f64_simps)
  show ?thesis
    using pass w4 mp six pc
    by (simp add: calculate_closed w(1) tot pct grade_summary_def list_all_iff)
qed

text \<open>
  With its default flags the \<open>grade\<close> command always fails: the default format is
  \<open>console\<close>, the default output directory is not empty, and \<open>Export\<close> knows no such format;
  for the formats it knows the file is written below the output directory, unless the
  system refuses.
\<close>
theorem run_grade_export:
  "(case grade_flags_default of (student, format, output) \<Rightarrow>
     run_grade os now student format output = (Some ''unsupported format: console'', None))
   \<and> (format \<in> {''json'', ''html'', ''txt''} \<and> output \<noteq> [] \<and> os_mkdir os = (\<lambda>_. None) \<and> os_write os = (\<lambda>_. None) \<longrightarrow>
     (\<exists>content. run_grade os now student format output =
       (None, Some (path_join [output, (if student = [] then ''anonymous'' else student) @ ''-grade.'' @ format], content))))"
  by (auto simp: run_grade_def grade_flags_default_def calculate_closed grade_export_def export_file_def
      write_file_def Let_def)

theorem run_grade_export_witness:
  "\<exists>content. run_grade \<lparr>os_mkdir = (\<lambda>_. None), os_write = (\<lambda>_. None)\<rparr> epoch ''s1'' ''json'' ''reports'' =
     (None, Some (''reports/s1-grade.json'', content))"
proof -
  have "path_join [''reports'', ''s1-grade.json''] = ''reports/s1-grade.json''" by code_simp
  then show ?thesis
    using run_grade_export [of "\<lparr>os_mkdir = (\<lambda>_. None), os_write = (\<lambda>_. None)\<rparr>" epoch "''json''" "''reports''" "''s1''",
        THEN conjunct2, THEN mp] by auto
qed

text \<open>
  C35. A grade whose texts need no escape is exported as JSON that reads back as the grade. The texts
  are not escaped, though: a name with quotes in it is not read as that name, but adds
  members of its own choice to the report.
\<close>

theorem grade_json_reads:
  assumes "plain_grade g" "plain_str name" "plain_str key" "plain_str val"
  shows "parse_json (json_content (g\<lparr>gr_Submission := (gr_Submission g)\<lparr>sb_StudentName := name\<rparr>\<rparr>)) =
      Some (TObj (grade_members [(''student_name'', TStr (utf8_clean name))] g))
    \<and> parse_json (json_content (g\<lparr>gr_Submission := (gr_Submission g)\<lparr>sb_StudentName := name @ dq @ '','' @ quoted key @ '': '' @ dq @ val\<rparr>\<rparr>)) =
      Some (TObj (grade_members [(''student_name'', TStr (utf8_clean name)), (utf8_clean key, TStr (utf8_clean val))] g))"
proof -
  have w: "ws_text (nl @ ''  '')" "ws_text []" "plain_str ''student_name''" "utf8_clean ''student_name'' = ''student_name''"
    by (simp_all add: nl_def json_ws_def plain_str_def utf8_clean_ascii)
  have line: "jmem (name_line name) (''student_name'', TStr (utf8_clean name))"
    using jmem_line [OF w(1,3,4) jval_quoted [OF assms(2)] w(2)] by simp
  have "jmem ([] @ dq @ key @ dq @ '':'' @ '' '' @ quoted val @ []) (utf8_clean key, TStr (utf8_clean val))"
    unfolding jmem_def using plain_str_text [OF assms(3)] jval_quoted [OF assms(4)]
    by (intro exI [of _ "[]"] exI [of _ key] exI [of _ "'' ''"] exI [of _ "quoted val"]) (simp add: json_ws_def)
  then have two: "list_all2 jmem [name_line name, dq @ key @ dq @ '': '' @ quoted val]
      [(''student_name'', TStr (utf8_clean name)), (utf8_clean key, TStr (utf8_clean val))]"
    using line by simp
  let ?g = "\<lambda>s. g\<lparr>gr_Submission := (gr_Submission g)\<lparr>sb_StudentName := s\<rparr>\<rparr>"
  have g: "plain_grade (?g s)" "grade_members ms (?g s) = grade_members ms g" for s ms
    using assms(1) by (simp_all add: plain_grade_def grade_members_def mid_members_def last_members_def)
  show ?thesis
    using grade_text [OF g(1), of "[name_line name]" _ name] grade_text [OF g(1) two, of "name @ dq @ '','' @ quoted key @ '': '' @ dq @ val"] line
    by (simp add: g(2) quoted_def)
qed

definition sample_grade :: grade where
  "sample_grade = \<lparr>gr_Submission = \<lparr>sb_StudentID = ''s1'', sb_StudentName = [], sb_Timestamp = epoch, sb_Repository = [], sb_CommitHash = []\<rparr>,
     gr_TotalScore = 40, gr_MaxScore = 100, gr_Percentage = Fin 40, gr_LetterGrade = ''F'', gr_Passed = False, gr_Categories = [],
     gr_MustPassMet = True, gr_Feedback = [''late''], gr_DetailedNotes = [], gr_Timestamp = epoch\<rparr>"

theorem grade_json_reads_witness:
  "\<exists>ms. parse_json (json_content (sample_grade\<lparr>gr_Submission := (gr_Submission sample_grade)\<lparr>sb_StudentName :=
        ''x'' @ dq @ '','' @ quoted ''bonus'' @ '': '' @ dq @ ''100''\<rparr>\<rparr>)) = Some (TObj ms)
      \<and> map_of ms ''student_name'' = Some (TStr ''x'') \<and> map_of ms ''bonus'' = Some (TStr ''100'')"
proof -
  have "plain_grade sample_grade" "plain_str ''x''" "plain_str ''bonus''" "plain_str ''100''"
    by (simp_all add: plain_grade_def sample_grade_def plain_str_def)
  note read = conjunct2 [OF grade_json_reads [OF this]]
  show ?thesis unfolding read by (simp add: grade_members_def utf8_clean_ascii)
qed

end
