(* ===== verification/Benchmark.thy ===== *)
theory Benchmark
  imports GoSys
begin

text \<open>
  The benchmark runner, \<^verbatim>\<open>pkg/benchmark/runner.go\<close>.

  \<^item> The statistics: the bubble sort with its two index loops, the percentile that picks an
    index of the sorted copy, and the result record.
  \<^item> The workers: each goroutine is a program counter between its atomic actions (tick,
    counter, byte counter, latency under the lock), and the steps of the workers interleave
    in any order; a run ends when every worker has seen the context end.
\<close>

subsection \<open>Data\<close>

record bench_result =
  br_Name :: string
  br_Duration :: int
  br_TotalOps :: int
  br_TotalBytes :: int
  br_Errors :: int
  br_Latencies :: "int list"
  br_Throughput :: f64
  br_p50 :: int
  br_p95 :: int
  br_p99 :: int
  br_Timestamp :: go_time

record bench_config =
  bc_Duration :: int
  bc_Concurrency :: int
  bc_WarmUp :: int
  bc_Target :: string
  bc_Operation :: string
  bc_PayloadSize :: int

record service_target =
  st_Name :: string
  st_Endpoint :: string
  st_Port :: int
  st_Operation :: string

record metrics =
  mt_ops :: int
  mt_errors :: int
  mt_bytes :: int
  mt_latencies :: "int list"

record bench_runner =
  bn_results :: "string \<rightharpoonup> bench_result"

definition new_runner :: bench_runner where
  "new_runner = \<lparr>bn_results = Map.empty\<rparr>"

definition new_metrics :: metrics where
  "new_metrics = \<lparr>mt_ops = 0, mt_errors = 0, mt_bytes = 0, mt_latencies = []\<rparr>"

subsection \<open>Percentiles\<close>

text \<open>The two loops of the bubble sort, on indices.\<close>

function bubble_inner :: "nat \<Rightarrow> nat \<Rightarrow> int list \<Rightarrow> int list" where
  "bubble_inner hi j xs =
     (if j < hi
      then bubble_inner hi (j + 1)
             (if xs ! j > xs ! (j + 1) then xs[j := xs ! (j + 1), j + 1 := xs ! j] else xs)
      else xs)"
  by pat_completeness auto
termination by (relation "measure (\<lambda>(hi, j, _). hi - j)") auto

function bubble_outer :: "nat \<Rightarrow> nat \<Rightarrow> int list \<Rightarrow> int list" where
  "bubble_outer n i xs = (if i < n then bubble_outer n (i + 1) (bubble_inner (n - i - 1) 0 xs) else xs)"
  by pat_completeness auto
termination by (relation "measure (\<lambda>(n, i, _). n - i)") auto

declare bubble_inner.simps [simp del] bubble_outer.simps [simp del]

definition bubble_sort :: "int list \<Rightarrow> int list" where
  "bubble_sort xs = bubble_outer (length xs) 0 xs"

definition calculate_percentile :: "int list \<Rightarrow> f64 \<Rightarrow> panic + int" where
  "calculate_percentile latencies p =
     (if length latencies = 0 then Inr 0
      else let sorted = bubble_sort latencies;
               index = int_of_f64 (f64_floor (p * of_int64 (int (length sorted) - 1)))
           in index_at sorted index)"

definition calculate_result :: "string \<Rightarrow> int \<Rightarrow> go_time \<Rightarrow> metrics \<Rightarrow> panic + bench_result" where
  "calculate_result name duration now m =
     (let r = \<lparr>br_Name = name, br_Duration = duration, br_TotalOps = mt_ops m, br_TotalBytes = mt_bytes m,
               br_Errors = mt_errors m, br_Latencies = [], br_Throughput = of_int64 (mt_ops m) / seconds duration,
               br_p50 = 0, br_p95 = 0, br_p99 = 0, br_Timestamp = now\<rparr>
      in if length (mt_latencies m) > 0
         then bind_sum (calculate_percentile (mt_latencies m) (to_f64 (50 / 100))) (\<lambda>p50.
              bind_sum (calculate_percentile (mt_latencies m) (to_f64 (95 / 100))) (\<lambda>p95.
              bind_sum (calculate_percentile (mt_latencies m) (to_f64 (99 / 100))) (\<lambda>p99.
                Inr (r\<lparr>br_Latencies := mt_latencies m, br_p50 := p50, br_p95 := p95, br_p99 := p99\<rparr>))))
         else Inr r)"

subsection \<open>Workers\<close>

datatype operation = IngestOp | QueryOp

fun simulated_bytes :: "operation \<Rightarrow> int \<Rightarrow> int" where
  "simulated_bytes IngestOp start = 1024 + start smod 4096"
| "simulated_bytes QueryOp start = 256 + start smod 1024"

fun simulated_latency :: "operation \<Rightarrow> int \<Rightarrow> int" where
  "simulated_latency IngestOp start = (1 + start smod 50) * 1000000"
| "simulated_latency QueryOp start = (1 + start smod 20) * 1000000"

text \<open>
  Where a worker stands: at the select, asleep or about to count its operation, about to add
  its bytes, about to record its latency, or returned. The start time is in nanoseconds.
\<close>

datatype worker = AtSelect | ToCount int | ToAddBytes int | ToRecord int | Returned

text \<open>
  One step of worker \<open>i\<close>. The clock is past 1970, and \<open>time.Sleep\<close> sleeps at least as long as
  it is told to, so a recorded latency is no shorter than the simulated one.
\<close>

inductive worker_step :: "operation \<Rightarrow> metrics \<times> worker list \<Rightarrow> metrics \<times> worker list \<Rightarrow> bool" for op where
  ctx_done: "i < length ws \<Longrightarrow> ws ! i = AtSelect \<Longrightarrow> worker_step op (m, ws) (m, ws[i := Returned])"
| tick: "i < length ws \<Longrightarrow> ws ! i = AtSelect \<Longrightarrow> 0 \<le> start \<Longrightarrow>
    worker_step op (m, ws) (m, ws[i := ToCount start])"
| count_op: "i < length ws \<Longrightarrow> ws ! i = ToCount start \<Longrightarrow>
    worker_step op (m, ws) (m\<lparr>mt_ops := i64 (mt_ops m + 1)\<rparr>, ws[i := ToAddBytes start])"
| add_bytes: "i < length ws \<Longrightarrow> ws ! i = ToAddBytes start \<Longrightarrow>
    worker_step op (m, ws)
      (m\<lparr>mt_bytes := i64 (mt_bytes m + simulated_bytes op start)\<rparr>, ws[i := ToRecord start])"
| record_latency: "i < length ws \<Longrightarrow> ws ! i = ToRecord start \<Longrightarrow> simulated_latency op start \<le> latency \<Longrightarrow>
    worker_step op (m, ws) (m\<lparr>mt_latencies := mt_latencies m @ [latency]\<rparr>, ws[i := AtSelect])"

inductive_cases worker_stepE: "worker_step op (m, ws) (m', ws')"

text \<open>\<open>runWorkers\<close>: it returns when all its workers have.\<close>

definition run_workers :: "operation \<Rightarrow> int \<Rightarrow> metrics \<Rightarrow> metrics \<Rightarrow> bool" where
  "run_workers op concurrency m m' \<longleftrightarrow>
     (worker_step op)\<^sup>*\<^sup>* (m, replicate (nat concurrency) AtSelect) (m', replicate (nat concurrency) Returned)"

definition reset_metrics :: "metrics \<Rightarrow> metrics" where
  "reset_metrics m = m\<lparr>mt_ops := 0, mt_errors := 0, mt_bytes := 0, mt_latencies := []\<rparr>"

text \<open>
  The three benchmarks: what a run can store and return, given the measured duration and the
  time of the result.
\<close>

inductive run_benchmark :: "string \<Rightarrow> operation \<Rightarrow> bench_config \<Rightarrow> bench_runner \<Rightarrow> bench_runner \<Rightarrow> bench_result \<Rightarrow> bool" where
  "(if bc_WarmUp cfg > 0 then run_workers op (bc_Concurrency cfg) new_metrics m1 \<and> m2 = reset_metrics m1
    else m2 = new_metrics) \<Longrightarrow>
   run_workers op (bc_Concurrency cfg) m2 m3 \<Longrightarrow>
   calculate_result name duration now m3 = Inr res \<Longrightarrow>
   run_benchmark name op cfg r (r\<lparr>bn_results := (bn_results r)(name \<mapsto> res)\<rparr>) res"

definition run_ingest_benchmark :: "bench_config \<Rightarrow> bench_runner \<Rightarrow> bench_runner \<Rightarrow> bench_result \<Rightarrow> bool" where
  "run_ingest_benchmark = run_benchmark ''ingest'' IngestOp"

definition run_query_benchmark :: "bench_config \<Rightarrow> bench_runner \<Rightarrow> bench_runner \<Rightarrow> bench_result \<Rightarrow> bool" where
  "run_query_benchmark = run_benchmark ''query'' QueryOp"

text \<open>The load benchmark has no warm-up phase, whatever the configuration asks for.\<close>

definition run_load_benchmark :: "service_target \<Rightarrow> bench_config \<Rightarrow> bench_runner \<Rightarrow> bench_runner \<Rightarrow> bench_result \<Rightarrow> bool" where
  "run_load_benchmark target cfg =
     run_benchmark ''load'' (if st_Operation target = ''ingest'' then IngestOp else QueryOp) (cfg\<lparr>bc_WarmUp := 0\<rparr>)"

definition get_results :: "bench_runner \<Rightarrow> string \<rightharpoonup> bench_result" where
  "get_results r = bn_results r"

definition get_result :: "bench_runner \<Rightarrow> string \<Rightarrow> bench_result option" where
  "get_result r name = bn_results r name"

text \<open>The numbers \<open>logResult\<close> prints: operations and megabytes per second.\<close>

definition log_throughput :: "bench_result \<Rightarrow> string \<times> string" where
  "log_throughput r =
     (fmt_f 2 (br_Throughput r),
      fmt_f 2 (of_int64 (br_TotalBytes r) / Fin (1024 * 1024) / seconds (br_Duration r)))"

subsection \<open>The bubble sort sorts\<close>

lemma bubble_swap:
  assumes "j + 1 < length xs"
  shows "mset (xs[j := xs ! (j + 1), j + 1 := xs ! j]) = mset (xs :: int list)"
  using mset_swap [of "j + 1" xs j] assms by simp

lemma bubble_inner_spec:
  assumes "hi < length xs" "j \<le> hi" "\<forall>a < j. xs ! a \<le> xs ! j"
  shows "mset (bubble_inner hi j xs) = mset xs \<and> length (bubble_inner hi j xs) = length xs
    \<and> (\<forall>b > hi. b < length xs \<longrightarrow> bubble_inner hi j xs ! b = xs ! b)
    \<and> (\<forall>a \<le> hi. \<exists>a' \<le> hi. bubble_inner hi j xs ! a = xs ! a')
    \<and> (\<forall>a \<le> hi. bubble_inner hi j xs ! a \<le> bubble_inner hi j xs ! hi)"
  using assms
proof (induction hi j xs rule: bubble_inner.induct)
  case (1 hi j xs)
  show ?case
  proof (cases "j < hi")
    case False
    then have "j = hi" using 1(3) by simp
    then show ?thesis using 1(4) by (auto simp: bubble_inner.simps [of hi hi] order_le_less)
  next
    case True
    define ys where "ys = (if xs ! j > xs ! (j + 1) then xs[j := xs ! (j + 1), j + 1 := xs ! j] else xs)"
    have len: "length ys = length xs" by (simp add: ys_def)
    have ms: "mset ys = mset xs" using bubble_swap [of j xs] True 1(2) by (simp add: ys_def)
    have pre: "\<forall>a < j + 1. ys ! a \<le> ys ! (j + 1)"
      using 1(2,4) True by (auto simp: ys_def nth_list_update less_Suc_eq)
    have far: "\<forall>b > hi. b < length xs \<longrightarrow> ys ! b = xs ! b" using True by (simp add: ys_def)
    have src: "\<forall>a \<le> hi. \<exists>a' \<le> hi. ys ! a = xs ! a'"
    proof (intro allI impI)
      fix a assume "a \<le> hi"
      define k where "k = (if xs ! j > xs ! (j + 1) then (if a = j then j + 1 else if a = j + 1 then j else a) else a)"
      have "ys ! a = xs ! k" using True 1(2) by (auto simp: ys_def k_def nth_list_update)
      moreover have "k \<le> hi" using True \<open>a \<le> hi\<close> by (simp add: k_def)
      ultimately show "\<exists>a' \<le> hi. ys ! a = xs ! a'" by blast
    qed
    have eq: "bubble_inner hi j xs = bubble_inner hi (j + 1) ys"
      using True by (simp add: bubble_inner.simps [of hi j] ys_def)
    have IH: "mset (bubble_inner hi (j + 1) ys) = mset ys \<and> length (bubble_inner hi (j + 1) ys) = length ys
      \<and> (\<forall>b > hi. b < length ys \<longrightarrow> bubble_inner hi (j + 1) ys ! b = ys ! b)
      \<and> (\<forall>a \<le> hi. \<exists>a' \<le> hi. bubble_inner hi (j + 1) ys ! a = ys ! a')
      \<and> (\<forall>a \<le> hi. bubble_inner hi (j + 1) ys ! a \<le> bubble_inner hi (j + 1) ys ! hi)"
      unfolding ys_def by (rule 1(1)) (use True 1(2) len pre in \<open>auto simp: ys_def\<close>)
    show ?thesis unfolding eq using IH len ms far src by (metis (no_types, lifting))
  qed
qed

lemma bubble_outer_spec:
  assumes "n = length xs" "i \<le> n" "\<forall>a b. a < b \<and> n - i \<le> b \<and> b < n \<longrightarrow> xs ! a \<le> xs ! b"
  shows "mset (bubble_outer n i xs) = mset xs \<and> sorted (bubble_outer n i xs)"
  using assms
proof (induction n i xs rule: bubble_outer.induct)
  case (1 n i xs)
  show ?case
  proof (cases "i < n")
    case False
    then have "bubble_outer n i xs = xs" by (simp add: bubble_outer.simps [of n i])
    then show ?thesis using 1(2,3,4) False by (auto simp: sorted_iff_nth_mono_less)
  next
    case True
    define ys where "ys = bubble_inner (n - i - 1) 0 xs"
    have spec: "mset ys = mset xs" "length ys = length xs"
      "\<And>b. n - i - 1 < b \<Longrightarrow> b < length xs \<Longrightarrow> ys ! b = xs ! b"
      "\<And>a. a \<le> n - i - 1 \<Longrightarrow> \<exists>a' \<le> n - i - 1. ys ! a = xs ! a'"
      "\<And>a. a \<le> n - i - 1 \<Longrightarrow> ys ! a \<le> ys ! (n - i - 1)"
      using bubble_inner_spec [of "n - i - 1" xs 0] True 1(2) unfolding ys_def by auto
    have "ys ! a \<le> ys ! b" if ab: "a < b" "n - (i + 1) \<le> b" "b < n" for a b
    proof (cases "b = n - i - 1")
      case True
      then show ?thesis using spec(5) ab by simp
    next
      case False
      then have b: "n - i \<le> b" "n - i - 1 < b" using ab by simp_all
      then have yb: "ys ! b = xs ! b" using spec(3) ab 1(2) by simp
      show ?thesis
      proof (cases "a \<le> n - i - 1")
        case True
        then obtain a' where "a' \<le> n - i - 1" "ys ! a = xs ! a'" using spec(4) by blast
        then show ?thesis using 1(4) yb b ab by auto
      next
        case False
        then show ?thesis using 1(4) yb b ab spec(3) [of a] 1(2) by auto
      qed
    qed
    then have "mset (bubble_outer n (i + 1) ys) = mset ys \<and> sorted (bubble_outer n (i + 1) ys)"
      unfolding ys_def using True 1(2) spec(2) by (intro 1(1)) (auto simp: ys_def)
    then show ?thesis using True spec(1) by (simp add: bubble_outer.simps [of n i] ys_def)
  qed
qed

lemma bubble_sort_sort: "bubble_sort xs = sort xs"
proof -
  have "mset (bubble_sort xs) = mset xs \<and> sorted (bubble_sort xs)"
    unfolding bubble_sort_def by (rule bubble_outer_spec) auto
  then show ?thesis by (metis properties_for_sort)
qed

subsection \<open>Percentiles pick elements, in order\<close>

definition percentile_index :: "nat \<Rightarrow> rat \<Rightarrow> nat" where
  "percentile_index n p = nat \<lfloor>round53 (p * of_nat (n - 1))\<rfloor>"

lemma percentile_index_bound:
  assumes "0 < n" "n \<le> 2 ^ 53" "0 \<le> p" "p \<le> 1"
  shows "percentile_index n p < n"
proof -
  have "p * of_nat (n - 1) \<le> of_int (int (n - 1))" using assms by (simp add: mult_left_le_one_le)
  then have "round53 (p * of_nat (n - 1)) \<le> of_int (int (n - 1))"
    using assms(2) round53_of_int [of "int (n - 1)"] by (intro round53_le) auto
  then have "\<lfloor>round53 (p * of_nat (n - 1))\<rfloor> \<le> int (n - 1)" by (simp add: floor_le_iff)
  then show ?thesis using assms(1) unfolding percentile_index_def by linarith
qed

lemma percentile_index_mono: "p \<le> q \<Longrightarrow> percentile_index n p \<le> percentile_index n q"
  unfolding percentile_index_def
  by (intro nat_mono floor_mono round53_mono mult_right_mono) auto

lemma percentile_spec:
  assumes "xs \<noteq> []" "length xs \<le> 2 ^ 53" "0 \<le> p" "p \<le> 1"
  shows "calculate_percentile xs (Fin p) = Inr (sort xs ! percentile_index (length xs) p)"
proof -
  let ?n = "length xs"
  define m where "m = int ?n - 1"
  define r where "r = round53 (p * of_int m)"
  have n: "0 < ?n" using assms(1) by simp
  have m: "0 \<le> m" "m \<le> 2 ^ 53" using n assms(2) by (simp_all add: m_def)
  have mr: "rat_of_int m \<le> 2 ^ 53" using m(2) by (metis of_int_le_iff of_int_power of_int_numeral)
  have pm: "0 \<le> p * of_int m" "p * of_int m \<le> of_int m"
    using m(1) assms(3,4) by (simp_all add: mult_left_le_one_le)
  then have "\<bar>p * of_int m\<bar> \<le> 2 ^ 53" using mr by simp
  then have mul: "Fin p * of_int64 m = Fin r"
    using m by (simp add: f64_simps to_f64_53 r_def)
  have r0: "0 \<le> r" unfolding r_def using pm(1) by (rule round53_nonneg)
  have rm: "r \<le> of_int m" unfolding r_def using pm(2) m by (intro round53_le) auto
  then have fl: "0 \<le> \<lfloor>r\<rfloor>" "\<lfloor>r\<rfloor> \<le> m" using r0 by (simp_all add: floor_le_iff)
  have r63: "r < 9223372036854775808" "- 9223372036854775808 \<le> r" using rm mr r0 by simp_all
  have "int_of_f64 (f64_floor (Fin p * of_int64 m)) = \<lfloor>r\<rfloor>"
    unfolding mul using m(2) r63 by (simp add: Let_def)
  moreover have "rat_of_nat (?n - 1) = of_int m" using n by (simp add: m_def of_nat_diff Suc_le_eq)
  then have "percentile_index ?n p = nat \<lfloor>r\<rfloor>" by (simp only: percentile_index_def r_def)
  ultimately show ?thesis
    using n fl unfolding m_def by (simp add: calculate_percentile_def bubble_sort_sort index_at_def Let_def)
qed

text \<open>The three percentages of the code, as the binary64 numbers they are.\<close>

definition p50 :: rat where "p50 = round53 (50 / 100)"
definition p95 :: rat where "p95 = round53 (95 / 100)"
definition p99 :: rat where "p99 = round53 (99 / 100)"

lemma percentages:
  "to_f64 (50 / 100) = Fin p50" "to_f64 (95 / 100) = Fin p95" "to_f64 (99 / 100) = Fin p99"
  "0 \<le> p50" "p50 \<le> p95" "p95 \<le> p99" "p99 \<le> 1"
  by code_simp+

lemma percentile_order:
  assumes "xs \<noteq> []" "length xs \<le> 2 ^ 53" "0 \<le> p" "p \<le> q" "q \<le> 1"
  shows "sort xs ! percentile_index (length xs) p \<le> sort xs ! percentile_index (length xs) q"
  using percentile_index_bound [of "length xs" q] percentile_index_mono [OF assms(4)] assms
  by (intro sorted_nth_mono) auto

subsection \<open>The workers keep the counters in step\<close>

definition pending :: "worker list \<Rightarrow> nat" where
  "pending ws = length (filter (\<lambda>w. case w of ToAddBytes _ \<Rightarrow> True | ToRecord _ \<Rightarrow> True | _ \<Rightarrow> False) ws)"

definition clock_ok :: "worker \<Rightarrow> bool" where
  "clock_ok w \<longleftrightarrow> (case w of ToCount s \<Rightarrow> 0 \<le> s | ToAddBytes s \<Rightarrow> 0 \<le> s | ToRecord s \<Rightarrow> 0 \<le> s | _ \<Rightarrow> True)"

text \<open>The workers that counted an operation but not its bytes yet.\<close>

definition owing :: "worker list \<Rightarrow> nat" where
  "owing ws = length (filter (\<lambda>w. case w of ToAddBytes _ \<Rightarrow> True | _ \<Rightarrow> False) ws)"

lemmas worker_counts = length_filter_update [of _ _ "\<lambda>w. case w of ToAddBytes _ \<Rightarrow> True | ToRecord _ \<Rightarrow> True | _ \<Rightarrow> False", folded pending_def]
  length_filter_update [of _ _ "\<lambda>w. case w of ToAddBytes _ \<Rightarrow> True | _ \<Rightarrow> False", folded owing_def]

lemma simulated_ranges:
  assumes "0 \<le> s"
  shows "256 \<le> simulated_bytes op s" "simulated_bytes op s \<le> 5119" "1000000 \<le> simulated_latency op s"
proof -
  have m: "s smod k = s mod k" if "0 < k" for k using assms that by (cases "s = 0") (simp_all add: smod_int_alt_def)
  have "0 \<le> s mod 4096" "s mod 4096 < 4096" "0 \<le> s mod 1024" "s mod 1024 < 1024" "0 \<le> s mod 50" "0 \<le> s mod 20"
    by simp_all
  then show "256 \<le> simulated_bytes op s" "simulated_bytes op s \<le> 5119" "1000000 \<le> simulated_latency op s"
    by (cases op; simp add: m)+
qed

text \<open>
  The invariant: operations are latencies plus pending ones; the byte counter is the wrapped
  value of a sum that holds between 256 and 5119 bytes for each operation it has seen.
\<close>

definition workers_inv :: "metrics \<times> worker list \<Rightarrow> bool" where
  "workers_inv s \<longleftrightarrow> (case s of (m, ws) \<Rightarrow>
     mt_ops m = i64 (int (length (mt_latencies m) + pending ws)) \<and> mt_errors m = 0
     \<and> (\<forall>w \<in> set ws. clock_ok w) \<and> (\<forall>l \<in> set (mt_latencies m). 1000000 \<le> l)
     \<and> (\<exists>b. mt_bytes m = i64 b \<and> 256 * (int (length (mt_latencies m) + pending ws) - int (owing ws)) \<le> b
          \<and> b \<le> 5119 * (int (length (mt_latencies m) + pending ws) - int (owing ws))))"

lemma set_update_ok: "\<forall>w \<in> set ws. P w \<Longrightarrow> P v \<Longrightarrow> \<forall>w \<in> set (ws[i := v]). P w"
  using set_update_subset_insert [of ws i v] by blast

lemma worker_step_inv: "worker_step op s t \<Longrightarrow> workers_inv s \<Longrightarrow> workers_inv t"
proof (induction rule: worker_step.induct)
  case (ctx_done i ws m)
  then show ?case using worker_counts [of i ws Returned] set_update_ok [of ws clock_ok Returned i]
    by (simp add: workers_inv_def clock_ok_def)
next
  case (tick i ws start m)
  then show ?case using worker_counts [of i ws "ToCount start"] set_update_ok [of ws clock_ok "ToCount start" i]
    by (simp add: workers_inv_def clock_ok_def)
next
  case (count_op i ws start m)
  have "clock_ok (ws ! i)" using count_op nth_mem [of i ws] by (simp add: workers_inv_def)
  then show ?case using count_op worker_counts [of i ws "ToAddBytes start"] set_update_ok [of ws clock_ok "ToAddBytes start" i]
    by (simp add: workers_inv_def clock_ok_def i64_add i64_add' add_ac)
next
  case (add_bytes i ws start m)
  have ck: "clock_ok (ws ! i)" using add_bytes nth_mem [of i ws] by (simp add: workers_inv_def)
  then have s: "0 \<le> start" using add_bytes(2) by (simp add: clock_ok_def)
  let ?k = "int (length (mt_latencies m) + pending ws)"
  obtain b where b: "mt_bytes m = i64 b" "256 * (?k - int (owing ws)) \<le> b" "b \<le> 5119 * (?k - int (owing ws))"
    using add_bytes(3) by (auto simp: workers_inv_def)
  have cnt: "pending (ws[i := ToRecord start]) = pending ws" "owing (ws[i := ToRecord start]) + 1 = owing ws"
    using add_bytes(1,2) worker_counts [of i ws "ToRecord start"] by simp_all
  have "mt_bytes m + simulated_bytes op start = i64 b + simulated_bytes op start" using b by simp
  then have by': "i64 (mt_bytes m + simulated_bytes op start) = i64 (b + simulated_bytes op start)"
    by (simp add: i64_add)
  have ok: "\<forall>w \<in> set (ws[i := ToRecord start]). clock_ok w"
    using add_bytes(3) s by (intro set_update_ok) (auto simp: workers_inv_def clock_ok_def)
  have "256 * (?k - int (owing (ws[i := ToRecord start]))) \<le> b + simulated_bytes op start"
    "b + simulated_bytes op start \<le> 5119 * (?k - int (owing (ws[i := ToRecord start])))"
    using b cnt(2) simulated_ranges [OF s, of op] by (simp_all add: algebra_simps)
  then show ?case using add_bytes(3) ok cnt(1) by' by (auto simp: workers_inv_def)
next
  case (record_latency i ws start latency m)
  have "clock_ok (ws ! i)" using record_latency nth_mem [of i ws] by (simp add: workers_inv_def)
  then have "0 \<le> start" using record_latency(2) by (simp add: clock_ok_def)
  then have "1000000 \<le> latency" using simulated_ranges(3) [of start op] record_latency(3) by simp
  moreover have "pending ws = Suc (pending (ws[i := AtSelect]))" "owing (ws[i := AtSelect]) = owing ws"
    using record_latency(1,2) worker_counts [of i ws AtSelect] by simp_all
  moreover have "\<forall>w \<in> set (ws[i := AtSelect]). clock_ok w"
    using record_latency(4) by (intro set_update_ok) (auto simp: workers_inv_def clock_ok_def)
  ultimately show ?case using record_latency(4) by (auto simp: workers_inv_def algebra_simps)
qed

lemma workers_inv_reachable: "(worker_step op)\<^sup>*\<^sup>* s t \<Longrightarrow> workers_inv s \<Longrightarrow> workers_inv t"
  by (induction rule: rtranclp_induct) (auto intro: worker_step_inv)

lemma replicate_idle: "pending (replicate n AtSelect) = 0" "pending (replicate n Returned) = 0"
  "owing (replicate n AtSelect) = 0" "owing (replicate n Returned) = 0"
  by (simp_all add: pending_def owing_def)

lemma run_workers_fresh:
  assumes "run_workers op k m m'" "mt_ops m = 0" "mt_errors m = 0" "mt_bytes m = 0" "mt_latencies m = []"
  shows "mt_ops m' = i64 (int (length (mt_latencies m'))) \<and> mt_errors m' = 0
    \<and> (\<forall>l \<in> set (mt_latencies m'). 1000000 \<le> l)
    \<and> (\<exists>b. mt_bytes m' = i64 b \<and> 256 * int (length (mt_latencies m')) \<le> b \<and> b \<le> 5119 * int (length (mt_latencies m')))"
proof -
  have "i64 0 = 0" by (simp add: i64_def)
  then have "workers_inv (m, replicate (nat k) AtSelect)"
    using assms by (auto simp: workers_inv_def replicate_idle clock_ok_def intro: exI [of _ 0])
  then have "workers_inv (m', replicate (nat k) Returned)"
    using assms(1) workers_inv_reachable unfolding run_workers_def by blast
  then show ?thesis by (auto simp: workers_inv_def replicate_idle)
qed

subsection \<open>Properties\<close>

text \<open>
  A percentile never panics: for any fraction between 0 and 1 the index computed in binary64
  lies within the slice, the two loops of the bubble sort leave the slice sorted, and the
  result is the element of that rank.
\<close>
theorem percentile_in_bounds:
  assumes "latencies \<noteq> []" "length latencies \<le> 2 ^ 53" "0 \<le> p" "p \<le> 1"
  shows "percentile_index (length latencies) p < length latencies
    \<and> calculate_percentile latencies (Fin p) = Inr (sort latencies ! percentile_index (length latencies) p)"
  using percentile_spec [OF assms] percentile_index_bound [of "length latencies" p] assms by simp

theorem percentile_in_bounds_witness:
  "calculate_percentile [30, 10, 20] (Fin (1 / 2)) = Inr 20"
proof -
  have "percentile_index 3 (1 / 2) = 1" by code_simp
  then show ?thesis using percentile_in_bounds [of "[30, 10, 20]" "1 / 2"] by (simp add: numeral_3_eq_3)
qed

text \<open>
  C13. Of the measured latencies the result keeps all, in order of measurement, and its three
  percentiles are among them, in ascending order.
\<close>
theorem result_percentiles_ordered:
  assumes "length (mt_latencies m) \<le> 2 ^ 53"
  shows "\<exists>r. calculate_result name duration now m = Inr r \<and> br_Latencies r = mt_latencies m
    \<and> br_p50 r \<le> br_p95 r \<and> br_p95 r \<le> br_p99 r
    \<and> (mt_latencies m \<noteq> [] \<longrightarrow> {br_p50 r, br_p95 r, br_p99 r} \<subseteq> set (mt_latencies m))"
proof (cases "mt_latencies m = []")
  case True
  then show ?thesis by (simp add: calculate_result_def)
next
  case False
  let ?xs = "mt_latencies m"
  have le: "0 \<le> p50" "0 \<le> p95" "0 \<le> p99" "p50 \<le> 1" "p95 \<le> 1" "p99 \<le> 1"
    using percentages by (blast intro: order_trans)+
  have mem: "sort ?xs ! percentile_index (length ?xs) p \<in> set ?xs" if "0 \<le> p" "p \<le> 1" for p
    using percentile_index_bound [OF _ assms that] False by (metis length_greater_0_conv length_sort nth_mem set_sort)
  show ?thesis
    using False percentile_spec [OF False assms] le mem percentages
      percentile_order [OF False assms, of p50 p95] percentile_order [OF False assms, of p95 p99]
    by (simp add: calculate_result_def Let_def)
qed

theorem result_percentiles_ordered_witness:
  "\<exists>r. calculate_result ''query'' 1000 epoch
      \<lparr>mt_ops = 2, mt_errors = 0, mt_bytes = 600, mt_latencies = [5, 3]\<rparr> = Inr r
    \<and> br_p50 r \<le> br_p95 r \<and> {br_p50 r, br_p95 r, br_p99 r} \<subseteq> {3, 5}"
  using result_percentiles_ordered
    [of "\<lparr>mt_ops = 2, mt_errors = 0, mt_bytes = 600, mt_latencies = [5, 3]\<rparr>" "''query''" 1000 epoch]
  by auto

text \<open>
  C7. However the workers interleave, a finished benchmark counts each operation once: the
  operations are as many as the latencies (modulo the 64-bit counter), no error is counted,
  the bytes are those of that many operations, no latency is below a millisecond, and the
  warm-up leaves no trace.
\<close>
theorem benchmark_counts:
  assumes "run_benchmark name op cfg r r' res"
  shows "br_TotalOps res = i64 (int (length (br_Latencies res))) \<and> br_Errors res = 0
    \<and> (\<forall>l \<in> set (br_Latencies res). 1000000 \<le> l)
    \<and> (\<exists>b. br_TotalBytes res = i64 b \<and> 256 * int (length (br_Latencies res)) \<le> b
         \<and> b \<le> 5119 * int (length (br_Latencies res)))
    \<and> get_result r' name = Some res \<and> (\<forall>n. n \<noteq> name \<longrightarrow> get_result r' n = get_result r n)"
  using assms
proof cases
  case (1 m1 m2 m3 duration now)
  have fresh: "mt_ops m2 = 0 \<and> mt_errors m2 = 0 \<and> mt_bytes m2 = 0 \<and> mt_latencies m2 = []"
    using 1(2) by (auto simp: new_metrics_def reset_metrics_def split: if_splits)
  have res: "br_TotalOps res = mt_ops m3 \<and> br_Errors res = mt_errors m3 \<and> br_TotalBytes res = mt_bytes m3
      \<and> br_Latencies res = mt_latencies m3"
    using 1(4) by (auto simp: calculate_result_def Let_def bind_simps split: if_splits)
  show ?thesis
    using run_workers_fresh [OF 1(3)] fresh res 1(1) by (simp add: get_result_def)
qed

theorem benchmark_counts_witness:
  "\<exists>r' res. run_benchmark ''query'' QueryOp \<lparr>bc_Duration = 60, bc_Concurrency = 1, bc_WarmUp = 0, bc_Target = [],
      bc_Operation = [], bc_PayloadSize = 0\<rparr> new_runner r' res
    \<and> br_Latencies res = [1000000] \<and> br_TotalOps res = i64 1 \<and> br_Errors res = 0"
proof -
  let ?cfg = "\<lparr>bc_Duration = 60, bc_Concurrency = 1, bc_WarmUp = 0, bc_Target = [],
      bc_Operation = [], bc_PayloadSize = 0\<rparr>"
  define m3 where "m3 = \<lparr>mt_ops = i64 1, mt_errors = 0, mt_bytes = i64 256, mt_latencies = [1000000]\<rparr>"
  let ?s = "worker_step QueryOp"
  define ma where "ma = new_metrics\<lparr>mt_ops := i64 1\<rparr>"
  define mb where "mb = ma\<lparr>mt_bytes := i64 256\<rparr>"
  note d = ma_def mb_def m3_def new_metrics_def
  have "?s (new_metrics, [AtSelect]) (new_metrics, [ToCount 0])"
    using worker_step.tick [of 0 "[AtSelect]" 0] by simp
  moreover have "?s (new_metrics, [ToCount 0]) (ma, [ToAddBytes 0])"
    using worker_step.count_op [of 0 "[ToCount 0]" 0 QueryOp new_metrics] by (simp add: d)
  moreover have "?s (ma, [ToAddBytes 0]) (mb, [ToRecord 0])"
    using worker_step.add_bytes [of 0 "[ToAddBytes 0]" 0 QueryOp ma] by (simp add: d)
  moreover have "?s (mb, [ToRecord 0]) (m3, [AtSelect])"
    using worker_step.record_latency [of 0 "[ToRecord 0]" 0 QueryOp 1000000 mb] by (simp add: d)
  moreover have "?s (m3, [AtSelect]) (m3, [Returned])"
    using worker_step.ctx_done [of 0 "[AtSelect]" QueryOp m3] by simp
  ultimately have "?s\<^sup>*\<^sup>* (new_metrics, [AtSelect]) (m3, [Returned])"
    by (meson converse_rtranclp_into_rtranclp rtranclp.rtrancl_refl)
  then have run: "run_workers QueryOp 1 new_metrics m3" by (simp add: run_workers_def)
  define p where "p = \<lparr>br_Name = ''query'', br_Duration = 60, br_TotalOps = i64 1, br_TotalBytes = i64 256, br_Errors = 0,
    br_Latencies = [1000000], br_Throughput = of_int64 (i64 1) / seconds 60,
    br_p50 = 1000000, br_p95 = 1000000, br_p99 = 1000000, br_Timestamp = epoch\<rparr>"
  have perc: "calculate_percentile [1000000] (Fin q) = Inr 1000000" if "0 \<le> q" "q \<le> 1" for q
    using percentile_spec [of "[1000000]" q] that percentile_index_bound [of 1 q] by simp
  have le: "0 \<le> p50" "0 \<le> p95" "0 \<le> p99" "p50 \<le> 1" "p95 \<le> 1" "p99 \<le> 1"
    using percentages by (blast intro: order_trans)+
  have "calculate_result ''query'' 60 epoch m3 = Inr p"
    unfolding calculate_result_def m3_def percentages using perc le by (simp add: p_def)
  then have r: "run_benchmark ''query'' QueryOp ?cfg new_runner
      (new_runner\<lparr>bn_results := (bn_results new_runner)(''query'' \<mapsto> p)\<rparr>) p"
    using run by (intro run_benchmark.intros [of _ _ m3 new_metrics m3]) simp_all
  have "br_Latencies p = [1000000]" by (simp add: p_def)
  with r show ?thesis using benchmark_counts [OF r] by (metis int_ops(2) length_Cons list.size(3) One_nat_def)
qed

end
