(* ===== verification/GoXml.thy ===== *)
theory GoXml
  imports GoUtf8
begin

text \<open>
  The package \<open>encoding/xml\<close> as the program uses it: the text \<open>MarshalIndent\<close> makes of elements
  with attributes and no character data, indented by two spaces, and a reader of such texts.
  Reading back what was written gives the tree, with the attribute values as XML can hold them.
\<close>

subsection \<open>Encoding\<close>

datatype xml = Elem string "(string \<times> string) list" "xml list"

text \<open>
  \<open>EscapeString\<close>, one character at a time: what XML cannot hold becomes a replacement character;
  of the characters beyond ASCII these are U+FFFE and U+FFFF (invalid bytes are replaced already).
\<close>

definition not_xml :: "string \<Rightarrow> bool" where
  "not_xml r \<longleftrightarrow> r = [CHR 0xEF, CHR 0xBF, CHR 0xBE] \<or> r = [CHR 0xEF, CHR 0xBF, CHR 0xBF]
     \<or> (\<exists>c. r = [c] \<and> (of_char c :: nat) < 32 \<and> c \<noteq> CHR 0x09 \<and> c \<noteq> CHR 0x0A \<and> c \<noteq> CHR 0x0D)"

definition xml_escape_rune :: "string \<Rightarrow> string" where
  "xml_escape_rune r =
     (if r = [CHR 0x22] then ''&#34;''
      else if r = [CHR 0x27] then ''&#39;''
      else if r = ''&'' then ''&amp;''
      else if r = ''<'' then ''&lt;''
      else if r = ''>'' then ''&gt;''
      else if r = [CHR 0x09] then ''&#x9;''
      else if r = [CHR 0x0A] then ''&#xA;''
      else if r = [CHR 0x0D] then ''&#xD;''
      else if not_xml r then rune_error
      else r)"

definition xml_escape :: "string \<Rightarrow> string" where
  "xml_escape s = concat (map xml_escape_rune (runes s))"

definition xml_attr :: "string \<times> string \<Rightarrow> string" where
  "xml_attr a = (case a of (k, v) \<Rightarrow> '' '' @ k @ ''='' @ quoted (xml_escape v))"

definition indent :: "nat \<Rightarrow> string" where
  "indent d = concat (replicate d ''  '')"

fun xml_text :: "nat \<Rightarrow> xml \<Rightarrow> string" where
  "xml_text d (Elem n as kids) =
     indent d @ ''<'' @ n @ concat (map xml_attr as) @ ''>'' @
     (if kids = [] then [] else concat (map (\<lambda>k. nl @ xml_text (Suc d) k) kids) @ nl @ indent d) @
     ''</'' @ n @ ''>''"

definition xml_header :: string where
  "xml_header = concat [''<?xml version='', dq, ''1.0'', dq, '' encoding='', dq, ''UTF-8'', dq, ''?>'', nl]"

subsection \<open>Reading\<close>

definition xml_ws :: "char \<Rightarrow> bool" where
  "xml_ws c \<longleftrightarrow> c \<in> {CHR '' '', CHR 0x09, CHR 0x0A, CHR 0x0D}"

definition name_char :: "char \<Rightarrow> bool" where
  "name_char c \<longleftrightarrow> (let n = of_char c :: nat in
     97 \<le> n \<and> n \<le> 122 \<or> 65 \<le> n \<and> n \<le> 90 \<or> 48 \<le> n \<and> n \<le> 57 \<or> c \<in> {CHR ''_'', CHR ''-'', CHR ''.'', CHR '':''})"

text \<open>The entities and character references of the encoder, and those of XML.\<close>

definition entity :: "string \<Rightarrow> string option" where
  "entity e =
     (if e = ''lt'' then Some ''<'' else if e = ''gt'' then Some ''>'' else if e = ''amp'' then Some ''&''
      else if e = ''quot'' \<or> e = ''#34'' then Some [CHR 0x22] else if e = ''apos'' \<or> e = ''#39'' then Some [CHR 0x27]
      else if e = ''#x9'' then Some [CHR 0x09] else if e = ''#xA'' then Some [CHR 0x0A] else if e = ''#xD'' then Some [CHR 0x0D]
      else None)"

function xml_unescape :: "string \<Rightarrow> string option" where
  "xml_unescape [] = Some []"
| "xml_unescape (c # cs) =
     (if c = CHR ''<'' then None
      else if c = CHR ''&'' then
        (case dropWhile (\<lambda>x. x \<noteq> CHR '';'') cs of [] \<Rightarrow> None
         | _ # r \<Rightarrow> (case entity (takeWhile (\<lambda>x. x \<noteq> CHR '';'') cs) of None \<Rightarrow> None
             | Some t \<Rightarrow> map_option ((@) t) (xml_unescape r)))
      else map_option ((#) c) (xml_unescape cs))"
  by pat_completeness auto

termination
proof (relation "measure length", simp, goal_cases)
  case (1 c cs x r t)
  then have "length (x # r) \<le> length cs" by (metis length_dropWhile_le)
  then show ?case by simp
qed simp

text \<open>
  Attributes up to the end of a tag, an element, and the elements up to an end tag. The number
  bounds the calls; each but the one for the first child reads a byte, so twice the length is enough.
\<close>

fun parse_attrs :: "nat \<Rightarrow> string \<Rightarrow> ((string \<times> string) list \<times> string) option" where
  "parse_attrs 0 s = None"
| "parse_attrs (Suc n) s =
     (let r = dropWhile xml_ws s; k = takeWhile name_char r; r1 = dropWhile name_char r
      in if k = [] then Some ([], r)
         else case r1 of e # q # r2 \<Rightarrow>
             (if e \<noteq> CHR ''='' \<or> q \<noteq> CHR 0x22 then None
              else case dropWhile (\<lambda>c. c \<noteq> CHR 0x22) r2 of [] \<Rightarrow> None
                | _ # r3 \<Rightarrow> (case xml_unescape (takeWhile (\<lambda>c. c \<noteq> CHR 0x22) r2) of None \<Rightarrow> None
                    | Some v \<Rightarrow> map_option (\<lambda>(as, t). ((k, v) # as, t)) (parse_attrs n r3)))
           | _ \<Rightarrow> None)"

fun parse_elem :: "nat \<Rightarrow> string \<Rightarrow> (xml \<times> string) option"
  and parse_kids :: "nat \<Rightarrow> string \<Rightarrow> (xml list \<times> string) option" where
  "parse_elem 0 s = None"
| "parse_elem (Suc n) s =
     (case dropWhile xml_ws s of [] \<Rightarrow> None
      | c # r \<Rightarrow>
          (let k = takeWhile name_char r
           in if c \<noteq> CHR ''<'' \<or> k = [] then None
              else case parse_attrs n (dropWhile name_char r) of None \<Rightarrow> None
                | Some (as, r1) \<Rightarrow>
                    (if prefix ''/>'' r1 then Some (Elem k as [], drop 2 r1)
                     else if \<not> prefix ''>'' r1 then None
                     else case parse_kids n (drop 1 r1) of None \<Rightarrow> None
                       | Some (ks, r2) \<Rightarrow> if prefix (''</'' @ k @ ''>'') r2 then Some (Elem k as ks, drop (length k + 3) r2) else None)))"
| "parse_kids 0 s = None"
| "parse_kids (Suc n) s =
     (let r = dropWhile xml_ws s
      in if prefix ''</'' r then Some ([], r)
         else case parse_elem n r of None \<Rightarrow> None
           | Some (k, r1) \<Rightarrow> map_option (\<lambda>(ks, t). (k # ks, t)) (parse_kids n r1))"

text \<open>A document: the header of the encoder, an element, and white space.\<close>

definition parse_xml :: "string \<Rightarrow> xml option" where
  "parse_xml s =
     (if \<not> prefix xml_header s then None
      else case parse_elem (2 * length s + 2) (drop (length xml_header) s) of
          Some (x, r) \<Rightarrow> (if dropWhile xml_ws r = [] then Some x else None)
        | None \<Rightarrow> None)"

subsection \<open>Attribute values\<close>

text \<open>What XML holds of a text.\<close>

definition xml_clean :: "string \<Rightarrow> string" where
  "xml_clean s = concat (map (\<lambda>r. if not_xml r then rune_error else r) (runes s))"

text \<open>Printable ASCII is held as it is.\<close>

lemma xml_clean_ascii: "list_all (\<lambda>c. 32 \<le> (of_char c :: nat) \<and> (of_char c :: nat) < 128) s \<Longrightarrow> xml_clean s = s"
proof -
  assume "list_all (\<lambda>c. 32 \<le> (of_char c :: nat) \<and> (of_char c :: nat) < 128) s"
  then have "runes s = map (\<lambda>c. [c]) s \<and> (\<forall>c \<in> set s. \<not> not_xml [c])"
    by (induction s) (auto simp: utf8_len_ascii not_xml_def)
  then show ?thesis by (auto simp: xml_clean_def o_def intro: map_idI cong: map_cong)
qed

lemma xml_clean_fmt_d: "xml_clean (fmt_d i) = fmt_d i"
proof (rule xml_clean_ascii)
  have "32 \<le> (of_char c :: nat) \<and> (of_char c :: nat) < 128" if "is_digit c" for c using that by (simp add: is_digit_def)
  then show "list_all (\<lambda>c. 32 \<le> (of_char c :: nat) \<and> (of_char c :: nat) < 128) (fmt_d i)"
    using nat_str_digits by (auto simp: fmt_d_def list_all_iff)
qed

lemma xml_unescape_plain:
  "list_all (\<lambda>c. c \<noteq> CHR ''<'' \<and> c \<noteq> CHR ''&'') r \<Longrightarrow> xml_unescape (r @ t) = map_option ((@) r) (xml_unescape t)"
  by (induction r; cases "xml_unescape t") auto

lemma rune_error_plain: "list_all (\<lambda>c. c \<noteq> CHR ''<'' \<and> c \<noteq> CHR ''&'' \<and> c \<noteq> CHR 0x22) rune_error"
  by (simp add: rune_error_def)

lemma xml_escape_special:
  assumes "r \<in> {[CHR 0x22], [CHR 0x27], ''&'', ''<'', ''>'', [CHR 0x09], [CHR 0x0A], [CHR 0x0D]}"
  shows "\<not> not_xml r" "xml_unescape (xml_escape_rune r @ t) = map_option ((@) r) (xml_unescape t)"
    "CHR 0x22 \<notin> set (xml_escape_rune r)" "CHR ''<'' \<notin> set (xml_escape_rune r)"
  using assms by (auto simp: not_xml_def xml_escape_rune_def entity_def)

lemma xml_escape_rune_reads:
  assumes "rune_ok r"
  shows "xml_unescape (xml_escape_rune r @ t) = map_option ((@) (if not_xml r then rune_error else r)) (xml_unescape t)
    \<and> CHR 0x22 \<notin> set (xml_escape_rune r) \<and> CHR ''<'' \<notin> set (xml_escape_rune r)"
proof (cases "r \<in> {[CHR 0x22], [CHR 0x27], ''&'', ''<'', ''>'', [CHR 0x09], [CHR 0x0A], [CHR 0x0D]}")
  case True
  then show ?thesis using xml_escape_special [OF True] by simp
next
  case False
  then have e: "xml_escape_rune r = (if not_xml r then rune_error else r)" by (simp add: xml_escape_rune_def)
  have "list_all (\<lambda>c. c \<noteq> CHR ''<'' \<and> c \<noteq> CHR ''&'' \<and> c \<noteq> CHR 0x22) r"
  proof (cases "\<exists>c. r = [c]")
    case True
    then show ?thesis using False by auto
  next
    case no: False
    then have "list_all (\<lambda>c. 128 \<le> (of_char c :: nat)) r" using assms by (auto simp: rune_ok_def)
    then show ?thesis by (rule list.pred_mono_strong) auto
  qed
  then have p: "list_all (\<lambda>c. c \<noteq> CHR ''<'' \<and> c \<noteq> CHR ''&'' \<and> c \<noteq> CHR 0x22) (if not_xml r then rune_error else r)"
    using rune_error_plain by simp
  have "xml_unescape ((if not_xml r then rune_error else r) @ t) = map_option ((@) (if not_xml r then rune_error else r)) (xml_unescape t)"
    by (rule xml_unescape_plain [OF list.pred_mono_strong [OF p]]) simp
  moreover have "CHR 0x22 \<notin> set (if not_xml r then rune_error else r) \<and> CHR ''<'' \<notin> set (if not_xml r then rune_error else r)" using p by (auto simp only: list_all_iff)
  ultimately show ?thesis unfolding e by blast
qed

lemma xml_escape_reads: "xml_unescape (xml_escape s) = Some (xml_clean s)" "CHR 0x22 \<notin> set (xml_escape s)" "CHR ''<'' \<notin> set (xml_escape s)"
proof -
  have "xml_unescape (concat (map xml_escape_rune rs)) = Some (concat (map (\<lambda>r. if not_xml r then rune_error else r) rs))
      \<and> CHR 0x22 \<notin> set (concat (map xml_escape_rune rs)) \<and> CHR ''<'' \<notin> set (concat (map xml_escape_rune rs))" if "\<forall>r \<in> set rs. rune_ok r" for rs
    using that by (induction rs) (simp_all add: xml_escape_rune_reads)
  from this [of "runes s"] runes_ok [of _ s]
  show "xml_unescape (xml_escape s) = Some (xml_clean s)" "CHR 0x22 \<notin> set (xml_escape s)" "CHR ''<'' \<notin> set (xml_escape s)"
    by (auto simp: xml_escape_def xml_clean_def)
qed

subsection \<open>Documents read back\<close>

fun names_ok :: "xml \<Rightarrow> bool" where
  "names_ok (Elem n as kids) \<longleftrightarrow> n \<noteq> [] \<and> list_all name_char n \<and> list_all (\<lambda>(k, _). k \<noteq> [] \<and> list_all name_char k) as \<and> list_all names_ok kids"

fun tree_held :: "xml \<Rightarrow> xml" where
  "tree_held (Elem n as kids) = Elem n (map (\<lambda>(k, v). (k, xml_clean v)) as) (map tree_held kids)"

lemma name_then:
  assumes "list_all name_char k" "\<not> name_char c"
  shows "takeWhile name_char (k @ c # r) = k" "dropWhile name_char (k @ c # r) = c # r"
  using assms by (induction k) auto

lemma quote_then:
  assumes "CHR 0x22 \<notin> set v"
  shows "takeWhile (\<lambda>c. c \<noteq> CHR 0x22) (v @ CHR 0x22 # r) = v" "dropWhile (\<lambda>c. c \<noteq> CHR 0x22) (v @ CHR 0x22 # r) = CHR 0x22 # r"
  using assms by (induction v) auto

lemma tag_chars: "\<not> name_char CHR ''>''" "\<not> name_char CHR ''=''" "\<not> name_char CHR '' ''" "\<not> xml_ws CHR ''>''" "xml_ws CHR '' ''"
    "\<not> xml_ws CHR ''<''" "\<not> name_char CHR ''<''"
  by (simp_all add: name_char_def xml_ws_def)

lemma parse_attrs_text:
  assumes "list_all (\<lambda>(k, _). k \<noteq> [] \<and> list_all name_char k) as" "length as < n"
  shows "parse_attrs n (concat (map xml_attr as) @ CHR ''>'' # r) = Some (map (\<lambda>(k, v). (k, xml_clean v)) as, CHR ''>'' # r)"
  using assms
proof (induction as arbitrary: n)
  case Nil
  then show ?case by (cases n) (simp_all add: tag_chars)
next
  case (Cons a as)
  obtain k v where a: "a = (k, v)" by (cases a)
  obtain m where m: "n = Suc m" "length as < m" using Cons.prems(2) by (cases n) auto
  obtain c cs where k: "k = c # cs" "name_char c" "list_all name_char k" using Cons.prems(1) by (cases k) (auto simp: a)
  then have "\<not> xml_ws c" by (auto simp: xml_ws_def name_char_def)
  then have "dropWhile xml_ws (CHR '' '' # k @ t) = k @ t" for t by (simp add: k tag_chars)
  then show ?case
    using m Cons name_then [OF k(3) tag_chars(2)] quote_then [OF xml_escape_reads(2) [of v]] k(1)
    by (simp add: a xml_attr_def quoted_def dq_def xml_escape_reads(1) Let_def)
qed

definition xml_reads :: "xml \<Rightarrow> bool" where
  "xml_reads x \<longleftrightarrow> (\<forall>d b w rest n. xml_text d x = indent d @ b \<longrightarrow> list_all xml_ws w \<longrightarrow> 2 * length b \<le> n \<longrightarrow>
     parse_elem n (w @ b @ rest) = Some (tree_held x, rest))"

lemma xml_ws_then: "list_all xml_ws w \<Longrightarrow> \<not> xml_ws c \<Longrightarrow> dropWhile xml_ws (w @ c # r) = c # r"
  by (induction w) auto

lemma indent_ws: "list_all xml_ws (indent d)" "list_all xml_ws nl"
  by (induction d) (simp_all add: indent_def nl_def xml_ws_def)

lemma xml_text_first: "\<exists>r. xml_text d (Elem n as kids) = indent d @ CHR ''<'' # n @ r"
  by simp

lemma drop_nl: "dropWhile xml_ws (nl @ s) = dropWhile xml_ws s"
  by (simp add: nl_def xml_ws_def)

text \<open>The children of an element, up to its end tag.\<close>

lemma parse_kids_text:
  assumes "\<forall>k \<in> set kids. xml_reads k \<and> names_ok k" "list_all xml_ws w"
    and "2 * length (concat (map (\<lambda>k. nl @ xml_text d k) kids)) + 1 \<le> n"
  shows "parse_kids n (concat (map (\<lambda>k. nl @ xml_text d k) kids) @ w @ ''</'' @ rest) = Some (map tree_held kids, ''</'' @ rest)"
  using assms
proof (induction kids arbitrary: n)
  case Nil
  then show ?case using xml_ws_then [OF Nil.prems(2) tag_chars(6)] by (cases n) simp_all
next
  case (Cons k kids)
  obtain m as ks where k: "k = Elem m as ks" by (cases k)
  obtain c cs where m: "m = c # cs" "name_char c" using Cons.prems(1) by (cases m) (auto simp: k)
  let ?tail = "concat (map (\<lambda>k. nl @ xml_text d k) kids) @ w @ ''</'' @ rest"
  obtain j where j: "n = Suc j" "2 * length (xml_text d k) \<le> j" "2 * length (concat (map (\<lambda>k. nl @ xml_text d k) kids)) + 1 \<le> j"
    using Cons.prems(3) by (cases n) (auto simp: nl_def simp del: xml_text.simps)
  obtain r where r: "xml_text d k = indent d @ CHR ''<'' # c # r" by (simp add: k m)
  have "dropWhile xml_ws (nl @ xml_text d k @ ?tail) = CHR ''<'' # c # r @ ?tail"
    unfolding drop_nl r using xml_ws_then [OF indent_ws(1) tag_chars(6)] by simp
  moreover have "c \<noteq> CHR ''/''" using m(2) by (auto simp: name_char_def)
  moreover have "parse_elem j (CHR ''<'' # c # r @ ?tail) = Some (tree_held k, ?tail)"
    using Cons.prems(1) r j(2) unfolding xml_reads_def
    by (elim ballE [of _ _ k] conjE allE [of _ d] allE [of _ "CHR ''<'' # c # r"] allE [of _ "[]"] allE [of _ ?tail] allE [of _ j]) simp_all
  moreover have "parse_kids j ?tail = Some (map tree_held kids, ''</'' @ rest)" using Cons j(3) by simp
  ultimately show ?case by (simp add: j(1) Let_def)
qed

lemma length_attrs: "length as \<le> length (concat (map xml_attr as))"
  by (induction as) (auto simp: xml_attr_def)

lemma parse_elem_text: "names_ok x \<Longrightarrow> xml_reads x"
proof (induction x)
  case (Elem n as kids)
  have names: "list_all name_char n" "n \<noteq> []" "list_all (\<lambda>(k, _). k \<noteq> [] \<and> list_all name_char k) as"
    "\<forall>k \<in> set kids. xml_reads k \<and> names_ok k"
    using Elem by (auto simp: list_all_iff)
  show ?case unfolding xml_reads_def
  proof (intro allI impI)
    fix d b w rest N
    assume x: "xml_text d (Elem n as kids) = indent d @ b" and w: "list_all xml_ws w" and N: "2 * length b \<le> N"
    let ?fin = "n @ CHR ''>'' # rest"
    define K where "K = concat (map (\<lambda>k. nl @ xml_text (Suc d) k) kids)"
    define V where "V = (if kids = [] then [] else nl @ indent d)"
    have V: "list_all xml_ws V" using indent_ws by (simp add: V_def)
    have b: "b = CHR ''<'' # n @ concat (map xml_attr as) @ CHR ''>'' # K @ V @ ''</'' @ n @ ''>''"
      using x by (auto simp: K_def V_def)
    obtain M where M: "N = Suc M" "length as < M" "2 * length K + 1 \<le> M"
      using N length_attrs [of as] by (cases N) (auto simp: b)
    obtain c cs where head: "concat (map xml_attr as) @ CHR ''>'' # t = c # cs @ t" "\<not> name_char c" for t
      by (cases as) (auto simp: xml_attr_def tag_chars split: prod.splits)
    have kids: "parse_kids M (K @ V @ ''</'' @ ?fin) = Some (map tree_held kids, ''</'' @ ?fin)"
      unfolding K_def by (rule parse_kids_text [OF names(4) V]) (use M(3) in \<open>simp add: K_def\<close>)
    have attrs: "parse_attrs M (concat (map xml_attr as) @ CHR ''>'' # K @ V @ ''</'' @ ?fin)
        = Some (map (\<lambda>(k, v). (k, xml_clean v)) as, CHR ''>'' # K @ V @ ''</'' @ ?fin)"
      by (rule parse_attrs_text [OF names(3) M(2)])
    have name: "takeWhile name_char (n @ concat (map xml_attr as) @ CHR ''>'' # t) = n"
      "dropWhile name_char (n @ concat (map xml_attr as) @ CHR ''>'' # t) = concat (map xml_attr as) @ CHR ''>'' # t" for t
      using name_then [OF names(1) head(2)] by (simp_all add: head(1))
    have "dropWhile xml_ws (w @ b @ rest) = CHR ''<'' # n @ concat (map xml_attr as) @ CHR ''>'' # K @ V @ ''</'' @ ?fin"
      using xml_ws_then [OF w tag_chars(6)] by (simp add: b)
    moreover have "drop (length n + 3) (''</'' @ ?fin) = rest" by (simp add: numeral_eq_Suc)
    ultimately show "parse_elem N (w @ b @ rest) = Some (tree_held (Elem n as kids), rest)"
      using names(2) attrs kids by (simp add: M(1) name Let_def)
  qed
qed

lemma xml_roundtrip:
  assumes "names_ok x" "list_all xml_ws w"
  shows "parse_xml (xml_header @ xml_text 0 x @ w) = Some (tree_held x)"
proof -
  have "xml_text 0 x = indent 0 @ xml_text 0 x" by (simp add: indent_def)
  then have "parse_elem N ([] @ xml_text 0 x @ w) = Some (tree_held x, w)" if "2 * length (xml_text 0 x) \<le> N" for N
    using parse_elem_text [OF assms(1)] that unfolding xml_reads_def by (metis list.pred_inject(1))
  moreover have "dropWhile xml_ws w = []" using assms(2) by (simp add: list_all_iff)
  ultimately show ?thesis by (simp add: parse_xml_def del: parse_elem.simps xml_text.simps)
qed

text \<open>Texts are handled by the lemmas from here on.\<close>

declare utf8_clean.simps(2) [simp del] runes.simps(2) [simp del] parse_elem.simps [simp del] xml_text.simps [simp del]

end
