(* ===== verification/Report.thy ===== *)
theory Report
  imports GoMarshal GoXml
begin

text \<open>
  The test reporter, \<^verbatim>\<open>pkg/report/reporter.go\<close>: the suite a \<open>Reporter\<close> accumulates, its
  statistics, and the JUnit, JSON and HTML reports.

  \<^item> The JUnit report is an XML tree, printed as \<open>xml.MarshalIndent\<close> prints the structures of
    the source: attributes in the order of the fields, absent pointers left out.
  \<^item> The JSON report is the text \<open>json.MarshalIndent\<close> makes of the structures of the source.
  \<^item> The HTML report is the text itself.
\<close>

subsection \<open>The suite\<close>

text \<open>\<open>TestStatus\<close> is an \<open>int\<close>: \<open>StatusOther\<close> are the values that are none of the constants.\<close>

datatype test_status = StatusPass | StatusFail | StatusSkip | StatusError | StatusOther int

fun status_string :: "test_status \<Rightarrow> string" where
  "status_string StatusPass = ''passed''"
| "status_string StatusFail = ''failed''"
| "status_string StatusSkip = ''skipped''"
| "status_string StatusError = ''error''"
| "status_string (StatusOther _) = ''unknown''"

record test_case =
  tc_Name :: string
  tc_ClassName :: string
  tc_Duration :: int
  tc_Status :: test_status
  tc_Message :: string
  tc_Details :: string
  tc_Timestamp :: go_time

record test_suite =
  ts_Name :: string
  ts_Tests :: "test_case list"
  ts_Duration :: int
  ts_Timestamp :: go_time
  ts_Properties :: "string \<rightharpoonup> string"

definition new_reporter :: "go_time \<Rightarrow> string \<Rightarrow> test_suite" where
  "new_reporter now name = \<lparr>ts_Name = name, ts_Tests = [], ts_Duration = 0, ts_Timestamp = now, ts_Properties = Map.empty\<rparr>"

definition add_test :: "go_time \<Rightarrow> string \<Rightarrow> string \<Rightarrow> int \<Rightarrow> test_status \<Rightarrow> string \<Rightarrow> test_suite \<Rightarrow> test_suite" where
  "add_test now name class duration status message r = r\<lparr>ts_Tests := ts_Tests r @
     [\<lparr>tc_Name = name, tc_ClassName = class, tc_Duration = duration, tc_Status = status,
       tc_Message = message, tc_Details = [], tc_Timestamp = now\<rparr>]\<rparr>"

definition add_pass :: "go_time \<Rightarrow> string \<Rightarrow> string \<Rightarrow> int \<Rightarrow> test_suite \<Rightarrow> test_suite" where
  "add_pass now name class duration = add_test now name class duration StatusPass []"

definition add_fail :: "go_time \<Rightarrow> string \<Rightarrow> string \<Rightarrow> int \<Rightarrow> string \<Rightarrow> test_suite \<Rightarrow> test_suite" where
  "add_fail now name class duration message = add_test now name class duration StatusFail message"

definition add_skip :: "go_time \<Rightarrow> string \<Rightarrow> string \<Rightarrow> string \<Rightarrow> test_suite \<Rightarrow> test_suite" where
  "add_skip now name class message = add_test now name class 0 StatusSkip message"

definition add_error :: "go_time \<Rightarrow> string \<Rightarrow> string \<Rightarrow> int \<Rightarrow> string \<Rightarrow> test_suite \<Rightarrow> test_suite" where
  "add_error now name class duration message = add_test now name class duration StatusError message"

definition set_property :: "string \<Rightarrow> string \<Rightarrow> test_suite \<Rightarrow> test_suite" where
  "set_property key value r = r\<lparr>ts_Properties := (ts_Properties r)(key \<mapsto> value)\<rparr>"

definition set_duration :: "int \<Rightarrow> test_suite \<Rightarrow> test_suite" where
  "set_duration d r = r\<lparr>ts_Duration := d\<rparr>"

subsection \<open>Statistics\<close>

record test_stats =
  tt_Total :: int
  tt_Passed :: int
  tt_Failed :: int
  tt_Skipped :: int
  tt_Errors :: int

definition stats_step :: "test_stats \<Rightarrow> test_case \<Rightarrow> test_stats" where
  "stats_step s t = (case tc_Status t of
     StatusPass \<Rightarrow> s\<lparr>tt_Passed := tt_Passed s + 1\<rparr>
   | StatusFail \<Rightarrow> s\<lparr>tt_Failed := tt_Failed s + 1\<rparr>
   | StatusSkip \<Rightarrow> s\<lparr>tt_Skipped := tt_Skipped s + 1\<rparr>
   | StatusError \<Rightarrow> s\<lparr>tt_Errors := tt_Errors s + 1\<rparr>
   | StatusOther _ \<Rightarrow> s)"

definition get_stats :: "test_suite \<Rightarrow> test_stats" where
  "get_stats r = foldl stats_step
     \<lparr>tt_Total = int (length (ts_Tests r)), tt_Passed = 0, tt_Failed = 0, tt_Skipped = 0, tt_Errors = 0\<rparr> (ts_Tests r)"

definition success_rate :: "test_stats \<Rightarrow> f64" where
  "success_rate s = (if tt_Total s = 0 then 0 else percent_of (tt_Passed s) (tt_Total s))"

definition format_duration :: "int \<Rightarrow> string" where
  "format_duration d = fmt_f 3 (seconds d)"

subsection \<open>The JUnit report\<close>

record junit_failure =
  jf_Message :: string
  jf_Type :: string

record junit_test_case =
  jt_Name :: string
  jt_ClassName :: string
  jt_Time :: string
  jt_Failure :: "junit_failure option"
  jt_Error :: "junit_failure option"
  jt_Skipped :: bool

record junit_test_suite =
  js_Name :: string
  js_Tests :: int
  js_Failures :: int
  js_Errors :: int
  js_Skipped :: int
  js_Time :: string
  js_Timestamp :: string
  js_Properties :: "(string \<times> string) list"
  js_TestCases :: "junit_test_case list"

record junit_test_suites =
  jss_Name :: string
  jss_Tests :: int
  jss_Failures :: int
  jss_Errors :: int
  jss_Suites :: "junit_test_suite list"

definition junit_case :: "test_case \<Rightarrow> junit_test_case" where
  "junit_case t =
     (let j = \<lparr>jt_Name = tc_Name t, jt_ClassName = tc_ClassName t, jt_Time = format_duration (tc_Duration t),
               jt_Failure = None, jt_Error = None, jt_Skipped = False\<rparr>
      in case tc_Status t of
           StatusFail \<Rightarrow> j\<lparr>jt_Failure := Some \<lparr>jf_Message = tc_Message t, jf_Type = ''AssertionError''\<rparr>\<rparr>
         | StatusError \<Rightarrow> j\<lparr>jt_Error := Some \<lparr>jf_Message = tc_Message t, jf_Type = ''Error''\<rparr>\<rparr>
         | StatusSkip \<Rightarrow> j\<lparr>jt_Skipped := True\<rparr>
         | _ \<Rightarrow> j)"

text \<open>The structures of the report; \<open>props\<close> are the properties in the order the map is ranged over.\<close>

definition junit_report :: "(string \<times> string) list \<Rightarrow> test_suite \<Rightarrow> junit_test_suites" where
  "junit_report props r =
     (let stats = get_stats r
      in \<lparr>jss_Name = ts_Name r, jss_Tests = tt_Total stats, jss_Failures = tt_Failed stats, jss_Errors = tt_Errors stats,
          jss_Suites =
            [\<lparr>js_Name = ts_Name r, js_Tests = tt_Total stats, js_Failures = tt_Failed stats, js_Errors = tt_Errors stats,
              js_Skipped = tt_Skipped stats, js_Time = format_duration (ts_Duration r),
              js_Timestamp = fmt_rfc3339 (ts_Timestamp r), js_Properties = props,
              js_TestCases = map junit_case (ts_Tests r)\<rparr>]\<rparr>)"

definition xml_of_failure :: "string \<Rightarrow> junit_failure \<Rightarrow> xml" where
  "xml_of_failure n f = Elem n [(''message'', jf_Message f), (''type'', jf_Type f)] []"

definition xml_of_case :: "junit_test_case \<Rightarrow> xml" where
  "xml_of_case j = Elem ''testcase'' [(''name'', jt_Name j), (''classname'', jt_ClassName j), (''time'', jt_Time j)]
     (map (xml_of_failure ''failure'') (case jt_Failure j of None \<Rightarrow> [] | Some f \<Rightarrow> [f]) @
      map (xml_of_failure ''error'') (case jt_Error j of None \<Rightarrow> [] | Some f \<Rightarrow> [f]) @
      (if jt_Skipped j then [Elem ''skipped'' [] []] else []))"

definition xml_of_suite :: "junit_test_suite \<Rightarrow> xml" where
  "xml_of_suite s = Elem ''testsuite''
     [(''name'', js_Name s), (''tests'', fmt_d (js_Tests s)), (''failures'', fmt_d (js_Failures s)),
      (''errors'', fmt_d (js_Errors s)), (''skipped'', fmt_d (js_Skipped s)), (''time'', js_Time s),
      (''timestamp'', js_Timestamp s)]
     (Elem ''properties'' [] (map (\<lambda>(k, v). Elem ''property'' [(''name'', k), (''value'', v)] []) (js_Properties s)) #
      map xml_of_case (js_TestCases s))"

definition xml_of_report :: "junit_test_suites \<Rightarrow> xml" where
  "xml_of_report o1 = Elem ''testsuites''
     [(''name'', jss_Name o1), (''tests'', fmt_d (jss_Tests o1)), (''failures'', fmt_d (jss_Failures o1)),
      (''errors'', fmt_d (jss_Errors o1))]
     (map xml_of_suite (jss_Suites o1))"

text \<open>The common part of the exports: the directory, then the file.\<close>

definition report_dir :: "os_answers \<Rightarrow> string \<Rightarrow> string option" where
  "report_dir os path =
     (let dir = path_dir path in
      map_option ((@) ''failed to create directory: '') (if dir \<noteq> [] \<and> dir \<noteq> ''.'' then os_mkdir os dir else None))"

definition write_report :: "os_answers \<Rightarrow> string \<Rightarrow> string \<Rightarrow> string \<Rightarrow> file_result" where
  "write_report os kind path content =
     (case write_file os path content of
        (Some e, f) \<Rightarrow> (Some (''failed to write '' @ kind @ '' report: '' @ e), f)
      | (None, f) \<Rightarrow> (None, f))"

definition export_report :: "os_answers \<Rightarrow> string \<Rightarrow> string \<Rightarrow> string \<Rightarrow> file_result" where
  "export_report os kind path content =
     (case report_dir os path of Some e \<Rightarrow> (Some e, None) | None \<Rightarrow> write_report os kind path content)"

definition export_junit :: "os_answers \<Rightarrow> (string \<times> string) list \<Rightarrow> string \<Rightarrow> test_suite \<Rightarrow> file_result" where
  "export_junit os props path r =
     export_report os ''junit'' path (xml_header @ xml_text 0 (xml_of_report (junit_report props r)) @ nl)"

subsection \<open>The JSON report\<close>

definition json_test :: "test_case \<Rightarrow> json" where
  "json_test t = JObj
     ([(''name'', JStr (tc_Name t)), (''class_name'', JStr (tc_ClassName t)),
       (''status'', JStr (status_string (tc_Status t))), (''duration_seconds'', JFloat (seconds (tc_Duration t)))] @
      (if tc_Message t = [] then [] else [(''message'', JStr (tc_Message t))]) @
      [(''timestamp'', JStr (fmt_rfc3339 (tc_Timestamp t)))])"

definition json_suite :: "test_suite \<Rightarrow> json" where
  "json_suite r = JObj [(''name'', JStr (ts_Name r)), (''timestamp'', JStr (fmt_rfc3339 (ts_Timestamp r))),
     (''duration_seconds'', JFloat (seconds (ts_Duration r))), (''properties'', json_map (ts_Properties r))]"

definition json_stats :: "test_stats \<Rightarrow> json" where
  "json_stats stats = JObj [(''total'', JInt (tt_Total stats)), (''passed'', JInt (tt_Passed stats)),
     (''failed'', JInt (tt_Failed stats)), (''skipped'', JInt (tt_Skipped stats)),
     (''errors'', JInt (tt_Errors stats)), (''success_rate_percent'', JFloat (success_rate stats))]"

definition json_report :: "test_suite \<Rightarrow> json" where
  "json_report r = JObj [(''suite'', json_suite r), (''statistics'', json_stats (get_stats r)),
     (''tests'', JArr (map json_test (ts_Tests r)))]"

definition export_json :: "os_answers \<Rightarrow> string \<Rightarrow> test_suite \<Rightarrow> file_result" where
  "export_json os path r =
     (case report_dir os path of
        Some e \<Rightarrow> (Some e, None)
      | None \<Rightarrow> (case marshal_indent (json_report r) of
            Inl e \<Rightarrow> (Some (''failed to marshal json: '' @ e), None)
          | Inr s \<Rightarrow> write_report os ''json'' path (s @ nl)))"

subsection \<open>The HTML report\<close>

definition html_head :: "string \<Rightarrow> test_stats \<Rightarrow> string" where
  "html_head name stats =
     concat [''<!DOCTYPE html>'', nl, ''<html>'', nl, ''<head>'', nl, ''    <meta charset='', dq,
        ''UTF-8'', dq, ''>'', nl, ''    <title>Test Report: '', name, ''</title>'', nl,
        ''    <style>'', nl,
        ''        body { font-family: -apple-system, BlinkMacSystemFont, 'Segoe UI', Roboto, sans-serif; margin: 40px; background: #f5f5f5; }'',
        nl,
        ''        .container { max-width: 1200px; margin: 0 auto; background: white; padding: 30px; border-radius: 8px; box-shadow: 0 2px 4px rgba(0,0,0,0.1); }'',
        nl, ''        h1 { color: #333; margin-bottom: 10px; }'', nl,
        ''        .subtitle { color: #666; margin-bottom: 30px; }'', nl,
        ''        .summary { display: grid; grid-template-columns: repeat(5, 1fr); gap: 15px; margin-bottom: 30px; }'',
        nl, ''        .stat-box { padding: 20px; border-radius: 8px; text-align: center; }'', nl,
        ''        .stat-box.total { background: #e3f2fd; }'', nl,
        ''        .stat-box.passed { background: #e8f5e9; }'', nl,
        ''        .stat-box.failed { background: #ffebee; }'', nl,
        ''        .stat-box.skipped { background: #fff3e0; }'', nl,
        ''        .stat-box.errors { background: #fce4ec; }'', nl,
        ''        .stat-number { font-size: 32px; font-weight: bold; display: block; }'', nl,
        ''        .stat-label { font-size: 14px; color: #666; text-transform: uppercase; }'', nl,
        ''        .test-list { margin-top: 30px; }'', nl,
        ''        .test-item { padding: 15px; margin-bottom: 10px; border-radius: 6px; display: flex; justify-content: space-between; align-items: center; }'',
        nl, ''        .test-item.passed { background: #e8f5e9; border-left: 4px solid #4caf50; }'',
        nl, ''        .test-item.failed { background: #ffebee; border-left: 4px solid #f44336; }'',
        nl, ''        .test-item.skipped { background: #fff3e0; border-left: 4px solid #ff9800; }'',
        nl, ''        .test-item.error { background: #fce4ec; border-left: 4px solid #e91e63; }'',
        nl, ''        .test-name { font-weight: 500; }'', nl,
        ''        .test-class { color: #666; font-size: 12px; }'', nl,
        ''        .test-duration { color: #999; font-size: 12px; }'', nl,
        ''        .status-badge { padding: 4px 12px; border-radius: 12px; font-size: 12px; font-weight: 500; text-transform: uppercase; }'',
        nl, ''        .status-badge.passed { background: #4caf50; color: white; }'', nl,
        ''        .status-badge.failed { background: #f44336; color: white; }'', nl,
        ''        .status-badge.skipped { background: #ff9800; color: white; }'', nl,
        ''        .status-badge.error { background: #e91e63; color: white; }'', nl,
        ''        .test-message { margin-top: 10px; padding: 10px; background: rgba(0,0,0,0.05); border-radius: 4px; font-family: monospace; font-size: 12px; }'',
        nl,
        ''        .progress-bar { height: 8px; background: #e0e0e0; border-radius: 4px; margin-top: 20px; overflow: hidden; }'',
        nl, ''        .progress-fill { height: 100%; background: #4caf50; border-radius: 4px; }'',
        nl, ''        .timestamp { color: #999; font-size: 12px; margin-top: 20px; }'', nl,
        ''    </style>'', nl, ''</head>'', nl, ''<body>'', nl, ''    <div class='', dq,
        ''container'', dq, ''>'', nl, ''        <h1>Test Report</h1>'', nl, ''        <div class='',
        dq, ''subtitle'', dq, ''>'', name, ''</div>'', nl, ''        '', nl, ''        <div class='',
        dq, ''summary'', dq, ''>'', nl, ''            <div class='', dq, ''stat-box total'', dq,
        ''>'', nl, ''                <span class='', dq, ''stat-number'', dq, ''>'',
        fmt_d (tt_Total stats), ''</span>'', nl, ''                <span class='', dq,
        ''stat-label'', dq, ''>Total</span>'', nl, ''            </div>'', nl,
        ''            <div class='', dq, ''stat-box passed'', dq, ''>'', nl,
        ''                <span class='', dq, ''stat-number'', dq, ''>'', fmt_d (tt_Passed stats),
        ''</span>'', nl, ''                <span class='', dq, ''stat-label'', dq,
        ''>Passed</span>'', nl, ''            </div>'', nl, ''            <div class='', dq,
        ''stat-box failed'', dq, ''>'', nl, ''                <span class='', dq, ''stat-number'',
        dq, ''>'', fmt_d (tt_Failed stats), ''</span>'', nl, ''                <span class='', dq,
        ''stat-label'', dq, ''>Failed</span>'', nl, ''            </div>'', nl,
        ''            <div class='', dq, ''stat-box skipped'', dq, ''>'', nl,
        ''                <span class='', dq, ''stat-number'', dq, ''>'', fmt_d (tt_Skipped stats),
        ''</span>'', nl, ''                <span class='', dq, ''stat-label'', dq,
        ''>Skipped</span>'', nl, ''            </div>'', nl, ''            <div class='', dq,
        ''stat-box errors'', dq, ''>'', nl, ''                <span class='', dq, ''stat-number'',
        dq, ''>'', fmt_d (tt_Errors stats), ''</span>'', nl, ''                <span class='', dq,
        ''stat-label'', dq, ''>Errors</span>'', nl, ''            </div>'', nl, ''        </div>'',
        nl, ''        '', nl, ''        <div class='', dq, ''progress-bar'', dq, ''>'', nl,
        ''            <div class='', dq, ''progress-fill'', dq, '' style='', dq, ''width: '',
        fmt_f 1 (success_rate stats), ''%;'', dq, ''></div>'', nl, ''        </div>'', nl,
        ''        '', nl, ''        <div class='', dq, ''test-list'', dq, ''>'', nl,
        ''            <h2>Test Results</h2>'', nl]"

definition html_test :: "test_case \<Rightarrow> string" where
  "html_test t =
     (let status = status_string (tc_Status t)
      in concat [''            <div class='', dq, ''test-item '', status, dq, ''>'', nl,
        ''                <div>'', nl, ''                    <div class='', dq, ''test-name'', dq,
        ''>'', tc_Name t, ''</div>'', nl, ''                    <div class='', dq, ''test-class'',
        dq, ''>'', tc_ClassName t, ''</div>'', nl, ''                </div>'', nl,
        ''                <div style='', dq, ''text-align: right;'', dq, ''>'', nl,
        ''                    <span class='', dq, ''status-badge '', status, dq, ''>'', status,
        ''</span>'', nl, ''                    <div class='', dq, ''test-duration'', dq, ''>'',
        fmt_f 3 (seconds (tc_Duration t)), ''s</div>'', nl, ''                </div>'', nl,
        ''            </div>'', nl] @
        (if tc_Message t = [] then []
         else concat [''            <div class='', dq, ''test-message'', dq, ''>'', tc_Message t, ''</div>'',
        nl]))"

definition html_foot :: "test_suite \<Rightarrow> string" where
  "html_foot r =
     concat [''        </div>'', nl, ''        '', nl, ''        <div class='', dq, ''timestamp'',
        dq, ''>'', nl, ''            Generated: '', fmt_rfc3339 (ts_Timestamp r), ''<br>'', nl,
        ''            Duration: '', fmt_f 3 (seconds (ts_Duration r)), '' seconds'', nl,
        ''        </div>'', nl, ''    </div>'', nl, ''</body>'', nl, ''</html>'']"

definition generate_html_report :: "test_suite \<Rightarrow> test_stats \<Rightarrow> string" where
  "generate_html_report r stats = html_head (ts_Name r) stats @ concat (map html_test (ts_Tests r)) @ html_foot r"

definition export_html :: "os_answers \<Rightarrow> string \<Rightarrow> test_suite \<Rightarrow> file_result" where
  "export_html os path r = export_report os ''html'' path (generate_html_report r (get_stats r))"

subsection \<open>Lemmas\<close>

text \<open>The statistics loop counts each status, in the sense of the counting contract.\<close>

interpretation passed: counter stats_step tt_Passed "\<lambda>t. tc_Status t = StatusPass"
  by unfold_locales (simp add: stats_step_def split: test_status.splits)

interpretation failed: counter stats_step tt_Failed "\<lambda>t. tc_Status t = StatusFail"
  by unfold_locales (simp add: stats_step_def split: test_status.splits)

interpretation skipped: counter stats_step tt_Skipped "\<lambda>t. tc_Status t = StatusSkip"
  by unfold_locales (simp add: stats_step_def split: test_status.splits)

interpretation errors: counter stats_step tt_Errors "\<lambda>t. tc_Status t = StatusError"
  by unfold_locales (simp add: stats_step_def split: test_status.splits)

abbreviation count_status :: "test_status \<Rightarrow> test_suite \<Rightarrow> int" where
  "count_status st r \<equiv> int (length (filter (\<lambda>t. tc_Status t = st) (ts_Tests r)))"

lemma stats_total [simp]: "tt_Total (foldl stats_step s ts) = tt_Total s"
  by (induction ts arbitrary: s) (auto simp: stats_step_def split: test_status.splits)

lemma get_stats_counts:
  "tt_Total (get_stats r) = int (length (ts_Tests r))" "tt_Passed (get_stats r) = count_status StatusPass r"
  "tt_Failed (get_stats r) = count_status StatusFail r" "tt_Skipped (get_stats r) = count_status StatusSkip r"
  "tt_Errors (get_stats r) = count_status StatusError r"
  by (simp_all add: get_stats_def passed.cnt_foldl failed.cnt_foldl skipped.cnt_foldl errors.cnt_foldl)

definition known_status :: "test_suite \<Rightarrow> bool" where
  "known_status r \<longleftrightarrow> (\<forall>t \<in> set (ts_Tests r). tc_Status t \<in> {StatusPass, StatusFail, StatusSkip, StatusError})"

lemma status_partition:
  "\<forall>t \<in> set ts. tc_Status t \<in> {StatusPass, StatusFail, StatusSkip, StatusError} \<Longrightarrow>
    length ts = length (filter (\<lambda>t. tc_Status t = StatusPass) ts) + length (filter (\<lambda>t. tc_Status t = StatusFail) ts)
      + length (filter (\<lambda>t. tc_Status t = StatusSkip) ts) + length (filter (\<lambda>t. tc_Status t = StatusError) ts)"
  by (induction ts) auto

lemma length_filter_all: "length (filter P xs) = length xs \<longleftrightarrow> (\<forall>x \<in> set xs. P x)"
proof (induction xs)
  case (Cons x xs)
  then show ?case using length_filter_le [of P xs] by (simp del: length_filter_le)
qed simp

lemma success_rate_bounds:
  assumes "length (ts_Tests r) \<le> 2 ^ 53"
  shows "0 \<le> success_rate (get_stats r) \<and> success_rate (get_stats r) \<le> Fin 100
    \<and> (ts_Tests r \<noteq> [] \<longrightarrow> (success_rate (get_stats r) = Fin 100 \<longleftrightarrow> (\<forall>t \<in> set (ts_Tests r). tc_Status t = StatusPass)))"
proof (cases "ts_Tests r = []")
  case True
  then show ?thesis by (simp add: success_rate_def get_stats_counts f64_defs)
next
  case False
  let ?p = "length (filter (\<lambda>t. tc_Status t = StatusPass) (ts_Tests r))"
  have le: "int ?p \<le> int (length (ts_Tests r))" by simp
  obtain q where q: "percent_of (int ?p) (int (length (ts_Tests r))) = Fin q" "0 \<le> q" "q \<le> 100"
    "q = 100 \<longleftrightarrow> int ?p = int (length (ts_Tests r))"
    using percent_of_part [OF _ le] False assms by auto
  have "?p = length (ts_Tests r) \<longleftrightarrow> (\<forall>t \<in> set (ts_Tests r). tc_Status t = StatusPass)"
    by (rule length_filter_all)
  then show ?thesis using q False by (simp add: success_rate_def get_stats_counts f64_defs)
qed

text \<open>Where the tags of a text are: the number of opening angle brackets.\<close>

abbreviation angles :: "string \<Rightarrow> nat" where
  "angles s \<equiv> length (filter (\<lambda>c. c = CHR ''<'') s)"

fun xml_size :: "xml \<Rightarrow> nat" where
  "xml_size (Elem n as kids) = 1 + sum_list (map xml_size kids)"

lemma filter_absent: "c \<notin> set s \<Longrightarrow> filter (\<lambda>x. x = c) s = []"
  by (induction s) auto

lemma angles_concat: "angles (concat ss) = sum_list (map angles ss)"
  by (induction ss) auto

lemma angles_nl [simp]: "angles nl = 0"
  by (simp add: nl_def)

lemma angles_indent [simp]: "angles (indent d) = 0"
  by (induction d) (auto simp: indent_def)

lemma name_char_lt: "list_all name_char s \<Longrightarrow> CHR ''<'' \<notin> set s"
  using tag_chars(7) by (auto simp: list_all_iff)

lemma angles_attrs: "list_all (\<lambda>(k, _). k \<noteq> [] \<and> list_all name_char k) as \<Longrightarrow> angles (concat (map xml_attr as)) = 0"
proof (induction as)
  case (Cons a as)
  then show ?case
    by (cases a) (simp add: xml_attr_def quoted_def dq_def filter_absent xml_escape_reads(3) name_char_lt)
qed simp

text \<open>Whatever the attribute values are, the text has two tags per element of the tree.\<close>

lemma xml_text_angles: "names_ok x \<Longrightarrow> angles (xml_text d x) = 2 * xml_size x"
proof (induction d x rule: xml_text.induct)
  case (1 d n as kids)
  have "\<forall>k \<in> set kids. angles (xml_text (Suc d) k) = 2 * xml_size k"
    using 1 by (metis empty_iff list.set(1) list_all_iff names_ok.simps)
  then have "(\<Sum>k \<leftarrow> kids. angles (nl @ xml_text (Suc d) k)) = (\<Sum>k \<leftarrow> kids. 2 * xml_size k)"
    by (intro arg_cong [of _ _ sum_list] map_cong) simp_all
  then have "angles (concat (map (\<lambda>k. nl @ xml_text (Suc d) k) kids)) = (\<Sum>k \<leftarrow> kids. 2 * xml_size k)"
    unfolding angles_concat by (simp add: comp_def)
  moreover have "(\<Sum>k \<leftarrow> kids. 2 * xml_size k) = 2 * (\<Sum>k \<leftarrow> kids. xml_size k)"
    by (simp add: sum_list_const_mult)
  ultimately show ?case
    using 1(2) by (simp add: xml_text.simps angles_attrs filter_absent name_char_lt nl_def del: filter_concat)
qed

lemma sum_list_xml_cases:
  "(\<Sum>t \<leftarrow> ts. xml_size (xml_of_case (junit_case t))) =
     length ts + length (filter (\<lambda>t. tc_Status t = StatusFail) ts) + length (filter (\<lambda>t. tc_Status t = StatusError) ts)
       + length (filter (\<lambda>t. tc_Status t = StatusSkip) ts)"
proof (induction ts)
  case (Cons t ts)
  then show ?case
    by (cases "tc_Status t") (simp_all add: xml_of_case_def junit_case_def Let_def xml_of_failure_def)
qed simp

lemma xml_of_report_names: "names_ok (xml_of_report (junit_report props r))"
  by (auto simp: name_char_def list_all_iff xml_of_report_def junit_report_def Let_def xml_of_suite_def xml_of_case_def xml_of_failure_def
      split: option.splits)

lemma sum_list_ones: "(\<Sum>x \<leftarrow> xs. Suc 0) = length xs"
  by (induction xs) auto

lemma contains_append: "contains s t \<Longrightarrow> contains (a @ s @ b) t"
  by (auto simp: contains_iff) (metis append.assoc)

lemma contains_concat: "s \<in> set ss \<Longrightarrow> contains (concat ss) s"
  unfolding contains_iff by (metis concat.simps(2) concat_append split_list)

lemma contains_trans: "contains a b \<Longrightarrow> contains b c \<Longrightarrow> contains a c"
  unfolding contains_iff by (metis append.assoc)

text \<open>What a reader finds in the JSON report.\<close>

lemma is_f64_report [simp]: "is_f64 (seconds d)" "is_f64 (success_rate s)"
  by (simp_all add: seconds_def success_rate_def)

definition int64_durations :: "test_suite \<Rightarrow> bool" where
  "int64_durations r \<longleftrightarrow> \<bar>ts_Duration r\<bar> \<le> 2 ^ 63 \<and> (\<forall>t \<in> set (ts_Tests r). \<bar>tc_Duration t\<bar> \<le> 2 ^ 63)"

definition test_read :: "test_case \<Rightarrow> jtree \<Rightarrow> bool" where
  "test_read t v \<longleftrightarrow> (\<exists>ms l. v = TObj ms \<and> map_of ms ''name'' = Some (TStr (utf8_clean (tc_Name t)))
     \<and> map_of ms ''class_name'' = Some (TStr (utf8_clean (tc_ClassName t)))
     \<and> map_of ms ''status'' = Some (TStr (status_string (tc_Status t)))
     \<and> map_of ms ''duration_seconds'' = Some (TNum l) \<and> parse_float64 l = seconds (tc_Duration t)
     \<and> map_of ms ''message'' = (if tc_Message t = [] then None else Some (TStr (utf8_clean (tc_Message t)))))"

lemma clean_names:
  "utf8_clean ''name'' = ''name''" "utf8_clean ''class_name'' = ''class_name''" "utf8_clean ''status'' = ''status''"
  "utf8_clean ''duration_seconds'' = ''duration_seconds''" "utf8_clean ''message'' = ''message''" "utf8_clean ''timestamp'' = ''timestamp''"
  "utf8_clean ''suite'' = ''suite''" "utf8_clean ''statistics'' = ''statistics''" "utf8_clean ''tests'' = ''tests''"
  "utf8_clean ''properties'' = ''properties''" "utf8_clean ''total'' = ''total''" "utf8_clean ''passed'' = ''passed''"
  "utf8_clean ''failed'' = ''failed''" "utf8_clean ''skipped'' = ''skipped''" "utf8_clean ''errors'' = ''errors''"
  "utf8_clean ''success_rate_percent'' = ''success_rate_percent''" "utf8_clean (status_string s) = status_string s"
  by (simp_all add: utf8_clean_ascii) (cases s; simp add: utf8_clean_ascii)

lemma json_test_tree:
  assumes "\<bar>tc_Duration t\<bar> \<le> 2 ^ 63"
  shows "\<exists>v. to_tree (json_test t) = Inr v \<and> test_read t (tree_clean v)"
proof -
  obtain q where "seconds (tc_Duration t) = Fin q" using seconds_finite [OF assms] by blast
  then obtain l where "json_float (seconds (tc_Duration t)) = Inr l" "parse_float64 l = seconds (tc_Duration t)"
    by (rule number_written) simp
  then show ?thesis by (simp add: json_test_def test_read_def clean_names)
qed


lemma success_rate_finite:
  assumes "length (ts_Tests r) \<le> 2 ^ 53"
  obtains q where "success_rate (get_stats r) = Fin q"
  using success_rate_bounds [OF assms] f64_between [of 0 "success_rate (get_stats r)" 100] by (auto simp: zero_f64_def)

definition report_read :: "test_suite \<Rightarrow> jtree \<Rightarrow> bool" where
  "report_read r v \<longleftrightarrow> (\<exists>suite stats tests d s. v = TObj [(''suite'', TObj suite), (''statistics'', TObj stats), (''tests'', TArr tests)]
     \<and> map_of suite ''name'' = Some (TStr (utf8_clean (ts_Name r)))
     \<and> map_of suite ''duration_seconds'' = Some (TNum d) \<and> parse_float64 d = seconds (ts_Duration r)
     \<and> map_of suite ''properties'' = Some (TObj (map (\<lambda>(k, w). (utf8_clean k, TStr (utf8_clean w))) (sorted_members (ts_Properties r))))
     \<and> map_of stats ''total'' = Some (TNum (fmt_d (int (length (ts_Tests r)))))
     \<and> map_of stats ''passed'' = Some (TNum (fmt_d (tt_Passed (get_stats r))))
     \<and> map_of stats ''failed'' = Some (TNum (fmt_d (tt_Failed (get_stats r))))
     \<and> map_of stats ''skipped'' = Some (TNum (fmt_d (tt_Skipped (get_stats r))))
     \<and> map_of stats ''errors'' = Some (TNum (fmt_d (tt_Errors (get_stats r))))
     \<and> map_of stats ''success_rate_percent'' = Some (TNum s) \<and> parse_float64 s = success_rate (get_stats r)
     \<and> list_all2 test_read (ts_Tests r) tests)"

lemma json_report_tree:
  assumes "int64_durations r" "length (ts_Tests r) \<le> 2 ^ 53"
  shows "\<exists>v. to_tree (json_report r) = Inr v \<and> report_read r (tree_clean v)"
proof -
  obtain d where d: "json_float (seconds (ts_Duration r)) = Inr d" "parse_float64 d = seconds (ts_Duration r)"
    by (rule seconds_finite [of "ts_Duration r"])
      (use assms(1) in \<open>simp add: int64_durations_def\<close>, erule number_written, simp, blast)
  obtain s where s: "json_float (success_rate (get_stats r)) = Inr s" "parse_float64 s = success_rate (get_stats r)"
    by (rule success_rate_finite [OF assms(2)], erule number_written, simp, blast)
  have "\<forall>t \<in> set (ts_Tests r). \<exists>v. to_tree (json_test t) = Inr v \<and> test_read t (tree_clean v)"
    using assms(1) json_test_tree by (auto simp: int64_durations_def)
  then obtain g where g: "\<forall>t \<in> set (ts_Tests r). to_tree (json_test t) = Inr (g t) \<and> test_read t (tree_clean (g t))" by metis
  then have "map_sum_list to_tree (map json_test (ts_Tests r)) = Inr (map g (ts_Tests r))"
    by (auto simp: map_sum_list_Inr list_all2_conv_all_nth)
  moreover have "list_all2 test_read (ts_Tests r) (map tree_clean (map g (ts_Tests r)))"
    using g by (auto simp: list_all2_conv_all_nth)
  ultimately show ?thesis using d s
    by (simp add: json_report_def json_suite_def json_stats_def report_read_def Let_def clean_names get_stats_def o_def apsnd_def map_prod_def case_prod_unfold)
qed

subsection \<open>Properties\<close>

text \<open>
  The statistics of a suite count its tests by status; when every status is one of the four
  constants they add up to the total, and the success rate is a percentage that is 100
  exactly when all tests passed.
\<close>
theorem stats_exact:
  assumes "known_status r" "length (ts_Tests r) \<le> 2 ^ 53"
  shows "tt_Total (get_stats r) = tt_Passed (get_stats r) + tt_Failed (get_stats r) + tt_Skipped (get_stats r) + tt_Errors (get_stats r)
    \<and> tt_Failed (get_stats r) = int (length (filter (\<lambda>t. tc_Status t = StatusFail) (ts_Tests r)))
    \<and> 0 \<le> success_rate (get_stats r) \<and> success_rate (get_stats r) \<le> Fin 100
    \<and> (ts_Tests r \<noteq> [] \<longrightarrow> (success_rate (get_stats r) = Fin 100 \<longleftrightarrow> (\<forall>t \<in> set (ts_Tests r). tc_Status t = StatusPass)))"
  using success_rate_bounds [OF assms(2)] status_partition [of "ts_Tests r"] assms(1)
  by (simp add: get_stats_counts known_status_def)

theorem stats_exact_witness:
  "tt_Total (get_stats (add_fail epoch ''t2'' ''c'' 5 ''boom'' (add_pass epoch ''t1'' ''c'' 5 (new_reporter epoch ''s'')))) =
     1 + 1 + 0 + 0"
  using stats_exact [of "add_fail epoch ''t2'' ''c'' 5 ''boom'' (add_pass epoch ''t1'' ''c'' 5 (new_reporter epoch ''s''))"]
  by (simp add: get_stats_counts known_status_def add_fail_def add_pass_def add_test_def new_reporter_def)

text \<open>
  The JUnit report is well formed whatever names, messages and property values it carries:
  the text has exactly two tags for each element, and the elements are the two suite
  levels, the properties, one case per test and one child per failed, erroneous or skipped
  test, in agreement with the counts in the attributes.
\<close>
theorem junit_well_formed:
  "let s = get_stats r; x = xml_of_report (junit_report props r) in
     length (filter (\<lambda>c. c = CHR ''<'') (xml_text 0 x)) = 2 * xml_size x
     \<and> int (xml_size x) = 3 + int (length props) + tt_Total s + tt_Failed s + tt_Errors s + tt_Skipped s"
proof -
  have p: "(\<Sum>(k, v) \<leftarrow> props. xml_size (Elem ''property'' [(''name'', k), (''value'', v)] [])) = length props"
    by (induction props) auto
  have size: "int (xml_size (xml_of_report (junit_report props r))) =
      3 + int (length props) + tt_Total (get_stats r) + tt_Failed (get_stats r) + tt_Errors (get_stats r) + tt_Skipped (get_stats r)"
    using p by (simp add: Let_def xml_of_report_def junit_report_def xml_of_suite_def comp_def case_prod_unfold
        sum_list_xml_cases get_stats_counts)
  have tags: "angles (xml_text 0 (xml_of_report (junit_report props r))) = 2 * xml_size (xml_of_report (junit_report props r))"
    by (rule xml_text_angles [OF xml_of_report_names])
  show ?thesis unfolding Let_def using size tags by blast
qed

text \<open>How a reader finds a test case: its name and class, and one child that says why it did not pass.\<close>

definition case_read :: "test_case \<Rightarrow> xml \<Rightarrow> bool" where
  "case_read t x \<longleftrightarrow> (\<exists>as kids. x = Elem ''testcase'' as kids
     \<and> map_of as ''name'' = Some (xml_clean (tc_Name t)) \<and> map_of as ''classname'' = Some (xml_clean (tc_ClassName t))
     \<and> kids = (case tc_Status t of
          StatusFail \<Rightarrow> [Elem ''failure'' [(''message'', xml_clean (tc_Message t)), (''type'', xml_clean ''AssertionError'')] []]
        | StatusError \<Rightarrow> [Elem ''error'' [(''message'', xml_clean (tc_Message t)), (''type'', xml_clean ''Error'')] []]
        | StatusSkip \<Rightarrow> [Elem ''skipped'' [] []]
        | _ \<Rightarrow> []))"

lemma case_read_held: "case_read t (tree_held (xml_of_case (junit_case t)))"
  by (cases "tc_Status t") (simp_all add: case_read_def xml_of_case_def junit_case_def xml_of_failure_def Let_def)

lemma export_report_willing: "willing os \<Longrightarrow> export_report os kind path s = (None, Some (path, s))"
  by (simp add: willing_def export_report_def report_dir_def write_report_def write_file_def Let_def)

text \<open>The text of the JUnit report and what a reader finds in it.\<close>

lemma junit_text:
  "\<exists>s as bs props' cases. export_junit os props path r = export_report os ''junit'' path s
     \<and> parse_xml s = Some (Elem ''testsuites'' as [Elem ''testsuite'' bs (Elem ''properties'' [] props' # cases)])
     \<and> map_of bs ''name'' = Some (xml_clean (ts_Name r)) \<and> map_of bs ''tests'' = Some (xml_clean (fmt_d (int (length (ts_Tests r)))))
     \<and> map_of bs ''failures'' = Some (xml_clean (fmt_d (tt_Failed (get_stats r))))
     \<and> map_of bs ''errors'' = Some (xml_clean (fmt_d (tt_Errors (get_stats r))))
     \<and> map_of bs ''skipped'' = Some (xml_clean (fmt_d (tt_Skipped (get_stats r))))
     \<and> props' = map (\<lambda>(k, v). Elem ''property'' [(''name'', xml_clean k), (''value'', xml_clean v)] []) props
     \<and> list_all2 case_read (ts_Tests r) cases"
proof -
  let ?x = "xml_of_report (junit_report props r)"
  have "parse_xml (xml_header @ xml_text 0 ?x @ nl) = Some (tree_held ?x)"
    by (rule xml_roundtrip [OF xml_of_report_names indent_ws(2)])
  moreover have "list_all2 case_read (ts_Tests r) (map (tree_held \<circ> xml_of_case \<circ> junit_case) (ts_Tests r))"
    using case_read_held by (simp add: list_all2_conv_all_nth)
  ultimately show ?thesis
    by (intro exI [of _ "xml_header @ xml_text 0 ?x @ nl"])
      (auto simp: export_junit_def xml_of_report_def junit_report_def xml_of_suite_def Let_def get_stats_counts o_def)
qed

text \<open>
  C33. The JUnit report is XML whatever names, messages and property values it carries: unless the
  system refuses the directory or the file, the file reads back as the suite with its counts, its
  properties, and one case per test, with the message of a failure or an error; only characters XML
  cannot hold are replaced.
\<close>
theorem junit_reads_back:
  "\<exists>s as bs props' cases. export_junit os props path r = export_report os ''junit'' path s
     \<and> parse_xml s = Some (Elem ''testsuites'' as [Elem ''testsuite'' bs (Elem ''properties'' [] props' # cases)])
     \<and> map_of bs ''name'' = Some (xml_clean (ts_Name r)) \<and> map_of bs ''tests'' = Some (xml_clean (fmt_d (int (length (ts_Tests r)))))
     \<and> map_of bs ''failures'' = Some (xml_clean (fmt_d (tt_Failed (get_stats r))))
     \<and> map_of bs ''errors'' = Some (xml_clean (fmt_d (tt_Errors (get_stats r))))
     \<and> map_of bs ''skipped'' = Some (xml_clean (fmt_d (tt_Skipped (get_stats r))))
     \<and> props' = map (\<lambda>(k, v). Elem ''property'' [(''name'', xml_clean k), (''value'', xml_clean v)] []) props
     \<and> list_all2 case_read (ts_Tests r) cases"
  by (rule junit_text)

text \<open>
  The HTML report, in contrast, carries names and messages verbatim: markup in a test name is
  markup of the report.
\<close>
theorem html_report_unescaped:
  assumes "t \<in> set (ts_Tests r)"
  shows "contains (generate_html_report r stats) (tc_Name t) \<and> contains (generate_html_report r stats) (tc_Message t)"
proof -
  have mem: "contains (generate_html_report r stats) (html_test t)"
    unfolding generate_html_report_def using assms by (intro contains_append contains_concat) simp
  have name: "contains (html_test t) (tc_Name t)"
    unfolding html_test_def Let_def by (rule contains_append [of _ _ "[]", simplified append_Nil], rule contains_concat) simp
  have "contains (html_test t) (tc_Message t)"
  proof (cases "tc_Message t = []")
    case True
    then show ?thesis unfolding contains_iff by (intro exI [of _ "[]"] exI [of _ "html_test t"]) simp
  next
    case False
    then have "html_test t = (let status = status_string (tc_Status t) in concat [''            <div class='', dq, ''test-item '', status, dq, ''>'', nl,
        ''                <div>'', nl, ''                    <div class='', dq, ''test-name'', dq,
        ''>'', tc_Name t, ''</div>'', nl, ''                    <div class='', dq, ''test-class'',
        dq, ''>'', tc_ClassName t, ''</div>'', nl, ''                </div>'', nl,
        ''                <div style='', dq, ''text-align: right;'', dq, ''>'', nl,
        ''                    <span class='', dq, ''status-badge '', status, dq, ''>'', status,
        ''</span>'', nl, ''                    <div class='', dq, ''test-duration'', dq, ''>'',
        fmt_f 3 (seconds (tc_Duration t)), ''s</div>'', nl, ''                </div>'', nl,
        ''            </div>'', nl] @ concat [''            <div class='', dq, ''test-message'', dq, ''>'', tc_Message t, ''</div>'',
        nl] @ [])"
      by (simp add: html_test_def Let_def)
    then show ?thesis unfolding Let_def by (metis contains_append contains_concat list.set_intros)
  qed
  with name mem show ?thesis by (meson contains_trans)
qed

lemma json_text:
  assumes "int64_durations r" "length (ts_Tests r) \<le> 2 ^ 53"
  shows "\<exists>s v. export_json os path r = export_report os ''json'' path s \<and> parse_json s = Some v \<and> report_read r v"
proof -
  obtain v where v: "to_tree (json_report r) = Inr v" "report_read r (tree_clean v)" using json_report_tree [OF assms] by blast
  have ok: "json_ok (json_report r)" by (simp add: json_report_def json_suite_def json_stats_def json_test_def list_all_iff)
  obtain s where s: "marshal_indent (json_report r) = Inr s" using v(1) by (simp add: marshal_indent_def)
  have "ws_text nl" by (simp add: nl_def json_ws_def)
  from marshal_reads(2) [OF ok this s] have "parse_json (s @ nl) = Some (tree_clean v)" using v(1) by auto
  moreover have "export_json os path r = export_report os ''json'' path (s @ nl)"
    by (cases "report_dir os path") (simp_all add: export_json_def export_report_def s)
  ultimately show ?thesis using v(2) by blast
qed

text \<open>
  C34. The JSON report can be read: unless the system refuses the directory or the file, the file is
  JSON text, and reading it gives back the suite: its name, its properties in the order of
  their keys, the statistics, and one object per test with its names, status and message
  (in clean UTF-8), and the durations and the success rate as the very same floats.
\<close>
theorem json_report_reads_back:
  assumes "int64_durations r" "length (ts_Tests r) \<le> 2 ^ 53"
  shows "\<exists>s v. export_json os path r = export_report os ''json'' path s \<and> parse_json s = Some v \<and> report_read r v"
  using assms by (rule json_text)

definition sample_suite :: test_suite where
  "sample_suite = \<lparr>ts_Name = ''suite'', ts_Tests = [\<lparr>tc_Name = ''a <b>'', tc_ClassName = ''c'', tc_Duration = 1500000000,
     tc_Status = StatusFail, tc_Message = ''broken'', tc_Details = [], tc_Timestamp = epoch\<rparr>], ts_Duration = 2000000000,
     ts_Timestamp = epoch, ts_Properties = [''go'' \<mapsto> ''1.21'']\<rparr>"

theorem json_report_reads_back_witness:
  "\<exists>s v. export_json \<lparr>os_mkdir = (\<lambda>_. None), os_write = (\<lambda>_. None)\<rparr> ''r.json'' sample_suite = (None, Some (''r.json'', s))
     \<and> parse_json s = Some v \<and> report_read sample_suite v"
  using json_report_reads_back [of sample_suite "\<lparr>os_mkdir = (\<lambda>_. None), os_write = (\<lambda>_. None)\<rparr>" "''r.json''"]
  by (auto simp: sample_suite_def int64_durations_def export_report_def report_dir_def write_report_def write_file_def Let_def)

end
