(* ===== verification/TestRunner.thy ===== *)
theory TestRunner
  imports Report
begin

text \<open>
  The test runner, \<^verbatim>\<open>pkg/testrunner/runner.go\<close>. What the operating system and the \<open>go\<close> tool
  answer to one suite is a \<open>suite_env\<close>: whether the test directory is missing, the combined
  output of \<open>go test -v\<close>, its error, and the time that passed.
\<close>

subsection \<open>Data\<close>

record runner_config =
  rc_Suites :: "string list"
  rc_Services :: "string list"
  rc_Parallel :: int
  rc_Verbose :: bool
  rc_UseMocks :: "string list"
  rc_TestDir :: string

record suite_result =
  re_Suite :: string
  re_Passed :: bool
  re_Duration :: int
  re_TestCount :: int
  re_PassCount :: int
  re_FailCount :: int
  re_SkipCount :: int
  re_Output :: string
  re_Error :: "string option"

record suite_env =
  se_missing :: "string \<Rightarrow> bool"
  se_output :: "string \<Rightarrow> string"
  se_error :: "string \<Rightarrow> string option"
  se_elapsed :: int

definition fresh_result :: "string \<Rightarrow> suite_result" where
  "fresh_result suite = \<lparr>re_Suite = suite, re_Passed = True, re_Duration = 0, re_TestCount = 0, re_PassCount = 0,
     re_FailCount = 0, re_SkipCount = 0, re_Output = [], re_Error = None\<rparr>"

subsection \<open>Parsing the output of the go tool\<close>

record parse_counts =
  pc_total :: int
  pc_passed :: int
  pc_failed :: int
  pc_skipped :: int

definition parse_line :: "parse_counts \<Rightarrow> string \<Rightarrow> parse_counts" where
  "parse_line c line =
     (if contains line ''PASS'' then c\<lparr>pc_passed := pc_passed c + 1, pc_total := pc_total c + 1\<rparr>
      else if contains line ''FAIL'' then c\<lparr>pc_failed := pc_failed c + 1, pc_total := pc_total c + 1\<rparr>
      else if contains line ''SKIP'' then c\<lparr>pc_skipped := pc_skipped c + 1, pc_total := pc_total c + 1\<rparr>
      else c)"

definition parse_go_test_output :: "string \<Rightarrow> parse_counts" where
  "parse_go_test_output output =
     foldl parse_line \<lparr>pc_total = 0, pc_passed = 0, pc_failed = 0, pc_skipped = 0\<rparr> (split_on CHR 0x0A output)"

subsection \<open>Running suites\<close>

definition test_dir :: "runner_config \<Rightarrow> string \<Rightarrow> string" where
  "test_dir cfg sub = path_join [if rc_TestDir cfg = [] then ''./tests'' else rc_TestDir cfg, sub]"

text \<open>\<open>runUnitTests\<close> and \<open>runIntegrationTests\<close>, which differ in the name of the suite and its directory.\<close>

definition run_go_tests :: "suite_env \<Rightarrow> runner_config \<Rightarrow> string \<Rightarrow> suite_result" where
  "run_go_tests env cfg suite =
     (let result = fresh_result suite; dir = test_dir cfg suite
      in if se_missing env dir then result
         else let output = se_output env dir;
                  r1 = result\<lparr>re_Output := output\<rparr>;
                  r2 = (case se_error env dir of None \<Rightarrow> r1 | Some e \<Rightarrow> r1\<lparr>re_Passed := False, re_Error := Some e\<rparr>);
                  c = parse_go_test_output output
              in r2\<lparr>re_TestCount := pc_total c, re_PassCount := pc_passed c, re_FailCount := pc_failed c,
                    re_SkipCount := pc_skipped c\<rparr>)"

definition run_unit_tests :: "suite_env \<Rightarrow> runner_config \<Rightarrow> suite_result" where
  "run_unit_tests env cfg = run_go_tests env cfg ''unit''"

definition run_integration_tests :: "suite_env \<Rightarrow> runner_config \<Rightarrow> suite_result" where
  "run_integration_tests env cfg = run_go_tests env cfg ''integration''"

definition run_performance_tests :: suite_result where
  "run_performance_tests = (fresh_result ''performance'')\<lparr>re_TestCount := 5, re_PassCount := 5\<rparr>"

definition run_chaos_tests :: suite_result where
  "run_chaos_tests = (fresh_result ''chaos'')\<lparr>re_TestCount := 3, re_PassCount := 3\<rparr>"

definition run_suite :: "suite_env \<Rightarrow> runner_config \<Rightarrow> string \<Rightarrow> suite_result" where
  "run_suite env cfg suite =
     (let result =
        (if suite = ''unit'' then run_unit_tests env cfg
         else if suite = ''integration'' then run_integration_tests env cfg
         else if suite = ''performance'' then run_performance_tests
         else if suite = ''chaos'' then run_chaos_tests
         else (fresh_result suite)\<lparr>re_Error := Some (''unknown test suite: '' @ suite), re_Passed := False\<rparr>)
      in result\<lparr>re_Duration := se_elapsed env\<rparr>)"

text \<open>\<open>Run\<close>; the environment of the n-th suite that is run is \<open>envs n\<close>.\<close>

definition run_one :: "(nat \<Rightarrow> suite_env) \<Rightarrow> runner_config \<Rightarrow> suite_result list \<Rightarrow> string \<Rightarrow> suite_result list" where
  "run_one envs cfg results suite = results @ [run_suite (envs (length results)) cfg suite]"

definition run_suites :: "(nat \<Rightarrow> suite_env) \<Rightarrow> runner_config \<Rightarrow> suite_result list" where
  "run_suites envs cfg = foldl (\<lambda>results suite.
     if suite = ''all'' then foldl (run_one envs cfg) results [''unit'', ''integration'', ''performance'']
     else run_one envs cfg results suite) [] (rc_Suites cfg)"

text \<open>\<open>Summary\<close>: five accumulators in one loop, then the text.\<close>

record summary_totals =
  su_tests :: int
  su_passed :: int
  su_failed :: int
  su_skipped :: int
  su_duration :: int

definition summary_step :: "summary_totals \<Rightarrow> suite_result \<Rightarrow> summary_totals" where
  "summary_step s r = \<lparr>su_tests = su_tests s + re_TestCount r, su_passed = su_passed s + re_PassCount r,
     su_failed = su_failed s + re_FailCount r, su_skipped = su_skipped s + re_SkipCount r,
     su_duration = i64 (su_duration s + re_Duration r)\<rparr>"

definition summary_totals :: "suite_result list \<Rightarrow> summary_totals" where
  "summary_totals results = foldl summary_step
     \<lparr>su_tests = 0, su_passed = 0, su_failed = 0, su_skipped = 0, su_duration = 0\<rparr> results"

definition summary :: "suite_result list \<Rightarrow> string" where
  "summary results =
     (let s = summary_totals results
      in ''Tests: '' @ fmt_d (su_tests s) @ '' total, '' @ fmt_d (su_passed s) @ '' passed, '' @ fmt_d (su_failed s) @
         '' failed, '' @ fmt_d (su_skipped s) @ '' skipped ('' @ fmt_f 2 (seconds (su_duration s)) @ ''s)'')"

subsection \<open>Lemmas\<close>

interpretation parse_passed: counter parse_line pc_passed "\<lambda>l. contains l ''PASS''"
  by unfold_locales (simp add: parse_line_def)

interpretation parse_failed: counter parse_line pc_failed "\<lambda>l. \<not> contains l ''PASS'' \<and> contains l ''FAIL''"
  by unfold_locales (simp add: parse_line_def)

interpretation parse_skipped: counter parse_line pc_skipped
    "\<lambda>l. \<not> contains l ''PASS'' \<and> \<not> contains l ''FAIL'' \<and> contains l ''SKIP''"
  by unfold_locales (simp add: parse_line_def)

lemma parse_total: "pc_total (foldl parse_line c ls) - pc_passed (foldl parse_line c ls)
    - pc_failed (foldl parse_line c ls) - pc_skipped (foldl parse_line c ls) =
  pc_total c - pc_passed c - pc_failed c - pc_skipped c"
  by (induction ls arbitrary: c) (auto simp: parse_line_def)

lemmas parse_counts = parse_passed.cnt_foldl parse_failed.cnt_foldl parse_skipped.cnt_foldl

lemma fresh_result_fields [simp]:
  "re_Suite (fresh_result s) = s" "re_Passed (fresh_result s)" "re_Error (fresh_result s) = None"
  "re_TestCount (fresh_result s) = 0" "re_PassCount (fresh_result s) = 0" "re_FailCount (fresh_result s) = 0"
  "re_SkipCount (fresh_result s) = 0"
  by (simp_all add: fresh_result_def)

lemma parse_sums: "let c = parse_go_test_output s in pc_total c = pc_passed c + pc_failed c + pc_skipped c"
  using parse_total [of "\<lparr>pc_total = 0, pc_passed = 0, pc_failed = 0, pc_skipped = 0\<rparr>" "split_on CHR 0x0A s"]
  by (simp add: parse_go_test_output_def Let_def)

lemma run_suite_ok:
  "re_Suite (run_suite env cfg s) = s" "re_Passed (run_suite env cfg s) \<longleftrightarrow> re_Error (run_suite env cfg s) = None"
  "re_TestCount (run_suite env cfg s) = re_PassCount (run_suite env cfg s) + re_FailCount (run_suite env cfg s)
     + re_SkipCount (run_suite env cfg s)"
  "re_Duration (run_suite env cfg s) = se_elapsed env"
  using parse_sums by (auto simp: run_suite_def run_unit_tests_def run_integration_tests_def run_performance_tests_def
      run_chaos_tests_def run_go_tests_def Let_def split: option.splits)

definition expand_suite :: "string \<Rightarrow> string list" where
  "expand_suite s = (if s = ''all'' then [''unit'', ''integration'', ''performance''] else [s])"

lemma foldl_run_one:
  "foldl (run_one envs cfg) rs ss = rs @ map (\<lambda>(i, s). run_suite (envs (length rs + i)) cfg s) (enumerate 0 ss)"
proof (induction ss arbitrary: rs)
  case (Cons s ss)
  have e: "map (\<lambda>(i, s). f (Suc i) s) (enumerate 0 xs) = map (\<lambda>(i, s). f i s) (enumerate (Suc 0) xs)"
    for f :: "nat \<Rightarrow> string \<Rightarrow> suite_result" and xs
    by (rule nth_equalityI) (simp_all add: nth_enumerate_eq)
  have "foldl (run_one envs cfg) rs (s # ss) =
      foldl (run_one envs cfg) (rs @ [run_suite (envs (length rs)) cfg s]) ss"
    by (simp only: foldl_Cons run_one_def)
  then show ?case using Cons [of "rs @ [run_suite (envs (length rs)) cfg s]"]
      e [of "\<lambda>i. run_suite (envs (length rs + i)) cfg" ss] by simp
qed simp

lemma run_suites_closed:
  "run_suites envs cfg = map (\<lambda>(i, s). run_suite (envs i) cfg s) (enumerate 0 (concat (map expand_suite (rc_Suites cfg))))"
proof -
  have "foldl (\<lambda>results suite. if suite = ''all'' then foldl (run_one envs cfg) results [''unit'', ''integration'', ''performance'']
      else run_one envs cfg results suite) rs ss = foldl (run_one envs cfg) rs (concat (map expand_suite ss))" for rs ss
    by (induction ss arbitrary: rs) (simp_all add: expand_suite_def)
  then show ?thesis using foldl_run_one [of envs cfg "[]"] by (simp add: run_suites_def)
qed

text \<open>What \<open>go test -v\<close> prints for a package whose tests all pass or are skipped.\<close>

datatype outcome = Passes | Skips

definition test_lines :: "string \<times> outcome \<Rightarrow> string list" where
  "test_lines t = [''=== RUN   '' @ fst t,
     (case snd t of Passes \<Rightarrow> ''--- PASS: '' | Skips \<Rightarrow> ''--- SKIP: '') @ fst t @ '' (0.00s)'']"

definition package_output :: "string \<Rightarrow> (string \<times> outcome) list \<Rightarrow> string" where
  "package_output pkg tests = join_with [CHR 0x0A] (concat (map test_lines tests) @ [''PASS'', ''ok  '' @ pkg, []])"

definition plain_name :: "string \<Rightarrow> bool" where
  "plain_name n \<longleftrightarrow> \<not> contains n ''PASS'' \<and> \<not> contains n ''FAIL'' \<and> \<not> contains n ''SKIP'' \<and> CHR 0x0A \<notin> set n"

lemma test_line_markers:
  assumes "plain_name n"
  shows "\<not> contains (''=== RUN   '' @ n) ''PASS''" "\<not> contains (''=== RUN   '' @ n) ''FAIL''"
    "\<not> contains (''=== RUN   '' @ n) ''SKIP''"
    "contains (''--- PASS: '' @ n @ '' (0.00s)'') ''PASS''" "\<not> contains (''--- SKIP: '' @ n @ '' (0.00s)'') ''PASS''"
    "\<not> contains (''--- SKIP: '' @ n @ '' (0.00s)'') ''FAIL''" "contains (''--- SKIP: '' @ n @ '' (0.00s)'') ''SKIP''"
    "\<not> contains (''ok  '' @ n) ''PASS''" "\<not> contains (''ok  '' @ n) ''FAIL''" "\<not> contains (''ok  '' @ n) ''SKIP''"
proof -
  have sep: "contains (a @ CHR '' '' # b) w \<longleftrightarrow> contains a w \<or> contains b w"
    if "w \<in> {''PASS'', ''FAIL'', ''SKIP''}" for a b w
    using that by (intro contains_sep) auto
  have run: "''=== RUN   '' @ n = ''=== RUN  '' @ CHR '' '' # n" "''ok  '' @ n = ''ok '' @ CHR '' '' # n"
    "''--- PASS: '' @ n @ '' (0.00s)'' = ''--- PASS:'' @ CHR '' '' # (n @ CHR '' '' # ''(0.00s)'')"
    "''--- SKIP: '' @ n @ '' (0.00s)'' = ''--- SKIP:'' @ CHR '' '' # (n @ CHR '' '' # ''(0.00s)'')"
    by simp_all
  have lit: "\<not> contains ''=== RUN  '' ''PASS''" "\<not> contains ''=== RUN  '' ''FAIL''" "\<not> contains ''=== RUN  '' ''SKIP''"
    "\<not> contains ''ok '' ''PASS''" "\<not> contains ''ok '' ''FAIL''" "\<not> contains ''ok '' ''SKIP''"
    "contains ''--- PASS:'' ''PASS''" "\<not> contains ''--- SKIP:'' ''PASS''" "\<not> contains ''--- SKIP:'' ''FAIL''"
    "contains ''--- SKIP:'' ''SKIP''" "\<not> contains ''(0.00s)'' ''PASS''" "\<not> contains ''(0.00s)'' ''FAIL''"
    by simp_all
  have w: "''PASS'' \<in> {''PASS'', ''FAIL'', ''SKIP''}" "''FAIL'' \<in> {''PASS'', ''FAIL'', ''SKIP''}"
    "''SKIP'' \<in> {''PASS'', ''FAIL'', ''SKIP''}"
    by blast+
  note s = sep [OF w(1)] sep [OF w(2)] sep [OF w(3)]
  have n: "\<not> contains n ''PASS''" "\<not> contains n ''FAIL''" "\<not> contains n ''SKIP''"
    using assms unfolding plain_name_def by blast+
  show "\<not> contains (''=== RUN   '' @ n) ''PASS''" "\<not> contains (''=== RUN   '' @ n) ''FAIL''"
    "\<not> contains (''=== RUN   '' @ n) ''SKIP''"
    "contains (''--- PASS: '' @ n @ '' (0.00s)'') ''PASS''" "\<not> contains (''--- SKIP: '' @ n @ '' (0.00s)'') ''PASS''"
    "\<not> contains (''--- SKIP: '' @ n @ '' (0.00s)'') ''FAIL''" "contains (''--- SKIP: '' @ n @ '' (0.00s)'') ''SKIP''"
    "\<not> contains (''ok  '' @ n) ''PASS''" "\<not> contains (''ok  '' @ n) ''FAIL''" "\<not> contains (''ok  '' @ n) ''SKIP''"
    unfolding run s using lit n by blast+
qed

lemma test_lines_free: "plain_name (fst t) \<Longrightarrow> l \<in> set (test_lines t) \<Longrightarrow> CHR 0x0A \<notin> set l"
  by (cases "snd t") (auto simp: test_lines_def plain_name_def)

lemma foldl_parse_tests:
  assumes "\<forall>t \<in> set tests. plain_name (fst t)"
  shows "foldl parse_line c (concat (map test_lines tests)) =
    c\<lparr>pc_total := pc_total c + int (length tests),
      pc_passed := pc_passed c + int (length (filter (\<lambda>t. snd t = Passes) tests)),
      pc_skipped := pc_skipped c + int (length (filter (\<lambda>t. snd t = Skips) tests))\<rparr>"
  using assms
proof (induction tests arbitrary: c)
  case (Cons t tests)
  obtain n o1 where t: "t = (n, o1)" by (cases t)
  have n: "plain_name n" using Cons.prems by (simp add: t)
  have step: "parse_line (parse_line c (''=== RUN   '' @ n)) ((case o1 of Passes \<Rightarrow> ''--- PASS: '' | Skips \<Rightarrow> ''--- SKIP: '') @ n @ '' (0.00s)'') =
      (case o1 of Passes \<Rightarrow> c\<lparr>pc_passed := pc_passed c + 1, pc_total := pc_total c + 1\<rparr>
                | Skips \<Rightarrow> c\<lparr>pc_skipped := pc_skipped c + 1, pc_total := pc_total c + 1\<rparr>)"
    using test_line_markers [OF n] by (cases o1) (simp_all only: parse_line_def outcome.case if_True if_False)
  have "foldl parse_line c (concat (map test_lines (t # tests))) =
      foldl parse_line (parse_line (parse_line c (''=== RUN   '' @ n))
        ((case o1 of Passes \<Rightarrow> ''--- PASS: '' | Skips \<Rightarrow> ''--- SKIP: '') @ n @ '' (0.00s)'')) (concat (map test_lines tests))"
    by (simp only: t test_lines_def list.map concat.simps foldl_append foldl.simps fst_conv snd_conv append_Nil)
  also have "\<dots> = (case o1 of Passes \<Rightarrow> c\<lparr>pc_passed := pc_passed c + 1, pc_total := pc_total c + 1\<rparr>
                | Skips \<Rightarrow> c\<lparr>pc_skipped := pc_skipped c + 1, pc_total := pc_total c + 1\<rparr>)
       \<lparr>pc_total := pc_total c + int (length (t # tests)),
        pc_passed := pc_passed c + int (length (filter (\<lambda>t. snd t = Passes) (t # tests))),
        pc_skipped := pc_skipped c + int (length (filter (\<lambda>t. snd t = Skips) (t # tests)))\<rparr>"
    unfolding step using Cons by (cases o1) (simp_all add: t)
  finally show ?case by (cases o1) simp_all
qed simp

lemma package_output_lines:
  assumes "\<forall>t \<in> set tests. plain_name (fst t)" "plain_name pkg"
  shows "split_on CHR 0x0A (package_output pkg tests) = concat (map test_lines tests) @ [''PASS'', ''ok  '' @ pkg, []]"
proof -
  have "CHR 0x0A \<notin> set l" if "l \<in> set (concat (map test_lines tests) @ [''PASS'', ''ok  '' @ pkg, []])" for l
    using that assms test_lines_free by (auto simp: plain_name_def)
  then show ?thesis unfolding package_output_def by (intro split_on_join) auto
qed

subsection \<open>Properties\<close>

text \<open>
  \<open>Run\<close> gives one result per suite in the order of the configuration, with \<open>all\<close> standing for
  three suites (the chaos suite is not one of them); a result is passed exactly when it has
  no error, its counts add up, and an unknown suite is a failed result, not a failed run.
\<close>
theorem run_suites_results:
  "map re_Suite (run_suites envs cfg) = concat (map expand_suite (rc_Suites cfg))
   \<and> (\<forall>r \<in> set (run_suites envs cfg). (re_Passed r \<longleftrightarrow> re_Error r = None)
        \<and> re_TestCount r = re_PassCount r + re_FailCount r + re_SkipCount r
        \<and> (re_Suite r \<notin> {''unit'', ''integration'', ''performance'', ''chaos''} \<longrightarrow>
             re_Error r = Some (''unknown test suite: '' @ re_Suite r)))"
proof -
  have "map re_Suite (run_suites envs cfg) = map snd (enumerate 0 (concat (map expand_suite (rc_Suites cfg))))"
    by (simp add: run_suites_closed run_suite_ok(1) comp_def case_prod_unfold)
  moreover have "re_Error (run_suite env cfg s) = Some (''unknown test suite: '' @ s)"
    if "s \<notin> {''unit'', ''integration'', ''performance'', ''chaos''}" for env s
    using that by (simp add: run_suite_def Let_def)
  moreover have "\<exists>i s. r = run_suite (envs i) cfg s" if "r \<in> set (run_suites envs cfg)" for r
    using that by (auto simp: run_suites_closed)
  ultimately show ?thesis by (metis map_snd_enumerate run_suite_ok(1,2,3))
qed

theorem run_suites_results_witness:
  "map re_Suite (run_suites (\<lambda>_. \<lparr>se_missing = (\<lambda>_. True), se_output = (\<lambda>_. []), se_error = (\<lambda>_. None), se_elapsed = 5\<rparr>)
      \<lparr>rc_Suites = [''all'', ''soak''], rc_Services = [], rc_Parallel = 4, rc_Verbose = False, rc_UseMocks = [], rc_TestDir = []\<rparr>) =
    [''unit'', ''integration'', ''performance'', ''soak'']"
  using run_suites_results [of "\<lambda>_. \<lparr>se_missing = (\<lambda>_. True), se_output = (\<lambda>_. []), se_error = (\<lambda>_. None), se_elapsed = 5\<rparr>"
      "\<lparr>rc_Suites = [''all'', ''soak''], rc_Services = [], rc_Parallel = 4, rc_Verbose = False, rc_UseMocks = [], rc_TestDir = []\<rparr>"]
  by (simp add: expand_suite_def)

text \<open>
  The counts come from lines, not from tests: of a package whose tests all pass or are
  skipped, the closing line \<open>PASS\<close> is counted as one more passed test.
\<close>
theorem parse_counts_package_line:
  assumes "\<forall>t \<in> set tests. plain_name (fst t)" "plain_name pkg"
  shows "parse_go_test_output (package_output pkg tests) =
    \<lparr>pc_total = int (length tests) + 1, pc_passed = int (length (filter (\<lambda>t. snd t = Passes) tests)) + 1,
     pc_failed = 0, pc_skipped = int (length (filter (\<lambda>t. snd t = Skips) tests))\<rparr>"
proof -
  have pass: "contains ''PASS'' ''PASS''" "\<not> contains [] ''PASS''" "\<not> contains [] ''FAIL''" "\<not> contains [] ''SKIP''"
    by simp_all
  show ?thesis
    unfolding parse_go_test_output_def package_output_lines [OF assms] foldl_append foldl_parse_tests [OF assms(1)] foldl.simps
    using pass test_line_markers(8-10) [OF assms(2)]
    by (simp only: parse_line_def if_True if_False) simp
qed

theorem parse_counts_package_line_witness:
  "parse_go_test_output (package_output ''example'' [(''TestOne'', Passes), (''TestTwo'', Skips)]) =
    \<lparr>pc_total = 3, pc_passed = 2, pc_failed = 0, pc_skipped = 1\<rparr>"
  using parse_counts_package_line [of "[(''TestOne'', Passes), (''TestTwo'', Skips)]" "''example''"]
  by (simp add: plain_name_def)


end
