(* ===== verification/VersionMatrix.thy ===== *)
theory VersionMatrix
  imports GoText
begin

text \<open>
  The version matrix, \<^verbatim>\<open>pkg/version/matrix.go\<close>: the table of expected compatibilities keyed by
  text, the runner that tests every pair of server and client, and the report. A
  \<open>CompatibilityTest\<close> is a value with a name and a function that answers an error or none.
\<close>

subsection \<open>Versions and the matrix\<close>

record version =
  vs_Name :: string
  vs_Major :: int
  vs_Minor :: int
  vs_Patch :: int
  vs_Binary :: string
  vs_Config :: string

definition version_string :: "version \<Rightarrow> string" where
  "version_string v = vs_Name v @ ''-'' @ fmt_d (vs_Major v) @ ''.'' @ fmt_d (vs_Minor v) @ ''.'' @ fmt_d (vs_Patch v)"

record client =
  cn_Name :: string
  cn_Version :: string
  cn_Binary :: string

definition client_string :: "client \<Rightarrow> string" where
  "client_string c = cn_Name c @ ''-'' @ cn_Version c"

record vtest_result =
  tr_ServerVersion :: version
  tr_ClientVersion :: client
  tr_Compatible :: bool
  tr_Errors :: "string list"
  tr_TestsPassed :: int
  tr_TestsFailed :: int

record matrix =
  mx_versions :: "version list"
  mx_clients :: "client list"
  mx_compatMap :: "string \<rightharpoonup> bool"
  mx_results :: "string \<rightharpoonup> vtest_result"

definition new_matrix :: matrix where
  "new_matrix = \<lparr>mx_versions = [], mx_clients = [], mx_compatMap = Map.empty, mx_results = Map.empty\<rparr>"

definition add_version :: "version \<Rightarrow> matrix \<Rightarrow> matrix" where
  "add_version v m = m\<lparr>mx_versions := mx_versions m @ [v]\<rparr>"

definition add_client :: "client \<Rightarrow> matrix \<Rightarrow> matrix" where
  "add_client c m = m\<lparr>mx_clients := mx_clients m @ [c]\<rparr>"

definition pair_key :: "version \<Rightarrow> client \<Rightarrow> string" where
  "pair_key s c = version_string s @ '':'' @ client_string c"

definition set_compatibility :: "version \<Rightarrow> client \<Rightarrow> bool \<Rightarrow> matrix \<Rightarrow> matrix" where
  "set_compatibility server client compatible m = m\<lparr>mx_compatMap := (mx_compatMap m)(pair_key server client \<mapsto> compatible)\<rparr>"

definition extract_major :: "string \<Rightarrow> int" where
  "extract_major version = sscanf_d version"

definition is_compatible :: "matrix \<Rightarrow> version \<Rightarrow> client \<Rightarrow> bool" where
  "is_compatible m server client = (case mx_compatMap m (pair_key server client) of
     Some ok \<Rightarrow> ok
   | None \<Rightarrow> vs_Major server = extract_major (cn_Version client))"

subsection \<open>The runner\<close>

record compat_test =
  ct_Name :: string
  ct_Run :: "version \<Rightarrow> client \<Rightarrow> string option"

record test_runner =
  tn_matrix :: matrix
  tn_tests :: "compat_test list"

definition new_test_runner :: "matrix \<Rightarrow> test_runner" where
  "new_test_runner m = \<lparr>tn_matrix = m, tn_tests = []\<rparr>"

definition add_compat_test :: "compat_test \<Rightarrow> test_runner \<Rightarrow> test_runner" where
  "add_compat_test t r = r\<lparr>tn_tests := tn_tests r @ [t]\<rparr>"

definition run_test_step :: "version \<Rightarrow> client \<Rightarrow> vtest_result \<Rightarrow> compat_test \<Rightarrow> vtest_result" where
  "run_test_step server client result t = (case ct_Run t server client of
     Some err \<Rightarrow> result\<lparr>tr_Compatible := False, tr_Errors := tr_Errors result @ [ct_Name t @ '': '' @ err],
                        tr_TestsFailed := tr_TestsFailed result + 1\<rparr>
   | None \<Rightarrow> result\<lparr>tr_TestsPassed := tr_TestsPassed result + 1\<rparr>)"

definition run_test :: "compat_test list \<Rightarrow> version \<Rightarrow> client \<Rightarrow> vtest_result" where
  "run_test tests server client = foldl (run_test_step server client)
     \<lparr>tr_ServerVersion = server, tr_ClientVersion = client, tr_Compatible = True, tr_Errors = [],
      tr_TestsPassed = 0, tr_TestsFailed = 0\<rparr> tests"

definition run_pair :: "compat_test list \<Rightarrow> version \<Rightarrow> vtest_result list \<times> matrix \<Rightarrow> client \<Rightarrow> vtest_result list \<times> matrix" where
  "run_pair tests server acc client = (case acc of (results, m) \<Rightarrow>
     let result = run_test tests server client
     in (results @ [result], m\<lparr>mx_results := (mx_results m)(pair_key server client \<mapsto> result)\<rparr>))"

definition run_matrix :: "test_runner \<Rightarrow> vtest_result list \<times> test_runner" where
  "run_matrix r =
     (let m0 = tn_matrix r in
      case foldl (\<lambda>acc server. foldl (run_pair (tn_tests r) server) acc (mx_clients m0)) ([], m0) (mx_versions m0) of
        (results, m) \<Rightarrow> (results, r\<lparr>tn_matrix := m\<rparr>))"

subsection \<open>The report\<close>

record compat_report =
  rp_TotalTests :: int
  rp_Passed :: int
  rp_Failed :: int
  rp_UnexpectedFails :: int
  rp_Results :: "vtest_result list"
  rp_Matrix :: "string \<rightharpoonup> (string \<rightharpoonup> bool)"

definition report_step :: "matrix \<Rightarrow> compat_report \<Rightarrow> vtest_result \<Rightarrow> compat_report" where
  "report_step m rep result =
     (let expected = is_compatible m (tr_ServerVersion result) (tr_ClientVersion result);
          rep1 = (if tr_Compatible result then rep\<lparr>rp_Passed := rp_Passed rep + 1\<rparr>
                  else let rep' = rep\<lparr>rp_Failed := rp_Failed rep + 1\<rparr>
                       in if expected then rep'\<lparr>rp_UnexpectedFails := rp_UnexpectedFails rep' + 1\<rparr> else rep');
          sk = version_string (tr_ServerVersion result); ck = client_string (tr_ClientVersion result);
          row = (case rp_Matrix rep1 sk of None \<Rightarrow> Map.empty | Some row \<Rightarrow> row)
      in rep1\<lparr>rp_Matrix := (rp_Matrix rep1)(sk \<mapsto> row(ck \<mapsto> tr_Compatible result))\<rparr>)"

definition compat_report :: "matrix \<Rightarrow> vtest_result list \<Rightarrow> compat_report" where
  "compat_report m results = foldl (report_step m)
     \<lparr>rp_TotalTests = int (length results), rp_Passed = 0, rp_Failed = 0, rp_UnexpectedFails = 0,
      rp_Results = results, rp_Matrix = Map.empty\<rparr> results"

definition all_passed :: "compat_report \<Rightarrow> bool" where
  "all_passed r \<longleftrightarrow> rp_Failed r = 0"

definition pass_rate :: "compat_report \<Rightarrow> f64" where
  "pass_rate r = (if rp_TotalTests r = 0 then 0 else percent_of (rp_Passed r) (rp_TotalTests r))"

definition compatible_pairs :: "compat_report \<Rightarrow> vtest_result list" where
  "compatible_pairs r = foldl (\<lambda>pairs result. if tr_Compatible result then pairs @ [result] else pairs) [] (rp_Results r)"

definition incompatible_pairs :: "compat_report \<Rightarrow> vtest_result list" where
  "incompatible_pairs r = foldl (\<lambda>pairs result. if \<not> tr_Compatible result then pairs @ [result] else pairs) [] (rp_Results r)"

text \<open>The three example tests, which never fail, and the default versions and clients.\<close>

definition protocol_test :: compat_test where
  "protocol_test = \<lparr>ct_Name = ''Protocol Compatibility'', ct_Run = (\<lambda>_ _. None)\<rparr>"

definition handshake_test :: compat_test where
  "handshake_test = \<lparr>ct_Name = ''Handshake'', ct_Run = (\<lambda>_ _. None)\<rparr>"

definition api_test :: compat_test where
  "api_test = \<lparr>ct_Name = ''API Compatibility'', ct_Run = (\<lambda>_ _. None)\<rparr>"

definition mk_version :: "string \<Rightarrow> int \<Rightarrow> int \<Rightarrow> int \<Rightarrow> version" where
  "mk_version n a b c = \<lparr>vs_Name = n, vs_Major = a, vs_Minor = b, vs_Patch = c, vs_Binary = [], vs_Config = []\<rparr>"

definition mk_client :: "string \<Rightarrow> string \<Rightarrow> client" where
  "mk_client n v = \<lparr>cn_Name = n, cn_Version = v, cn_Binary = []\<rparr>"

definition default_versions :: "version list" where
  "default_versions =
     [mk_version ''ingestion'' 1 0 0, mk_version ''ingestion'' 1 1 0, mk_version ''ingestion'' 2 0 0,
      mk_version ''s2_processor'' 1 0 0, mk_version ''s2_processor'' 1 5 0,
      mk_version ''s3_api'' 1 0 0, mk_version ''s3_api'' 2 0 0, mk_version ''s4_cluster'' 1 0 0]"

definition default_clients :: "client list" where
  "default_clients =
     [mk_client ''c1_cli'' ''1.0.0'', mk_client ''c1_cli'' ''1.1.0'', mk_client ''c1_cli'' ''2.0.0'',
      mk_client ''python_client'' ''1.0.0'', mk_client ''python_client'' ''1.5.0'']"

subsection \<open>Lemmas\<close>

interpretation vpassed: counter "run_test_step s c" tr_TestsPassed "\<lambda>t. ct_Run t s c = None" for s c
  by unfold_locales (simp add: run_test_step_def split: option.splits)

interpretation vfailed: counter "run_test_step s c" tr_TestsFailed "\<lambda>t. ct_Run t s c \<noteq> None" for s c
  by unfold_locales (simp add: run_test_step_def split: option.splits)

interpretation report_counts: counter_pair "report_step m" rp_Passed rp_Failed tr_Compatible for m
  by unfold_locales (simp_all add: report_step_def Let_def)

interpretation unexpected: counter "report_step m" rp_UnexpectedFails
    "\<lambda>r. \<not> tr_Compatible r \<and> is_compatible m (tr_ServerVersion r) (tr_ClientVersion r)" for m
  by unfold_locales (simp add: report_step_def Let_def)

lemma run_test_loop:
  "tr_Compatible (foldl (run_test_step s c) r ts) \<longleftrightarrow> tr_Compatible r \<and> (\<forall>t \<in> set ts. ct_Run t s c = None)"
  "length (tr_Errors (foldl (run_test_step s c) r ts)) = length (tr_Errors r) + length (filter (\<lambda>t. ct_Run t s c \<noteq> None) ts)"
  "tr_ServerVersion (foldl (run_test_step s c) r ts) = tr_ServerVersion r"
  "tr_ClientVersion (foldl (run_test_step s c) r ts) = tr_ClientVersion r"
  by (induction ts arbitrary: r) (auto simp: run_test_step_def split: option.splits)

lemma run_pair_loop:
  "foldl (run_pair ts s) (rs, m) cs =
    (rs @ map (run_test ts s) cs,
     m\<lparr>mx_results := foldl (\<lambda>f c. f(pair_key s c \<mapsto> run_test ts s c)) (mx_results m) cs\<rparr>)"
  by (induction cs arbitrary: rs m) (simp_all add: run_pair_def Let_def)

lemma run_matrix_loop:
  "\<exists>f. foldl (\<lambda>acc s. foldl (run_pair ts s) acc cs) (rs, m) ss =
    (rs @ concat (map (\<lambda>s. map (run_test ts s) cs) ss), m\<lparr>mx_results := f\<rparr>)"
proof (induction ss arbitrary: rs m)
  case Nil
  show ?case by (rule exI [of _ "mx_results m"]) simp
next
  case (Cons s ss)
  define f where "f = foldl (\<lambda>f c. f(pair_key s c \<mapsto> run_test ts s c)) (mx_results m) cs"
  from Cons [of "rs @ map (run_test ts s) cs" "m\<lparr>mx_results := f\<rparr>"] show ?case
    by (simp add: run_pair_loop f_def)
qed

text \<open>The keys: with no separator in the names, a key determines version and client up to the binaries.\<close>

lemma append_sep_inject:
  assumes "c \<notin> set a" "c \<notin> set a'" "a @ c # b = a' @ c # b'"
  shows "a = a' \<and> b = b'"
  using assms by (induction a arbitrary: a') (case_tac a'; auto)+

lemma fmt_d_chars: "x \<in> set (fmt_d i) \<Longrightarrow> is_digit x \<or> x = CHR ''-''"
  using nat_str_digits by (auto simp: fmt_d_def split: if_splits)

lemma fmt_d_free: "CHR ''.'' \<notin> set (fmt_d i)" "CHR '':'' \<notin> set (fmt_d i)"
  using fmt_d_chars [of "CHR ''.''" i] fmt_d_chars [of "CHR '':''" i] by auto

definition server_ok :: "version \<Rightarrow> bool" where
  "server_ok v \<longleftrightarrow> CHR '':'' \<notin> set (vs_Name v) \<and> CHR ''-'' \<notin> set (vs_Name v)"

definition client_ok :: "client \<Rightarrow> bool" where
  "client_ok c \<longleftrightarrow> CHR ''-'' \<notin> set (cn_Name c)"

lemma version_string_inject:
  assumes "server_ok v" "server_ok w" "version_string v = version_string w"
  shows "vs_Name v = vs_Name w \<and> vs_Major v = vs_Major w \<and> vs_Minor v = vs_Minor w \<and> vs_Patch v = vs_Patch w"
proof -
  have "vs_Name v = vs_Name w" and r: "fmt_d (vs_Major v) @ CHR ''.'' # fmt_d (vs_Minor v) @ CHR ''.'' # fmt_d (vs_Patch v) =
      fmt_d (vs_Major w) @ CHR ''.'' # fmt_d (vs_Minor w) @ CHR ''.'' # fmt_d (vs_Patch w)"
    using append_sep_inject [of "CHR ''-''" "vs_Name v" "vs_Name w"] assms
    by (auto simp: server_ok_def version_string_def)
  moreover have "vs_Major v = vs_Major w" and r2: "fmt_d (vs_Minor v) @ CHR ''.'' # fmt_d (vs_Patch v) =
      fmt_d (vs_Minor w) @ CHR ''.'' # fmt_d (vs_Patch w)"
    using append_sep_inject [OF _ _ r] by (auto simp: fmt_d_free)
  ultimately show ?thesis using append_sep_inject [OF _ _ r2] by (auto simp: fmt_d_free)
qed

lemma pair_key_inject:
  assumes "server_ok s" "server_ok s'" "client_ok c" "client_ok c'" "pair_key s c = pair_key s' c'"
  shows "vs_Name s = vs_Name s' \<and> vs_Major s = vs_Major s' \<and> vs_Minor s = vs_Minor s' \<and> vs_Patch s = vs_Patch s'
    \<and> cn_Name c = cn_Name c' \<and> cn_Version c = cn_Version c'"
proof -
  have "CHR '':'' \<notin> set (version_string s)" "CHR '':'' \<notin> set (version_string s')"
    using assms(1,2) by (auto simp: version_string_def server_ok_def fmt_d_free)
  then have "version_string s = version_string s'" "client_string c = client_string c'"
    using append_sep_inject [of "CHR '':''" "version_string s" "version_string s'" "client_string c" "client_string c'"] assms(5)
    by (auto simp: pair_key_def)
  then show ?thesis
    using version_string_inject [OF assms(1,2)] append_sep_inject [of "CHR ''-''" "cn_Name c" "cn_Name c'"] assms(3,4)
    by (auto simp: client_string_def client_ok_def)
qed

lemma report_keeps [simp]:
  "rp_TotalTests (foldl (report_step m) rep rs) = rp_TotalTests rep"
  "rp_Results (foldl (report_step m) rep rs) = rp_Results rep"
  by (induction rs arbitrary: rep) (auto simp: report_step_def Let_def)

subsection \<open>Properties\<close>

text \<open>
  C37. \<open>Run\<close> tests every server with every client, in the order of the two lists; a pair is
  compatible exactly when no test fails on it, every test is counted once and every failed
  test leaves one error line.
\<close>
theorem run_matrix_complete:
  "fst (run_matrix r) = [run_test (tn_tests r) s c. s \<leftarrow> mx_versions (tn_matrix r), c \<leftarrow> mx_clients (tn_matrix r)]
   \<and> (\<forall>s c. let t = run_test (tn_tests r) s c in
        (tr_Compatible t \<longleftrightarrow> (\<forall>x \<in> set (tn_tests r). ct_Run x s c = None))
        \<and> tr_TestsPassed t + tr_TestsFailed t = int (length (tn_tests r))
        \<and> tr_TestsFailed t = int (length (tr_Errors t)))"
proof -
  have "fst (run_matrix r) = concat (map (\<lambda>s. map (run_test (tn_tests r) s) (mx_clients (tn_matrix r))) (mx_versions (tn_matrix r)))"
    using run_matrix_loop [of "tn_tests r" "mx_clients (tn_matrix r)" "[]" "tn_matrix r" "mx_versions (tn_matrix r)"]
    by (auto simp: run_matrix_def Let_def)
  moreover have "let t = run_test ts s c in
        (tr_Compatible t \<longleftrightarrow> (\<forall>x \<in> set ts. ct_Run x s c = None))
        \<and> tr_TestsPassed t + tr_TestsFailed t = int (length ts) \<and> tr_TestsFailed t = int (length (tr_Errors t))" for s c ts
    using sum_length_filter_compl [of "\<lambda>x. ct_Run x s c = None" ts]
    by (simp add: run_test_def Let_def run_test_loop vpassed.cnt_foldl vfailed.cnt_foldl flip: of_nat_add)
  ultimately show ?thesis by blast
qed

theorem run_matrix_complete_witness:
  "length (fst (run_matrix (new_test_runner (foldl (\<lambda>m c. add_client c m) (foldl (\<lambda>m v. add_version v m) new_matrix default_versions) default_clients)))) = 40"
  using run_matrix_complete [of "new_test_runner (foldl (\<lambda>m c. add_client c m) (foldl (\<lambda>m v. add_version v m) new_matrix default_versions) default_clients)"]
  by (simp add: new_test_runner_def add_client_def add_version_def new_matrix_def default_versions_def default_clients_def)

text \<open>
  What was set for a pair is what \<open>IsCompatible\<close> answers for every pair of the same names and
  versions, and no other pair is affected, provided the server names contain neither
  separator of the key and the client names no hyphen.
\<close>
theorem set_compatibility_lookup:
  assumes "server_ok s" "server_ok s'" "client_ok c" "client_ok c'"
  shows "is_compatible (set_compatibility s c b m) s' c' =
    (if vs_Name s' = vs_Name s \<and> vs_Major s' = vs_Major s \<and> vs_Minor s' = vs_Minor s \<and> vs_Patch s' = vs_Patch s
        \<and> cn_Name c' = cn_Name c \<and> cn_Version c' = cn_Version c
     then b else is_compatible m s' c')"
proof (cases "pair_key s c = pair_key s' c'")
  case True
  then show ?thesis using pair_key_inject [OF assms True]
    by (simp add: is_compatible_def set_compatibility_def)
next
  case False
  then have "\<not> (vs_Name s' = vs_Name s \<and> vs_Major s' = vs_Major s \<and> vs_Minor s' = vs_Minor s \<and> vs_Patch s' = vs_Patch s
        \<and> cn_Name c' = cn_Name c \<and> cn_Version c' = cn_Version c)"
    by (auto simp: pair_key_def version_string_def client_string_def)
  moreover have "mx_compatMap (set_compatibility s c b m) (pair_key s' c') = mx_compatMap m (pair_key s' c')"
    using False by (simp add: set_compatibility_def)
  ultimately show ?thesis by (simp only: is_compatible_def if_False)
qed

theorem set_compatibility_lookup_witness:
  "is_compatible (set_compatibility (mk_version ''s3_api'' 1 0 0) (mk_client ''c1_cli'' ''2.0.0'') True new_matrix)
     (mk_version ''s3_api'' 1 0 0) (mk_client ''c1_cli'' ''2.0.0'') = True"
  using set_compatibility_lookup [of "mk_version ''s3_api'' 1 0 0" "mk_version ''s3_api'' 1 0 0"
      "mk_client ''c1_cli'' ''2.0.0''" "mk_client ''c1_cli'' ''2.0.0''" True new_matrix]
  by (simp add: server_ok_def client_ok_def mk_version_def mk_client_def)

text \<open>
  The report counts every result once: passed and failed add up to the total, the unexpected
  failures are the failed pairs that were expected to be compatible, the pass rate is a
  percentage that is 100 exactly when nothing failed, and the two lists of pairs are the
  compatible and the incompatible results in order.
\<close>
theorem compat_report_exact:
  assumes "results \<noteq> []" "length results \<le> 2 ^ 53"
  shows "let rep = compat_report m results in
    rp_Passed rep + rp_Failed rep = rp_TotalTests rep
    \<and> rp_UnexpectedFails rep = int (length (filter (\<lambda>r. is_compatible m (tr_ServerVersion r) (tr_ClientVersion r)) (incompatible_pairs rep)))
    \<and> 0 \<le> pass_rate rep \<and> pass_rate rep \<le> Fin 100 \<and> (pass_rate rep = Fin 100 \<longleftrightarrow> all_passed rep)
    \<and> compatible_pairs rep = filter tr_Compatible results
    \<and> incompatible_pairs rep = filter (\<lambda>r. \<not> tr_Compatible r) results"
proof -
  let ?rep = "compat_report m results"
  let ?p = "length (filter tr_Compatible results)" and ?f = "length (filter (\<lambda>r. \<not> tr_Compatible r) results)"
  have sum: "?p + ?f = length results" by (rule sum_length_filter_compl)
  have counts: "rp_Passed ?rep = int ?p" "rp_Failed ?rep = int ?f" "rp_TotalTests ?rep = int (length results)"
    "rp_Results ?rep = results"
    by (simp_all add: compat_report_def report_counts.pos.cnt_foldl report_counts.neg.cnt_foldl)
  have un: "rp_UnexpectedFails ?rep =
      int (length (filter (\<lambda>r. is_compatible m (tr_ServerVersion r) (tr_ClientVersion r)) (filter (\<lambda>r. \<not> tr_Compatible r) results)))"
    by (simp add: compat_report_def unexpected.cnt_foldl conj_commute)
  have inc: "incompatible_pairs ?rep = filter (\<lambda>r. \<not> tr_Compatible r) results"
    "compatible_pairs ?rep = filter tr_Compatible results"
    using foldl_append_filter [of "\<lambda>r. \<not> tr_Compatible r" "\<lambda>r. r" "[]" results]
      foldl_append_filter [of tr_Compatible "\<lambda>r. r" "[]" results]
    by (simp_all add: incompatible_pairs_def compatible_pairs_def counts)
  have "int ?p \<le> int (length results)" by simp
  then obtain q where q: "percent_of (int ?p) (int (length results)) = Fin q" "0 \<le> q" "q \<le> 100"
    "q = 100 \<longleftrightarrow> int ?p = int (length results)"
    using percent_of_part [of "int ?p" "int (length results)"] assms by auto
  have "int ?p = int (length results) \<longleftrightarrow> all_passed ?rep"
    using sum by (simp only: all_passed_def counts of_nat_eq_iff of_nat_eq_0_iff) linarith
  then show ?thesis
    using sum q assms(1) by (simp add: counts un inc pass_rate_def f64_defs)
qed

theorem compat_report_exact_witness:
  "let rep = compat_report new_matrix [run_test [protocol_test] (mk_version ''s3_api'' 1 0 0) (mk_client ''c1_cli'' ''2.0.0'')]
   in rp_Passed rep + rp_Failed rep = rp_TotalTests rep"
  using compat_report_exact [of "[run_test [protocol_test] (mk_version ''s3_api'' 1 0 0) (mk_client ''c1_cli'' ''2.0.0'')]" new_matrix]
  by (simp add: Let_def)

end
