(* ===== verification/Linter.thy ===== *)
theory Linter
  imports GoSys Scale
begin

text \<open>
  The C linter, \<^verbatim>\<open>pkg/linter/linter.go\<close>, and the \<open>lint\<close> command, \<^verbatim>\<open>pkg/cmd/lint.go\<close>. What the
  file system and the tools \<open>cppcheck\<close> and \<open>gcc\<close> answer is a \<open>lint_env\<close>; the parsers of their
  output, the statistics, the score and the printed summary are the code's.
\<close>

subsection \<open>Data\<close>

record issue =
  is_Line :: int
  is_Column :: int
  is_Severity :: string
  is_Message :: string
  is_Checker :: string

record lint_result =
  lr_File :: string
  lr_Errors :: "issue list"
  lr_Warnings :: "issue list"
  lr_StyleIssues :: "issue list"
  lr_TotalIssues :: int
  lr_ErrorCount :: int
  lr_WarningCount :: int
  lr_StyleCount :: int
  lr_Passed :: bool

record lint_summary =
  ls_Files :: "lint_result list"
  ls_TotalFiles :: int
  ls_TotalErrors :: int
  ls_TotalWarnings :: int
  ls_TotalStyle :: int
  ls_TotalIssues :: int
  ls_Score :: int
  ls_Grade :: string
  ls_Passed :: bool

record linter =
  ln_servicesPath :: string
  ln_sharedPath :: string

text \<open>
  The answers of the system: the entries of a directory (name, is a directory), or none if it
  cannot be read; whether a file exists; what a command with these arguments prints and
  whether it fails.
\<close>

record lint_env =
  le_readdir :: "string \<Rightarrow> (string \<times> bool) list option"
  le_exists :: "string \<Rightarrow> bool"
  le_command :: "string list \<Rightarrow> string \<times> bool"

definition empty_lint_result :: "string \<Rightarrow> lint_result" where
  "empty_lint_result f = \<lparr>lr_File = f, lr_Errors = [], lr_Warnings = [], lr_StyleIssues = [], lr_TotalIssues = 0,
     lr_ErrorCount = 0, lr_WarningCount = 0, lr_StyleCount = 0, lr_Passed = False\<rparr>"

definition empty_summary :: lint_summary where
  "empty_summary = \<lparr>ls_Files = [], ls_TotalFiles = 0, ls_TotalErrors = 0, ls_TotalWarnings = 0, ls_TotalStyle = 0,
     ls_TotalIssues = 0, ls_Score = 0, ls_Grade = [], ls_Passed = False\<rparr>"

subsection \<open>Finding the files\<close>

definition find_c_files_in_dir :: "lint_env \<Rightarrow> string \<Rightarrow> string list" where
  "find_c_files_in_dir env dir = (case le_readdir env dir of
     None \<Rightarrow> []
   | Some entries \<Rightarrow> map (\<lambda>(n, _). path_join [dir, n]) (filter (\<lambda>(n, d). \<not> d \<and> has_suffix n ''.c'') entries))"

definition find_c_files :: "lint_env \<Rightarrow> linter \<Rightarrow> string list" where
  "find_c_files env l =
     (let files = foldl (\<lambda>fs service. fs @ find_c_files_in_dir env (path_join [ln_servicesPath l, service])) []
        [''ingestion'', ''aggregation'', ''query'', ''discovery'', ''cli'']
      in if ln_sharedPath l \<noteq> [] then files @ find_c_files_in_dir env (path_join [ln_sharedPath l, ''src'']) else files)"

subsection \<open>cppcheck\<close>

definition parse_cppcheck_line :: "string \<Rightarrow> issue option" where
  "parse_cppcheck_line line =
     (let parts = split_n 5 CHR '':'' line
      in if length parts < 4 then None
         else Some \<lparr>is_Line = sscanf_d (parts ! 1), is_Column = sscanf_d (parts ! 2), is_Severity = parts ! 3,
                    is_Message = (if length parts \<ge> 5 then parts ! 4 else []), is_Checker = ''cppcheck''\<rparr>)"

definition add_cppcheck_issue :: "lint_result \<Rightarrow> issue \<Rightarrow> lint_result" where
  "add_cppcheck_issue r i =
     (let r1 =
        (if is_Severity i = ''error''
         then r\<lparr>lr_Errors := lr_Errors r @ [i], lr_ErrorCount := lr_ErrorCount r + 1\<rparr>
         else if is_Severity i = ''warning''
         then r\<lparr>lr_Warnings := lr_Warnings r @ [i], lr_WarningCount := lr_WarningCount r + 1\<rparr>
         else if is_Severity i \<in> {''style'', ''performance'', ''portability''}
         then r\<lparr>lr_StyleIssues := lr_StyleIssues r @ [i], lr_StyleCount := lr_StyleCount r + 1\<rparr>
         else r)
      in r1\<lparr>lr_TotalIssues := lr_TotalIssues r1 + 1\<rparr>)"

definition cppcheck_line :: "lint_result \<Rightarrow> string \<Rightarrow> lint_result" where
  "cppcheck_line r line =
     (let l = trim line
      in if l = [] then r
         else case parse_cppcheck_line l of None \<Rightarrow> r | Some i \<Rightarrow> add_cppcheck_issue r i)"

definition cppcheck_args :: "linter \<Rightarrow> string \<Rightarrow> string list" where
  "cppcheck_args l file =
     [''cppcheck'', ''--enable=all'', ''--inconclusive'', ''--std=c99'', ''--suppress=missingIncludeSystem'',
      ''--suppress=unusedFunction'', ''--suppress=toomanyconfigs'',
      ''--template={file}:{line}:{column}:{severity}:{message}'',
      ''-I'', path_join [ln_servicesPath l, ''shared'', ''include''], file]"

definition run_cppcheck :: "lint_env \<Rightarrow> linter \<Rightarrow> string \<Rightarrow> string + lint_result" where
  "run_cppcheck env l file =
     (let result = empty_lint_result file
      in case le_command env (cppcheck_args l file) of (output, failed) \<Rightarrow>
        (if failed \<and> length output = 0 then Inr result
         else let r = foldl cppcheck_line result (split_on CHR 0x0A output)
              in Inr (r\<lparr>lr_Passed := (lr_ErrorCount r = 0)\<rparr>)))"

subsection \<open>gcc\<close>

text \<open>
  The regular expression \<open>^(.+):(\d+):(\d+):\s*(warning|error|note):\s*(.+)$\<close>, as Go's matcher
  resolves it: the longest first group for which the rest matches; after the severity the
  blanks are skipped as long as one character remains for the last group. A dot does not
  match a line break, blanks do.
\<close>

definition re_space :: "char \<Rightarrow> bool" where
  "re_space c \<longleftrightarrow> (of_char c :: nat) \<in> {9, 10, 12, 13, 32}"

fun digits_colon :: "string \<Rightarrow> (string \<times> string) option" where
  "digits_colon s = (let ds = takeWhile is_digit s; rest = dropWhile is_digit s
     in if ds = [] then None else case rest of c # r \<Rightarrow> if c = CHR '':'' then Some (ds, r) else None | [] \<Rightarrow> None)"

definition severity_colon :: "string \<Rightarrow> (string \<times> string) option" where
  "severity_colon s =
     (if prefix ''warning:'' s then Some (''warning'', drop 8 s)
      else if prefix ''error:'' s then Some (''error'', drop 6 s)
      else if prefix ''note:'' s then Some (''note'', drop 5 s)
      else None)"

definition last_group :: "string \<Rightarrow> string option" where
  "last_group s = (if s = [] then None
     else let t = dropWhile re_space s; g = (if t = [] then [last s] else t)
          in if CHR 0x0A \<in> set g then None else Some g)"

definition gcc_rest :: "string \<Rightarrow> (string \<times> string \<times> string \<times> string) option" where
  "gcc_rest s = (case s of [] \<Rightarrow> None | c # s1 \<Rightarrow>
     (if c \<noteq> CHR '':'' then None
      else case digits_colon s1 of None \<Rightarrow> None | Some (lno, s2) \<Rightarrow>
        (case digits_colon s2 of None \<Rightarrow> None | Some (col, s3) \<Rightarrow>
          (case severity_colon (dropWhile re_space s3) of None \<Rightarrow> None | Some (sev, s4) \<Rightarrow>
            (case last_group s4 of None \<Rightarrow> None | Some msg \<Rightarrow> Some (lno, col, sev, msg))))))"

fun gcc_search :: "nat \<Rightarrow> string \<Rightarrow> (string \<times> string \<times> string \<times> string) option" where
  "gcc_search 0 line = None"
| "gcc_search (Suc p) line =
     (case (if CHR 0x0A \<in> set (take (Suc p) line) then None else gcc_rest (drop (Suc p) line)) of
        Some m \<Rightarrow> Some m | None \<Rightarrow> gcc_search p line)"

definition parse_gcc_line :: "string \<Rightarrow> issue option" where
  "parse_gcc_line line = (case gcc_search (length line) line of
     None \<Rightarrow> None
   | Some (lno, col, sev, msg) \<Rightarrow> Some \<lparr>is_Line = sscanf_d lno, is_Column = sscanf_d col, is_Severity = sev,
       is_Message = msg, is_Checker = ''gcc''\<rparr>)"

definition gcc_line :: "lint_result \<Rightarrow> string \<Rightarrow> lint_result" where
  "gcc_line r line =
     (let l = trim line
      in if l = [] then r
         else case parse_gcc_line l of None \<Rightarrow> r | Some i \<Rightarrow>
           (let r1 = (if is_Severity i = ''error''
                      then r\<lparr>lr_Errors := lr_Errors r @ [i], lr_ErrorCount := lr_ErrorCount r + 1\<rparr>
                      else r\<lparr>lr_Warnings := lr_Warnings r @ [i], lr_WarningCount := lr_WarningCount r + 1\<rparr>)
            in r1\<lparr>lr_TotalIssues := lr_TotalIssues r1 + 1\<rparr>))"

definition gcc_args :: "linter \<Rightarrow> string \<Rightarrow> string list" where
  "gcc_args l cfile =
     [''gcc'', ''-c'', ''-Wall'', ''-Wextra'', ''-Wpedantic'', ''-Wshadow'', ''-Wstrict-overflow'', ''-Wstrict-prototypes'',
      ''-Wmissing-prototypes'', ''-Wmissing-declarations'', ''-Wcast-align'', ''-Wwrite-strings'',
      ''-Werror=implicit-function-declaration'', ''-Werror=return-type'',
      ''-I'' @ path_join [ln_servicesPath l, ''shared'', ''include''], cfile, ''-o'', ''/dev/null'']"

definition run_gcc_checks :: "lint_env \<Rightarrow> linter \<Rightarrow> string \<Rightarrow> string + lint_result" where
  "run_gcc_checks env l service =
     (let cfile = path_join [path_join [ln_servicesPath l, service], service @ ''.c'']
      in if \<not> le_exists env cfile then Inl (''source file not found: '' @ cfile)
         else case le_command env (gcc_args l cfile) of (output, failed) \<Rightarrow>
           (let r = foldl gcc_line (empty_lint_result cfile) (split_on CHR 0x0A output)
            in Inr (r\<lparr>lr_Passed := (lr_ErrorCount r = 0 \<and> \<not> failed)\<rparr>)))"

subsection \<open>Score\<close>

definition lint_deductions :: "int \<Rightarrow> int \<Rightarrow> int \<Rightarrow> f64" where
  "lint_deductions errs warns styles = of_int64 errs * Fin 5 + of_int64 warns * Fin 2 + of_int64 styles * Fin (5 / 10)"

definition lint_score :: "int \<Rightarrow> int \<Rightarrow> int \<Rightarrow> int" where
  "lint_score errs warns styles =
     (let score = Fin 100 - lint_deductions errs warns styles
      in int_of_f64 (if score < 0 then 0 else score))"

definition lint_grade :: "int \<Rightarrow> string" where
  "lint_grade s =
     (if s \<ge> 93 then ''A'' else if s \<ge> 90 then ''A-'' else if s \<ge> 87 then ''B+'' else if s \<ge> 83 then ''B''
      else if s \<ge> 80 then ''B-'' else if s \<ge> 77 then ''C+'' else if s \<ge> 73 then ''C'' else if s \<ge> 70 then ''C-''
      else if s \<ge> 60 then ''D'' else ''F'')"

definition calculate_score :: "lint_summary \<Rightarrow> lint_summary" where
  "calculate_score s =
     (if ls_TotalFiles s = 0 then s\<lparr>ls_Score := 0, ls_Grade := ''F'', ls_Passed := False\<rparr>
      else let sc = lint_score (ls_TotalErrors s) (ls_TotalWarnings s) (ls_TotalStyle s);
               s1 = s\<lparr>ls_Score := sc, ls_Grade := lint_grade sc\<rparr>
           in if sc \<ge> 80 then s1\<lparr>ls_Passed := True\<rparr>
              else if sc \<ge> 60 then s1
              else s1\<lparr>ls_Passed := False\<rparr>)"

definition add_file :: "lint_summary \<Rightarrow> lint_result \<Rightarrow> lint_summary" where
  "add_file s r = s\<lparr>ls_Files := ls_Files s @ [r], ls_TotalErrors := ls_TotalErrors s + lr_ErrorCount r,
     ls_TotalWarnings := ls_TotalWarnings s + lr_WarningCount r, ls_TotalStyle := ls_TotalStyle s + lr_StyleCount r,
     ls_TotalIssues := ls_TotalIssues s + lr_TotalIssues r\<rparr>"

definition run_all :: "lint_env \<Rightarrow> linter \<Rightarrow> lint_summary" where
  "run_all env l =
     (let cfiles = find_c_files env l;
          s0 = empty_summary\<lparr>ls_TotalFiles := int (length cfiles)\<rparr>;
          s1 = foldl (\<lambda>s f. case run_cppcheck env l f of Inl _ \<Rightarrow> s | Inr r \<Rightarrow> add_file s r) s0 cfiles
      in calculate_score s1)"

definition combine_result :: "lint_result \<Rightarrow> lint_result \<Rightarrow> lint_result" where
  "combine_result c r = c\<lparr>lr_Errors := lr_Errors c @ lr_Errors r, lr_Warnings := lr_Warnings c @ lr_Warnings r,
     lr_StyleIssues := lr_StyleIssues c @ lr_StyleIssues r, lr_TotalIssues := lr_TotalIssues c + lr_TotalIssues r,
     lr_ErrorCount := lr_ErrorCount c + lr_ErrorCount r, lr_WarningCount := lr_WarningCount c + lr_WarningCount r,
     lr_StyleCount := lr_StyleCount c + lr_StyleCount r\<rparr>"

definition run_on_service :: "lint_env \<Rightarrow> linter \<Rightarrow> string \<Rightarrow> string + lint_result" where
  "run_on_service env l service =
     (let cfiles = find_c_files_in_dir env (path_join [ln_servicesPath l, service])
      in if length cfiles = 0 then Inl (''no C files found in service '' @ service)
         else let c = foldl (\<lambda>c f. case run_cppcheck env l f of Inl _ \<Rightarrow> c | Inr r \<Rightarrow> combine_result c r)
                        (empty_lint_result service) cfiles
              in Inr (c\<lparr>lr_Passed := (lr_ErrorCount c = 0)\<rparr>))"

definition print_summary :: "lint_summary \<Rightarrow> string list" where
  "print_summary s =
     [[], ''=== C Code Linting Results ==='', ''Files Analyzed: '' @ fmt_d (ls_TotalFiles s),
      ''Total Issues: '' @ fmt_d (ls_TotalIssues s), ''  Errors: '' @ fmt_d (ls_TotalErrors s),
      ''  Warnings: '' @ fmt_d (ls_TotalWarnings s), ''  Style Issues: '' @ fmt_d (ls_TotalStyle s),
      ''Score: '' @ fmt_d (ls_Score s) @ ''/100 (Grade: '' @ ls_Grade s @ '')'',
      (if ls_Passed s then ''Status: '' @ tick @ '' PASSED'' else ''Status: '' @ cross @ '' FAILED'')] @
     (if ls_TotalIssues s > 0
      then [[], ''Issues by File:''] @
        concat (map (\<lambda>f. if lr_TotalIssues f > 0
          then [[], lr_File f @ '':''] @
            map (\<lambda>i. ''  [ERROR] Line '' @ fmt_d (is_Line i) @ '': '' @ is_Message i) (lr_Errors f) @
            map (\<lambda>i. ''  [WARNING] Line '' @ fmt_d (is_Line i) @ '': '' @ is_Message i) (lr_Warnings f) @
            (if lr_StyleCount f > 0 then [''  ... and '' @ fmt_d (lr_StyleCount f) @ '' style issues''] else [])
          else []) (ls_Files s))
      else [])"

subsection \<open>The lint command\<close>

definition service_grade :: "int \<Rightarrow> string" where
  "service_grade s =
     (if s \<ge> 93 then ''A'' else if s \<ge> 90 then ''A-'' else if s \<ge> 83 then ''B'' else if s \<ge> 60 then ''C'' else ''F'')"

text \<open>The summary \<open>runLint\<close> makes of one service.\<close>

definition service_summary :: "lint_result \<Rightarrow> lint_summary" where
  "service_summary r =
     (let s = \<lparr>ls_Files = [r], ls_TotalFiles = 1, ls_TotalErrors = lr_ErrorCount r, ls_TotalWarnings = lr_WarningCount r,
               ls_TotalStyle = lr_StyleCount r, ls_TotalIssues = lr_TotalIssues r, ls_Score = 0, ls_Grade = [], ls_Passed = False\<rparr>
      in if ls_TotalIssues s = 0 then s\<lparr>ls_Score := 100, ls_Grade := ''A'', ls_Passed := True\<rparr>
         else let sc = lint_score (lr_ErrorCount r) (lr_WarningCount r) (lr_StyleCount r);
                  s1 = s\<lparr>ls_Score := sc, ls_Grade := service_grade sc\<rparr>
              in if sc \<ge> 83 then s1\<lparr>ls_Passed := True\<rparr> else if sc \<ge> 60 then s1 else s1\<lparr>ls_Passed := False\<rparr>)"

text \<open>\<open>runLint\<close>: an error, or the lines printed and the exit status.\<close>

definition run_lint :: "lint_env \<Rightarrow> bool \<Rightarrow> string \<Rightarrow> string \<Rightarrow> string + string list \<times> int" where
  "run_lint env available workdir service =
     (if \<not> available then Inl ''cppcheck is required for linting''
      else let sp0 = path_join [workdir, ''..'', ''services''];
               sp = (if le_exists env sp0 then sp0 else path_join [workdir, ''services'']);
               l = \<lparr>ln_servicesPath = sp, ln_sharedPath = path_join [sp, ''shared'']\<rparr>
           in bind_sum (if service \<noteq> [] then map_sum id service_summary (run_on_service env l service)
                        else Inr (run_all env l))
                (\<lambda>s. Inr (print_summary s, if ls_Passed s then 0 else 1)))"

subsection \<open>Lemmas\<close>

text \<open>The score in exact arithmetic: half points, truncated.\<close>

lemma half_exact: "\<bar>n\<bar> \<le> 2 ^ 53 \<Longrightarrow> round53 (of_int n / 2) = of_int n / 2"
proof -
  assume n: "\<bar>n\<bar> \<le> 2 ^ 53"
  have p: "(2 :: rat) powi (- 1) = 1 / 2" by (simp add: power_int_minus)
  have "round53 (of_int n * 2 powi (- 1)) = of_int n * 2 powi (- 1)"
    by (rule round53_exact [OF n]) simp
  then show ?thesis unfolding p times_divide_eq_right mult_1_right .
qed

lemma half_f64: "\<bar>n\<bar> \<le> 2 ^ 53 \<Longrightarrow> to_f64 (of_int n / 2) = Fin (of_int n / 2)"
proof -
  assume n: "\<bar>n\<bar> \<le> 2 ^ 53"
  then have "rat_of_int \<bar>n\<bar> \<le> of_int (2 ^ 53)" by (simp only: of_int_le_iff)
  then have "\<bar>of_int n / 2 :: rat\<bar> \<le> 2 ^ 53" by simp
  then show ?thesis using half_exact [OF n] by (simp add: to_f64_53)
qed

definition half_points :: "int \<Rightarrow> int \<Rightarrow> int \<Rightarrow> int" where
  "half_points e w s = 10 * e + 4 * w + s"

lemma lint_score_exact:
  assumes "0 \<le> e" "0 \<le> w" "0 \<le> s" "e \<le> 2 ^ 40" "w \<le> 2 ^ 40" "s \<le> 2 ^ 40"
  shows "lint_score e w s = (if half_points e w s \<le> 200 then (200 - half_points e w s) div 2 else 0)"
proof -
  let ?d = "half_points e w s"
  have five: "of_int64 e * Fin 5 = Fin (of_int (10 * e) / 2)"
    using half_f64 [of "10 * e"] assms by (simp add: f64_simps mult.commute)
  have two: "of_int64 w * Fin 2 = Fin (of_int (4 * w) / 2)"
    using half_f64 [of "4 * w"] assms by (simp add: f64_simps mult.commute)
  have half: "of_int64 s * Fin (5 / 10) = Fin (of_int s / 2)"
    using half_f64 [of s] assms by (simp add: f64_simps)
  have s1: "of_int64 e * Fin 5 + of_int64 w * Fin 2 = Fin (of_int (10 * e + 4 * w) / 2)"
    unfolding five two using half_f64 [of "10 * e + 4 * w"] assms by (simp add: f64_simps add_divide_distrib)
  have ded: "lint_deductions e w s = Fin (of_int ?d / 2)"
    unfolding lint_deductions_def s1 half using half_f64 [of ?d] assms
    by (simp add: f64_simps half_points_def add_divide_distrib)
  have score: "Fin 100 - lint_deductions e w s = Fin (of_int (200 - ?d) / 2)"
    unfolding ded using half_f64 [of "200 - ?d"] assms
    by (simp add: f64_simps half_points_def diff_divide_distrib)
  show ?thesis
  proof (cases "?d \<le> 200")
    case True
    have "0 \<le> ?d" using assms by (simp add: half_points_def)
    moreover have "\<lfloor>(of_int (200 - ?d) :: rat) / 2\<rfloor> = (200 - ?d) div 2" 
      using floor_divide_of_int_eq [of "200 - ?d" 2, where ?'a = rat] by (simp del: of_int_diff)
    moreover have "0 \<le> rat_of_int (200 - ?d) / 2" using True by (simp del: of_int_diff)
    moreover have "0 \<le> (200 - ?d) div 2" "(200 - ?d) div 2 \<le> 100" using True \<open>0 \<le> ?d\<close> by simp_all
    ultimately show ?thesis using True unfolding lint_score_def score Let_def
      by (simp add: f64_defs trunc_rat_def Let_def del: of_int_diff)
  next
    case False
    have "rat_of_int (200 - ?d) / 2 < 0" using False by (simp del: of_int_diff)
    then show ?thesis using False unfolding lint_score_def score Let_def
      by (simp add: f64_defs trunc_rat_def Let_def del: of_int_diff)
  qed
qed

text \<open>Both letter scales of the linter satisfy the contract of a letter scale.\<close>

definition lint_cuts :: "(int \<times> string) list" where
  "lint_cuts = [(93, ''A''), (90, ''A-''), (87, ''B+''), (83, ''B''), (80, ''B-''), (77, ''C+''), (73, ''C''),
     (70, ''C-''), (60, ''D'')]"

definition service_cuts :: "(int \<times> string) list" where
  "service_cuts = [(93, ''A''), (90, ''A-''), (83, ''B''), (60, ''C'')]"

interpretation lint_grades: letter_scale "(\<le>)" lint_grade lint_cuts "''F''"
  by unfold_locales (auto simp: lint_grade_def lint_cuts_def)

interpretation service_grades: letter_scale "(\<le>)" service_grade service_cuts "''F''"
  by unfold_locales (auto simp: service_grade_def service_cuts_def)

text \<open>The counters of a result agree with its lists.\<close>

definition counts_ok :: "lint_result \<Rightarrow> bool" where
  "counts_ok r \<longleftrightarrow> lr_ErrorCount r = int (length (lr_Errors r)) \<and> lr_WarningCount r = int (length (lr_Warnings r))
     \<and> lr_StyleCount r = int (length (lr_StyleIssues r))
     \<and> lr_ErrorCount r + lr_WarningCount r + lr_StyleCount r \<le> lr_TotalIssues r"

lemma counts_ok_empty [simp]: "counts_ok (empty_lint_result f)"
  by (simp add: counts_ok_def empty_lint_result_def)

lemma counts_ok_cppcheck: "counts_ok r \<Longrightarrow> counts_ok (cppcheck_line r l)"
  by (auto simp: cppcheck_line_def add_cppcheck_issue_def counts_ok_def Let_def split: option.splits)

lemma counts_ok_gcc: "counts_ok r \<Longrightarrow> counts_ok (gcc_line r l)"
  by (auto simp: gcc_line_def counts_ok_def Let_def split: option.splits)

lemma counts_ok_loop: "(\<And>r l. counts_ok r \<Longrightarrow> counts_ok (f r l)) \<Longrightarrow> counts_ok r \<Longrightarrow> counts_ok (foldl f r ls)"
  by (induction ls arbitrary: r) auto

lemma counts_ok_passed [simp]: "counts_ok (r\<lparr>lr_Passed := b\<rparr>) = counts_ok r"
  by (simp add: counts_ok_def)

lemma run_cppcheck_ok:
  assumes "run_cppcheck env l f = Inr r"
  shows "counts_ok r \<and> lr_File r = f \<and> (lr_Passed r \<longrightarrow> lr_Errors r = [])"
proof -
  have name: "lr_File (foldl cppcheck_line r ls) = lr_File r" for r ls
    by (induction ls arbitrary: r) (auto simp: cppcheck_line_def add_cppcheck_issue_def Let_def split: option.splits)
  have ok: "counts_ok (foldl cppcheck_line (empty_lint_result f) ls)" for ls
    by (rule counts_ok_loop) (simp_all add: counts_ok_cppcheck)
  have passed: "counts_ok (R\<lparr>lr_Passed := (lr_ErrorCount R = 0)\<rparr>) \<and> (lr_ErrorCount R = 0 \<longrightarrow> lr_Errors R = [])"
    if "counts_ok R" for R
    using that by (simp add: counts_ok_def)
  obtain text1 fails where out: "le_command env (cppcheck_args l f) = (text1, fails)" by (cases "le_command env (cppcheck_args l f)")
  show ?thesis
  proof (cases "fails \<and> length text1 = 0")
    case True
    then have "r = empty_lint_result f" using assms by (simp add: run_cppcheck_def Let_def out)
    then show ?thesis using counts_ok_empty by (simp add: empty_lint_result_def)
  next
    case False
    define R where "R = foldl cppcheck_line (empty_lint_result f) (split_on CHR 0x0A text1)"
    have "r = R\<lparr>lr_Passed := (lr_ErrorCount R = 0)\<rparr>"
      using assms False by (auto simp: run_cppcheck_def Let_def out R_def)
    moreover have "lr_File R = f" by (simp add: R_def name) (simp add: empty_lint_result_def)
    moreover have "counts_ok R" unfolding R_def by (rule ok)
    ultimately show ?thesis using passed [of R] by simp
  qed
qed

lemma combine_ok: "counts_ok c \<Longrightarrow> counts_ok r \<Longrightarrow> counts_ok (combine_result c r)"
  by (simp add: counts_ok_def combine_result_def)

lemma run_cppcheck_total: "\<exists>r. run_cppcheck env l f = Inr r"
  by (simp add: run_cppcheck_def Let_def split: prod.splits)

definition the_result :: "lint_env \<Rightarrow> linter \<Rightarrow> string \<Rightarrow> lint_result" where
  "the_result env l f = projr (run_cppcheck env l f)"

lemma run_cppcheck_the: "run_cppcheck env l f = Inr (the_result env l f)"
  using run_cppcheck_total [of env l f] by (auto simp: the_result_def)

lemma run_all_loop:
  "foldl (\<lambda>s f. case run_cppcheck env l f of Inl _ \<Rightarrow> s | Inr r \<Rightarrow> add_file s r) s fs =
    s\<lparr>ls_Files := ls_Files s @ map (the_result env l) fs,
      ls_TotalErrors := ls_TotalErrors s + (\<Sum>f \<leftarrow> fs. lr_ErrorCount (the_result env l f)),
      ls_TotalWarnings := ls_TotalWarnings s + (\<Sum>f \<leftarrow> fs. lr_WarningCount (the_result env l f)),
      ls_TotalStyle := ls_TotalStyle s + (\<Sum>f \<leftarrow> fs. lr_StyleCount (the_result env l f)),
      ls_TotalIssues := ls_TotalIssues s + (\<Sum>f \<leftarrow> fs. lr_TotalIssues (the_result env l f))\<rparr>"
  by (induction fs arbitrary: s) (simp_all add: run_cppcheck_the add_file_def add.assoc)

lemma calculate_score_keeps [simp]:
  "ls_Files (calculate_score s) = ls_Files s" "ls_TotalErrors (calculate_score s) = ls_TotalErrors s"
  "ls_TotalWarnings (calculate_score s) = ls_TotalWarnings s" "ls_TotalStyle (calculate_score s) = ls_TotalStyle s"
  "ls_TotalFiles (calculate_score s) = ls_TotalFiles s" "ls_TotalIssues (calculate_score s) = ls_TotalIssues s"
  by (simp_all add: calculate_score_def Let_def)

lemma takeWhile_sep: "c \<notin> set w \<Longrightarrow> takeWhile (\<lambda>x. x \<noteq> c) (w @ c # r) = w"
  "c \<notin> set w \<Longrightarrow> dropWhile (\<lambda>x. x \<noteq> c) (w @ c # r) = c # r"
  by (induction w) auto

lemma split_n_exact:
  "\<forall>w \<in> set ws. c \<notin> set w \<Longrightarrow> split_n (Suc (length ws)) c (concat (map (\<lambda>w. w @ [c]) ws) @ last_part) = ws @ [last_part]"
proof (induction ws)
  case (Cons w ws)
  let ?s = "w @ c # concat (map (\<lambda>w. w @ [c]) ws) @ last_part"
  have "takeWhile (\<lambda>x. x \<noteq> c) ?s = w" "dropWhile (\<lambda>x. x \<noteq> c) ?s = c # concat (map (\<lambda>w. w @ [c]) ws) @ last_part"
    using Cons.prems by (simp_all add: takeWhile_sep)
  then show ?case using Cons by simp
qed simp

subsection \<open>Properties\<close>

text \<open>
  \<open>parseCppcheckLine\<close> reads back what the template of the \<open>cppcheck\<close> call prints: file, line,
  column, severity and message, a message with colons included.
\<close>
theorem cppcheck_line_roundtrip:
  assumes "CHR '':'' \<notin> set file" "CHR '':'' \<notin> set severity"
    and "0 \<le> line" "line < 2 ^ 63" "0 \<le> column" "column < 2 ^ 63"
  shows "parse_cppcheck_line (file @ '':'' @ fmt_d line @ '':'' @ fmt_d column @ '':'' @ severity @ '':'' @ message) =
    Some \<lparr>is_Line = line, is_Column = column, is_Severity = severity, is_Message = message, is_Checker = ''cppcheck''\<rparr>"
proof -
  have free: "CHR '':'' \<notin> set (fmt_d i)" if "0 \<le> i" for i
    using that nat_str_digits [of "nat i"] by (auto simp: fmt_d_def)
  have "split_n 5 CHR '':'' (file @ '':'' @ fmt_d line @ '':'' @ fmt_d column @ '':'' @ severity @ '':'' @ message) =
      [file, fmt_d line, fmt_d column, severity, message]"
    using split_n_exact [of "[file, fmt_d line, fmt_d column, severity]" "CHR '':''" message] assms free
    by (simp add: eval_nat_numeral)
  moreover have "sscanf_d (fmt_d i) = i" if "0 \<le> i" "i < 2 ^ 63" for i
    using sscanf_fmt_d [of i "[]"] that by simp
  ultimately show ?thesis using assms by (simp add: parse_cppcheck_line_def)
qed

theorem cppcheck_line_roundtrip_witness:
  "parse_cppcheck_line ''ingestion.c:174:22:warning:Width 11: too big'' =
    Some \<lparr>is_Line = 174, is_Column = 22, is_Severity = ''warning'', is_Message = ''Width 11: too big'', is_Checker = ''cppcheck''\<rparr>"
proof -
  have "fmt_d 174 = ''174''" "fmt_d 22 = ''22''" by code_simp+
  then show ?thesis
    using cppcheck_line_roundtrip [of "''ingestion.c''" "''warning''" 174 22 "''Width 11: too big''"] by simp
qed









text \<open>
  C31. Linting all code gives one result per file found, in order, whose counters agree with its
  issue lists; the totals of errors, warnings, style issues and issues are the sums over the files,
  and with at least one file the score is 100 less five
  points per error, two per warning and half a point per style issue, rounded down and not
  below 0, the summary being passed exactly from 80 points on.
\<close>
theorem run_all_score:
  assumes "find_c_files env l \<noteq> []" "S = run_all env l"
    and "ls_TotalErrors S \<le> 2 ^ 40" "ls_TotalWarnings S \<le> 2 ^ 40" "ls_TotalStyle S \<le> 2 ^ 40"
  shows "map lr_File (ls_Files S) = find_c_files env l \<and> (\<forall>r \<in> set (ls_Files S). counts_ok r)
    \<and> ls_TotalFiles S = int (length (ls_Files S))
    \<and> ls_TotalErrors S = (\<Sum>r \<leftarrow> ls_Files S. int (length (lr_Errors r)))
    \<and> ls_TotalWarnings S = (\<Sum>r \<leftarrow> ls_Files S. int (length (lr_Warnings r)))
    \<and> ls_TotalStyle S = (\<Sum>r \<leftarrow> ls_Files S. int (length (lr_StyleIssues r)))
    \<and> ls_TotalIssues S = (\<Sum>r \<leftarrow> ls_Files S. lr_TotalIssues r)
    \<and> ls_Score S = (let d = 10 * ls_TotalErrors S + 4 * ls_TotalWarnings S + ls_TotalStyle S
                    in if d \<le> 200 then (200 - d) div 2 else 0)
    \<and> (ls_Passed S \<longleftrightarrow> 80 \<le> ls_Score S)"
proof -
  let ?fs = "find_c_files env l"
  have ok: "counts_ok (the_result env l f) \<and> lr_File (the_result env l f) = f" for f
    using run_cppcheck_ok [OF run_cppcheck_the] by blast
  have S: "ls_Files S = map (the_result env l) ?fs"
    "ls_TotalErrors S = (\<Sum>f \<leftarrow> ?fs. lr_ErrorCount (the_result env l f))"
    "ls_TotalWarnings S = (\<Sum>f \<leftarrow> ?fs. lr_WarningCount (the_result env l f))"
    "ls_TotalStyle S = (\<Sum>f \<leftarrow> ?fs. lr_StyleCount (the_result env l f))"
    "ls_TotalIssues S = (\<Sum>f \<leftarrow> ?fs. lr_TotalIssues (the_result env l f))" "ls_TotalFiles S = int (length ?fs)"
    by (simp_all add: assms(2) run_all_def run_all_loop empty_summary_def Let_def)
  have pos: "0 \<le> ls_TotalErrors S" "0 \<le> ls_TotalWarnings S" "0 \<le> ls_TotalStyle S"
    unfolding S(2-4) using ok by (auto simp: counts_ok_def intro!: sum_list_nonneg)
  have score: "ls_Score S = lint_score (ls_TotalErrors S) (ls_TotalWarnings S) (ls_TotalStyle S)"
    and pass: "ls_Passed S \<longleftrightarrow> 80 \<le> ls_Score S"
    using assms(1) by (simp_all add: assms(2) run_all_def run_all_loop empty_summary_def calculate_score_def Let_def)
  have sums: "ls_TotalFiles S = int (length (ls_Files S))" "ls_TotalErrors S = (\<Sum>r \<leftarrow> ls_Files S. int (length (lr_Errors r)))"
    "ls_TotalWarnings S = (\<Sum>r \<leftarrow> ls_Files S. int (length (lr_Warnings r)))"
    "ls_TotalStyle S = (\<Sum>r \<leftarrow> ls_Files S. int (length (lr_StyleIssues r)))"
    "ls_TotalIssues S = (\<Sum>r \<leftarrow> ls_Files S. lr_TotalIssues r)"
    unfolding S using ok by (simp_all add: comp_def counts_ok_def)
  have files: "map lr_File (ls_Files S) = ?fs" "\<forall>r \<in> set (ls_Files S). counts_ok r"
    unfolding S(1) using ok by (simp_all add: comp_def)
  show ?thesis
    unfolding Let_def using files sums pass score [unfolded lint_score_exact [OF pos assms(3-5), unfolded half_points_def]]
    by (intro conjI) assumption+
qed

text \<open>A tree in which each of the five services has one file with one error.\<close>

definition sample_env :: lint_env where
  "sample_env = \<lparr>le_readdir = (\<lambda>_. Some [(''a.c'', False), (''a.h'', False), (''old.c'', True)]), le_exists = (\<lambda>_. True),
     le_command = (\<lambda>_. (''a.c:1:2:error:bad'', True))\<rparr>"

definition sample_linter :: linter where
  "sample_linter = \<lparr>ln_servicesPath = ''srv'', ln_sharedPath = []\<rparr>"

theorem run_all_score_witness:
  "ls_Score (run_all sample_env sample_linter) = 75 \<and> \<not> ls_Passed (run_all sample_env sample_linter)"
proof -
  let ?S = "run_all sample_env sample_linter"
  have f: "find_c_files sample_env sample_linter \<noteq> []" by code_simp
  have t: "ls_TotalErrors ?S = 5" "ls_TotalWarnings ?S = 0" "ls_TotalStyle ?S = 0" by code_simp+
  show ?thesis using run_all_score [OF f refl] by (simp add: t)
qed

text \<open>
  The \<open>lint\<close> command grades one service on another scale than all of them: with the same
  findings, 9 warnings, the run over all code passes with B- and the run over the service
  fails with C; on both scales more points never give a worse letter.
\<close>
theorem service_scale_differs:
  "lint_score 0 9 0 = 82 \<and> lint_grade (lint_score 0 9 0) = ''B-'' \<and> service_grade (lint_score 0 9 0) = ''C''
   \<and> (\<exists>r. counts_ok r \<and> lr_WarningCount r = 9 \<and> lr_ErrorCount r = 0 \<and> lr_StyleCount r = 0
        \<and> \<not> ls_Passed (service_summary r) \<and> ls_Passed (calculate_score (add_file (empty_summary\<lparr>ls_TotalFiles := 1\<rparr>) r)))
   \<and> (\<forall>x y. x \<le> y \<longrightarrow> letter_rank lint_cuts (lint_grade x) \<le> letter_rank lint_cuts (lint_grade y)
        \<and> letter_rank service_cuts (service_grade x) \<le> letter_rank service_cuts (service_grade y))"
proof -
  define i where "i = \<lparr>is_Line = 1, is_Column = 1, is_Severity = ''warning'', is_Message = [], is_Checker = ''cppcheck''\<rparr>"
  define r where "r = (empty_lint_result ''s'')\<lparr>lr_Warnings := replicate 9 i, lr_WarningCount := 9, lr_TotalIssues := 9\<rparr>"
  have s: "lint_score 0 9 0 = 82" by (simp add: lint_score_exact half_points_def)
  have "counts_ok r" "lr_WarningCount r = 9" "lr_ErrorCount r = 0" "lr_StyleCount r = 0"
    "\<not> ls_Passed (service_summary r)" "ls_Passed (calculate_score (add_file (empty_summary\<lparr>ls_TotalFiles := 1\<rparr>) r))"
    using s by (simp_all add: r_def counts_ok_def empty_lint_result_def service_summary_def calculate_score_def
        add_file_def empty_summary_def Let_def)
  then show ?thesis
    using s lint_grades.letter_mono service_grades.letter_mono by (auto simp: lint_grade_def service_grade_def)
qed

theorem service_scale_differs_witness:
  "letter_rank lint_cuts (lint_grade 82) \<le> letter_rank lint_cuts (lint_grade 90)
   \<and> letter_rank service_cuts (service_grade 82) \<le> letter_rank service_cuts (service_grade 90)"
proof -
  have "(82 :: int) \<le> 90" by simp
  with service_scale_differs show ?thesis by blast
qed

end
