(* ===== verification/ServiceManager.thy ===== *)
theory ServiceManager
  imports GoSys
begin

text \<open>
  The service manager, \<^verbatim>\<open>pkg/services/manager.go\<close>. The operating system's answers to one call
  are a \<open>proc_env\<close>; a different environment may answer each call. The manager's state is its
  map of services; the operations return the error of the call and the new state.
\<close>

subsection \<open>Data\<close>

record health_status =
  hs_Healthy :: bool
  hs_LastCheck :: go_time
  hs_Message :: string

record service =
  sc_Name :: string
  sc_Binary :: string
  sc_Config :: string
  sc_PID :: int
  sc_StartTime :: go_time
  sc_Health :: health_status
  sc_Ports :: "string \<rightharpoonup> int"

record service_config =
  so_Binary :: string
  so_Config :: string
  so_Daemon :: bool
  so_Ports :: "string \<rightharpoonup> int"

record manager =
  mg_services :: "string \<rightharpoonup> service"

datatype signal = SIGTERM | SIGSTOP | SIGCONT | SIGZERO

text \<open>
  The environment of a call: which paths exist, what starting a program answers (an error or
  a process number), the errors of signals and kills, whether a process ends within the ten
  seconds \<open>Stop\<close> waits, whether a process is found, the clock, and file access.
\<close>

record proc_env =
  pe_exists :: "string \<Rightarrow> bool"
  pe_start :: "string \<Rightarrow> string list \<Rightarrow> string + int"
  pe_signal :: "int \<Rightarrow> signal \<Rightarrow> string option"
  pe_kill :: "int \<Rightarrow> string option"
  pe_ends_in_time :: "int \<Rightarrow> bool"
  pe_find_error :: "int \<Rightarrow> string option"
  pe_now :: go_time
  pe_read :: "string \<Rightarrow> string + string"

definition new_manager :: manager where
  "new_manager = \<lparr>mg_services = Map.empty\<rparr>"

subsection \<open>Finding the binary\<close>

fun first_existing :: "proc_env \<Rightarrow> string list \<Rightarrow> string option" where
  "first_existing env [] = None"
| "first_existing env (p # ps) = (if pe_exists env p then Some p else first_existing env ps)"

definition search_paths :: "string \<Rightarrow> string list" where
  "search_paths n =
     [''../../services/'' @ n @ ''/'' @ n, ''../services/'' @ n @ ''/'' @ n, ''./services/'' @ n @ ''/'' @ n,
      ''./services/'' @ n @ ''/bin/'' @ n, ''./bin/'' @ n, ''./'' @ n, ''/usr/local/bin/'' @ n]"

definition alt_paths :: "string \<Rightarrow> string \<Rightarrow> string list" where
  "alt_paths n alt =
     [''../services/'' @ n @ ''/'' @ alt, ''./services/'' @ n @ ''/'' @ alt, ''./services/'' @ n @ ''/bin/'' @ alt,
      ''./bin/'' @ alt, ''./'' @ alt, ''/usr/local/bin/'' @ alt]"

definition find_binary :: "proc_env \<Rightarrow> string \<Rightarrow> string" where
  "find_binary env name =
     (let names = [name, ''ws-'' @ name, ''ws_'' @ name]
      in case first_existing env (search_paths name) of
           Some p \<Rightarrow> p
         | None \<Rightarrow> (case first_existing env (concat (map (alt_paths name) (tl names))) of Some p \<Rightarrow> p | None \<Rightarrow> []))"

subsection \<open>Operations\<close>

definition start_args :: "service_config \<Rightarrow> string list" where
  "start_args cfg = (if so_Config cfg \<noteq> [] then [''--config'', so_Config cfg] else []) @
     (if so_Daemon cfg then [''--daemon''] else [])"

definition manager_start :: "proc_env \<Rightarrow> string \<Rightarrow> service_config \<Rightarrow> manager \<Rightarrow> (service option \<times> string option) \<times> manager" where
  "manager_start env name cfg m =
     (case mg_services m name of
        Some svc \<Rightarrow> ((Some svc, Some (''service '' @ name @ '' already running with pid '' @ fmt_d (sc_PID svc))), m)
      | None \<Rightarrow>
          (let binary = (if so_Binary cfg = [] then find_binary env name else so_Binary cfg)
           in if binary = [] then ((None, Some (''binary not found for service '' @ name)), m)
              else case pe_start env binary (start_args cfg) of
                Inl e \<Rightarrow> ((None, Some (''failed to start '' @ name @ '': '' @ e)), m)
              | Inr pid \<Rightarrow>
                  (let svc = \<lparr>sc_Name = name, sc_Binary = binary, sc_Config = so_Config cfg, sc_PID = pid,
                         sc_StartTime = pe_now env,
                         sc_Health = \<lparr>hs_Healthy = True, hs_LastCheck = pe_now env, hs_Message = ''started''\<rparr>,
                         sc_Ports = so_Ports cfg\<rparr>
                   in ((Some svc, None), m\<lparr>mg_services := (mg_services m)(name \<mapsto> svc)\<rparr>))))"

text \<open>\<open>Stop\<close>; the processes it kills by force are the third component.\<close>

definition manager_stop :: "proc_env \<Rightarrow> string \<Rightarrow> manager \<Rightarrow> string option \<times> manager \<times> int list" where
  "manager_stop env name m =
     (case mg_services m name of
        None \<Rightarrow> (Some (''service '' @ name @ '' not running''), m, [])
      | Some svc \<Rightarrow>
          (let finish = (\<lambda>killed. (None, m\<lparr>mg_services := (mg_services m)(name := None)\<rparr>,
                  killed @ (if pe_ends_in_time env (sc_PID svc) then [] else [sc_PID svc])))
           in case pe_signal env (sc_PID svc) SIGTERM of
                None \<Rightarrow> finish []
              | Some _ \<Rightarrow> (case pe_kill env (sc_PID svc) of
                    Some e \<Rightarrow> (Some (''failed to kill '' @ name @ '': '' @ e), m, [])
                  | None \<Rightarrow> finish [sc_PID svc])))"

text \<open>
  \<open>StopAll\<close> over the names in the order the map is ranged over; the errors are only logged, and
  the n-th stop meets the environment \<open>envs n\<close>.
\<close>

definition stop_all :: "(nat \<Rightarrow> proc_env) \<Rightarrow> string list \<Rightarrow> manager \<Rightarrow> manager" where
  "stop_all envs names m = snd (foldl (\<lambda>(n, m) name. (Suc n, fst (snd (manager_stop (envs n) name m)))) (0, m) names)"

definition set_health :: "string \<Rightarrow> service \<Rightarrow> health_status \<Rightarrow> manager \<Rightarrow> manager" where
  "set_health name svc h m = m\<lparr>mg_services := (mg_services m)(name \<mapsto> svc\<lparr>sc_Health := h\<rparr>)\<rparr>"

definition manager_health_check :: "proc_env \<Rightarrow> string \<Rightarrow> manager \<Rightarrow> (string + health_status) \<times> manager" where
  "manager_health_check env name m =
     (case mg_services m name of
        None \<Rightarrow> (Inl (''service '' @ name @ '' not found''), m)
      | Some svc \<Rightarrow>
          (let h = (\<lambda>ok msg. \<lparr>hs_Healthy = ok, hs_LastCheck = pe_now env, hs_Message = msg\<rparr>)
           in if pe_find_error env (sc_PID svc) \<noteq> None
              then (Inr (h False ''process not found''), set_health name svc (h False ''process not found'') m)
              else if pe_signal env (sc_PID svc) SIGZERO \<noteq> None
              then (Inr (h False ''process not responding''), set_health name svc (h False ''process not responding'') m)
              else (Inr (h True ''running''), set_health name svc (h True ''running'') m)))"

definition manager_get_service :: "string \<Rightarrow> manager \<Rightarrow> service option" where
  "manager_get_service name m = mg_services m name"

text \<open>The names in the order the map is ranged over: any enumeration of the domain.\<close>

definition service_names :: "manager \<Rightarrow> string list \<Rightarrow> bool" where
  "service_names m names \<longleftrightarrow> distinct names \<and> set names = dom (mg_services m)"

definition manager_send_signal :: "proc_env \<Rightarrow> string \<Rightarrow> signal \<Rightarrow> manager \<Rightarrow> string option" where
  "manager_send_signal env name sig m =
     (case mg_services m name of
        None \<Rightarrow> Some (''service '' @ name @ '' not running'')
      | Some svc \<Rightarrow> pe_signal env (sc_PID svc) sig)"

text \<open>PID files.\<close>

definition pid_file :: "string \<Rightarrow> string" where
  "pid_file name = path_join [''/tmp'', ''ws-'' @ name @ ''.pid'']"

definition write_pid_file :: "os_answers \<Rightarrow> service \<Rightarrow> file_result" where
  "write_pid_file os svc = write_file os (pid_file (sc_Name svc)) (fmt_d (sc_PID svc))"

definition read_pid_file :: "proc_env \<Rightarrow> string \<Rightarrow> string + int" where
  "read_pid_file env name = bind_sum (pe_read env (pid_file name)) atoi"

subsection \<open>Lemmas\<close>

lemma stop_spec:
  assumes "manager_stop env name m = (err, m', killed)"
  shows "(err = None \<longrightarrow> mg_services m' = (mg_services m)(name := None)) \<and> (err \<noteq> None \<longrightarrow> m' = m)
    \<and> (mg_services m name = None \<longrightarrow> err = Some (''service '' @ name @ '' not running''))
    \<and> (err \<noteq> None \<longrightarrow> killed = [])"
  using assms by (auto simp: manager_stop_def Let_def split: option.splits)

lemma health_check_dom: "dom (mg_services (snd (manager_health_check env name m))) = dom (mg_services m)"
  by (auto simp: manager_health_check_def set_health_def Let_def split: option.splits)

lemma stop_all_services:
  "mg_services (snd (foldl (\<lambda>(n, m) name. (Suc n, fst (snd (manager_stop (envs n) name m)))) (k, m) names)) x \<in> {None, mg_services m x}"
proof (induction names arbitrary: k m)
  case (Cons name names)
  obtain err m' killed where st: "manager_stop (envs k) name m = (err, m', killed)" by (cases "manager_stop (envs k) name m") auto
  have "mg_services m' x \<in> {None, mg_services m x}" using stop_spec [OF st] by (cases err) auto
  moreover have "mg_services (snd (foldl (\<lambda>(n, m) name. (Suc n, fst (snd (manager_stop (envs n) name m)))) (Suc k, m') names)) x
      \<in> {None, mg_services m' x}" by (rule Cons)
  ultimately show ?case by (auto simp: st)
qed simp

lemma stop_all_gone:
  "x \<in> set names \<Longrightarrow> (\<And>n pid. pe_signal (envs n) pid SIGTERM = None \<or> pe_kill (envs n) pid = None) \<Longrightarrow>
    mg_services (snd (foldl (\<lambda>(n, m) name. (Suc n, fst (snd (manager_stop (envs n) name m)))) (k, m) names)) x = None"
proof (induction names arbitrary: k m)
  case (Cons name names)
  obtain err m' killed where st: "manager_stop (envs k) name m = (err, m', killed)" by (cases "manager_stop (envs k) name m") auto
  show ?case
  proof (cases "x \<in> set names")
    case True
    then show ?thesis using Cons.IH [OF True Cons.prems(2)] by (simp add: st)
  next
    case False
    then have "x = name" using Cons.prems(1) by simp
    moreover have "mg_services m' name = None"
      using st Cons.prems(2) [of k "sc_PID (the (mg_services m name))"]
      by (auto simp: manager_stop_def Let_def split: option.splits)
    ultimately have "mg_services m' x = None" by simp
    then show ?thesis using stop_all_services [of envs "Suc k" m' names x] by (auto simp: st)
  qed
qed simp

lemma atoi_fmt_d: "- (2 ^ 63) \<le> i \<Longrightarrow> i < 2 ^ 63 \<Longrightarrow> atoi (fmt_d i) = Inr i"
proof -
  assume i: "- (2 ^ 63) \<le> i" "i < 2 ^ 63"
  have ds: "list_all is_digit (nat_str n)" for n using nat_str_digits by (simp add: list_all_iff)
  show ?thesis
  proof (cases "i < 0")
    case True
    then show ?thesis using i ds by (simp add: atoi_def fmt_d_def)
  next
    case False
    obtain c cs where c: "nat_str (nat i) = c # cs" by (cases "nat_str (nat i)") auto
    then have "is_digit c" using ds [of "nat i"] by simp
    then have "c \<noteq> CHR ''-''" "c \<noteq> CHR ''+''" by auto
    then show ?thesis using False i ds [of "nat i"] by (simp add: atoi_def fmt_d_def c) (simp flip: c)
  qed
qed

subsection \<open>Properties\<close>

text \<open>An environment in which every call succeeds, and a manager with one service.\<close>

definition calm_env :: proc_env where
  "calm_env = \<lparr>pe_exists = (\<lambda>_. True), pe_start = (\<lambda>_ _. Inr 7), pe_signal = (\<lambda>_ _. None), pe_kill = (\<lambda>_. None),
     pe_ends_in_time = (\<lambda>_. True), pe_find_error = (\<lambda>_. None), pe_now = epoch, pe_read = (\<lambda>_. Inl ''no such file'')\<rparr>"

definition one_service :: manager where
  "one_service = snd (manager_start calm_env ''ingestion''
     \<lparr>so_Binary = ''ingestion'', so_Config = [], so_Daemon = False, so_Ports = Map.empty\<rparr> new_manager)"

text \<open>
  The manager keeps one process per name: starting a running service is an error that
  returns the running instance and changes nothing; a start that succeeds registers the
  service under its name and leaves the others; a stop removes it exactly when it reports
  success, and a health check never adds or removes a service.
\<close>
theorem manager_lifecycle:
  "case manager_start env name cfg m of ((svc, err), m') \<Rightarrow>
     (err = None \<longrightarrow> mg_services m name = None \<and> (\<exists>s. svc = Some s \<and> sc_Name s = name \<and> mg_services m' = (mg_services m)(name \<mapsto> s)))
     \<and> (err \<noteq> None \<longrightarrow> m' = m \<and> svc = mg_services m name)
     \<and> (case manager_stop env' x m' of (err', m'', _) \<Rightarrow>
          (err' = None \<longleftrightarrow> mg_services m' x \<noteq> None \<and> mg_services m'' x = None) \<and> (\<forall>y. y \<noteq> x \<longrightarrow> mg_services m'' y = mg_services m' y))
     \<and> dom (mg_services (snd (manager_health_check env' x m'))) = dom (mg_services m')"
proof -
  obtain svc err m' where st: "manager_start env name cfg m = ((svc, err), m')"
    by (cases "manager_start env name cfg m") auto
  have start: "(err = None \<longrightarrow> mg_services m name = None \<and> (\<exists>s. svc = Some s \<and> sc_Name s = name \<and> mg_services m' = (mg_services m)(name \<mapsto> s)))
     \<and> (err \<noteq> None \<longrightarrow> m' = m \<and> svc = mg_services m name)"
    using st by (auto simp: manager_start_def Let_def split: option.splits if_splits sum.splits)
  obtain err' m'' killed where sp: "manager_stop env' x m' = (err', m'', killed)" by (cases "manager_stop env' x m'") auto
  have "(err' = None \<longleftrightarrow> mg_services m' x \<noteq> None \<and> mg_services m'' x = None) \<and> (\<forall>y. y \<noteq> x \<longrightarrow> mg_services m'' y = mg_services m' y)"
    using stop_spec [OF sp] by (cases err') auto
  then show ?thesis using start health_check_dom by (simp add: st sp)
qed

theorem manager_lifecycle_witness:
  "\<exists>svc m'. manager_start calm_env ''query'' \<lparr>so_Binary = [], so_Config = [], so_Daemon = True, so_Ports = Map.empty\<rparr> one_service
      = ((Some svc, None), m') \<and> sc_Name svc = ''query'' \<and> mg_services m' = (mg_services one_service)(''query'' \<mapsto> svc)
      \<and> fst (manager_stop calm_env ''query'' m') = None"
proof -
  let ?cfg = "\<lparr>so_Binary = [], so_Config = [], so_Daemon = True, so_Ports = Map.empty\<rparr> :: service_config"
  obtain svc m' where st: "manager_start calm_env ''query'' ?cfg one_service = ((Some svc, None), m')"
    by (simp add: one_service_def manager_start_def new_manager_def calm_env_def find_binary_def search_paths_def Let_def)
  then have "fst (manager_stop calm_env ''query'' m') = None"
    using manager_lifecycle [where env = calm_env and name = "''query''" and cfg = ?cfg and m = one_service and env' = calm_env and x = "''query''"]
    by (auto simp: manager_stop_def calm_env_def Let_def)
  then show ?thesis
    using st manager_lifecycle [where env = calm_env and name = "''query''" and cfg = ?cfg and m = one_service and env' = calm_env and x = "''query''"] by simp
qed

text \<open>
  \<open>StopAll\<close> leaves no service running when every process can be signalled or killed, whatever
  the order of the map; if some cannot, the services that remain are unchanged.
\<close>
theorem stop_all_empties:
  assumes "service_names m names"
  shows "(\<forall>x. mg_services (stop_all envs names m) x \<in> {None, mg_services m x})
    \<and> ((\<forall>n pid. pe_signal (envs n) pid SIGTERM = None \<or> pe_kill (envs n) pid = None) \<longrightarrow> mg_services (stop_all envs names m) = Map.empty)"
proof (intro conjI allI impI)
  show "mg_services (stop_all envs names m) x \<in> {None, mg_services m x}" for x
    unfolding stop_all_def by (rule stop_all_services)
next
  assume ok: "\<forall>n pid. pe_signal (envs n) pid SIGTERM = None \<or> pe_kill (envs n) pid = None"
  show "mg_services (stop_all envs names m) = Map.empty"
  proof
    fix x
    show "mg_services (stop_all envs names m) x = None"
    proof (cases "x \<in> set names")
      case True
      then show ?thesis using stop_all_gone [OF True, of envs 0 m] ok unfolding stop_all_def by simp
    next
      case False
      then have "mg_services m x = None" using assms by (auto simp: service_names_def)
      then show ?thesis using stop_all_services [of envs 0 m names x] by (simp add: stop_all_def)
    qed
  qed
qed

theorem stop_all_empties_witness:
  "mg_services (stop_all (\<lambda>_. calm_env) [''ingestion''] one_service) = Map.empty \<and> mg_services one_service \<noteq> Map.empty"
proof -
  have "dom (mg_services one_service) = {''ingestion''}"
    by (simp add: one_service_def manager_start_def new_manager_def calm_env_def Let_def)
  then have "service_names one_service [''ingestion'']" "mg_services one_service \<noteq> Map.empty"
    by (simp add: service_names_def) (metis \<open>dom (mg_services one_service) = {''ingestion''}\<close> dom_empty insert_not_empty)
  then show ?thesis using stop_all_empties [of one_service "[''ingestion'']" "\<lambda>_. calm_env"]
    by (simp add: calm_env_def)
qed

end
