(* ===== verification/Chaos.thy ===== *)
theory Chaos
  imports ServiceManager
begin

text \<open>
  The chaos engineer, \<^verbatim>\<open>pkg/chaos/engineer.go\<close>, and the \<open>chaos\<close> command, \<^verbatim>\<open>pkg/cmd/chaos.go\<close>.

  \<^item> The engineer works on any \<open>ServiceManager\<close>: the Go interface is the record \<open>sm_ops\<close> of
    operations on a state \<open>'s\<close>, and its laws are the locale \<open>service_ops\<close>.
  \<^item> The adapter of the command gives the operations of the manager of \<open>ServiceManager\<close>; the
    locale is interpreted on it.
  \<^item> Waiting is answered by the caller: at each \<open>select\<close> between the context and a timer a
    boolean tells whether the context ended first.
\<close>

subsection \<open>The interface\<close>

record 's sm_ops =
  sm_Stop :: "string \<Rightarrow> 's \<Rightarrow> string option \<times> 's"
  sm_SendSignal :: "string \<Rightarrow> signal \<Rightarrow> 's \<Rightarrow> string option \<times> 's"
  sm_HealthCheck :: "string \<Rightarrow> 's \<Rightarrow> (string + bool) \<times> 's"
  sm_GetService :: "string \<Rightarrow> 's \<Rightarrow> bool"

record chaos_result =
  xr_Scenario :: string
  xr_Action :: string
  xr_Target :: string
  xr_Duration :: int
  xr_Success :: bool
  xr_Error :: "string option"
  xr_RecoveryTime :: int
  xr_Timestamp :: go_time

record engineer =
  en_results :: "chaos_result list"

definition new_engineer :: engineer where
  "new_engineer = \<lparr>en_results = []\<rparr>"

definition ctx_err :: string where
  "ctx_err = ''context deadline exceeded''"

text \<open>Waiting: the first answer of the list says that the context ended before the timer.\<close>

fun wait_for :: "bool list \<Rightarrow> (bool list \<Rightarrow> string option) \<Rightarrow> string option" where
  "wait_for [] k = k []"
| "wait_for (ended # ws) k = (if ended then Some ctx_err else k ws)"

subsection \<open>Actions\<close>

definition action_kill :: "'s sm_ops \<Rightarrow> string \<Rightarrow> bool list \<Rightarrow> 's \<Rightarrow> string option \<times> 's" where
  "action_kill sm target ws s = (case sm_Stop sm target s of
     (Some e, s') \<Rightarrow> (Some (''failed to kill '' @ target @ '': '' @ e), s')
   | (None, s') \<Rightarrow> (wait_for ws (\<lambda>_. None), s'))"

definition action_stop :: "'s sm_ops \<Rightarrow> string \<Rightarrow> bool list \<Rightarrow> 's \<Rightarrow> string option \<times> 's" where
  "action_stop sm target ws s = (case sm_SendSignal sm target SIGTERM s of
     (Some e, s') \<Rightarrow> (Some (''failed to stop '' @ target @ '': '' @ e), s')
   | (None, s') \<Rightarrow> (wait_for ws (\<lambda>_. None), s'))"

definition action_restart :: "'s sm_ops \<Rightarrow> string \<Rightarrow> bool list \<Rightarrow> 's \<Rightarrow> string option \<times> 's" where
  "action_restart sm target ws s = (case sm_Stop sm target s of
     (Some e, s') \<Rightarrow> (Some (''failed to stop '' @ target @ '': '' @ e), s')
   | (None, s') \<Rightarrow> (wait_for ws (\<lambda>ws'. wait_for ws' (\<lambda>_. None)), s'))"

definition action_signal :: "'s sm_ops \<Rightarrow> string \<Rightarrow> signal \<Rightarrow> bool list \<Rightarrow> 's \<Rightarrow> string option \<times> 's" where
  "action_signal sm target sig ws s = (case sm_SendSignal sm target sig s of
     (Some e, s') \<Rightarrow> (Some (''failed to send signal to '' @ target @ '': '' @ e), s')
   | (None, s') \<Rightarrow> (wait_for ws (\<lambda>_. None), s'))"

definition action_delay :: "bool list \<Rightarrow> 's \<Rightarrow> string option \<times> 's" where
  "action_delay ws s = (wait_for ws (\<lambda>_. None), s)"

text \<open>\<open>RunAction\<close>, given the start time and the time that passed.\<close>

definition run_action :: "'s sm_ops \<Rightarrow> go_time \<Rightarrow> int \<Rightarrow> string \<Rightarrow> string \<Rightarrow> int \<Rightarrow> bool list \<Rightarrow> engineer \<times> 's \<Rightarrow> string option \<times> engineer \<times> 's" where
  "run_action sm start elapsed target action duration ws st =
     (case st of (e, s) \<Rightarrow>
        let (err, s') =
          (if action = ''kill'' then action_kill sm target ws s
           else if action = ''stop'' then action_stop sm target ws s
           else if action = ''restart'' then action_restart sm target ws s
           else if action = ''signal'' then action_signal sm target SIGTERM ws s
           else if action = ''delay'' then action_delay ws s
           else (Some (''unknown action: '' @ action), s));
          result = \<lparr>xr_Scenario = [], xr_Action = action, xr_Target = target, xr_Duration = duration,
                    xr_Success = (err = None), xr_Error = err, xr_RecoveryTime = elapsed - duration, xr_Timestamp = start\<rparr>
        in (err, e\<lparr>en_results := en_results e @ [result]\<rparr>, s'))"

subsection \<open>Scenarios\<close>

definition run_leader_failover :: "'s sm_ops \<Rightarrow> bool list \<Rightarrow> 's \<Rightarrow> string option \<times> 's" where
  "run_leader_failover sm ws s = (case sm_HealthCheck sm ''ingestion'' s of
     (Inl e, s1) \<Rightarrow> (Some (''leader not healthy before test: '' @ e), s1)
   | (Inr healthy, s1) \<Rightarrow>
       (if \<not> healthy then (Some (''leader not healthy before test: <nil>''), s1)
        else case sm_Stop sm ''ingestion'' s1 of
          (Some e, s2) \<Rightarrow> (Some (''failed to kill leader: '' @ e), s2)
        | (None, s2) \<Rightarrow> (wait_for ws (\<lambda>_. None), s2)))"

text \<open>
  The loop of \<open>runServiceKill\<close>. It stops the first of the services that exists, and says whether
  there was one. Time is counted in nanoseconds from the start of the scenario and moves with
  the sleeps of a round, 5 s after a stop and 10 s at its end; \<open>late n\<close> is what passes beside them
  (the calls, sleeps that last longer) up to the n-th look at the clock.
\<close>

fun kill_first :: "'s sm_ops \<Rightarrow> string list \<Rightarrow> 's \<Rightarrow> bool \<times> 's" where
  "kill_first sm [] s = (False, s)"
| "kill_first sm (svc # svcs) s = (if sm_GetService sm svc s then (True, snd (sm_Stop sm svc s)) else kill_first sm svcs s)"

definition kill_services :: "string list" where
  "kill_services = [''ingestion'', ''s2_processor'', ''s3_api'', ''s4_cluster'']"

partial_function (option) service_kill_loop ::
    "'s sm_ops \<Rightarrow> (nat \<Rightarrow> nat) \<Rightarrow> (nat \<Rightarrow> bool) \<Rightarrow> int \<Rightarrow> nat \<Rightarrow> int \<Rightarrow> 's \<Rightarrow> (string option \<times> 's) option" where
  "service_kill_loop sm late ended end_time n time s =
     (let now = time + int (late n)
      in if now < end_time
         then if ended n then Some (Some ctx_err, s)
              else (case kill_first sm kill_services s of (found, s') \<Rightarrow>
                let now1 = (if found then now + 5 * 1000000000 else now);
                    now2 = now1 + 10 * 1000000000
                in service_kill_loop sm late ended end_time (Suc n) now2 s')
         else Some (None, s))"

definition run_service_kill :: "'s sm_ops \<Rightarrow> (nat \<Rightarrow> nat) \<Rightarrow> (nat \<Rightarrow> bool) \<Rightarrow> int \<Rightarrow> 's \<Rightarrow> (string option \<times> 's) option" where
  "run_service_kill sm late ended duration s = service_kill_loop sm late ended duration 0 0 s"

definition cascade_step :: "'s sm_ops \<Rightarrow> 's \<Rightarrow> string \<Rightarrow> 's" where
  "cascade_step sm s svc = (if sm_GetService sm svc s then snd (sm_Stop sm svc s) else s)"

definition cascade_services :: "string list" where
  "cascade_services = [''s4_cluster'', ''s3_api'', ''s2_processor'', ''ingestion'']"

definition run_cascading_failure :: "'s sm_ops \<Rightarrow> bool list \<Rightarrow> 's \<Rightarrow> string option \<times> 's" where
  "run_cascading_failure sm ws s =
     (let s' = foldl (cascade_step sm) s cascade_services in (wait_for ws (\<lambda>_. None), s'))"

text \<open>Resource pressure only logs: the signals are comments of the source.\<close>

definition run_resource_pressure :: "bool list \<Rightarrow> 's \<Rightarrow> string option \<times> 's" where
  "run_resource_pressure ws s = (wait_for ws (\<lambda>ws'. wait_for ws' (\<lambda>_. None)), s)"

definition run_scenario ::
    "'s sm_ops \<Rightarrow> (nat \<Rightarrow> nat) \<Rightarrow> (nat \<Rightarrow> bool) \<Rightarrow> string \<Rightarrow> int \<Rightarrow> bool list \<Rightarrow> 's \<Rightarrow> (string option \<times> 's) option" where
  "run_scenario sm late ended name duration ws s =
     (if name = ''leader_failover'' then Some (run_leader_failover sm ws s)
      else if name = ''service_kill'' then run_service_kill sm late ended duration s
      else if name = ''cascading_failure'' then Some (run_cascading_failure sm ws s)
      else if name = ''resource_pressure'' then Some (run_resource_pressure ws s)
      else Some (Some (''unknown scenario: '' @ name), s))"

subsection \<open>The contract of a service manager\<close>

locale service_ops =
  fixes sm :: "'s sm_ops" and inv :: "'s \<Rightarrow> bool"
  assumes inv_stop: "inv s \<Longrightarrow> inv (snd (sm_Stop sm n s))"
    and inv_signal: "inv s \<Longrightarrow> inv (snd (sm_SendSignal sm n g s))"
    and inv_health: "inv s \<Longrightarrow> inv (snd (sm_HealthCheck sm n s))"
    and stop_gone: "inv s \<Longrightarrow> fst (sm_Stop sm n s) = None \<Longrightarrow> \<not> sm_GetService sm n (snd (sm_Stop sm n s))"
    and stop_other: "inv s \<Longrightarrow> x \<noteq> n \<or> fst (sm_Stop sm n s) \<noteq> None \<Longrightarrow>
          sm_GetService sm x (snd (sm_Stop sm n s)) = sm_GetService sm x s"
    and stop_unknown: "inv s \<Longrightarrow> \<not> sm_GetService sm n s \<Longrightarrow> fst (sm_Stop sm n s) \<noteq> None"
    and signal_same: "inv s \<Longrightarrow> sm_GetService sm x (snd (sm_SendSignal sm n g s)) = sm_GetService sm x s"
    and signal_unknown: "inv s \<Longrightarrow> \<not> sm_GetService sm n s \<Longrightarrow> fst (sm_SendSignal sm n g s) \<noteq> None"
    and health_same: "inv s \<Longrightarrow> sm_GetService sm x (snd (sm_HealthCheck sm n s)) = sm_GetService sm x s"
    and health_unknown: "inv s \<Longrightarrow> \<not> sm_GetService sm n s \<Longrightarrow> \<exists>e. fst (sm_HealthCheck sm n s) = Inl e"
begin

text \<open>Nothing ever starts a service.\<close>

lemma stop_none_started: "inv s \<Longrightarrow> sm_GetService sm x (snd (sm_Stop sm n s)) \<Longrightarrow> sm_GetService sm x s"
  using stop_other [of s x n] stop_gone [of s n] by (cases "x = n") auto

text \<open>The services an operation has removed; a round of kills removes at most one.\<close>

definition removed :: "'s \<Rightarrow> 's \<Rightarrow> string set" where
  "removed s s' = {x. sm_GetService sm x s \<and> \<not> sm_GetService sm x s'}"

lemma removed_trans: "removed s t \<subseteq> removed s u \<union> removed u t"
  by (auto simp: removed_def)

lemma kill_first_effect:
  assumes "inv s"
  shows "inv (snd (kill_first sm svcs s)) \<and> (\<forall>x. sm_GetService sm x (snd (kill_first sm svcs s)) \<longrightarrow> sm_GetService sm x s)
    \<and> (\<exists>n. removed s (snd (kill_first sm svcs s)) \<subseteq> {n})"
proof (induction svcs)
  case (Cons n svcs)
  have "removed s (snd (sm_Stop sm n s)) \<subseteq> {n}" using stop_other [OF assms, of _ n] by (auto simp: removed_def)
  then show ?case using Cons inv_stop [OF assms, of n] stop_none_started [OF assms] by auto
qed (simp add: assms removed_def)

lemma cascade_inv: "inv s \<Longrightarrow> inv (foldl (cascade_step sm) s svcs)"
  by (induction svcs arbitrary: s) (auto simp: cascade_step_def inv_stop)

lemma cascade_none_started: "inv s \<Longrightarrow> sm_GetService sm x (foldl (cascade_step sm) s svcs) \<Longrightarrow> sm_GetService sm x s"
proof (induction svcs arbitrary: s)
  case (Cons n svcs)
  have i: "inv (cascade_step sm s n)" using Cons.prems(1) by (simp add: cascade_step_def inv_stop)
  then have "sm_GetService sm x (cascade_step sm s n)" using Cons.IH Cons.prems(2) by simp
  then show ?case using stop_none_started [OF Cons.prems(1)] by (auto simp: cascade_step_def split: if_splits)
qed simp

text \<open>After the cascade, a service that could be stopped is gone.\<close>

lemma cascade_gone:
  assumes "inv s" "n \<in> set svcs" "\<And>t. inv t \<Longrightarrow> sm_GetService sm n t \<Longrightarrow> fst (sm_Stop sm n t) = None"
  shows "\<not> sm_GetService sm n (foldl (cascade_step sm) s svcs)"
  using assms(1,2)
proof (induction svcs arbitrary: s)
  case (Cons m svcs)
  have i: "inv (cascade_step sm s m)" using Cons.prems(1) by (simp add: cascade_step_def inv_stop)
  show ?case
  proof (cases "n \<in> set svcs")
    case True
    then show ?thesis using Cons.IH [OF i] by simp
  next
    case False
    then have "m = n" using Cons.prems(2) by simp
    then have "\<not> sm_GetService sm n (cascade_step sm s m)"
      using assms(3) [OF Cons.prems(1)] stop_gone [OF Cons.prems(1)] by (auto simp: cascade_step_def)
    then show ?thesis using cascade_none_started [OF i] by auto
  qed
qed simp

text \<open>What a successful action leaves: kill and restart remove the target, the others nothing.\<close>

lemma run_action_effect:
  assumes "inv s" "run_action sm start elapsed target action d ws (e, s) = (err, e', s')"
  shows "inv s' \<and> (\<forall>x. sm_GetService sm x s' \<longrightarrow> sm_GetService sm x s)
    \<and> (err = None \<and> action \<in> {''kill'', ''restart''} \<longrightarrow> sm_GetService sm target s \<and> \<not> sm_GetService sm target s')
    \<and> (err = None \<and> action \<in> {''stop'', ''signal''} \<longrightarrow> sm_GetService sm target s)
    \<and> (\<exists>r. en_results e' = en_results e @ [r] \<and> xr_Success r = (err = None) \<and> xr_Error r = err \<and> xr_Target r = target)"
proof -
  obtain se1 ss1 where st: "sm_Stop sm target s = (se1, ss1)" by (cases "sm_Stop sm target s")
  obtain se2 ss2 where sg: "sm_SendSignal sm target SIGTERM s = (se2, ss2)" by (cases "sm_SendSignal sm target SIGTERM s")
  have stop: "inv ss1" "\<And>x. sm_GetService sm x ss1 \<Longrightarrow> sm_GetService sm x s"
    "se1 = None \<Longrightarrow> sm_GetService sm target s \<and> \<not> sm_GetService sm target ss1"
    using inv_stop [OF assms(1), of target] stop_none_started [OF assms(1)] stop_gone [OF assms(1), of target]
      stop_unknown [OF assms(1), of target] st by (auto, metis snd_conv)
  have sig: "inv ss2" "\<And>x. sm_GetService sm x ss2 = sm_GetService sm x s" "se2 = None \<Longrightarrow> sm_GetService sm target s"
    using inv_signal [OF assms(1), of target SIGTERM] signal_same [OF assms(1), of _ target SIGTERM]
      signal_unknown [OF assms(1), of target SIGTERM] sg by auto
  show ?thesis
    using assms stop sig
    by (auto simp: run_action_def Let_def action_kill_def action_stop_def action_restart_def action_signal_def
        action_delay_def st sg split: option.splits if_splits)
qed

text \<open>
  The kill loop returns after some number of rounds: with no error once the time is over, with
  that of the context before.
\<close>

lemma service_kill_loop_returns:
  assumes "inv s" "0 \<le> time"
  shows "\<exists>err s' k. service_kill_loop sm late ended end_time n time s = Some (err, s') \<and> inv s'
    \<and> (\<forall>x. sm_GetService sm x s' \<longrightarrow> sm_GetService sm x s) \<and> finite (removed s s') \<and> card (removed s s') \<le> k
    \<and> (k = 0 \<or> time + 10000000000 * (int k - 1) < end_time)
    \<and> (err = None \<longrightarrow> end_time \<le> time + (\<Sum>i \<in> {n..n + k}. int (late i)) + 15000000000 * int k)
    \<and> (err \<noteq> None \<longrightarrow> err = Some ctx_err \<and> ended (n + k))
    \<and> (\<forall>i < k. \<not> ended (n + i))"
  using assms
proof (induction "nat (end_time - time)" arbitrary: n time s rule: less_induct)
  case less
  let ?now = "time + int (late n)"
  show ?case
  proof (cases "?now < end_time \<and> \<not> ended n")
    case False
    then show ?thesis using less.prems
      by (subst service_kill_loop.simps) (auto simp: Let_def removed_def intro!: exI [of _ 0])
  next
    case True
    obtain found u where u: "kill_first sm kill_services s = (found, u)" by (cases "kill_first sm kill_services s")
    define t where "t = (if found then ?now + 5000000000 else ?now) + 10000000000"
    have t: "time + int (late n) + 10000000000 \<le> t" "t \<le> time + int (late n) + 15000000000" "0 \<le> t"
      using less.prems(2) by (auto simp: t_def)
    have eff: "inv u" "\<forall>x. sm_GetService sm x u \<longrightarrow> sm_GetService sm x s" "\<exists>m. removed s u \<subseteq> {m}"
      using kill_first_effect [OF less.prems(1), of kill_services] u by auto
    have "nat (end_time - t) < nat (end_time - time)" using True t(1) by linarith
    from less.hyps [OF this eff(1) t(3), of "Suc n"] obtain err s' k where
      r: "service_kill_loop sm late ended end_time (Suc n) t u = Some (err, s')" "inv s'"
        "\<forall>x. sm_GetService sm x s' \<longrightarrow> sm_GetService sm x u" "finite (removed u s')" "card (removed u s') \<le> k"
      and k: "k = 0 \<or> t + 10000000000 * (int k - 1) < end_time"
        "err = None \<longrightarrow> end_time \<le> t + (\<Sum>i \<in> {Suc n..Suc n + k}. int (late i)) + 15000000000 * int k"
        "err \<noteq> None \<longrightarrow> err = Some ctx_err \<and> ended (Suc n + k)" "\<forall>i < k. \<not> ended (Suc n + i)"
      by blast
    obtain m where m: "removed s s' \<subseteq> insert m (removed u s')" using eff(3) removed_trans [of s s' u] by blast
    then have fin: "finite (removed s s')" using r(4) by (meson finite_insert finite_subset)
    have "card (removed s s') \<le> card (insert m (removed u s'))" using m r(4) by (intro card_mono) simp_all
    also have "\<dots> \<le> Suc k" using r(4,5) by (simp add: card_insert_if)
    finally have card: "card (removed s s') \<le> Suc k" .
    have run: "service_kill_loop sm late ended end_time n time s = Some (err, s')"
      using True r(1) by (subst service_kill_loop.simps, cases found) (simp_all add: Let_def u t_def)
    have sums: "(\<Sum>i \<in> {n..n + Suc k}. int (late i)) = int (late n) + (\<Sum>i \<in> {Suc n..Suc n + k}. int (late i))"
      by (subst sum.atLeast_Suc_atMost) simp_all
    have "\<not> ended (n + i)" if "i < Suc k" for i using that True k(4) by (cases i) auto
    moreover have "time + 10000000000 * (int (Suc k) - 1) < end_time" using k(1) t(1) True by auto
    moreover have "err = None \<longrightarrow> end_time \<le> time + (\<Sum>i \<in> {n..n + Suc k}. int (late i)) + 15000000000 * int (Suc k)"
      using k(2) t(2) unfolding sums by auto
    ultimately show ?thesis using run r(2,3) eff(2) fin card k(3)
      by (intro exI [of _ err] exI [of _ s'] exI [of _ "Suc k"]) auto
  qed
qed

end

subsection \<open>The adapter of the command\<close>

text \<open>
  \<open>chaosServiceManager\<close>: the state is the manager with the number of calls made so far; the
  environment of the n-th call is \<open>envs n\<close>.
\<close>

definition csm_stop :: "(nat \<Rightarrow> proc_env) \<Rightarrow> string \<Rightarrow> manager \<times> nat \<Rightarrow> string option \<times> (manager \<times> nat)" where
  "csm_stop envs n st = (case st of (m, k) \<Rightarrow> case manager_stop (envs k) n m of (err, m', _) \<Rightarrow> (err, (m', Suc k)))"

definition csm_send_signal :: "(nat \<Rightarrow> proc_env) \<Rightarrow> string \<Rightarrow> signal \<Rightarrow> manager \<times> nat \<Rightarrow> string option \<times> (manager \<times> nat)" where
  "csm_send_signal envs n g st = (case st of (m, k) \<Rightarrow> (manager_send_signal (envs k) n g m, (m, Suc k)))"

definition csm_health_check :: "(nat \<Rightarrow> proc_env) \<Rightarrow> string \<Rightarrow> manager \<times> nat \<Rightarrow> (string + bool) \<times> (manager \<times> nat)" where
  "csm_health_check envs n st = (case st of (m, k) \<Rightarrow> case manager_health_check (envs k) n m of
     (Inl e, m') \<Rightarrow> (Inl e, (m', Suc k)) | (Inr h, m') \<Rightarrow> (Inr (hs_Healthy h), (m', Suc k)))"

definition csm_get_service :: "string \<Rightarrow> manager \<times> nat \<Rightarrow> bool" where
  "csm_get_service n st = (manager_get_service n (fst st) \<noteq> None)"

definition chaos_sm :: "(nat \<Rightarrow> proc_env) \<Rightarrow> (manager \<times> nat) sm_ops" where
  "chaos_sm envs = \<lparr>sm_Stop = csm_stop envs, sm_SendSignal = csm_send_signal envs,
     sm_HealthCheck = csm_health_check envs, sm_GetService = csm_get_service\<rparr>"

lemma csm_stop_spec:
  "case csm_stop envs n (m, k) of (err, (m', k')) \<Rightarrow>
     (err = None \<longrightarrow> mg_services m n \<noteq> None \<and> mg_services m' = (mg_services m)(n := None)) \<and> (err \<noteq> None \<longrightarrow> m' = m)"
proof -
  obtain err m' killed where st: "manager_stop (envs k) n m = (err, m', killed)" by (cases "manager_stop (envs k) n m") auto
  show ?thesis using stop_spec [OF st] by (auto simp: csm_stop_def st)
qed

lemma csm_health_dom: "dom (mg_services (fst (snd (csm_health_check envs n (m, k))))) = dom (mg_services m)"
  using health_check_dom [of "envs k" n m]
  by (cases "manager_health_check (envs k) n m") (auto simp: csm_health_check_def split: sum.splits)

interpretation csm: service_ops "chaos_sm envs" "\<lambda>_. True" for envs
proof unfold_locales
  fix s :: "manager \<times> nat" and n x :: string and g
  obtain m k where s: "s = (m, k)" by (cases s)
  obtain err m' k' where st: "csm_stop envs n (m, k) = (err, (m', k'))" by (cases "csm_stop envs n (m, k)") auto
  note spec = csm_stop_spec [where envs = envs and n = n and m = m and k = k, unfolded st prod.case]
  note d = chaos_sm_def csm_get_service_def manager_get_service_def s
  show "fst (sm_Stop (chaos_sm envs) n s) = None \<Longrightarrow> \<not> sm_GetService (chaos_sm envs) n (snd (sm_Stop (chaos_sm envs) n s))"
    using spec by (simp add: d st)
  show "x \<noteq> n \<or> fst (sm_Stop (chaos_sm envs) n s) \<noteq> None \<Longrightarrow>
      sm_GetService (chaos_sm envs) x (snd (sm_Stop (chaos_sm envs) n s)) = sm_GetService (chaos_sm envs) x s"
    using spec by (cases err) (auto simp: d st)
  show "\<not> sm_GetService (chaos_sm envs) n s \<Longrightarrow> fst (sm_Stop (chaos_sm envs) n s) \<noteq> None"
    using spec by (auto simp: d st)
  show "sm_GetService (chaos_sm envs) x (snd (sm_SendSignal (chaos_sm envs) n g s)) = sm_GetService (chaos_sm envs) x s"
    by (simp add: d csm_send_signal_def)
  show "\<not> sm_GetService (chaos_sm envs) n s \<Longrightarrow> fst (sm_SendSignal (chaos_sm envs) n g s) \<noteq> None"
    by (simp add: d csm_send_signal_def manager_send_signal_def)
  show "sm_GetService (chaos_sm envs) x (snd (sm_HealthCheck (chaos_sm envs) n s)) = sm_GetService (chaos_sm envs) x s"
    using csm_health_dom [of envs n m k] by (auto simp: d dom_def set_eq_iff)
  show "\<not> sm_GetService (chaos_sm envs) n s \<Longrightarrow> \<exists>e. fst (sm_HealthCheck (chaos_sm envs) n s) = Inl e"
    by (simp add: d csm_health_check_def manager_health_check_def)
qed simp_all

text \<open>\<open>runChaos\<close>: the error it returns, the results it logs and the services that run at its end.\<close>

definition run_chaos ::
    "(nat \<Rightarrow> proc_env) \<Rightarrow> (nat \<Rightarrow> nat) \<Rightarrow> (nat \<Rightarrow> bool) \<Rightarrow> go_time \<Rightarrow> int \<Rightarrow> string \<Rightarrow> string \<Rightarrow> string \<Rightarrow> int \<Rightarrow> bool list \<Rightarrow>
     (string option \<times> chaos_result list \<times> manager) option" where
  "run_chaos envs late ended start elapsed scenario target action duration ws =
     (if scenario = [] \<and> action = [] then Some (None, [], new_manager)
      else let sm = chaos_sm envs; s = (new_manager, 0)
           in if scenario \<noteq> []
              then map_option (\<lambda>(err, s'). (err, en_results new_engineer, fst s'))
                     (run_scenario sm late ended scenario duration ws s)
              else if target = [] then Some (None, [], new_manager)
              else (case run_action sm start elapsed target action duration ws (new_engineer, s) of
                      (err, e, s') \<Rightarrow> Some (err, en_results e, fst s')))"

subsection \<open>Properties\<close>

text \<open>
  C29. An action on the managed services never starts anything; if it reports success, a kill or a
  restart has removed its target (the restart does not start it again), a stop or a signal
  has found its target, and the engineer's log grows by one entry that agrees with the error.
\<close>
theorem chaos_action_effect:
  assumes "run_action (chaos_sm envs) start elapsed target action d ws (e, (m, k)) = (err, e', (m', k'))"
  shows "dom (mg_services m') \<subseteq> dom (mg_services m)
    \<and> (err = None \<and> action \<in> {''kill'', ''restart''} \<longrightarrow> mg_services m target \<noteq> None \<and> mg_services m' target = None)
    \<and> (err = None \<and> action \<in> {''stop'', ''signal''} \<longrightarrow> mg_services m target \<noteq> None)
    \<and> (\<exists>r. en_results e' = en_results e @ [r] \<and> xr_Success r = (err = None) \<and> xr_Error r = err \<and> xr_Target r = target)"
  using csm.run_action_effect [OF TrueI assms]
  by (simp add: chaos_sm_def csm_get_service_def manager_get_service_def) blast

theorem chaos_action_effect_witness:
  "\<exists>e' m' k'. run_action (chaos_sm (\<lambda>_. calm_env)) epoch 70 ''ingestion'' ''restart'' 60 [] (new_engineer, (one_service, 0)) = (None, e', (m', k'))
     \<and> mg_services one_service ''ingestion'' \<noteq> None \<and> mg_services m' ''ingestion'' = None"
proof -
  have svc: "\<exists>s. mg_services one_service ''ingestion'' = Some s"
    by (simp add: one_service_def manager_start_def new_manager_def calm_env_def Let_def)
  then obtain e' m' k' where r: "run_action (chaos_sm (\<lambda>_. calm_env)) epoch 70 ''ingestion'' ''restart'' 60 []
      (new_engineer, (one_service, 0)) = (None, e', (m', k'))"
    by (auto simp: run_action_def Let_def action_restart_def chaos_sm_def csm_stop_def manager_stop_def calm_env_def)
  show ?thesis using r chaos_action_effect [OF r] by auto
qed

text \<open>
  C30. The service-kill scenario ends, however much time passes beside its sleeps: after some
  number of rounds, each of at least ten seconds and all but the last look at the clock within the
  duration, having removed at most one service per round and started none. It reports no error
  exactly when it ended because the duration had passed; otherwise the context had ended, for the
  first time.
\<close>
theorem service_kill_returns:
  "\<exists>err m' c' k. run_service_kill (chaos_sm envs) late ended duration (m, c) = Some (err, (m', c'))
    \<and> dom (mg_services m') \<subseteq> dom (mg_services m)
    \<and> finite (dom (mg_services m) - dom (mg_services m')) \<and> card (dom (mg_services m) - dom (mg_services m')) \<le> k
    \<and> (k = 0 \<or> 10000000000 * (int k - 1) < duration)
    \<and> (err = None \<longrightarrow> duration \<le> (\<Sum>i \<le> k. int (late i)) + 15000000000 * int k)
    \<and> (err \<noteq> None \<longrightarrow> err = Some ctx_err \<and> ended k) \<and> (\<forall>i < k. \<not> ended i)"
proof -
  obtain err s' k where r: "service_kill_loop (chaos_sm envs) late ended duration 0 0 (m, c) = Some (err, s')"
      "\<forall>x. sm_GetService (chaos_sm envs) x s' \<longrightarrow> sm_GetService (chaos_sm envs) x (m, c)"
      "finite (csm.removed envs (m, c) s')" "card (csm.removed envs (m, c) s') \<le> k" "k = 0 \<or> 10000000000 * (int k - 1) < duration"
      "err = None \<longrightarrow> duration \<le> (\<Sum>i \<in> {0..k}. int (late i)) + 15000000000 * int k"
      "err \<noteq> None \<longrightarrow> err = Some ctx_err \<and> ended k" "\<forall>i < k. \<not> ended i"
    using csm.service_kill_loop_returns [OF TrueI order_refl, where envs = envs and late = late and ended = ended
        and end_time = duration and n = 0 and s = "(m, c)"] unfolding add_0 by blast
  have "csm.removed envs (m, c) s' = dom (mg_services m) - dom (mg_services (fst s'))"
    unfolding csm.removed_def by (auto simp: chaos_sm_def csm_get_service_def manager_get_service_def)
  moreover have "dom (mg_services (fst s')) \<subseteq> dom (mg_services m)"
    using r(2) by (auto simp: chaos_sm_def csm_get_service_def manager_get_service_def)
  ultimately show ?thesis using r by (cases s') (auto simp: run_service_kill_def atLeast0AtMost)
qed

theorem service_kill_returns_witness:
  "\<exists>m' c'. run_service_kill (chaos_sm (\<lambda>_. calm_env)) (\<lambda>_. 0) (\<lambda>_. False) 60000000000 (one_service, 0)
      = Some (None, (m', c')) \<and> dom (mg_services m') \<subseteq> dom (mg_services one_service)"
  using service_kill_returns [of "\<lambda>_. calm_env" "\<lambda>_. 0" "\<lambda>_. False" 60000000000 one_service 0] by auto

text \<open>
  The \<open>chaos\<close> command cannot touch a service: it works on a manager of its own in which
  nothing was started, so every kill, stop, restart and signal fails, the leader failover
  fails before it begins, and a cascading failure over time reports success with no service
  ever stopped.
\<close>
theorem chaos_command_finds_nothing:
  "(action \<in> {''kill'', ''stop'', ''restart'', ''signal''} \<and> target \<noteq> [] \<longrightarrow>
     (\<exists>e rs m. run_chaos envs late ended start elapsed [] target action d ws = Some (Some e, rs, m)))
   \<and> run_chaos envs late ended start elapsed ''leader_failover'' target action d ws =
       Some (Some ''leader not healthy before test: service ingestion not found'', [], new_manager)
   \<and> run_chaos envs late ended start elapsed ''cascading_failure'' target action d [False] = Some (None, [], new_manager)"
proof (intro conjI impI)
  assume "action \<in> {''kill'', ''stop'', ''restart'', ''signal''} \<and> target \<noteq> []"
  then show "\<exists>e rs m. run_chaos envs late ended start elapsed [] target action d ws = Some (Some e, rs, m)"
    by (auto simp: run_chaos_def Let_def run_action_def action_kill_def action_stop_def action_restart_def action_signal_def
        chaos_sm_def csm_stop_def csm_send_signal_def manager_stop_def manager_send_signal_def new_manager_def)
next
  show "run_chaos envs late ended start elapsed ''leader_failover'' target action d ws =
       Some (Some ''leader not healthy before test: service ingestion not found'', [], new_manager)"
    by (simp add: run_chaos_def Let_def run_scenario_def run_leader_failover_def chaos_sm_def csm_health_check_def
        manager_health_check_def new_manager_def new_engineer_def)
next
  show "run_chaos envs late ended start elapsed ''cascading_failure'' target action d [False] = Some (None, [], new_manager)"
    by (simp add: run_chaos_def Let_def run_scenario_def run_cascading_failure_def cascade_services_def cascade_step_def
        chaos_sm_def csm_get_service_def manager_get_service_def new_manager_def new_engineer_def)
qed

theorem chaos_command_finds_nothing_witness:
  "\<exists>e rs m. run_chaos (\<lambda>_. calm_env) (\<lambda>n. n) (\<lambda>_. False) epoch 5 [] ''ingestion'' ''kill'' 3 [] = Some (Some e, rs, m)"
  using chaos_command_finds_nothing [of "''kill''" "''ingestion''" "\<lambda>_. calm_env" "\<lambda>n. n" "\<lambda>_. False" epoch 5 3 "[]",
      THEN conjunct1, THEN mp]
  by simp

end
