(* ===== verification/GoRand.thy ===== *)
theory GoRand
  imports Prelude
begin

text \<open>
  The part of \<^verbatim>\<open>math/rand\<close> the harness uses. The random source is a tape of draws: \<open>Intn n\<close>
  takes the next draw modulo \<open>n\<close>, \<open>Read\<close> one draw per byte, so that every sequence of answers
  in range is a tape. A computation that draws is a function of the tape that may panic; it
  is \<open>draws_ok\<close> for \<open>Q\<close> when on every tape it returns a value with \<open>Q\<close>.
\<close>

type_synonym tape = "nat \<Rightarrow> nat"
type_synonym 'a draw = "tape \<Rightarrow> panic + 'a \<times> tape"

definition intn :: "int \<Rightarrow> int draw" where
  "intn n t = (if n \<le> 0 then Inl InvalidIntnArgument else Inr (int (t 0) mod n, \<lambda>i. t (Suc i)))"

definition draw_byte :: "byte draw" where
  "draw_byte t = Inr (word_of_nat (t 0), \<lambda>i. t (Suc i))"

definition ret :: "'a \<Rightarrow> 'a draw" where
  "ret x t = Inr (x, t)"

definition bind_draw :: "'a draw \<Rightarrow> ('a \<Rightarrow> 'b draw) \<Rightarrow> 'b draw" where
  "bind_draw f k t = bind_sum (f t) (\<lambda>(x, t'). k x t')"

text \<open>A draw sequence repeated \<open>n\<close> times, as the loops over the length do, and a loop that updates a state.\<close>

fun repeat_draw :: "nat \<Rightarrow> 'a draw \<Rightarrow> 'a list draw" where
  "repeat_draw 0 f t = Inr ([], t)"
| "repeat_draw (Suc n) f t = bind_sum (f t) (\<lambda>(x, t'). bind_sum (repeat_draw n f t') (\<lambda>(xs, t''). Inr (x # xs, t'')))"

fun iterate_draw :: "nat \<Rightarrow> ('a \<Rightarrow> 'a draw) \<Rightarrow> 'a \<Rightarrow> 'a draw" where
  "iterate_draw 0 f x = ret x"
| "iterate_draw (Suc n) f x = bind_draw (f x) (iterate_draw n f)"

definition rand_read :: "nat \<Rightarrow> bytes draw" where
  "rand_read n = repeat_draw n draw_byte"

subsection \<open>Draws that succeed\<close>

definition draws_ok :: "'a draw \<Rightarrow> ('a \<Rightarrow> bool) \<Rightarrow> bool" where
  "draws_ok f Q \<longleftrightarrow> (\<forall>t. \<exists>x t'. f t = Inr (x, t') \<and> Q x)"

lemma draws_okE: "draws_ok f Q \<Longrightarrow> (\<And>x t'. f t = Inr (x, t') \<Longrightarrow> Q x \<Longrightarrow> R) \<Longrightarrow> R"
  by (auto simp: draws_ok_def)

lemma draws_ok_mono: "draws_ok f P \<Longrightarrow> (\<And>x. P x \<Longrightarrow> Q x) \<Longrightarrow> draws_ok f Q"
  unfolding draws_ok_def by blast

lemma draws_ok_ret [intro]: "Q x \<Longrightarrow> draws_ok (ret x) Q"
  by (simp add: draws_ok_def ret_def)

lemma draws_ok_bind: "draws_ok f P \<Longrightarrow> (\<And>x. P x \<Longrightarrow> draws_ok (k x) Q) \<Longrightarrow> draws_ok (bind_draw f k) Q"
  unfolding draws_ok_def bind_draw_def by (metis bind_sum.simps(2) old.prod.case)

lemma intn_ok: "0 < n \<Longrightarrow> draws_ok (intn n) (\<lambda>k. 0 \<le> k \<and> k < n)"
  by (simp add: draws_ok_def intn_def)

lemma intn_bind: "0 < n \<Longrightarrow> (\<And>k. 0 \<le> k \<Longrightarrow> k < n \<Longrightarrow> draws_ok (f k) Q) \<Longrightarrow> draws_ok (bind_draw (intn n) f) Q"
  by (rule draws_ok_bind [OF intn_ok]) auto

lemma intn_panics: "n \<le> 0 \<Longrightarrow> bind_draw (intn n) k t = Inl InvalidIntnArgument"
  by (simp add: bind_draw_def intn_def)

lemma repeat_draw_ok: "draws_ok f Q \<Longrightarrow> draws_ok (repeat_draw n f) (\<lambda>xs. length xs = n \<and> (\<forall>x \<in> set xs. Q x))"
proof (induction n)
  case 0
  then show ?case by (simp add: draws_ok_def)
next
  case (Suc n)
  note rep = Suc.IH [OF Suc.prems]
  show ?case unfolding draws_ok_def
  proof
    fix t
    obtain x t1 where "f t = Inr (x, t1)" "Q x" using Suc.prems by (rule draws_okE)
    moreover obtain xs t2 where "repeat_draw n f t1 = Inr (xs, t2)" "length xs = n \<and> (\<forall>x \<in> set xs. Q x)"
      using rep by (rule draws_okE)
    ultimately show "\<exists>x t'. repeat_draw (Suc n) f t = Inr (x, t') \<and> length x = Suc n \<and> (\<forall>x \<in> set x. Q x)" by simp
  qed
qed

text \<open>An invariant of the body is one of the loop; after at least one round what the body gives holds too.\<close>

lemma iterate_draw_ok:
  assumes "\<And>x. I x \<Longrightarrow> draws_ok (f x) (\<lambda>y. I y \<and> R y)" "I x"
  shows "draws_ok (iterate_draw n f x) (\<lambda>y. I y \<and> (0 < n \<longrightarrow> R y))"
  using assms(2)
proof (induction n arbitrary: x)
  case (Suc n)
  show ?case unfolding iterate_draw.simps
  proof (rule draws_ok_bind [OF assms(1) [OF Suc.prems]])
    fix y assume y: "I y \<and> R y"
    show "draws_ok (iterate_draw n f y) (\<lambda>z. I z \<and> (0 < Suc n \<longrightarrow> R z))"
    proof (cases n)
      case 0
      then show ?thesis using y by auto
    next
      case (Suc m)
      then show ?thesis using Suc.IH y by (intro draws_ok_mono [OF Suc.IH]) auto
    qed
  qed
qed auto

lemma rand_read_ok: "draws_ok (rand_read n) (\<lambda>bs. length bs = n)"
  unfolding rand_read_def
  by (rule draws_ok_mono [OF repeat_draw_ok [where Q = "\<lambda>_. True"]]) (simp_all add: draws_ok_def draw_byte_def)

end
