(* ===== verification/PropTest.thy ===== *)
theory PropTest
  imports GoText GoRand "HOL-Library.Signed_Division"
begin

text \<open>
  The property-based testing library, \<^verbatim>\<open>pkg/property/testing.go\<close>.

  \<^item> Values of type \<open>interface{}\<close> are the datatype \<open>val\<close>; a type assertion on another
    constructor is a panic. The generators of the package are the datatype \<open>gen\<close>, and
    \<open>generate\<close> and \<open>shrink\<close> are the methods of its interface.
  \<^item> The random source is the tape of \<open>GoRand\<close>. Which entry a range over a map meets first is
    the parameter \<open>pick\<close>.
  \<^item> The property is a function that answers true or false or panics, and the shrink loop is
    bounded by the number of shrinks, as in the code.
\<close>

subsection \<open>Values, draws and generators\<close>

datatype val = VNil | VInt int | VStr string | VSlice "val list" | VMap "(val \<times> val) list" | VPair val val

datatype gen =
    GInt int int
  | GStr int int string
  | GSlice int int gen
  | GMap int int gen gen
  | GOneOf "gen list"
  | GPair gen gen

definition default_chars :: string where
  "default_chars = ''abcdefghijklmnopqrstuvwxyzABCDEFGHIJKLMNOPQRSTUVWXYZ0123456789''"

definition draw_length :: "int \<Rightarrow> int \<Rightarrow> tape \<Rightarrow> panic + int \<times> tape" where
  "draw_length mn mx t = bind_sum (intn (i64 (i64 (mx - mn) + 1)) t) (\<lambda>(k, t'). Inr (i64 (mn + k), t'))"

fun hashable :: "val \<Rightarrow> bool" where
  "hashable (VSlice _) = False"
| "hashable (VMap _) = False"
| "hashable (VPair a b) = (hashable a \<and> hashable b)"
| "hashable _ = True"

text \<open>Assigning to a map, an association list with distinct keys.\<close>

fun map_put :: "val \<Rightarrow> val \<Rightarrow> (val \<times> val) list \<Rightarrow> (val \<times> val) list" where
  "map_put k v [] = [(k, v)]"
| "map_put k v ((k', v') # m) = (if k' = k then (k, v) # m else (k', v') # map_put k v m)"

fun draw_entries :: "nat \<Rightarrow> (tape \<Rightarrow> panic + val \<times> tape) \<Rightarrow> (tape \<Rightarrow> panic + val \<times> tape) \<Rightarrow> (val \<times> val) list \<Rightarrow> tape \<Rightarrow>
    panic + (val \<times> val) list \<times> tape" where
  "draw_entries 0 fk fv m t = Inr (m, t)"
| "draw_entries (Suc n) fk fv m t = bind_sum (fk t) (\<lambda>(k, t1). bind_sum (fv t1) (\<lambda>(v, t2).
     if hashable k then draw_entries n fk fv (map_put k v m) t2 else Inl UnhashableKey))"

definition draw_char :: "string \<Rightarrow> tape \<Rightarrow> panic + char \<times> tape" where
  "draw_char chars t = bind_sum (intn (int (length chars)) t) (\<lambda>(i, t'). Inr (chars ! nat i, t'))"

text \<open>
  \<open>Generate\<close>, for each kind of generator.
\<close>

fun generate :: "gen \<Rightarrow> tape \<Rightarrow> panic + val \<times> tape"
  and generate_nth :: "gen list \<Rightarrow> nat \<Rightarrow> tape \<Rightarrow> panic + val \<times> tape" where
  "generate (GInt mn mx) t = bind_sum (intn (i64 (i64 (mx - mn) + 1)) t) (\<lambda>(k, t'). Inr (VInt (i64 (k + mn)), t'))"
| "generate (GStr mn mx chars) t = bind_sum (draw_length mn mx t) (\<lambda>(n, t').
     if n < 0 then Inl MakeSliceLenOutOfRange
     else bind_sum (repeat_draw (nat n) (draw_char (if chars = [] then default_chars else chars)) t')
            (\<lambda>(s, t''). Inr (VStr s, t'')))"
| "generate (GSlice mn mx g) t = bind_sum (draw_length mn mx t) (\<lambda>(n, t').
     if n < 0 then Inl MakeSliceLenOutOfRange
     else bind_sum (repeat_draw (nat n) (\<lambda>t. generate g t) t') (\<lambda>(xs, t''). Inr (VSlice xs, t'')))"
| "generate (GMap mn mx kg vg) t = bind_sum (draw_length mn mx t) (\<lambda>(n, t').
     bind_sum (draw_entries (nat n) (\<lambda>t. generate kg t) (\<lambda>t. generate vg t) [] t') (\<lambda>(m, t''). Inr (VMap m, t'')))"
| "generate (GOneOf gs) t =
     (if gs = [] then Inr (VNil, t)
      else bind_sum (intn (int (length gs)) t) (\<lambda>(i, t'). generate_nth gs (nat i) t'))"
| "generate (GPair g1 g2) t = bind_sum (generate g1 t) (\<lambda>(a, t1). bind_sum (generate g2 t1) (\<lambda>(b, t2). Inr (VPair a b, t2)))"
| "generate_nth [] k t = Inl IndexOutOfRange"
| "generate_nth (g # gs) k t = (case k of 0 \<Rightarrow> generate g t | Suc j \<Rightarrow> generate_nth gs j t)"

text \<open>The three cuts of \<open>Shrink\<close> on strings and slices; the first panics on an empty one.\<close>

definition cuts :: "int \<Rightarrow> 'a list \<Rightarrow> panic + 'a list list" where
  "cuts mn xs =
     (if int (length xs) > mn
      then if xs = [] then Inl SliceOutOfRange else Inr [butlast xs, tl xs, take (length xs div 2) xs]
      else Inr [])"

fun shrink_each :: "('a \<Rightarrow> panic + 'a list) \<Rightarrow> 'a list \<Rightarrow> 'a list \<Rightarrow> panic + 'a list list" where
  "shrink_each f before [] = Inr []"
| "shrink_each f before (x # xs) = bind_sum (f x) (\<lambda>ys.
     bind_sum (shrink_each f (before @ [x]) xs) (\<lambda>rest. Inr (map (\<lambda>y. before @ y # xs) ys @ rest)))"

fun shrink :: "((val \<times> val) list \<Rightarrow> nat) \<Rightarrow> gen \<Rightarrow> val \<Rightarrow> panic + val list"
  and shrink_one_of :: "((val \<times> val) list \<Rightarrow> nat) \<Rightarrow> gen list \<Rightarrow> val \<Rightarrow> panic + val list" where
  "shrink pick (GInt mn mx) v = (case v of
     VInt n \<Rightarrow> Inr ((if n > mn then [VInt (n sdiv 2), VInt (i64 (n - 1))] else []) @ (if n < 0 then [VInt (i64 (- n))] else []))
   | _ \<Rightarrow> Inl TypeAssertion)"
| "shrink pick (GStr mn mx chars) v = (case v of
     VStr s \<Rightarrow> bind_sum (cuts mn s) (\<lambda>cs. Inr (map VStr cs))
   | _ \<Rightarrow> Inl TypeAssertion)"
| "shrink pick (GSlice mn mx g) v = (case v of
     VSlice xs \<Rightarrow>
       (if int (length xs) > mn
        then bind_sum (cuts mn xs) (\<lambda>cs. bind_sum (shrink_each (\<lambda>x. shrink pick g x) [] xs) (\<lambda>es. Inr (map VSlice (cs @ es))))
        else Inr [])
   | _ \<Rightarrow> Inl TypeAssertion)"
| "shrink pick (GMap mn mx kg vg) v = (case v of
     VMap m \<Rightarrow>
       (if int (length m) > mn \<and> m \<noteq> []
        then Inr [VMap (filter (\<lambda>(k, _). k \<noteq> fst (m ! (pick m mod length m))) m)]
        else Inr [])
   | _ \<Rightarrow> Inl TypeAssertion)"
| "shrink pick (GOneOf gs) v = shrink_one_of pick gs v"
| "shrink pick (GPair g1 g2) v = (case v of
     VPair a b \<Rightarrow> bind_sum (shrink pick g1 a) (\<lambda>us. bind_sum (shrink pick g2 b) (\<lambda>ws.
       Inr (map (\<lambda>a'. VPair a' b) us @ map (\<lambda>b'. VPair a b') ws)))
   | _ \<Rightarrow> Inl TypeAssertion)"
| "shrink_one_of pick [] v = Inr []"
| "shrink_one_of pick (g # gs) v = bind_sum (shrink pick g v) (\<lambda>cs. if cs \<noteq> [] then Inr cs else shrink_one_of pick gs v)"

subsection \<open>Tests\<close>

type_synonym property_fn = "val \<Rightarrow> panic + bool"

record ptest =
  pt_name :: string
  pt_property :: property_fn
  pt_generator :: gen
  pt_maxShrinks :: int

definition new_test :: "string \<Rightarrow> property_fn \<Rightarrow> gen \<Rightarrow> ptest" where
  "new_test name property g = \<lparr>pt_name = name, pt_property = property, pt_generator = g, pt_maxShrinks = 100\<rparr>"

record pconfig =
  pf_Iterations :: int
  pf_MaxShrink :: int
  pf_Seed :: int

record presult =
  pr_Passed :: bool
  pr_Name :: string
  pr_Runs :: int
  pr_Shrinks :: int
  pr_FailedValue :: val
  pr_Error :: string

fun first_failing :: "property_fn \<Rightarrow> val list \<Rightarrow> panic + val option" where
  "first_failing p [] = Inr None"
| "first_failing p (c # cs) = bind_sum (p c) (\<lambda>ok. if \<not> ok then Inr (Some c) else first_failing p cs)"

text \<open>The shrink loop; the first argument is how many shrinks are still allowed.\<close>

fun shrink_loop :: "nat \<Rightarrow> ((val \<times> val) list \<Rightarrow> nat) \<Rightarrow> ptest \<Rightarrow> val \<Rightarrow> int \<Rightarrow> panic + val \<times> int" where
  "shrink_loop 0 pick t current shrinks = Inr (current, shrinks)"
| "shrink_loop (Suc n) pick t current shrinks =
     bind_sum (shrink pick (pt_generator t) current) (\<lambda>candidates.
       if candidates = [] then Inr (current, shrinks)
       else bind_sum (first_failing (pt_property t) candidates) (\<lambda>found. case found of
         None \<Rightarrow> Inr (current, shrinks)
       | Some c \<Rightarrow> shrink_loop n pick t c (shrinks + 1)))"

definition shrink_value :: "((val \<times> val) list \<Rightarrow> nat) \<Rightarrow> ptest \<Rightarrow> val \<Rightarrow> int \<Rightarrow> panic + val \<times> int" where
  "shrink_value pick t value maxShrinks = shrink_loop (nat maxShrinks) pick t value 0"

text \<open>
  \<open>Run\<close>: \<open>rest\<close> is the number of iterations left; \<open>ended i\<close> says whether the context has ended
  before iteration \<open>i\<close>, \<open>shw\<close> is the \<open>%v\<close> format of a value.
\<close>

fun run_loop :: "nat \<Rightarrow> ((val \<times> val) list \<Rightarrow> nat) \<Rightarrow> (nat \<Rightarrow> bool) \<Rightarrow> (val \<Rightarrow> string) \<Rightarrow> ptest \<Rightarrow> int \<Rightarrow> int \<Rightarrow> nat \<Rightarrow> tape \<Rightarrow> panic + presult" where
  "run_loop 0 pick ended shw t maxShrink iterations i tp =
     Inr \<lparr>pr_Passed = True, pr_Name = pt_name t, pr_Runs = iterations, pr_Shrinks = 0, pr_FailedValue = VNil, pr_Error = []\<rparr>"
| "run_loop (Suc rest) pick ended shw t maxShrink iterations i tp =
     (if ended i
      then Inr \<lparr>pr_Passed = False, pr_Name = pt_name t, pr_Runs = int i, pr_Shrinks = 0, pr_FailedValue = VNil,
                pr_Error = ''context cancelled''\<rparr>
      else bind_sum (generate (pt_generator t) tp) (\<lambda>(value, tp').
        bind_sum (pt_property t value) (\<lambda>ok.
          if ok then run_loop rest pick ended shw t maxShrink iterations (Suc i) tp'
          else bind_sum (shrink_value pick t value maxShrink) (\<lambda>(shrunk, shrinks).
            Inr \<lparr>pr_Passed = False, pr_Name = pt_name t, pr_Runs = int i + 1, pr_Shrinks = shrinks,
                 pr_FailedValue = shrunk, pr_Error = ''property failed for value: '' @ shw shrunk\<rparr>))))"

text \<open>The seed only selects the tape, so the tape of a run is its parameter.\<close>

definition run_test :: "((val \<times> val) list \<Rightarrow> nat) \<Rightarrow> (nat \<Rightarrow> bool) \<Rightarrow> (val \<Rightarrow> string) \<Rightarrow> tape \<Rightarrow> pconfig \<Rightarrow> ptest \<Rightarrow> panic + presult" where
  "run_test pick ended shw tp cfg t =
     (let iterations = (if pf_Iterations cfg = 0 then 100 else pf_Iterations cfg);
          maxShrink = (if pf_MaxShrink cfg = 0 then pt_maxShrinks t else pf_MaxShrink cfg)
      in run_loop (nat iterations) pick ended shw t maxShrink iterations 0 tp)"

text \<open>\<open>ForAll2\<close>: pairs of two generators, with the type assertion of its wrapper.\<close>

definition for_all2 :: "string \<Rightarrow> gen \<Rightarrow> gen \<Rightarrow> (val \<Rightarrow> val \<Rightarrow> panic + bool) \<Rightarrow> ptest" where
  "for_all2 name g1 g2 property =
     new_test name (\<lambda>v. case v of VPair a b \<Rightarrow> property a b | _ \<Rightarrow> Inl TypeAssertion) (GPair g1 g2)"

subsection \<open>The runner and its report\<close>

text \<open>\<open>Runner.Run\<close>: each test has a tape and a context of its own.\<close>

fun run_tests :: "((val \<times> val) list \<Rightarrow> nat) \<Rightarrow> (nat \<Rightarrow> nat \<Rightarrow> bool) \<Rightarrow> (val \<Rightarrow> string) \<Rightarrow> (nat \<Rightarrow> tape) \<Rightarrow> pconfig \<Rightarrow> ptest list \<Rightarrow> panic + presult list" where
  "run_tests pick ended shw tapes cfg [] = Inr []"
| "run_tests pick ended shw tapes cfg (t # ts) =
     bind_sum (run_test pick (ended 0) shw (tapes 0) cfg t) (\<lambda>r.
       bind_sum (run_tests pick (\<lambda>k. ended (Suc k)) shw (\<lambda>k. tapes (Suc k)) cfg ts) (\<lambda>rs. Inr (r # rs)))"

record psummary =
  ps_TotalTests :: int
  ps_Passed :: int
  ps_Failed :: int
  ps_Results :: "presult list"

definition psummary_step :: "psummary \<Rightarrow> presult \<Rightarrow> psummary" where
  "psummary_step s r = (if pr_Passed r then s\<lparr>ps_Passed := ps_Passed s + 1\<rparr> else s\<lparr>ps_Failed := ps_Failed s + 1\<rparr>)"

definition generate_report :: "presult list \<Rightarrow> psummary" where
  "generate_report results = foldl psummary_step
     \<lparr>ps_TotalTests = int (length results), ps_Passed = 0, ps_Failed = 0, ps_Results = results\<rparr> results"

definition psummary_all_passed :: "psummary \<Rightarrow> bool" where
  "psummary_all_passed s \<longleftrightarrow> ps_Failed s = 0"

interpretation psummary: counter_pair psummary_step ps_Passed ps_Failed pr_Passed
  by unfold_locales (simp_all add: psummary_step_def)

subsection \<open>Lemmas\<close>




text \<open>
  What a generator promises of its values. The entries of a map are drawn one after the other and
  keys may repeat, so there may be fewer than the lower bound, but not none if it is positive.
\<close>

fun in_range :: "gen \<Rightarrow> val \<Rightarrow> bool" where
  "in_range (GInt mn mx) v = (case v of VInt n \<Rightarrow> mn \<le> n \<and> n \<le> mx | _ \<Rightarrow> False)"
| "in_range (GStr mn mx chars) v = (case v of
     VStr s \<Rightarrow> mn \<le> int (length s) \<and> int (length s) \<le> mx \<and> set s \<subseteq> set (if chars = [] then default_chars else chars)
   | _ \<Rightarrow> False)"
| "in_range (GSlice mn mx g) v = (case v of
     VSlice xs \<Rightarrow> mn \<le> int (length xs) \<and> int (length xs) \<le> mx \<and> (\<forall>x \<in> set xs. in_range g x) | _ \<Rightarrow> False)"
| "in_range (GMap mn mx kg vg) v = (case v of
     VMap m \<Rightarrow> (0 < mn \<longrightarrow> m \<noteq> []) \<and> int (length m) \<le> mx \<and> distinct (map fst m) \<and> (\<forall>x \<in> set m. in_range kg (fst x) \<and> in_range vg (snd x)) | _ \<Rightarrow> False)"
| "in_range (GOneOf gs) v = (gs = [] \<and> v = VNil \<or> (\<exists>g \<in> set gs. in_range g v))"
| "in_range (GPair a b) v = (case v of VPair x y \<Rightarrow> in_range a x \<and> in_range b y | _ \<Rightarrow> False)"







text \<open>The value of iteration \<open>i\<close> of a run.\<close>

fun drawn :: "gen \<Rightarrow> nat \<Rightarrow> tape \<Rightarrow> panic + val" where
  "drawn g 0 t = bind_sum (generate g t) (\<lambda>(v, _). Inr v)"
| "drawn g (Suc i) t = bind_sum (generate g t) (\<lambda>(_, t'). drawn g i t')"

lemma first_failing_some: "first_failing p cs = Inr (Some c) \<Longrightarrow> c \<in> set cs \<and> p c = Inr False"
  by (induction cs) (auto simp: bind_simps split: if_splits)

lemma shrink_loop_sound:
  assumes "shrink_loop n pick t v k = Inr (v', k')" "pt_property t v = Inr False"
  shows "pt_property t v' = Inr False \<and> k \<le> k' \<and> k' \<le> k + int n"
  using assms
proof (induction n pick t v k rule: shrink_loop.induct)
  case (2 n pick t v k)
  from 2(2) obtain cs where cs: "shrink pick (pt_generator t) v = Inr cs" by (auto simp: bind_simps)
  show ?case
  proof (cases "cs = []")
    case True
    then show ?thesis using 2(2,3) cs by simp
  next
    case False
    then obtain found where f: "first_failing (pt_property t) cs = Inr found" using 2(2) cs by (auto simp: bind_simps)
    show ?thesis
    proof (cases found)
      case None
      then show ?thesis using 2(2,3) cs f False by simp
    next
      case (Some c)
      then have "pt_property t c = Inr False" using f first_failing_some by blast
      moreover have "shrink_loop n pick t c (k + 1) = Inr (v', k')" using 2(2) cs f False Some by simp
      ultimately show ?thesis using 2(1) [OF False] by force
    qed
  qed
qed simp

definition sound_result :: "(nat \<Rightarrow> bool) \<Rightarrow> ptest \<Rightarrow> tape \<Rightarrow> nat \<Rightarrow> nat \<Rightarrow> int \<Rightarrow> presult \<Rightarrow> bool" where
  "sound_result ended t tp i rest maxShrink r \<longleftrightarrow>
     (pr_Passed r \<longrightarrow> (\<forall>j < rest. \<not> ended (i + j) \<and> (\<exists>v. drawn (pt_generator t) j tp = Inr v \<and> pt_property t v = Inr True)))
     \<and> (\<not> pr_Passed r \<longrightarrow>
          (pr_Error r = ''context cancelled'' \<and> int i \<le> pr_Runs r \<and> pr_Runs r < int (i + rest) \<and> ended (nat (pr_Runs r)))
          \<or> (pt_property t (pr_FailedValue r) = Inr False \<and> 0 \<le> pr_Shrinks r \<and> pr_Shrinks r \<le> max 0 maxShrink
             \<and> int i < pr_Runs r \<and> pr_Runs r \<le> int (i + rest)
             \<and> (\<exists>v. drawn (pt_generator t) (nat (pr_Runs r) - 1 - i) tp = Inr v \<and> pt_property t v = Inr False)))"

lemma run_loop_sound:
  "run_loop rest pick ended shw t maxShrink iterations i tp = Inr r \<Longrightarrow> sound_result ended t tp i rest maxShrink r"
proof (induction rest arbitrary: i tp)
  case 0
  then show ?case by (auto simp: sound_result_def)
next
  case (Suc rest)
  show ?case
  proof (cases "ended i")
    case True
    then show ?thesis using Suc.prems by (auto simp: sound_result_def)
  next
    case False
    from Suc.prems False obtain v tp' where v: "generate (pt_generator t) tp = Inr (v, tp')" by (auto simp: bind_simps)
    with Suc.prems False obtain ok where ok: "pt_property t v = Inr ok" by (auto simp: bind_simps)
    show ?thesis
    proof (cases ok)
      case True
      then have s: "sound_result ended t tp' (Suc i) rest maxShrink r" using Suc.prems False v ok by (intro Suc.IH) simp
      show ?thesis
      proof (cases "pr_Passed r")
        case True
        have "\<not> ended (i + j) \<and> (\<exists>v. drawn (pt_generator t) j tp = Inr v \<and> pt_property t v = Inr True)" if "j < Suc rest" for j
          using that s True False v ok \<open>ok\<close> by (cases j) (auto simp: sound_result_def)
        then show ?thesis using True by (simp add: sound_result_def)
      next
        case np: False
        have "drawn (pt_generator t) (nat (pr_Runs r) - 1 - i) tp = drawn (pt_generator t) (nat (pr_Runs r) - 1 - Suc i) tp'"
          if "int (Suc i) < pr_Runs r"
        proof -
          have "nat (pr_Runs r) - 1 - i = Suc (nat (pr_Runs r) - 1 - Suc i)" using that by linarith
          then show ?thesis by (simp add: v)
        qed
        then show ?thesis using s np by (auto simp: sound_result_def)
      qed
    next
      case f: False
      then obtain v' k where sh: "shrink_value pick t v maxShrink = Inr (v', k)" using Suc.prems False v ok by (auto simp: bind_simps)
      then have "r = \<lparr>pr_Passed = False, pr_Name = pt_name t, pr_Runs = int i + 1, pr_Shrinks = k, pr_FailedValue = v',
          pr_Error = ''property failed for value: '' @ shw v'\<rparr>"
        using Suc.prems False v ok f by simp
      moreover have "pt_property t v' = Inr False \<and> 0 \<le> k \<and> k \<le> max 0 maxShrink"
        using shrink_loop_sound [OF sh [unfolded shrink_value_def]] ok f by (simp add: max_def split: if_splits)
      ultimately show ?thesis using v ok f by (simp add: sound_result_def nat_add_distrib)
    qed
  qed
qed

subsection \<open>Properties\<close>



text \<open>A map can have fewer entries than its lower bound: here one instead of three.\<close>

theorem map_below_min:
  "\<exists>v t'. generate (GMap 3 3 (GInt 7 7) (GInt 0 0)) (\<lambda>_. 0) = Inr (v, t') \<and> v = VMap [(VInt 7, VInt 0)]"
  by (simp add: draw_length_def intn_def i64_def numeral_eq_Suc bind_simps)

text \<open>
  C25. The verdict of a run is sound: passed means that the property held on the value of every
  iteration; failed means that the context ended, or that the property is false both on the
  generated value of the last iteration and on the shrunk value reported, which took at most
  the allowed number of shrinks.
\<close>
theorem run_test_sound:
  assumes "run_test pick ended shw tp cfg t = Inr r"
  shows "sound_result ended t tp 0 (nat (if pf_Iterations cfg = 0 then 100 else pf_Iterations cfg))
    (if pf_MaxShrink cfg = 0 then pt_maxShrinks t else pf_MaxShrink cfg) r"
  using assms run_loop_sound unfolding run_test_def Let_def by blast

theorem run_test_sound_witness:
  "\<exists>r. run_test (\<lambda>_. 0) (\<lambda>_. False) (\<lambda>_. []) (\<lambda>_. 1) \<lparr>pf_Iterations = 2, pf_MaxShrink = 5, pf_Seed = 1\<rparr>
      (new_test ''small'' (\<lambda>v. Inr (v \<noteq> VInt 3)) (GInt 0 9)) = Inr r \<and> pr_Passed r
    \<and> sound_result (\<lambda>_. False) (new_test ''small'' (\<lambda>v. Inr (v \<noteq> VInt 3)) (GInt 0 9)) (\<lambda>_. 1) 0 2 5 r"
proof -
  let ?t = "new_test ''small'' (\<lambda>v. Inr (v \<noteq> VInt 3)) (GInt 0 9)"
  obtain r where r: "run_test (\<lambda>_. 0) (\<lambda>_. False) (\<lambda>_. []) (\<lambda>_. 1) \<lparr>pf_Iterations = 2, pf_MaxShrink = 5, pf_Seed = 1\<rparr> ?t = Inr r"
    "pr_Passed r"
    by (simp add: run_test_def new_test_def numeral_2_eq_2 intn_def i64_def)
  show ?thesis using r run_test_sound [OF r(1)] by auto
qed

text \<open>
  Shrinking leaves the range of the generator: an integer from 5 to 10 is reported as 3, a
  value the generator never makes. With \<open>OneOf\<close> over generators of different types shrinking
  panics, because the first generator asserts its own type on the value.
\<close>
theorem shrink_leaves_range:
  "(\<exists>r. run_test pick (\<lambda>_. False) shw (\<lambda>_. 1) \<lparr>pf_Iterations = 1, pf_MaxShrink = 5, pf_Seed = 1\<rparr>
        (new_test ''never'' (\<lambda>_. Inr False) (GInt 5 10)) = Inr r \<and> pr_FailedValue r = VInt 3 \<and> \<not> in_range (GInt 5 10) (VInt 3))
   \<and> run_test pick (\<lambda>_. False) shw (\<lambda>_. 1) \<lparr>pf_Iterations = 1, pf_MaxShrink = 5, pf_Seed = 1\<rparr>
       (new_test ''never'' (\<lambda>_. Inr False) (GOneOf [GInt 0 9, GStr 1 1 ''ab''])) = Inl TypeAssertion"
  by (simp add: run_test_def new_test_def shrink_value_def intn_def i64_def draw_length_def draw_char_def eval_nat_numeral)

end
