(* ===== verification/Fuzz.thy ===== *)
theory Fuzz
  imports GoRand GoSys
begin

text \<open>
  The fuzzer, \<^verbatim>\<open>pkg/fuzz/fuzzer.go\<close>: the six strategies that produce inputs, the run loop over
  a target that may panic, and the report. The random source is the tape of \<open>GoRand\<close>; whether
  the context has ended and how much time has passed before each iteration is the caller's.
\<close>

unbundle bit_operations_syntax

subsection \<open>Data\<close>

datatype fuzz_strategy = StrategyRandom | StrategyBoundary | StrategyBitFlip | StrategyByteFlip
  | StrategyArithmetic | StrategyDictionary | StrategyOther int

record fuzz_input =
  fi_Data :: bytes
  fi_Strategy :: fuzz_strategy
  fi_Seed :: int
  fi_Metadata :: "string \<rightharpoonup> int"

record fuzz_result =
  fr_Input :: fuzz_input
  fr_Crashed :: bool
  fr_Error :: "string option"
  fr_Duration :: int
  fr_Timestamp :: go_time

record fuzz_config =
  fc_Iterations :: int
  fc_Duration :: int
  fc_MaxInputSize :: int
  fc_Strategies :: "fuzz_strategy list"
  fc_Seed :: int

record fuzzer =
  fz_seed :: int
  fz_strategies :: "fuzz_strategy list"

text \<open>\<open>NewFuzzer\<close>, given the clock in nanoseconds; the source of the seed is the tape of the run.\<close>

definition new_fuzzer :: "int \<Rightarrow> fuzz_config \<Rightarrow> fuzzer" where
  "new_fuzzer now cfg = \<lparr>fz_seed = (if fc_Seed cfg = 0 then now else fc_Seed cfg),
     fz_strategies = (if fc_Strategies cfg = []
        then [StrategyRandom, StrategyBoundary, StrategyBitFlip, StrategyByteFlip] else fc_Strategies cfg)\<rparr>"

subsection \<open>Generating inputs\<close>

definition boundary_values :: bytes where
  "boundary_values = [0x00, 0x01, 0x7F, 0x80, 0xFE, 0xFF]"

definition boundary_data :: "int \<Rightarrow> bytes draw" where
  "boundary_data sz = repeat_draw (nat sz)
     (bind_draw (intn (int (length boundary_values))) (\<lambda>k. ret (boundary_values ! nat k)))"

definition flip_bit :: "int \<Rightarrow> bytes \<Rightarrow> bytes draw" where
  "flip_bit sz data = bind_draw (intn sz) (\<lambda>pos. bind_draw (intn 8) (\<lambda>bit.
     ret (data[nat pos := data ! nat pos XOR push_bit (nat bit) 1])))"

definition bit_flip_data :: "int \<Rightarrow> bytes draw" where
  "bit_flip_data sz = bind_draw (rand_read (nat sz)) (\<lambda>data.
     bind_draw (intn (sz sdiv 2 + 1)) (\<lambda>k. iterate_draw (nat (1 + k)) (flip_bit sz) data))"

definition flip_byte :: "int \<Rightarrow> bytes \<Rightarrow> bytes draw" where
  "flip_byte sz data = bind_draw (intn sz) (\<lambda>pos. ret (data[nat pos := NOT (data ! nat pos)]))"

definition byte_flip_data :: "int \<Rightarrow> bytes draw" where
  "byte_flip_data sz = bind_draw (rand_read (nat sz)) (\<lambda>data.
     bind_draw (intn (sz sdiv 4 + 1)) (\<lambda>k. iterate_draw (nat (1 + k)) (flip_byte sz) data))"

definition mutate_byte :: "int \<Rightarrow> bytes \<Rightarrow> bytes draw" where
  "mutate_byte sz data = bind_draw (intn sz) (\<lambda>pos. bind_draw (intn 4) (\<lambda>op.
     let i = nat pos; b = data ! i
     in if op = 0 then ret (data[i := b + 1])
        else if op = 1 then ret (data[i := b - 1])
        else if op = 2 then bind_draw (intn 32) (\<lambda>d. ret (data[i := b + word_of_int d]))
        else bind_draw (intn 32) (\<lambda>d. ret (data[i := b - word_of_int d]))))"

definition arithmetic_data :: "int \<Rightarrow> bytes draw" where
  "arithmetic_data sz = bind_draw (rand_read (nat sz)) (\<lambda>data.
     bind_draw (intn (sz sdiv 4 + 1)) (\<lambda>k. iterate_draw (nat (1 + k)) (mutate_byte sz) data))"

definition dictionary :: "bytes list" where
  "dictionary = [bytes_of ''WEAT'', [0x00, 0x00, 0x00, 0x01], [0xFF, 0xFF, 0xFF, 0xFF], [0x7F, 0xFF, 0xFF, 0xFF],
     [0x80, 0x00, 0x00, 0x00]]"

text \<open>\<open>copy(data[pos:], entry)\<close>: as many bytes as fit.\<close>

definition copy_at :: "nat \<Rightarrow> 'a list \<Rightarrow> 'a list \<Rightarrow> 'a list" where
  "copy_at pos entry data = take pos data @ take (length data - pos) entry @ drop (pos + length entry) data"

definition insert_entry :: "int \<Rightarrow> bytes \<Rightarrow> bytes draw" where
  "insert_entry sz data = bind_draw (intn (int (length dictionary))) (\<lambda>k.
     let entry = dictionary ! nat k
     in bind_draw (intn (sz - int (length entry) + 1)) (\<lambda>pos. ret (copy_at (nat pos) entry data)))"

definition dictionary_data :: "int \<Rightarrow> bytes draw" where
  "dictionary_data sz = bind_draw (rand_read (nat sz)) (\<lambda>data.
     if sz > 4
     then bind_draw (intn 3) (\<lambda>k. iterate_draw (min (nat (1 + k)) (length dictionary)) (insert_entry sz) data)
     else ret data)"

fun strategy_data :: "fuzz_strategy \<Rightarrow> int \<Rightarrow> bytes draw" where
  "strategy_data StrategyBoundary sz = boundary_data sz"
| "strategy_data StrategyBitFlip sz = bit_flip_data sz"
| "strategy_data StrategyByteFlip sz = byte_flip_data sz"
| "strategy_data StrategyArithmetic sz = arithmetic_data sz"
| "strategy_data StrategyDictionary sz = dictionary_data sz"
| "strategy_data _ sz = rand_read (nat sz)"

definition generate_input :: "fuzzer \<Rightarrow> fuzz_strategy \<Rightarrow> int \<Rightarrow> int \<Rightarrow> fuzz_input draw" where
  "generate_input f strategy minSize maxSize =
     bind_draw (intn (i64 (i64 (maxSize - minSize) + 1))) (\<lambda>k.
       let sz = i64 (minSize + k)
       in if sz < 0 then (\<lambda>t. Inl MakeSliceLenOutOfRange)
          else bind_draw (strategy_data strategy sz) (\<lambda>data.
            ret \<lparr>fi_Data = data, fi_Strategy = strategy, fi_Seed = fz_seed f, fi_Metadata = [''size'' \<mapsto> sz]\<rparr>))"

subsection \<open>Running\<close>

text \<open>
  What a target does on an input: it returns an error or none, or it panics. A target may keep a
  state of its own, so it is given the number of its call, and may write to the slice of the
  input, so it also says which bytes it overwrites; the result shares that slice.
\<close>

datatype outcome = Returns "string option" | Panics string

type_synonym fuzz_target = "nat \<Rightarrow> bytes \<Rightarrow> (nat \<rightharpoonup> 8 word) \<times> outcome"

definition overwritten :: "(nat \<rightharpoonup> 8 word) \<Rightarrow> bytes \<Rightarrow> bytes" where
  "overwritten w d = map (\<lambda>i. case w i of Some b \<Rightarrow> b | None \<Rightarrow> d ! i) [0..<length d]"

record fuzz_env =
  fe_ended :: "nat \<Rightarrow> string option"
  fe_elapsed :: "nat \<Rightarrow> int"
  fe_duration :: "nat \<Rightarrow> int"
  fe_now :: "nat \<Rightarrow> go_time"

definition run_target :: "fuzz_env \<Rightarrow> nat \<Rightarrow> fuzz_target \<Rightarrow> fuzz_input \<Rightarrow> fuzz_result" where
  "run_target env i target input =
     (let (w, out) = target i (fi_Data input);
          (crashed, err) = (case out of
            Returns e \<Rightarrow> (False, e) | Panics r \<Rightarrow> (True, Some (''panic: '' @ r)))
      in \<lparr>fr_Input = input\<lparr>fi_Data := overwritten w (fi_Data input)\<rparr>, fr_Crashed = crashed, fr_Error = err, fr_Duration = fe_duration env i, fr_Timestamp = fe_now env i\<rparr>)"

text \<open>The loop of \<open>Run\<close>: the rounds that are left, the number of the round and the results so far.\<close>

fun fuzz_loop :: "nat \<Rightarrow> nat \<Rightarrow> fuzz_env \<Rightarrow> fuzz_target \<Rightarrow> fuzzer \<Rightarrow> int \<Rightarrow> int \<Rightarrow> fuzz_result list \<Rightarrow>
    (fuzz_result list \<times> string option) draw" where
  "fuzz_loop 0 i env target f duration maxSize results = ret (results, None)"
| "fuzz_loop (Suc n) i env target f duration maxSize results =
     (case fe_ended env i of
        Some e \<Rightarrow> ret (results, Some e)
      | None \<Rightarrow>
          (if duration > 0 \<and> fe_elapsed env i > duration then ret (results, None)
           else bind_draw (intn (int (length (fz_strategies f)))) (\<lambda>k.
             bind_draw (generate_input f (fz_strategies f ! nat k) 1 maxSize) (\<lambda>input.
               let r = run_target env i target input
               in if fr_Crashed r then ret (results @ [r], None)
                  else fuzz_loop n (Suc i) env target f duration maxSize (results @ [r])))))"

definition fuzz_run :: "fuzz_env \<Rightarrow> fuzz_target \<Rightarrow> fuzz_config \<Rightarrow> fuzzer \<Rightarrow> (fuzz_result list \<times> string option) draw" where
  "fuzz_run env target cfg f =
     (let iterations = (if fc_Iterations cfg = 0 then 1000 else fc_Iterations cfg);
          maxSize = (if fc_MaxInputSize cfg = 0 then 1024 else fc_MaxInputSize cfg)
      in fuzz_loop (nat iterations) 0 env target f (fc_Duration cfg) maxSize [])"

subsection \<open>The report\<close>

record fuzz_report =
  fp_TotalRuns :: int
  fp_Crashes :: int
  fp_Errors :: int
  fp_Successes :: int
  fp_AverageDuration :: int
  fp_Strategies :: "fuzz_strategy \<rightharpoonup> int"
  fp_CrashedInputs :: "fuzz_input list"

definition fuzz_report_step :: "fuzz_report \<Rightarrow> fuzz_result \<Rightarrow> fuzz_report" where
  "fuzz_report_step rep r =
     (let rep1 = rep\<lparr>fp_Strategies := bump (fp_Strategies rep) (fi_Strategy (fr_Input r))\<rparr>
      in if fr_Crashed r
         then rep1\<lparr>fp_Crashes := fp_Crashes rep1 + 1, fp_CrashedInputs := fp_CrashedInputs rep1 @ [fr_Input r]\<rparr>
         else if fr_Error r \<noteq> None then rep1\<lparr>fp_Errors := fp_Errors rep1 + 1\<rparr>
         else rep1\<lparr>fp_Successes := fp_Successes rep1 + 1\<rparr>)"

definition fuzz_total_duration :: "fuzz_result list \<Rightarrow> int" where
  "fuzz_total_duration results = foldl (\<lambda>t r. i64 (t + fr_Duration r)) 0 results"

definition fuzz_report :: "fuzz_result list \<Rightarrow> fuzz_report" where
  "fuzz_report results =
     (let rep = foldl fuzz_report_step
            \<lparr>fp_TotalRuns = int (length results), fp_Crashes = 0, fp_Errors = 0, fp_Successes = 0, fp_AverageDuration = 0,
             fp_Strategies = Map.empty, fp_CrashedInputs = []\<rparr> results
      in if length results > 0 then rep\<lparr>fp_AverageDuration := fuzz_total_duration results sdiv int (length results)\<rparr> else rep)"

definition fuzz_successful :: "fuzz_report \<Rightarrow> bool" where
  "fuzz_successful r \<longleftrightarrow> fp_Crashes r = 0"

definition crash_rate :: "fuzz_report \<Rightarrow> f64" where
  "crash_rate r = (if fp_TotalRuns r = 0 then 0 else of_int64 (fp_Crashes r) / of_int64 (fp_TotalRuns r) * Fin 100)"

subsection \<open>Every strategy fills its size\<close>

lemma list_update_ok: "draws_ok (bind_draw (intn sz) (\<lambda>pos. ret (data[nat pos := g pos]))) (\<lambda>d. length d = length data)" if "0 < sz"
  by (rule intn_bind [OF that]) auto

lemma flip_bit_ok: "0 < sz \<Longrightarrow> draws_ok (flip_bit sz data) (\<lambda>d. length d = length data)"
  unfolding flip_bit_def by (intro intn_bind draws_ok_ret) auto

lemma flip_byte_ok: "0 < sz \<Longrightarrow> draws_ok (flip_byte sz data) (\<lambda>d. length d = length data)"
  unfolding flip_byte_def by (rule list_update_ok)

lemma mutate_byte_ok: "0 < sz \<Longrightarrow> draws_ok (mutate_byte sz data) (\<lambda>d. length d = length data)"
  unfolding mutate_byte_def by (rule intn_bind, assumption, rule intn_bind) (auto simp: Let_def intro!: intn_bind)

lemma length_copy_at [simp]: "pos + length e \<le> length d \<Longrightarrow> length (copy_at pos e d) = length d"
  by (simp add: copy_at_def)

lemma sublist_copy_at: "pos + length e \<le> length d \<Longrightarrow> sublist e (copy_at pos e d)"
  by (simp add: copy_at_def sublist_appendI)

lemma dictionary_length: "e \<in> set dictionary \<Longrightarrow> length e = 4"
  by (auto simp: dictionary_def bytes_of_def)

lemma insert_entry_ok:
  assumes "4 < sz" "int (length data) = sz"
  shows "draws_ok (insert_entry sz data) (\<lambda>d. int (length d) = sz \<and> (\<exists>e \<in> set dictionary. sublist e d))"
  unfolding insert_entry_def
proof (rule intn_bind)
  show "0 < int (length dictionary)" by (simp add: dictionary_def)
  fix k assume k: "0 \<le> k" "k < int (length dictionary)"
  let ?e = "dictionary ! nat k"
  have e: "?e \<in> set dictionary" using k by (simp add: nat_less_iff)
  then have l: "length ?e = 4" by (rule dictionary_length)
  show "draws_ok (let entry = ?e in bind_draw (intn (sz - int (length entry) + 1)) (\<lambda>pos. ret (copy_at (nat pos) entry data)))
      (\<lambda>d. int (length d) = sz \<and> (\<exists>e \<in> set dictionary. sublist e d))"
    unfolding Let_def
  proof (rule intn_bind)
    show "0 < sz - int (length ?e) + 1" using assms(1) by (simp add: l)
    fix pos assume "0 \<le> pos" "pos < sz - int (length ?e) + 1"
    then have "nat pos + length ?e \<le> length data" using assms(2) l by linarith
    then show "draws_ok (ret (copy_at (nat pos) ?e data)) (\<lambda>d. int (length d) = sz \<and> (\<exists>e \<in> set dictionary. sublist e d))"
      using e assms(2) sublist_copy_at by (intro draws_ok_ret) auto
  qed
qed

text \<open>The three strategies that mutate random data share their shape.\<close>

lemma mutations_ok:
  assumes "0 < sz" "0 < c" "\<And>d. draws_ok (f d) (\<lambda>d'. length d' = length d)"
  shows "draws_ok (bind_draw (rand_read (nat sz)) (\<lambda>data. bind_draw (intn (sz sdiv c + 1)) (\<lambda>k. iterate_draw (nat (1 + k)) f data)))
    (\<lambda>d. int (length d) = sz)"
proof (rule draws_ok_bind [OF rand_read_ok])
  fix data :: bytes assume len: "length data = nat sz"
  have "0 \<le> sz sdiv c" using assms(1,2) by (simp add: signed_divide_int_def sgn_mult pos_imp_zdiv_nonneg_iff)
  then have pos: "0 < sz sdiv c + 1" by simp
  show "draws_ok (bind_draw (intn (sz sdiv c + 1)) (\<lambda>k. iterate_draw (nat (1 + k)) f data)) (\<lambda>d. int (length d) = sz)"
  proof (rule intn_bind [OF pos])
    fix k
    have step: "draws_ok (f d) (\<lambda>d'. length d' = nat sz \<and> True)" if "length d = nat sz" for d
      using assms(3) [of d] that by simp
    show "draws_ok (iterate_draw (nat (1 + k)) f data) (\<lambda>d. int (length d) = sz)"
      by (rule draws_ok_mono [OF iterate_draw_ok [OF step len]]) (use assms(1) in auto)
  qed
qed

definition strategy_post :: "fuzz_strategy \<Rightarrow> bytes \<Rightarrow> bool" where
  "strategy_post s d \<longleftrightarrow> (s = StrategyBoundary \<longrightarrow> set d \<subseteq> set boundary_values)
     \<and> (s = StrategyDictionary \<and> 4 < length d \<longrightarrow> (\<exists>e \<in> set dictionary. sublist e d))"

lemma boundary_ok: "draws_ok (boundary_data sz) (\<lambda>d. length d = nat sz \<and> set d \<subseteq> set boundary_values)"
proof -
  have "draws_ok (bind_draw (intn (int (length boundary_values))) (\<lambda>k. ret (boundary_values ! nat k))) (\<lambda>b. b \<in> set boundary_values)"
  proof (rule intn_bind)
    fix k assume "0 \<le> k" "k < int (length boundary_values)"
    then have "boundary_values ! nat k \<in> set boundary_values" by (simp add: nat_less_iff)
    then show "draws_ok (ret (boundary_values ! nat k)) (\<lambda>b. b \<in> set boundary_values)" by (rule draws_ok_ret)
  qed (simp add: boundary_values_def)
  from repeat_draw_ok [OF this] show ?thesis unfolding boundary_data_def by (rule draws_ok_mono) auto
qed

lemma dictionary_ok:
  assumes "0 < sz"
  shows "draws_ok (dictionary_data sz) (\<lambda>d. int (length d) = sz \<and> (4 < length d \<longrightarrow> (\<exists>e \<in> set dictionary. sublist e d)))"
  unfolding dictionary_data_def
proof (rule draws_ok_bind [OF rand_read_ok])
  fix data :: bytes assume "length data = nat sz"
  then have len: "int (length data) = sz" using assms by simp
  let ?Q = "\<lambda>d. int (length d) = sz \<and> (4 < length d \<longrightarrow> (\<exists>e \<in> set dictionary. sublist e d))"
  show "draws_ok (if 4 < sz then bind_draw (intn 3) (\<lambda>k. iterate_draw (min (nat (1 + k)) (length dictionary)) (insert_entry sz) data)
      else ret data) ?Q"
  proof (cases "4 < sz")
    case True
    show ?thesis unfolding if_P [OF True]
    proof (rule intn_bind)
      fix k :: int assume "0 \<le> k"
      then have n: "0 < min (nat (1 + k)) (length dictionary)" by (simp add: dictionary_def)
      have "draws_ok (iterate_draw (min (nat (1 + k)) (length dictionary)) (insert_entry sz) data)
          (\<lambda>d. int (length d) = sz \<and> (0 < min (nat (1 + k)) (length dictionary) \<longrightarrow> (\<exists>e \<in> set dictionary. sublist e d)))"
        by (rule iterate_draw_ok [OF insert_entry_ok [OF True] len])
      then show "draws_ok (iterate_draw (min (nat (1 + k)) (length dictionary)) (insert_entry sz) data) ?Q"
        by (rule draws_ok_mono) (use n in metis)
    qed simp
  next
    case False
    then show ?thesis using len by auto
  qed
qed

lemma strategy_data_ok:
  assumes "0 < sz"
  shows "draws_ok (strategy_data s sz) (\<lambda>d. int (length d) = sz \<and> strategy_post s d)"
proof -
  note m = mutations_ok [OF assms]
  have "draws_ok (rand_read (nat sz)) (\<lambda>d. int (length d) = sz)"
    by (rule draws_ok_mono [OF rand_read_ok]) (use assms in simp)
  then show ?thesis
    using m [OF _ flip_bit_ok [OF assms], of 2] m [OF _ flip_byte_ok [OF assms], of 4] m [OF _ mutate_byte_ok [OF assms], of 4]
      draws_ok_mono [OF boundary_ok [of sz]] draws_ok_mono [OF dictionary_ok [OF assms]] assms
    by (cases s) (simp_all add: strategy_post_def bit_flip_data_def byte_flip_data_def arithmetic_data_def)
qed

subsection \<open>Inputs and runs\<close>

definition sizes_ok :: "int \<Rightarrow> int \<Rightarrow> bool" where
  "sizes_ok mn mx \<longleftrightarrow> 1 \<le> mn \<and> mn \<le> mx \<and> mx < 2 ^ 62"

definition input_ok :: "int \<Rightarrow> int \<Rightarrow> fuzz_strategy \<Rightarrow> fuzz_input \<Rightarrow> bool" where
  "input_ok mn mx s inp \<longleftrightarrow> mn \<le> int (length (fi_Data inp)) \<and> int (length (fi_Data inp)) \<le> mx \<and> fi_Strategy inp = s
     \<and> fi_Metadata inp ''size'' = Some (int (length (fi_Data inp))) \<and> strategy_post s (fi_Data inp)"

lemma generate_input_ok:
  assumes "sizes_ok mn mx"
  shows "draws_ok (generate_input f s mn mx) (input_ok mn mx s)"
proof -
  have b: "1 \<le> mn" "mn \<le> mx" "mx < 2 ^ 62" using assms by (simp_all add: sizes_ok_def)
  have w: "i64 (i64 (mx - mn) + 1) = mx - mn + 1" using b by (simp add: i64_id)
  show ?thesis unfolding generate_input_def w
  proof (rule intn_bind)
    show "0 < mx - mn + 1" using b by simp
    fix k assume k: "0 \<le> k" "k < mx - mn + 1"
    then have e: "i64 (mn + k) = mn + k" using b by (simp add: i64_id)
    have "draws_ok (strategy_data s (mn + k)) (\<lambda>d. int (length d) = mn + k \<and> strategy_post s d)"
      using b k by (intro strategy_data_ok) simp
    then show "draws_ok (let sz = i64 (mn + k) in if sz < 0 then \<lambda>t. Inl MakeSliceLenOutOfRange
        else bind_draw (strategy_data s sz) (\<lambda>data. ret \<lparr>fi_Data = data, fi_Strategy = s, fi_Seed = fz_seed f,
          fi_Metadata = [''size'' \<mapsto> sz]\<rparr>)) (input_ok mn mx s)"
      unfolding e Let_def using b k by (auto elim!: draws_ok_bind intro!: draws_ok_ret simp: input_ok_def)
  qed
qed

text \<open>
  What a run promises: results of inputs that \<open>GenerateInput\<close> returned, for one of the strategies
  and somewhere on the tape; only the last can be a crash, and a run that is shorter ended with
  one, with its context, or past its duration.
\<close>

definition generated :: "fuzzer \<Rightarrow> int \<Rightarrow> fuzz_input \<Rightarrow> bool" where
  "generated f mx inp \<longleftrightarrow> (\<exists>s \<in> set (fz_strategies f). input_ok 1 mx s inp
     \<and> (\<exists>t1 t2. generate_input f s 1 mx t1 = Inr (inp, t2)))"

lemma generate_input_drawn:
  assumes "sizes_ok 1 mx" "s \<in> set (fz_strategies f)"
  shows "draws_ok (generate_input f s 1 mx) (generated f mx)"
  using generate_input_ok [OF assms(1), of f s] assms(2) unfolding draws_ok_def generated_def by metis

definition run_post :: "fuzz_env \<Rightarrow> fuzz_target \<Rightarrow> fuzzer \<Rightarrow> int \<Rightarrow> int \<Rightarrow> nat \<Rightarrow> fuzz_result list \<times> string option \<Rightarrow> bool" where
  "run_post env target f duration mx n res \<longleftrightarrow> (case res of (results, err) \<Rightarrow> length results \<le> n
     \<and> (\<forall>i < length results. \<exists>inp. results ! i = run_target env i target inp \<and> generated f mx inp)
     \<and> (\<forall>r \<in> set (butlast results). \<not> fr_Crashed r)
     \<and> (err \<noteq> None \<longrightarrow> length results < n \<and> err = fe_ended env (length results) \<and> (\<forall>r \<in> set results. \<not> fr_Crashed r))
     \<and> (err = None \<and> length results < n \<and> (\<forall>r \<in> set results. \<not> fr_Crashed r) \<longrightarrow>
          0 < duration \<and> duration < fe_elapsed env (length results)))"

lemma fuzz_loop_ok:
  assumes "sizes_ok 1 mx" "fz_strategies f \<noteq> []"
  shows "run_post env target f duration mx (length results) (results, None) \<Longrightarrow> \<forall>r \<in> set results. \<not> fr_Crashed r \<Longrightarrow>
    draws_ok (fuzz_loop n (length results) env target f duration mx results) (run_post env target f duration mx (length results + n))"
proof (induction n arbitrary: results)
  case 0
  then show ?case by auto
next
  case (Suc n)
  let ?P = "run_post env target f duration mx (length results + Suc n)"
  show ?case
  proof (cases "fe_ended env (length results)")
    case (Some e)
    then have "?P (results, Some e)" using Suc.prems by (auto simp: run_post_def)
    then show ?thesis using Some by auto
  next
    case None
    have over: "?P (results, None)" if "0 < duration" "duration < fe_elapsed env (length results)"
      using Suc.prems that by (auto simp: run_post_def)
    have round: "draws_ok (bind_draw (intn (int (length (fz_strategies f)))) (\<lambda>k.
             bind_draw (generate_input f (fz_strategies f ! nat k) 1 mx) (\<lambda>input.
               let r = run_target env (length results) target input
               in if fr_Crashed r then ret (results @ [r], None)
                  else fuzz_loop n (Suc (length results)) env target f duration mx (results @ [r])))) ?P"
    proof (rule intn_bind)
      show "0 < int (length (fz_strategies f))" using assms(2) by simp
      fix k assume "0 \<le> k" "k < int (length (fz_strategies f))"
      then have s: "fz_strategies f ! nat k \<in> set (fz_strategies f)" by (simp add: nat_less_iff)
      show "draws_ok (bind_draw (generate_input f (fz_strategies f ! nat k) 1 mx) (\<lambda>input.
               let r = run_target env (length results) target input
               in if fr_Crashed r then ret (results @ [r], None)
                  else fuzz_loop n (Suc (length results)) env target f duration mx (results @ [r]))) ?P"
      proof (rule draws_ok_bind [OF generate_input_drawn [OF assms(1) s]])
        fix input assume inp: "generated f mx input"
        let ?r = "run_target env (length results) target input"
        have nxt: "run_post env target f duration mx (Suc (length results)) (results @ [?r], None)"
          using Suc.prems inp by (auto simp: run_post_def nth_append less_Suc_eq)
        then have crash: "?P (results @ [?r], None)" if "fr_Crashed ?r" using that by (auto simp: run_post_def)
        have "draws_ok (fuzz_loop n (Suc (length results)) env target f duration mx (results @ [?r])) ?P" if "\<not> fr_Crashed ?r"
          using Suc.IH [of "results @ [?r]"] nxt Suc.prems(2) that by auto
        then show "draws_ok (let r = ?r in if fr_Crashed r then ret (results @ [r], None)
            else fuzz_loop n (Suc (length results)) env target f duration mx (results @ [r])) ?P"
          using crash by (auto simp: Let_def)
      qed
    qed
    then show ?thesis using None over by auto
  qed
qed

interpretation crashes: counter fuzz_report_step fp_Crashes fr_Crashed
  by unfold_locales (simp add: fuzz_report_step_def Let_def)

interpretation errs: counter fuzz_report_step fp_Errors "\<lambda>r. \<not> fr_Crashed r \<and> fr_Error r \<noteq> None"
  by unfold_locales (simp add: fuzz_report_step_def Let_def)

interpretation successes: counter fuzz_report_step fp_Successes "\<lambda>r. \<not> fr_Crashed r \<and> fr_Error r = None"
  by unfold_locales (simp add: fuzz_report_step_def Let_def)

lemma report_loop [simp]:
  "fp_TotalRuns (foldl fuzz_report_step rep rs) = fp_TotalRuns rep"
  "fp_CrashedInputs (foldl fuzz_report_step rep rs) = fp_CrashedInputs rep @ map fr_Input (filter fr_Crashed rs)"
  "count_of (fp_Strategies (foldl fuzz_report_step rep rs)) s =
     count_of (fp_Strategies rep) s + int (length (filter (\<lambda>r. fi_Strategy (fr_Input r) = s) rs))"
  by (induction rs arbitrary: rep) (auto simp: fuzz_report_step_def Let_def)

subsection \<open>Properties\<close>

text \<open>
  Every strategy produces an input of a size within the bounds, whatever the random source
  answers, and labels it truthfully; boundary inputs hold boundary bytes only, and a
  dictionary input of more than four bytes holds a word of the dictionary intact, although
  a later insertion may overwrite an earlier one.
\<close>
theorem fuzz_inputs_fit:
  assumes "1 \<le> mn" "mn \<le> mx" "mx < 2 ^ 62"
  shows "\<exists>inp t'. generate_input f s mn mx t = Inr (inp, t')
    \<and> mn \<le> int (length (fi_Data inp)) \<and> int (length (fi_Data inp)) \<le> mx
    \<and> fi_Strategy inp = s \<and> fi_Metadata inp ''size'' = Some (int (length (fi_Data inp)))
    \<and> (s = StrategyBoundary \<longrightarrow> set (fi_Data inp) \<subseteq> {0x00, 0x01, 0x7F, 0x80, 0xFE, 0xFF})
    \<and> (s = StrategyDictionary \<and> 4 < length (fi_Data inp) \<longrightarrow> (\<exists>e \<in> set dictionary. sublist e (fi_Data inp)))"
  using draws_okE [OF generate_input_ok [of mn mx f s], of t] assms
  by (fastforce simp: sizes_ok_def input_ok_def strategy_post_def boundary_values_def)

theorem fuzz_inputs_fit_witness:
  "\<exists>inp t'. generate_input \<lparr>fz_seed = 7, fz_strategies = [StrategyDictionary]\<rparr> StrategyDictionary 8 16 (\<lambda>_. 5) = Inr (inp, t')
    \<and> 8 \<le> length (fi_Data inp) \<and> (\<exists>e \<in> set dictionary. sublist e (fi_Data inp))"
  using fuzz_inputs_fit [of 8 16 "\<lparr>fz_seed = 7, fz_strategies = [StrategyDictionary]\<rparr>" StrategyDictionary "\<lambda>_. 5"]
  by fastforce

text \<open>
  On an empty buffer the strategies that mutate random data panic, and so does every
  strategy when the bounds are swapped: \<open>GenerateInput\<close> checks neither.
\<close>
theorem fuzz_empty_input_panics:
  assumes "s \<in> {StrategyBitFlip, StrategyByteFlip, StrategyArithmetic}"
  shows "generate_input f s 0 0 t = Inl InvalidIntnArgument
    \<and> (0 \<le> mx \<and> mx < mn \<and> mn < 2 ^ 62 \<longrightarrow> generate_input f s' mn mx t = Inl InvalidIntnArgument)"
proof
  have zero: "strategy_data s 0 t' = Inl InvalidIntnArgument" for t'
  proof -
    have "rand_read 0 = ret []" by (simp add: rand_read_def ret_def fun_eq_iff)
    moreover have "intn 0 t = Inl InvalidIntnArgument" for t by (simp add: intn_def)
    ultimately show ?thesis
      using assms by (auto simp: bit_flip_data_def byte_flip_data_def arithmetic_data_def bind_draw_def ret_def intn_def
          flip_bit_def flip_byte_def mutate_byte_def numeral_eq_Suc)
  qed
  show "generate_input f s 0 0 t = Inl InvalidIntnArgument"
    by (simp add: generate_input_def bind_draw_def intn_def i64_def Let_def zero)
  show "0 \<le> mx \<and> mx < mn \<and> mn < 2 ^ 62 \<longrightarrow> generate_input f s' mn mx t = Inl InvalidIntnArgument"
  proof
    assume b: "0 \<le> mx \<and> mx < mn \<and> mn < 2 ^ 62"
    then have "i64 (i64 (mx - mn) + 1) \<le> 0" by (simp add: i64_id)
    then show "generate_input f s' mn mx t = Inl InvalidIntnArgument" by (simp add: generate_input_def intn_panics)
  qed
qed

theorem fuzz_empty_input_panics_witness:
  "generate_input \<lparr>fz_seed = 7, fz_strategies = []\<rparr> StrategyBitFlip 0 0 (\<lambda>_. 0) = Inl InvalidIntnArgument
    \<and> generate_input \<lparr>fz_seed = 7, fz_strategies = []\<rparr> StrategyRandom 9 3 (\<lambda>_. 0) = Inl InvalidIntnArgument"
  using fuzz_empty_input_panics [where s = StrategyBitFlip and f = "\<lparr>fz_seed = 7, fz_strategies = []\<rparr>" and t = "\<lambda>_. 0"
      and s' = StrategyRandom and mn = 9 and mx = 3]
  by simp

text \<open>
  C26. A run of a new fuzzer whose maximal input size is not negative (a negative one makes \<open>Intn\<close>
  panic) and below 2^62 never panics itself, whatever the target does: it returns at most the
  configured number of results, the i-th of the i-th call of the target on an input that
  \<open>GenerateInput\<close> returned for one of the strategies, of 1 byte to the maximal size. Only the last
  result can be a crash, so the report counts at most one, and the run is successful exactly when
  the target did not panic. It ends early only with a crash, past its duration, or with an
  error, which means that the context ended before any crash.
\<close>
theorem fuzz_run_stops_at_crash:
  assumes "0 \<le> fc_MaxInputSize cfg" "fc_MaxInputSize cfg < 2 ^ 62"
  shows "\<exists>results err t'. fuzz_run env target cfg (new_fuzzer now cfg) t = Inr ((results, err), t')
    \<and> length results \<le> nat (if fc_Iterations cfg = 0 then 1000 else fc_Iterations cfg)
    \<and> (\<forall>i < length results. \<exists>inp s t1 t2.
         generate_input (new_fuzzer now cfg) s 1 (if fc_MaxInputSize cfg = 0 then 1024 else fc_MaxInputSize cfg) t1 = Inr (inp, t2)
         \<and> s \<in> set (fz_strategies (new_fuzzer now cfg)) \<and> results ! i = run_target env i target inp
         \<and> 1 \<le> length (fi_Data inp) \<and> int (length (fi_Data inp)) \<le> (if fc_MaxInputSize cfg = 0 then 1024 else fc_MaxInputSize cfg)
         \<and> (fr_Crashed (results ! i) \<longleftrightarrow> (\<exists>r. snd (target i (fi_Data inp)) = Panics r)))
    \<and> (\<forall>r \<in> set (butlast results). \<not> fr_Crashed r)
    \<and> fp_Crashes (fuzz_report results) \<le> 1
    \<and> (fuzz_successful (fuzz_report results) \<longleftrightarrow> (\<forall>r \<in> set results. \<not> fr_Crashed r))
    \<and> (err \<noteq> None \<longrightarrow> err = fe_ended env (length results) \<and> fuzz_successful (fuzz_report results))
    \<and> (err = None \<and> length results < nat (if fc_Iterations cfg = 0 then 1000 else fc_Iterations cfg)
         \<and> fuzz_successful (fuzz_report results) \<longrightarrow> 0 < fc_Duration cfg \<and> fc_Duration cfg < fe_elapsed env (length results))"
proof -
  define mx where "mx = (if fc_MaxInputSize cfg = 0 then 1024 else fc_MaxInputSize cfg)"
  define n where "n = nat (if fc_Iterations cfg = 0 then 1000 else fc_Iterations cfg)"
  define f where "f = new_fuzzer now cfg"
  have ok: "sizes_ok 1 mx" "fz_strategies f \<noteq> []"
    using assms by (auto simp: sizes_ok_def mx_def f_def new_fuzzer_def)
  have "run_post env target f (fc_Duration cfg) mx 0 ([], None)" by (simp add: run_post_def)
  with fuzz_loop_ok [OF ok, of env target "fc_Duration cfg" "[]" n]
  have loop: "draws_ok (fuzz_loop n 0 env target f (fc_Duration cfg) mx []) (run_post env target f (fc_Duration cfg) mx n)" by simp
  obtain res t' where run: "fuzz_run env target cfg f t = Inr (res, t')" "run_post env target f (fc_Duration cfg) mx n res"
    using draws_okE [OF loop, of t] by (auto simp: fuzz_run_def Let_def mx_def n_def)
  obtain results err where res: "res = (results, err)" by (cases res)
  note post = run(2) [unfolded res run_post_def prod.case]
  have input: "\<exists>inp s t1 t2. generate_input f s 1 mx t1 = Inr (inp, t2) \<and> s \<in> set (fz_strategies f)
      \<and> results ! i = run_target env i target inp \<and> 1 \<le> length (fi_Data inp) \<and> int (length (fi_Data inp)) \<le> mx
      \<and> (fr_Crashed (results ! i) \<longleftrightarrow> (\<exists>r. snd (target i (fi_Data inp)) = Panics r))" if "i < length results" for i
  proof -
    from post that obtain inp where r: "results ! i = run_target env i target inp" "generated f mx inp" by blast
    have "fr_Crashed (run_target env i target inp) \<longleftrightarrow> (\<exists>r. snd (target i (fi_Data inp)) = Panics r)"
      by (cases "target i (fi_Data inp)"; cases "snd (target i (fi_Data inp))") (auto simp: run_target_def Let_def)
    then show ?thesis using r by (auto simp: generated_def input_ok_def)
  qed
  have last: "length (filter fr_Crashed results) \<le> 1" if "\<forall>r \<in> set (butlast results). \<not> fr_Crashed r"
    using that by (cases results rule: rev_cases) auto
  have crashes: "fp_Crashes (fuzz_report results) = int (length (filter fr_Crashed results))"
    by (simp add: fuzz_report_def Let_def crashes.cnt_foldl)
  then have succ: "fuzz_successful (fuzz_report results) \<longleftrightarrow> (\<forall>r \<in> set results. \<not> fr_Crashed r)"
    by (simp add: fuzz_successful_def filter_empty_conv)
  have "fp_Crashes (fuzz_report results) \<le> 1" using last post crashes by simp
  then show ?thesis unfolding f_def [symmetric] mx_def [symmetric] n_def [symmetric]
    by (intro exI [of _ results] exI [of _ err] exI [of _ t'] conjI) (use run(1) res post input succ in \<open>simp; blast\<close>)+
qed

definition sample_fuzz_config :: fuzz_config where
  "sample_fuzz_config = \<lparr>fc_Iterations = 3, fc_Duration = 0, fc_MaxInputSize = 2, fc_Strategies = [], fc_Seed = 1\<rparr>"

definition sample_fuzz_env :: fuzz_env where
  "sample_fuzz_env = \<lparr>fe_ended = (\<lambda>_. None), fe_elapsed = (\<lambda>_. 0), fe_duration = (\<lambda>_. 10), fe_now = (\<lambda>_. epoch)\<rparr>"

theorem fuzz_run_stops_at_crash_witness:
  "\<exists>results err t'. fuzz_run sample_fuzz_env (\<lambda>_ _. (Map.empty, Panics ''boom'')) sample_fuzz_config (new_fuzzer 0 sample_fuzz_config) (\<lambda>_. 0)
      = Inr ((results, err), t') \<and> length results \<le> 3 \<and> fp_Crashes (fuzz_report results) \<le> 1"
  using fuzz_run_stops_at_crash [of sample_fuzz_config sample_fuzz_env "\<lambda>_ _. (Map.empty, Panics ''boom'')" 0 "\<lambda>_. 0"]
  by (auto simp: sample_fuzz_config_def)

text \<open>
  The report of a fuzz run classifies every result once, as crash, error or success, keeps
  the crashing inputs in order, and counts the runs of each strategy.
\<close>
theorem fuzz_report_exact:
  "fp_TotalRuns (fuzz_report rs) = fp_Crashes (fuzz_report rs) + fp_Errors (fuzz_report rs) + fp_Successes (fuzz_report rs)
   \<and> fp_CrashedInputs (fuzz_report rs) = map fr_Input (filter fr_Crashed rs)
   \<and> fp_Crashes (fuzz_report rs) = int (length (fp_CrashedInputs (fuzz_report rs)))
   \<and> count_of (fp_Strategies (fuzz_report rs)) s = int (length (filter (\<lambda>r. fi_Strategy (fr_Input r) = s) rs))"
proof -
  have "length rs = length (filter fr_Crashed rs) + length (filter (\<lambda>r. \<not> fr_Crashed r) rs)"
    by (rule sum_length_filter_compl [symmetric])
  also have "length (filter (\<lambda>r. \<not> fr_Crashed r) rs) =
      length (filter (\<lambda>r. \<not> fr_Crashed r \<and> fr_Error r = None) rs) + length (filter (\<lambda>r. \<not> fr_Crashed r \<and> fr_Error r \<noteq> None) rs)"
    by (rule length_filter_split)
  finally show ?thesis
    by (simp add: fuzz_report_def Let_def crashes.cnt_foldl errs.cnt_foldl successes.cnt_foldl)
qed

end
