(* ===== verification/GoTime.thy ===== *)
theory GoTime
  imports GoSys
begin

text \<open>
  More of the package \<open>time\<close>: the text of a \<open>time.Duration\<close>, the zero instant, the order of
  instants, calendar arithmetic in UTC and the parsing of dates.
\<close>

subsection \<open>Durations\<close>

text \<open>\<open>Duration.String\<close>: the fraction of \<open>v\<close> to \<open>prec\<close> digits without its trailing zeros.\<close>

definition fraction :: "nat \<Rightarrow> nat \<Rightarrow> string" where
  "fraction prec v =
     (let ds = rev (dropWhile (\<lambda>c. c = CHR ''0'') (rev (pad_left prec CHR ''0'' (nat_str (v mod 10 ^ prec)))))
      in if ds = [] then [] else CHR ''.'' # ds)"

definition fmt_duration :: "int \<Rightarrow> string" where
  "fmt_duration d =
     (let u = nat \<bar>d\<bar>; sg = (if d < 0 then ''-'' else [])
      in if u = 0 then ''0s''
         else if u < 1000 then sg @ nat_str u @ ''ns''
         else if u < 1000000 then sg @ nat_str (u div 1000) @ fraction 3 u @ [CHR 0xC2, CHR 0xB5] @ ''s''
         else if u < 1000000000 then sg @ nat_str (u div 1000000) @ fraction 6 u @ ''ms''
         else let s = u div 1000000000; m = s div 60; h = m div 60
              in sg @ (if h > 0 then nat_str h @ ''h'' else []) @ (if m > 0 then nat_str (m mod 60) @ ''m'' else [])
                 @ nat_str (s mod 60) @ fraction 9 u @ ''s'')"

subsection \<open>Instants\<close>

text \<open>The zero \<open>time.Time\<close>: the first of January of the year 1, UTC.\<close>

definition zero_time :: go_time where
  "zero_time = \<lparr>t_Unix = - 62135596800, t_Nano = 0, t_Offset = 0\<rparr>"

definition is_zero_time :: "go_time \<Rightarrow> bool" where
  "is_zero_time t \<longleftrightarrow> t_Unix t = t_Unix zero_time \<and> t_Nano t = 0"

definition time_before :: "go_time \<Rightarrow> go_time \<Rightarrow> bool" where
  "time_before s t \<longleftrightarrow> t_Unix s < t_Unix t \<or> t_Unix s = t_Unix t \<and> t_Nano s < t_Nano t"

definition to_utc :: "go_time \<Rightarrow> go_time" where
  "to_utc t = t\<lparr>t_Offset := 0\<rparr>"

definition add_seconds :: "int \<Rightarrow> go_time \<Rightarrow> go_time" where
  "add_seconds s t = t\<lparr>t_Unix := t_Unix t + s\<rparr>"

text \<open>\<open>AddDate\<close> with years only: the same month and day, the 29th of February overflowing to March.\<close>

definition add_years :: "int \<Rightarrow> go_time \<Rightarrow> go_time" where
  "add_years n t = (case civil_of_days (local_secs t div 86400) of (y, m, d) \<Rightarrow>
     t\<lparr>t_Unix := (days_of_civil (y + n) m 1 + d - 1) * 86400 + local_secs t mod 86400 - t_Offset t\<rparr>)"

definition date_utc :: "int \<Rightarrow> int \<Rightarrow> int \<Rightarrow> go_time" where
  "date_utc y m d = \<lparr>t_Unix = days_of_civil y m d * 86400, t_Nano = 0, t_Offset = 0\<rparr>"

definition year_day :: "go_time \<Rightarrow> int" where
  "year_day t = (let z = local_secs t div 86400 in case civil_of_days z of (y, _, _) \<Rightarrow> z - days_of_civil y 1 1 + 1)"

definition clock_hour :: "go_time \<Rightarrow> int" where
  "clock_hour t = local_secs t mod 86400 div 3600"

subsection \<open>Dates as text\<close>

definition leap_year :: "int \<Rightarrow> bool" where
  "leap_year y \<longleftrightarrow> y mod 4 = 0 \<and> (y mod 100 \<noteq> 0 \<or> y mod 400 = 0)"

definition days_in :: "int \<Rightarrow> int \<Rightarrow> int" where
  "days_in y m = (if m = 2 then (if leap_year y then 29 else 28) else if m \<in> {4, 6, 9, 11} then 30 else 31)"

definition date_of_digits :: "string \<Rightarrow> string \<Rightarrow> string \<Rightarrow> go_time option" where
  "date_of_digits ys ms ds =
     (let y = int (digits_val ys); m = int (digits_val ms); d = int (digits_val ds)
      in if list_all is_digit (ys @ ms @ ds) \<and> 1 \<le> m \<and> m \<le> 12 \<and> 1 \<le> d \<and> d \<le> days_in y m
         then Some (date_utc y m d) else None)"

text \<open>\<open>time.Parse\<close> with the layouts \<open>20060102\<close> and \<open>2006-01-02\<close>.\<close>

definition parse_date8 :: "string \<Rightarrow> go_time option" where
  "parse_date8 s = (if length s = 8 then date_of_digits (take 4 s) (take 2 (drop 4 s)) (drop 6 s) else None)"

definition parse_date10 :: "string \<Rightarrow> go_time option" where
  "parse_date10 s = (if length s = 10 \<and> s ! 4 = CHR ''-'' \<and> s ! 7 = CHR ''-''
     then date_of_digits (take 4 s) (take 2 (drop 5 s)) (drop 8 s) else None)"

definition fmt_date8 :: "go_time \<Rightarrow> string" where
  "fmt_date8 t = (case civil_of_days (local_secs t div 86400) of (y, m, d) \<Rightarrow> fmt_0d 4 y @ fmt_0d 2 m @ fmt_0d 2 d)"

subsection \<open>Lemmas\<close>

lemma digit_chars:
  "digit 0 = CHR ''0''" "digit (Suc 0) = CHR ''1''" "digit 2 = CHR ''2''" "digit 3 = CHR ''3''" "digit 4 = CHR ''4''"
  "digit 5 = CHR ''5''" "digit 6 = CHR ''6''" "digit 7 = CHR ''7''" "digit 8 = CHR ''8''" "digit 9 = CHR ''9''"
  by code_simp+

lemma fmt_duration_samples:
  "fmt_duration 0 = ''0s''" "fmt_duration 1500000000 = ''1.5s''" "fmt_duration (- 60000000000) = ''-1m0s''"
  by (simp_all add: fmt_duration_def fraction_def pad_left_def nat_str.simps digit_chars)

lemma zero_time_date: "zero_time = date_utc 1 1 1"
  by code_simp

end
