(* ===== verification/Forge.thy ===== *)
theory Forge
  imports GoTime Report
begin

text \<open>
  The clients of the code forges, \<^verbatim>\<open>pkg/github/client.go\<close> and \<^verbatim>\<open>pkg/gitlab/client.go\<close>. A payload
  is a map from field names to values; the body of a request is the text \<open>json.Marshal\<close> makes of
  it, and answers are decoded with \<open>json.Unmarshal\<close>. The transport is a parameter: whether a
  request can be made for a method and an address, what each request is answered, and the
  words of a JSON syntax error.
\<close>

subsection \<open>Requests\<close>

type_synonym payload = "string \<rightharpoonup> json"

record http_request =
  rq_Method :: string
  rq_URL :: string
  rq_Header :: "string \<rightharpoonup> string"
  rq_Body :: "string option"

record http_response =
  rp_StatusCode :: int
  rp_Status :: string
  rp_Body :: "string + string"

record transport =
  tp_bad_request :: "string \<Rightarrow> string \<Rightarrow> string option"
  tp_do :: "nat \<Rightarrow> http_request \<Rightarrow> string + http_response"
  tp_syntax_error :: "string \<Rightarrow> string"

text \<open>
  The body the two \<open>doRequest\<close> functions share; they differ in the headers for the token and
  the format and in the name in the error. The n-th request of a client call is answered by
  \<open>tp_do n\<close>.
\<close>

definition marshal_payload :: "payload \<Rightarrow> string + string" where
  "marshal_payload p = marshal (JObj (sorted_members p))"

definition exchange :: "transport \<Rightarrow> nat \<Rightarrow> string \<Rightarrow> http_request \<Rightarrow> string + string" where
  "exchange tp n who req =
     bind_sum (tp_do tp n req) (\<lambda>resp.
       bind_sum (rp_Body resp) (\<lambda>body.
         if rp_StatusCode resp < 200 \<or> rp_StatusCode resp \<ge> 300
         then Inl (who @ '' API error: '' @ rp_Status resp @ '' - '' @ body)
         else Inr body))"

definition send_request :: "transport \<Rightarrow> nat \<Rightarrow> string \<Rightarrow> (string \<rightharpoonup> string) \<Rightarrow> string \<Rightarrow> string \<Rightarrow> payload option \<Rightarrow> string + string" where
  "send_request tp n who headers method url payload =
     bind_sum (case payload of None \<Rightarrow> Inr None | Some p \<Rightarrow> map_sum id Some (marshal_payload p)) (\<lambda>body.
       case tp_bad_request tp method url of
         Some e \<Rightarrow> Inl e
       | None \<Rightarrow>
           (let hs = (if payload \<noteq> None then headers(''Content-Type'' \<mapsto> ''application/json'') else headers)
            in exchange tp n who \<lparr>rq_Method = method, rq_URL = url, rq_Header = hs, rq_Body = body\<rparr>))"

subsection \<open>GitHub\<close>

record gh_config =
  gc_Token :: string
  gc_Repository :: string
  gc_APIURL :: string

record gh_client =
  gh_token :: string
  gh_repository :: string
  gh_apiURL :: string

definition gh_new_client :: "gh_config \<Rightarrow> gh_client" where
  "gh_new_client c = \<lparr>gh_token = gc_Token c, gh_repository = gc_Repository c,
     gh_apiURL = (if gc_APIURL c = [] then ''https://api.github.com'' else gc_APIURL c)\<rparr>"

record check_run =
  ch_Name :: string
  ch_Status :: string
  ch_Conclusion :: string
  ch_Title :: string
  ch_Summary :: string
  ch_Text :: string
  ch_StartedAt :: go_time
  ch_CompletedAt :: go_time

definition gh_do_request :: "transport \<Rightarrow> nat \<Rightarrow> gh_client \<Rightarrow> string \<Rightarrow> string \<Rightarrow> payload option \<Rightarrow> string + string" where
  "gh_do_request tp n c = send_request tp n ''GitHub''
     [''Authorization'' \<mapsto> ''Bearer '' @ gh_token c, ''Accept'' \<mapsto> ''application/vnd.github.v3+json'']"

definition check_output :: "check_run \<Rightarrow> payload" where
  "check_output check = (if ch_Title check \<noteq> []
     then [''output'' \<mapsto> json_map [''title'' \<mapsto> ch_Title check, ''summary'' \<mapsto> ch_Summary check, ''text'' \<mapsto> ch_Text check]]
     else Map.empty)"

definition check_completed :: "check_run \<Rightarrow> payload" where
  "check_completed check = (if ch_Status check = ''completed''
     then [''conclusion'' \<mapsto> JStr (ch_Conclusion check), ''completed_at'' \<mapsto> JStr (fmt_rfc3339 (ch_CompletedAt check))]
     else Map.empty)"

definition create_check_payload :: "string \<Rightarrow> check_run \<Rightarrow> payload" where
  "create_check_payload sha check =
     [''name'' \<mapsto> JStr (ch_Name check), ''head_sha'' \<mapsto> JStr sha, ''status'' \<mapsto> JStr (ch_Status check)]
     ++ check_completed check
     ++ (if is_zero_time (ch_StartedAt check) then [''started_at'' \<mapsto> JStr (fmt_rfc3339 (ch_StartedAt check))] else Map.empty)
     ++ check_output check"

text \<open>The structures the answers are decoded into: \<open>id\<close>, and \<open>sha\<close> within \<open>head\<close>.\<close>

definition struct_type :: "string \<Rightarrow> string \<Rightarrow> string \<Rightarrow> string" where
  "struct_type field typ tag = concat [''struct { '', field, '' '', typ, '' '', dq, ''json:'', bs, dq, tag, bs, dq, dq, '' }'']"

definition decode_id :: "(string \<Rightarrow> string) \<Rightarrow> string \<Rightarrow> string + int" where
  "decode_id syn = unmarshal syn (into_struct ''id'' [] (struct_type ''ID'' ''int64'' ''id'') (into_int64 ''id'')) 0"

definition sha_type :: string where
  "sha_type = struct_type ''SHA'' ''string'' ''sha''"

definition decode_head_sha :: "(string \<Rightarrow> string) \<Rightarrow> string \<Rightarrow> string + string" where
  "decode_head_sha syn = unmarshal syn
     (into_struct ''head'' [] (struct_type ''Head'' sha_type ''head'') (into_struct ''sha'' ''head'' sha_type (into_string ''head.sha''))) []"

definition create_check_run :: "transport \<Rightarrow> nat \<Rightarrow> gh_client \<Rightarrow> string \<Rightarrow> check_run \<Rightarrow> string + int" where
  "create_check_run tp n c sha check =
     bind_sum (gh_do_request tp n c ''POST'' (gh_apiURL c @ ''/repos/'' @ gh_repository c @ ''/check-runs'')
                 (Some (create_check_payload sha check))) (decode_id (tp_syntax_error tp))"

definition update_check_run :: "transport \<Rightarrow> gh_client \<Rightarrow> int \<Rightarrow> check_run \<Rightarrow> string option" where
  "update_check_run tp c checkRunID check =
     (case gh_do_request tp 0 c ''PATCH''
             (gh_apiURL c @ ''/repos/'' @ gh_repository c @ ''/check-runs/'' @ fmt_d checkRunID)
             (Some ([''name'' \<mapsto> JStr (ch_Name check), ''status'' \<mapsto> JStr (ch_Status check)]
                ++ check_completed check ++ check_output check)) of
        Inl e \<Rightarrow> Some e | Inr _ \<Rightarrow> None)"

definition create_pr_comment :: "transport \<Rightarrow> gh_client \<Rightarrow> int \<Rightarrow> string \<Rightarrow> string option" where
  "create_pr_comment tp c prNumber body =
     (case gh_do_request tp 0 c ''POST''
             (gh_apiURL c @ ''/repos/'' @ gh_repository c @ ''/issues/'' @ fmt_d prNumber @ ''/comments'')
             (Some [''body'' \<mapsto> JStr body]) of
        Inl e \<Rightarrow> Some e | Inr _ \<Rightarrow> None)"

definition get_pr_head_sha :: "transport \<Rightarrow> gh_client \<Rightarrow> int \<Rightarrow> string + string" where
  "get_pr_head_sha tp c prNumber =
     bind_sum (gh_do_request tp 0 c ''GET'' (gh_apiURL c @ ''/repos/'' @ gh_repository c @ ''/pulls/'' @ fmt_d prNumber) None)
       (decode_head_sha (tp_syntax_error tp))"

definition create_check_comment :: "transport \<Rightarrow> gh_client \<Rightarrow> int \<Rightarrow> check_run \<Rightarrow> string option" where
  "create_check_comment tp c prNumber check =
     (case bind_sum (get_pr_head_sha tp c prNumber) (\<lambda>sha. create_check_run tp 1 c sha check) of
        Inl e \<Rightarrow> Some e | Inr _ \<Rightarrow> None)"

record forge_results =
  fr_TotalTests :: int
  fr_PassedTests :: int
  fr_FailedTests :: int
  fr_SkippedTests :: int
  fr_Duration :: int
  fr_Score :: int
  fr_MaxScore :: int
  fr_Grade :: string
  fr_ReportURL :: string

definition format_percentage :: "int \<Rightarrow> int \<Rightarrow> string" where
  "format_percentage score mx = (if mx = 0 then ''0%'' else fmt_f 1 (percent_of score mx) @ ''%'')"

definition comment_status :: "forge_results \<Rightarrow> string" where
  "comment_status r =
     (if fr_FailedTests r > 0 \<or> fr_Score r < 60 then [CHR 0xE2, CHR 0x9D, CHR 0x8C] @ '' FAILED''
      else [CHR 0xE2, CHR 0x9C, CHR 0x85] @ '' PASSED'')"

definition format_comment :: "forge_results \<Rightarrow> string" where
  "format_comment r =
     concat [''## '', [CHR 0xF0, CHR 0x9F, CHR 0xA7, CHR 0xAA], '' Test Harness Results'', nl, nl,
        ''**Status:** '', comment_status r, nl, nl, ''### Summary'', nl, ''- **Tests:** '',
        fmt_d (fr_PassedTests r), '' passed, '', fmt_d (fr_FailedTests r), '' failed, '',
        fmt_d (fr_SkippedTests r), '' skipped ('', fmt_d (fr_TotalTests r), '' total)'', nl,
        ''- **Duration:** '', fmt_duration (fr_Duration r), nl, ''- **Score:** '',
        fmt_d (fr_Score r), ''/'', fmt_d (fr_MaxScore r), '' ('',
        format_percentage (fr_Score r) (fr_MaxScore r), '')'', nl, nl, ''### Grade: '', fr_Grade r,
        nl] @
     (if fr_ReportURL r \<noteq> []
      then concat [nl, [CHR 0xF0, CHR 0x9F, CHR 0x93, CHR 0x8A], '' [View Full Report]('', fr_ReportURL r, '')'', nl]
      else [])"

definition gh_post_test_results :: "transport \<Rightarrow> gh_client \<Rightarrow> int \<Rightarrow> forge_results \<Rightarrow> string option" where
  "gh_post_test_results tp c prNumber results = create_pr_comment tp c prNumber (format_comment results)"

subsection \<open>GitLab\<close>

record gl_config =
  lc_Token :: string
  lc_Project :: string
  lc_APIURL :: string

record gl_client =
  gl_token :: string
  gl_project :: string
  gl_apiURL :: string

definition gl_new_client :: "gl_config \<Rightarrow> gl_client" where
  "gl_new_client c = \<lparr>gl_token = lc_Token c, gl_project = lc_Project c,
     gl_apiURL = (if lc_APIURL c = [] then ''https://gitlab.com/api/v4'' else lc_APIURL c)\<rparr>"

record pipeline_status =
  pl_State :: string
  pl_Name :: string
  pl_Description :: string
  pl_TargetURL :: string

definition gl_do_request :: "transport \<Rightarrow> nat \<Rightarrow> gl_client \<Rightarrow> string \<Rightarrow> string \<Rightarrow> payload option \<Rightarrow> string + string" where
  "gl_do_request tp n c = send_request tp n ''GitLab''
     [''PRIVATE-TOKEN'' \<mapsto> gl_token c, ''Accept'' \<mapsto> ''application/json'']"

text \<open>\<open>encodePath\<close> returns its argument.\<close>

definition encode_path :: "string \<Rightarrow> string" where
  "encode_path path = path"

definition update_commit_status :: "transport \<Rightarrow> gl_client \<Rightarrow> string \<Rightarrow> pipeline_status \<Rightarrow> string option" where
  "update_commit_status tp c sha status =
     (case gl_do_request tp 0 c ''POST'' (gl_apiURL c @ ''/projects/'' @ encode_path (gl_project c) @ ''/statuses/'' @ sha)
             (Some ([''state'' \<mapsto> JStr (pl_State status), ''name'' \<mapsto> JStr (pl_Name status),
                     ''description'' \<mapsto> JStr (pl_Description status)]
                ++ (if pl_TargetURL status \<noteq> [] then [''target_url'' \<mapsto> JStr (pl_TargetURL status)] else Map.empty))) of
        Inl e \<Rightarrow> Some e | Inr _ \<Rightarrow> None)"

definition mr_url :: "gl_client \<Rightarrow> int \<Rightarrow> string" where
  "mr_url c mrIID = gl_apiURL c @ ''/projects/'' @ encode_path (gl_project c) @ ''/merge_requests/'' @ fmt_d mrIID"

definition create_mr_comment :: "transport \<Rightarrow> gl_client \<Rightarrow> int \<Rightarrow> string \<Rightarrow> string option" where
  "create_mr_comment tp c mrIID body =
     (case gl_do_request tp 0 c ''POST'' (mr_url c mrIID @ ''/notes'') (Some [''body'' \<mapsto> JStr body]) of
        Inl e \<Rightarrow> Some e | Inr _ \<Rightarrow> None)"

definition decode_sha :: "(string \<Rightarrow> string) \<Rightarrow> string \<Rightarrow> string + string" where
  "decode_sha syn = unmarshal syn (into_struct ''sha'' [] sha_type (into_string ''sha'')) []"

definition get_mr_head_sha :: "transport \<Rightarrow> gl_client \<Rightarrow> int \<Rightarrow> string + string" where
  "get_mr_head_sha tp c mrIID = bind_sum (gl_do_request tp 0 c ''GET'' (mr_url c mrIID) None) (decode_sha (tp_syntax_error tp))"

text \<open>The client has its own copies of the comment and of the percentage.\<close>

definition gl_format_percentage :: "int \<Rightarrow> int \<Rightarrow> string" where
  "gl_format_percentage score mx = (if mx = 0 then ''0%'' else fmt_f 1 (percent_of score mx) @ ''%'')"

definition gl_format_comment :: "forge_results \<Rightarrow> string" where
  "gl_format_comment results =
     (let status = (if fr_FailedTests results > 0 \<or> fr_Score results < 60 then [CHR 0xE2, CHR 0x9D, CHR 0x8C] @ '' FAILED''
                    else [CHR 0xE2, CHR 0x9C, CHR 0x85] @ '' PASSED'');
          body = concat [''## '', [CHR 0xF0, CHR 0x9F, CHR 0xA7, CHR 0xAA], '' Test Harness Results'', nl, nl,
            ''**Status:** '', status, nl, nl, ''### Summary'', nl, ''- **Tests:** '',
            fmt_d (fr_PassedTests results), '' passed, '', fmt_d (fr_FailedTests results), '' failed, '',
            fmt_d (fr_SkippedTests results), '' skipped ('', fmt_d (fr_TotalTests results), '' total)'', nl,
            ''- **Duration:** '', fmt_duration (fr_Duration results), nl, ''- **Score:** '',
            fmt_d (fr_Score results), ''/'', fmt_d (fr_MaxScore results), '' ('',
            gl_format_percentage (fr_Score results) (fr_MaxScore results), '')'', nl, nl, ''### Grade: '', fr_Grade results, nl]
      in if fr_ReportURL results \<noteq> []
         then body @ concat [nl, [CHR 0xF0, CHR 0x9F, CHR 0x93, CHR 0x8A], '' [View Full Report]('', fr_ReportURL results, '')'', nl]
         else body)"

definition gl_post_test_results :: "transport \<Rightarrow> gl_client \<Rightarrow> int \<Rightarrow> forge_results \<Rightarrow> string option" where
  "gl_post_test_results tp c mrIID results = create_mr_comment tp c mrIID (gl_format_comment results)"

subsection \<open>Lemmas\<close>

text \<open>The two copies agree.\<close>

lemma gl_format_comment_eq: "gl_format_comment r = format_comment r"
  by (simp add: gl_format_comment_def format_comment_def comment_status_def gl_format_percentage_def format_percentage_def Let_def)

lemma payload_reads:
  assumes "finite (dom p)" "\<forall>k \<in> dom p. utf8_clean k = k" "\<forall>v \<in> ran p. json_ok v \<and> (\<exists>t. to_tree v = Inr t)"
  obtains body fields where "marshal_payload p = Inr body" "parse_json body = Some (TObj fields)"
    "\<And>k. map_of fields k = map_option (\<lambda>v. tree_clean (projr (to_tree v))) (p k)"
proof -
  let ?ms = "sorted_members p"
  have mem: "v \<in> ran p" "k \<in> dom p" if "(k, v) \<in> set ?ms" for k v
    using that assms(1) by (auto simp: sorted_members_def ran_def)
  have "map_sum_list (\<lambda>(k, v). map_sum id (Pair k) (to_tree v)) ?ms = Inr (map (\<lambda>(k, v). (k, projr (to_tree v))) ?ms)"
    using assms(3) mem by (intro map_sum_list_total) fastforce
  then have t: "to_tree (JObj ?ms) = Inr (TObj (map (\<lambda>(k, v). (k, projr (to_tree v))) ?ms))" by simp
  have ok: "json_ok (JObj ?ms)" using assms(3) mem by (auto simp: list_all_iff)
  obtain body where b: "marshal (JObj ?ms) = Inr body" using t by (simp add: marshal_def)
  then have r: "parse_json body = Some (tree_clean (TObj (map (\<lambda>(k, v). (k, projr (to_tree v))) ?ms)))"
    using marshal_reads(1) [OF ok, of "[]" body] t by simp
  define fields where "fields = map (\<lambda>(k, v). (k, tree_clean (projr (to_tree v)))) ?ms"
  have "tree_clean (TObj (map (\<lambda>(k, v). (k, projr (to_tree v))) ?ms)) = TObj fields"
    using assms(2) mem by (auto simp: fields_def)
  then have "parse_json body = Some (TObj fields)" using r by simp
  moreover have "map_of fields k = map_option (\<lambda>v. tree_clean (projr (to_tree v))) (p k)" for k
    using map_of_map [of "\<lambda>v. tree_clean (projr (to_tree v))" ?ms] sorted_members(1) [OF assms(1)] by (simp add: fields_def)
  moreover have "marshal_payload p = Inr body" using b by (simp add: marshal_payload_def)
  ultimately show ?thesis by (intro that)
qed

text \<open>The id of an answer: any object with that member once, whatever else it holds.\<close>

lemma decode_id_reads:
  assumes "parse_json answer = Some (TObj (pre @ (''id'', TNum (fmt_d i)) # post))" "- (2 ^ 63) \<le> i" "i < 2 ^ 63"
    and "\<forall>(k, _) \<in> set pre \<union> set post. fold_key k \<noteq> ''id''"
  shows "decode_id syn answer = Inr i"
proof -
  have skip: "foldl (\<lambda>t (k, w). if fold_key k = ''id'' then f w t else t) t ms = t" if "\<forall>(k, _) \<in> set ms. fold_key k \<noteq> ''id''" for f and t :: "int target" and ms :: "(string \<times> jtree) list"
    using that by (induction ms) auto
  have "fold_key ''id'' = ''id''" by (simp add: lower_char_def)
  then show ?thesis using assms(1,4)
    by (simp add: decode_id_def unmarshal_def into_struct_def skip ball_Un into_int64_fmt_d [OF assms(2,3)])
qed


text \<open>Payloads are built from strings and maps of strings under plain names.\<close>

definition plain_payload :: "payload \<Rightarrow> bool" where
  "plain_payload p \<longleftrightarrow> finite (dom p) \<and> (\<forall>k \<in> dom p. utf8_clean k = k)
     \<and> (\<forall>k v. p k = Some v \<longrightarrow> (\<exists>s. v = JStr s) \<or> (\<exists>m. v = json_map m))"

lemma plain_payload_intros:
  "plain_payload Map.empty"
  "plain_payload p \<Longrightarrow> utf8_clean k = k \<Longrightarrow> plain_payload (p(k \<mapsto> JStr s))"
  "plain_payload p \<Longrightarrow> utf8_clean k = k \<Longrightarrow> plain_payload (p(k \<mapsto> json_map m))"
  "plain_payload p \<Longrightarrow> plain_payload q \<Longrightarrow> plain_payload (p ++ q)"
  "(b \<Longrightarrow> plain_payload p) \<Longrightarrow> (\<not> b \<Longrightarrow> plain_payload q) \<Longrightarrow> plain_payload (if b then p else q)"
  by (auto simp: plain_payload_def map_add_Some_iff)

lemma plain_payload_reads:
  assumes "plain_payload p"
  obtains body fields where "marshal_payload p = Inr body" "parse_json body = Some (TObj fields)"
    "\<And>k. map_of fields k = map_option (\<lambda>v. tree_clean (projr (to_tree v))) (p k)"
proof -
  have "\<forall>v \<in> ran p. json_ok v \<and> (\<exists>t. to_tree v = Inr t)" using assms by (fastforce simp: plain_payload_def ran_def)
  then show ?thesis using payload_reads [of p] assms that unfolding plain_payload_def by blast
qed

lemma plain_check_payload: "plain_payload (create_check_payload sha check)"
  unfolding create_check_payload_def check_completed_def check_output_def
  by (intro plain_payload_intros) (simp_all add: utf8_clean_ascii)

subsection \<open>Properties\<close>

text \<open>
  C36. Creating a check run is one exchange: the body of the POST is JSON text that a server reads
  as the name, the status and the commit, the conclusion and the time of completion exactly when
  the run is completed, the output exactly when there is a title, and a start time only when none
  was set. Any object the server answers that has one member for the id gives that id.
\<close>
theorem check_run_exchange:
  fixes c check sha
  defines "url \<equiv> gh_apiURL c @ ''/repos/'' @ gh_repository c @ ''/check-runs''"
  assumes "tp_bad_request tp ''POST'' url = None"
  shows "\<exists>body fields.
      (\<forall>answer i pre post. exchange tp n ''GitHub'' \<lparr>rq_Method = ''POST'', rq_URL = url,
            rq_Header = [''Authorization'' \<mapsto> ''Bearer '' @ gh_token c, ''Accept'' \<mapsto> ''application/vnd.github.v3+json'',
              ''Content-Type'' \<mapsto> ''application/json''], rq_Body = Some body\<rparr> = Inr answer
          \<and> parse_json answer = Some (TObj (pre @ (''id'', TNum (fmt_d i)) # post)) \<and> - (2 ^ 63) \<le> i \<and> i < 2 ^ 63
          \<and> (\<forall>(k, _) \<in> set (pre @ post). fold_key k \<noteq> ''id'')
        \<longrightarrow> create_check_run tp n c sha check = Inr i)
      \<and> parse_json body = Some (TObj fields)
      \<and> map_of fields ''name'' = Some (TStr (utf8_clean (ch_Name check)))
      \<and> map_of fields ''status'' = Some (TStr (utf8_clean (ch_Status check)))
      \<and> map_of fields ''head_sha'' = Some (TStr (utf8_clean sha))
      \<and> map_of fields ''conclusion'' = (if ch_Status check = ''completed'' then Some (TStr (utf8_clean (ch_Conclusion check))) else None)
      \<and> (map_of fields ''completed_at'' \<noteq> None \<longleftrightarrow> ch_Status check = ''completed'')
      \<and> (map_of fields ''output'' \<noteq> None \<longleftrightarrow> ch_Title check \<noteq> [])
      \<and> (map_of fields ''started_at'' \<noteq> None \<longleftrightarrow> is_zero_time (ch_StartedAt check))"
proof -
  obtain body fields where b: "marshal_payload (create_check_payload sha check) = Inr body" "parse_json body = Some (TObj fields)"
    "\<And>k. map_of fields k = map_option (\<lambda>v. tree_clean (projr (to_tree v))) (create_check_payload sha check k)"
    by (rule plain_payload_reads [OF plain_check_payload [of sha check]], rule that)
  have f: "map_of fields ''name'' = Some (TStr (utf8_clean (ch_Name check)))"
      "map_of fields ''status'' = Some (TStr (utf8_clean (ch_Status check)))"
      "map_of fields ''head_sha'' = Some (TStr (utf8_clean sha))"
      "map_of fields ''conclusion'' = (if ch_Status check = ''completed'' then Some (TStr (utf8_clean (ch_Conclusion check))) else None)"
      "map_of fields ''completed_at'' \<noteq> None \<longleftrightarrow> ch_Status check = ''completed''"
      "map_of fields ''output'' \<noteq> None \<longleftrightarrow> ch_Title check \<noteq> []"
      "map_of fields ''started_at'' \<noteq> None \<longleftrightarrow> is_zero_time (ch_StartedAt check)"
    unfolding b(3) by (simp_all add: create_check_payload_def check_completed_def check_output_def map_add_def)
  have "create_check_run tp n c sha check = bind_sum (exchange tp n ''GitHub'' \<lparr>rq_Method = ''POST'', rq_URL = url,
      rq_Header = [''Authorization'' \<mapsto> ''Bearer '' @ gh_token c, ''Accept'' \<mapsto> ''application/vnd.github.v3+json'',
        ''Content-Type'' \<mapsto> ''application/json''], rq_Body = Some body\<rparr>) (decode_id (tp_syntax_error tp))"
    using assms by (simp add: create_check_run_def gh_do_request_def send_request_def b(1))
  then show ?thesis using b(2) f decode_id_reads by (intro exI [of _ body] exI [of _ fields]) (auto simp: ball_Un)
qed


definition id_answer :: string where
  "id_answer = concat [''{'', dq, ''id'', dq, '': 7, '', dq, ''url'', dq, '': null}'']"

definition sample_transport :: transport where
  "sample_transport = \<lparr>tp_bad_request = (\<lambda>_ _. None),
     tp_do = (\<lambda>_ _. Inr \<lparr>rp_StatusCode = 201, rp_Status = ''201 Created'', rp_Body = Inr id_answer\<rparr>), tp_syntax_error = (\<lambda>_. [])\<rparr>"

definition sample_check :: check_run where
  "sample_check = \<lparr>ch_Name = ''harness'', ch_Status = ''completed'', ch_Conclusion = ''success'', ch_Title = [], ch_Summary = [],
     ch_Text = [], ch_StartedAt = epoch, ch_CompletedAt = epoch\<rparr>"

theorem check_run_exchange_witness:
  "create_check_run sample_transport 0 (gh_new_client \<lparr>gc_Token = ''t'', gc_Repository = ''o/r'', gc_APIURL = []\<rparr>) ''abc'' sample_check = Inr 7"
proof -
  have id: "parse_json id_answer = Some (TObj ([] @ (''id'', TNum ''7'') # [(''url'', TNull)]))" "''7'' = fmt_d 7" "fold_key ''url'' \<noteq> ''id''"
    by code_simp+
  have ex: "exchange sample_transport 0 ''GitHub'' req = Inr id_answer" for req by (simp add: exchange_def sample_transport_def)
  have bad: "tp_bad_request sample_transport m u = None" for m u by (simp add: sample_transport_def)
  from check_run_exchange [OF bad, where n = 0 and sha = "''abc''" and check = sample_check
      and c = "gh_new_client \<lparr>gc_Token = ''t'', gc_Repository = ''o/r'', gc_APIURL = []\<rparr>"]
  show ?thesis using id ex
    by (elim exE conjE) (drule spec [of _ id_answer], drule spec [of _ 7], drule spec [of _ "[]"], drule spec [of _ "[(''url'', TNull)]"], simp)
qed

end
