(* ===== verification/Ci.thy ===== *)
theory Ci
  imports Linter TestRunner Grading Forge
begin

text \<open>
  The CI client, \<^verbatim>\<open>pkg/ci/client.go\<close>, and the \<open>ci\<close> command, \<^verbatim>\<open>pkg/cmd/ci.go\<close>: the pipeline that
  lints, tests, grades, reports and posts, composed of the components it calls (\<open>Linter\<close>,
  \<open>TestRunner\<close>, \<open>Forge\<close>). The environment holds what the system, the tools and the clock
  answer.
\<close>

subsection \<open>Data\<close>

datatype ci_platform = PlatformGitHub | PlatformGitLab | PlatformLocal

fun platform_string :: "ci_platform \<Rightarrow> string" where
  "platform_string PlatformGitHub = ''github''"
| "platform_string PlatformGitLab = ''gitlab''"
| "platform_string PlatformLocal = ''local''"

record ci_config =
  ci_Platform :: ci_platform
  ci_Token :: string
  ci_Repository :: string
  ci_CommitSHA :: string
  ci_Branch :: string
  ci_PullRequestID :: int
  ci_PipelineID :: int
  ci_APIURL :: string
  ci_DryRun :: bool

record test_summary =
  sm_TotalTests :: int
  sm_PassedTests :: int
  sm_FailedTests :: int
  sm_SkippedTests :: int
  sm_ErrorTests :: int
  sm_Duration :: int

record grade_info =
  gi_Score :: int
  gi_MaxScore :: int
  gi_Percentage :: f64
  gi_LetterGrade :: string
  gi_Passed :: bool

record ci_result =
  cs_Success :: bool
  cs_ExitCode :: int
  cs_Duration :: int
  cs_TestResults :: test_summary
  cs_Grade :: "grade_info option"
  cs_Reports :: "string list"
  cs_Errors :: "string list"
  cs_Timestamp :: go_time

record ci_env =
  ce_workdir :: string
  ce_cppcheck :: bool
  ce_lint :: lint_env
  ce_suites :: "nat \<Rightarrow> suite_env"
  ce_os :: os_answers
  ce_now :: go_time
  ce_elapsed :: int

definition empty_config :: ci_config where
  "empty_config = \<lparr>ci_Platform = PlatformLocal, ci_Token = [], ci_Repository = [], ci_CommitSHA = [], ci_Branch = [],
     ci_PullRequestID = 0, ci_PipelineID = 0, ci_APIURL = [], ci_DryRun = False\<rparr>"

text \<open>\<open>DetectConfig\<close>; the number of a GitHub pull request is never read from the environment.\<close>

definition detect_config :: "(string \<Rightarrow> string) \<Rightarrow> ci_config" where
  "detect_config getenv =
     (if getenv ''GITHUB_ACTIONS'' = ''true''
      then empty_config\<lparr>ci_Platform := PlatformGitHub, ci_Token := getenv ''GITHUB_TOKEN'',
             ci_Repository := getenv ''GITHUB_REPOSITORY'', ci_CommitSHA := getenv ''GITHUB_SHA'',
             ci_Branch := getenv ''GITHUB_REF_NAME'', ci_PullRequestID := 0, ci_APIURL := ''https://api.github.com''\<rparr>
      else if getenv ''GITLAB_CI'' = ''true''
      then empty_config\<lparr>ci_Platform := PlatformGitLab, ci_Token := getenv ''CI_JOB_TOKEN'',
             ci_Repository := getenv ''CI_PROJECT_PATH'', ci_CommitSHA := getenv ''CI_COMMIT_SHA'',
             ci_Branch := getenv ''CI_COMMIT_REF_NAME'', ci_PipelineID := sscanf_d (getenv ''CI_PIPELINE_ID''),
             ci_APIURL := getenv ''CI_API_V4_URL''\<rparr>
      else empty_config)"

subsection \<open>The steps of the pipeline\<close>

text \<open>\<open>runLinting\<close>: the lines it prints, whether the code passed, its score.\<close>

definition ci_run_linting :: "ci_env \<Rightarrow> string list \<times> bool \<times> int" where
  "ci_run_linting env =
     (let sp0 = path_join [ce_workdir env, ''..'', ''services''];
          sp = (if le_exists (ce_lint env) sp0 then sp0 else path_join [ce_workdir env, ''services'']);
          l = \<lparr>ln_servicesPath = sp, ln_sharedPath = path_join [sp, ''shared'']\<rparr>
      in if \<not> ce_cppcheck env then ([''Warning: cppcheck not found, skipping code quality checks''], True, 100)
         else let s = run_all (ce_lint env) l in (print_summary s, ls_Passed s, ls_Score s))"

definition ci_test_step :: "test_summary \<Rightarrow> suite_result \<Rightarrow> test_summary" where
  "ci_test_step s r = s\<lparr>sm_TotalTests := sm_TotalTests s + re_TestCount r, sm_PassedTests := sm_PassedTests s + re_PassCount r,
     sm_FailedTests := sm_FailedTests s + re_FailCount r, sm_SkippedTests := sm_SkippedTests s + re_SkipCount r,
     sm_Duration := i64 (sm_Duration s + re_Duration r)\<rparr>"

definition zero_summary :: test_summary where
  "zero_summary = \<lparr>sm_TotalTests = 0, sm_PassedTests = 0, sm_FailedTests = 0, sm_SkippedTests = 0, sm_ErrorTests = 0, sm_Duration = 0\<rparr>"

definition ci_runner_config :: runner_config where
  "ci_runner_config = \<lparr>rc_Suites = [''all''], rc_Services = [], rc_Parallel = 4, rc_Verbose = True, rc_UseMocks = [],
     rc_TestDir = ''./tests''\<rparr>"

definition ci_run_tests :: "ci_env \<Rightarrow> test_summary" where
  "ci_run_tests env = foldl ci_test_step zero_summary (run_suites (ce_suites env) ci_runner_config)"

text \<open>The weighted sum of \<open>calculateGrade\<close>; compilation, performance and reliability are constants.\<close>

definition ci_total_score :: "int \<Rightarrow> f64 \<Rightarrow> f64" where
  "ci_total_score lintScore testPercentage =
     Fin 100 * to_f64 (10 / 100) + of_int64 lintScore * to_f64 (10 / 100) + testPercentage * to_f64 (35 / 100)
       + Fin 80 * to_f64 (25 / 100) + Fin 75 * to_f64 (20 / 100)"

definition ci_letter :: "f64 \<Rightarrow> string" where
  "ci_letter p =
     (if Fin 93 \<le> p then ''A'' else if Fin 90 \<le> p then ''A-'' else if Fin 87 \<le> p then ''B+''
      else if Fin 83 \<le> p then ''B'' else if Fin 80 \<le> p then ''B-'' else if Fin 77 \<le> p then ''C+''
      else if Fin 73 \<le> p then ''C'' else if Fin 70 \<le> p then ''C-'' else if Fin 60 \<le> p then ''D''
      else ''F'')"

definition ci_calculate_grade :: "test_summary option \<Rightarrow> int \<Rightarrow> string + grade_info" where
  "ci_calculate_grade ts lintScore =
     (case ts of
        None \<Rightarrow> Inl ''no test summary provided''
      | Some s \<Rightarrow>
          (let pct = (if sm_TotalTests s > 0 then percent_of (sm_PassedTests s) (sm_TotalTests s) else 0);
               total = ci_total_score lintScore pct
           in Inr \<lparr>gi_Score = int_of_f64 total, gi_MaxScore = 100, gi_Percentage = total, gi_LetterGrade = ci_letter total,
                   gi_Passed = (Fin 60 \<le> total)\<rparr>))"

subsection \<open>Reports\<close>

definition ci_html :: "ci_result \<Rightarrow> grade_info \<Rightarrow> string" where
  "ci_html r g =
     concat [''<!DOCTYPE html>'', nl, ''<html>'', nl, ''<head>'', nl,
        ''    <title>CI Report</title>'', nl, ''    <style>'', nl,
        ''        body { font-family: sans-serif; margin: 40px; }'', nl,
        ''        .success { color: green; }'', nl, ''        .failure { color: red; }'', nl,
        ''        .summary { background: #f5f5f5; padding: 20px; border-radius: 8px; }'', nl,
        ''    </style>'', nl, ''</head>'', nl, ''<body>'', nl, ''    <h1>CI Pipeline Report</h1>'',
        nl, ''    <div class='', dq, ''summary'', dq, ''>'', nl,
        ''        <p>Status: <strong class='', dq, (if cs_Success r then ''success'' else ''failure''), dq, ''>'',
        (if cs_Success r then ''PASSED'' else ''FAILED''), ''</strong></p>'', nl,
        ''        <p>Duration: '', fmt_duration (cs_Duration r), ''</p>'', nl, ''        <p>Tests: '',
        fmt_d (sm_PassedTests (cs_TestResults r)), '' passed, '', fmt_d (sm_FailedTests (cs_TestResults r)),
        '' failed, '', fmt_d (sm_TotalTests (cs_TestResults r)), '' total</p>'', nl, ''        <p>Grade: '',
        gi_LetterGrade g, '' ('', fmt_f 1 (gi_Percentage g), ''%)</p>'', nl,
        ''    </div>'', nl, ''</body>'', nl, ''</html>'']"

text \<open>The members of \<open>Result\<close> have no tags: their names are those of the fields; durations are nanoseconds.\<close>

definition json_grade :: "grade_info \<Rightarrow> json" where
  "json_grade g = JObj [(''Score'', JInt (gi_Score g)), (''MaxScore'', JInt (gi_MaxScore g)), (''Percentage'', JFloat (gi_Percentage g)),
     (''LetterGrade'', JStr (gi_LetterGrade g)), (''Passed'', JBool (gi_Passed g))]"

definition json_summary :: "test_summary \<Rightarrow> json" where
  "json_summary t = JObj [(''TotalTests'', JInt (sm_TotalTests t)), (''PassedTests'', JInt (sm_PassedTests t)),
     (''FailedTests'', JInt (sm_FailedTests t)), (''SkippedTests'', JInt (sm_SkippedTests t)),
     (''ErrorTests'', JInt (sm_ErrorTests t)), (''Duration'', JInt (sm_Duration t))]"

definition json_result :: "ci_result \<Rightarrow> json" where
  "json_result r = JObj [(''Success'', JBool (cs_Success r)), (''ExitCode'', JInt (cs_ExitCode r)), (''Duration'', JInt (cs_Duration r)),
     (''TestResults'', json_summary (cs_TestResults r)), (''Grade'', case cs_Grade r of None \<Rightarrow> JNull | Some g \<Rightarrow> json_grade g),
     (''Reports'', JArr (map JStr (cs_Reports r))), (''Errors'', JArr (map JStr (cs_Errors r))), (''Timestamp'', JTime (cs_Timestamp r))]"

definition ci_export_json :: "ci_env \<Rightarrow> ci_result \<Rightarrow> string \<Rightarrow> file_result" where
  "ci_export_json env r path = (case marshal_indent (json_result r) of
     Inl e \<Rightarrow> (Some e, None) | Inr s \<Rightarrow> write_file (ce_os env) path (s @ nl))"

text \<open>A result without a grade makes \<open>exportHTML\<close> dereference a nil pointer.\<close>

definition ci_export_html :: "ci_env \<Rightarrow> ci_result \<Rightarrow> string \<Rightarrow> panic + file_result" where
  "ci_export_html env r path = (case cs_Grade r of
     None \<Rightarrow> Inl NilDereference | Some g \<Rightarrow> Inr (write_file (ce_os env) path (ci_html r g)))"

text \<open>\<open>generateReports\<close>: its result and the files written, which a panic leaves behind.\<close>

definition ci_generate_reports :: "ci_env \<Rightarrow> ci_result \<Rightarrow> (panic + string + string list) \<times> (string \<times> string) list" where
  "ci_generate_reports env r =
     (case os_mkdir (ce_os env) ''./reports'' of
        Some e \<Rightarrow> (Inr (Inl e), [])
      | None \<Rightarrow>
          (let jp = path_join [''./reports'', ''ci-result.json'']; hp = path_join [''./reports'', ''ci-report.html''];
               note_file = (\<lambda>p (err, f) (rs, fs). (if err = None then rs @ [p] else rs, fs @ (case f of None \<Rightarrow> [] | Some x \<Rightarrow> [x])))
           in case note_file jp (ci_export_json env r jp) ([], []) of (rs, fs) \<Rightarrow>
                (case ci_export_html env r hp of
                   Inl p \<Rightarrow> (Inl p, fs)
                 | Inr html \<Rightarrow> (case note_file hp html (rs, fs) of (rs, fs) \<Rightarrow> (Inr (Inr rs), fs)))))"

definition sha8 :: "string \<Rightarrow> panic + string" where
  "sha8 s = (if length s < 8 then Inl SliceOutOfRange else Inr (take 8 s))"

text \<open>\<open>postResults\<close> prints a line and never fails, but its GitHub branch slices the commit.\<close>

definition ci_post_results :: "ci_config \<Rightarrow> panic + string list" where
  "ci_post_results cfg = (case ci_Platform cfg of
     PlatformGitHub \<Rightarrow> bind_sum (sha8 (ci_CommitSHA cfg)) (\<lambda>s. Inr [''Posting to GitHub: '' @ ci_Repository cfg @ ''/'' @ s])
   | PlatformGitLab \<Rightarrow> Inr [''Posting to GitLab: '' @ ci_Repository cfg]
   | PlatformLocal \<Rightarrow> Inr [])"

subsection \<open>The pipeline\<close>

text \<open>
  \<open>RunPipeline\<close>: the result or panic, the lines printed and the files written until then. Validation, benchmarks and
  chaos tests are empty, and the test runner returns no error, so the pipeline has no error
  return that can be taken.
\<close>

definition add_ci_error :: "string \<Rightarrow> ci_result \<Rightarrow> ci_result" where
  "add_ci_error e r = r\<lparr>cs_Errors := cs_Errors r @ [e]\<rparr>"

definition ci_grade_step :: "test_summary \<Rightarrow> int \<Rightarrow> ci_result \<Rightarrow> ci_result" where
  "ci_grade_step tests lintScore r = (case ci_calculate_grade (Some tests) lintScore of
     Inl e \<Rightarrow> add_ci_error (''grading failed: '' @ e) r
   | Inr g \<Rightarrow> (let r1 = r\<lparr>cs_Grade := Some g, cs_Success := gi_Passed g\<rparr>
               in if gi_Passed g then r1 else r1\<lparr>cs_ExitCode := 1\<rparr>))"

definition run_pipeline :: "ci_env \<Rightarrow> ci_config \<Rightarrow> (panic + ci_result) \<times> string list \<times> (string \<times> string) list" where
  "run_pipeline env cfg =
     (case ci_run_linting env of (printed, lintResult, lintScore) \<Rightarrow>
       let tests = ci_run_tests env;
           r0 = \<lparr>cs_Success = False, cs_ExitCode = 0, cs_Duration = 0, cs_TestResults = zero_summary, cs_Grade = None,
                 cs_Reports = [], cs_Errors = [], cs_Timestamp = ce_now env\<rparr>;
           r1 = (if lintResult then r0 else add_ci_error ''code quality checks found issues'' r0);
           r2 = r1\<lparr>cs_TestResults := tests\<rparr>;
           r3 = ci_grade_step tests lintScore r2
       in case ci_generate_reports env r3 of
            (Inl p, files) \<Rightarrow> (Inl p, printed, files)
          | (Inr reports, files) \<Rightarrow>
              (let r4 = (case reports of Inl e \<Rightarrow> add_ci_error (''report generation failed: '' @ e) r3 | Inr rs \<Rightarrow> r3\<lparr>cs_Reports := rs\<rparr>)
               in case (if \<not> ci_DryRun cfg then ci_post_results cfg else Inr []) of
                    Inl p \<Rightarrow> (Inl p, printed, files)
                  | Inr posted \<Rightarrow> (Inr (r4\<lparr>cs_Duration := ce_elapsed env\<rparr>), printed @ posted, files)))"

subsection \<open>The ci command\<close>

record ci_flags =
  cg_githubToken :: string
  cg_gitlabToken :: string
  cg_failThreshold :: int
  cg_prNumber :: int
  cg_repo :: string
  cg_mrNumber :: int
  cg_gitLabProject :: string

definition override_config :: "ci_flags \<Rightarrow> ci_config \<Rightarrow> ci_config" where
  "override_config fl c =
     (if cg_githubToken fl \<noteq> []
      then c\<lparr>ci_Platform := PlatformGitHub, ci_Token := cg_githubToken fl, ci_Repository := cg_repo fl,
             ci_PullRequestID := cg_prNumber fl\<rparr>
      else if cg_gitlabToken fl \<noteq> []
      then c\<lparr>ci_Platform := PlatformGitLab, ci_Token := cg_gitlabToken fl, ci_Repository := cg_gitLabProject fl,
             ci_PullRequestID := cg_mrNumber fl\<rparr>
      else c)"

definition ci_forge_results :: "ci_result \<Rightarrow> grade_info \<Rightarrow> forge_results" where
  "ci_forge_results r g = \<lparr>fr_TotalTests = sm_TotalTests (cs_TestResults r), fr_PassedTests = sm_PassedTests (cs_TestResults r),
     fr_FailedTests = sm_FailedTests (cs_TestResults r), fr_SkippedTests = sm_SkippedTests (cs_TestResults r),
     fr_Duration = cs_Duration r, fr_Score = gi_Score g, fr_MaxScore = gi_MaxScore g, fr_Grade = gi_LetterGrade g, fr_ReportURL = []\<rparr>"

text \<open>The comment \<open>runCI\<close> posts: the error of the post, if one is made. Without a grade it panics.\<close>

definition ci_post_comment :: "transport \<Rightarrow> ci_config \<Rightarrow> ci_result \<Rightarrow> panic + string option option" where
  "ci_post_comment tp cfg r =
     (if ci_PullRequestID cfg > 0 \<and> ci_Token cfg \<noteq> [] \<and> ci_Platform cfg \<noteq> PlatformLocal
      then case cs_Grade r of
             None \<Rightarrow> Inl NilDereference
           | Some g \<Rightarrow>
               (if ci_Platform cfg = PlatformGitHub
                then Inr (Some (gh_post_test_results tp
                       (gh_new_client \<lparr>gc_Token = ci_Token cfg, gc_Repository = ci_Repository cfg, gc_APIURL = []\<rparr>)
                       (ci_PullRequestID cfg) (ci_forge_results r g)))
                else Inr (Some (gl_post_test_results tp
                       (gl_new_client \<lparr>lc_Token = ci_Token cfg, lc_Project = ci_Repository cfg, lc_APIURL = ci_APIURL cfg\<rparr>)
                       (ci_PullRequestID cfg) (ci_forge_results r g))))
      else Inr None)"

text \<open>\<open>runCI\<close>: the exit status, the result and the comment.\<close>

definition run_ci :: "ci_env \<Rightarrow> (string \<Rightarrow> string) \<Rightarrow> transport \<Rightarrow> ci_flags \<Rightarrow> panic + int \<times> ci_result \<times> string option option" where
  "run_ci env getenv tp fl =
     (let cfg = override_config fl (detect_config getenv)
      in bind_sum (if ci_Platform cfg = PlatformLocal then Inr [] else sha8 (ci_CommitSHA cfg)) (\<lambda>_.
           bind_sum (fst (run_pipeline env cfg)) (\<lambda>r.
             bind_sum (ci_post_comment tp cfg r) (\<lambda>posted.
               Inr (case cs_Grade r of
                      Some g \<Rightarrow> (if of_int64 (cg_failThreshold fl) \<le> gi_Percentage g then 0 else 1)
                    | None \<Rightarrow> 1, r, posted)))))"

subsection \<open>The grade in floats\<close>

lemma ci_constants:
  "Fin 100 * to_f64 (10 / 100) = Fin 10" "Fin 80 * to_f64 (25 / 100) = Fin 20" "Fin 75 * to_f64 (20 / 100) = Fin 15"
  "Fin 100 * to_f64 (35 / 100) = Fin 35" "Fin 0 * to_f64 (10 / 100) = Fin 0" "Fin 0 * to_f64 (35 / 100) = Fin 0"
  by code_simp+

lemma ci_weights: "\<exists>c\<ge>0. to_f64 (10 / 100) = Fin c" "\<exists>c\<ge>0. to_f64 (35 / 100) = Fin c"
proof -
  have "to_f64 p = Fin (round53 p)" "0 \<le> round53 p" if "0 \<le> p" "p \<le> 1" for p
    using that by (auto intro!: to_f64_53 round53_nonneg)
  then show "\<exists>c\<ge>0. to_f64 (10 / 100) = Fin c" "\<exists>c\<ge>0. to_f64 (35 / 100) = Fin c" by fastforce+
qed

lemma ci_sums: "Fin 10 + Fin 0 = Fin 10" "Fin 10 + Fin 10 = Fin 20" "Fin 10 + Fin 0 + Fin 20 = Fin 30"
  "Fin 20 + Fin 35 = Fin 55" "Fin 10 + Fin 20 = Fin 30" "Fin 55 + Fin 20 = Fin 75" "Fin 30 + Fin 15 = Fin 45" "Fin 75 + Fin 15 = Fin 90"
  by code_simp+

lemma ci_total_bounds:
  assumes "0 \<le> s" "s \<le> 100" "Fin 0 \<le> p" "p \<le> Fin 100"
  shows "Fin 45 \<le> ci_total_score s p" "ci_total_score s p \<le> Fin 90"
proof -
  have l: "Fin 0 \<le> of_int64 s" "of_int64 s \<le> Fin 100"
    using assms(1,2) of_int64_mono [of 0 s] of_int64_mono [of s 100] of_int64_exact [of 0] of_int64_exact [of 100] by simp_all
  have q: "Fin 0 \<le> of_int64 s * to_f64 (10 / 100)" "of_int64 s * to_f64 (10 / 100) \<le> Fin 10"
    using ci_weights(1) f64_mult_between [OF l] ci_constants(1,5) by metis+
  have f: "Fin 0 \<le> p * to_f64 (35 / 100)" "p * to_f64 (35 / 100) \<le> Fin 35"
    using ci_weights(2) f64_mult_between [OF assms(3,4)] ci_constants(4,6) by metis+
  have self: "Fin a \<le> Fin a" for a by simp
  note s1 = f64_add_between [OF self self q, of 10, unfolded ci_sums]
  note s2 = f64_add_between [OF s1 f, unfolded ci_sums]
  note s3 = f64_add_between [OF s2 self self, of 20, unfolded ci_sums]
  note s4 = f64_add_between [OF s3 self self, of 15, unfolded ci_sums]
  show "Fin 45 \<le> ci_total_score s p" "ci_total_score s p \<le> Fin 90"
    using s4 by (simp_all only: ci_total_score_def ci_constants)
qed

lemma ci_letter_eq: "ci_letter = letter_grade"
  by (simp add: ci_letter_def letter_grade_def fun_eq_iff)

text \<open>The score the comment shows is below 60 exactly when the grade is not passed.\<close>

lemma int_of_f64_60:
  assumes "Fin 0 \<le> x" "x \<le> Fin 100"
  shows "int_of_f64 x < 60 \<longleftrightarrow> \<not> Fin 60 \<le> x"
proof -
  obtain q where q: "x = Fin q" "0 \<le> q" "q \<le> 100" using f64_between [OF assms] by blast
  then have "0 \<le> \<lfloor>q\<rfloor>" "\<lfloor>q\<rfloor> \<le> 100" by linarith+
  then show ?thesis using q by (auto simp: trunc_rat_def Let_def f64_simps floor_less_iff)
qed

subsection \<open>The inputs of the grade\<close>

lemma lint_score_range:
  assumes "0 \<le> e" "0 \<le> w" "0 \<le> s"
  shows "0 \<le> lint_score e w s" "lint_score e w s \<le> 100"
proof -
  let ?d = "lint_deductions e w s"
  have d: "Fin 0 \<le> ?d"
    unfolding lint_deductions_def using assms by (intro f64_nonneg_add f64_nonneg_mult of_int64_nonneg) auto
  have "0 \<le> lint_score e w s \<and> lint_score e w s \<le> 100"
  proof (cases "Fin 0 \<le> Fin 100 - ?d")
    case True
    have "Fin 100 - ?d \<le> Fin 100"
    proof (cases ?d)
      case (Fin q)
      have "to_f64 (100 - q) \<le> to_f64 100" using d Fin by (intro to_f64_mono) (simp add: f64_simps)
      moreover have "to_f64 100 = Fin 100" by code_simp
      ultimately show ?thesis using Fin by (simp add: f64_simps)
    qed (use d True in \<open>simp_all add: f64_defs\<close>)
    then obtain q where q: "Fin 100 - ?d = Fin q" "0 \<le> q" "q \<le> 100" using f64_between [OF True] by blast
    then have "0 \<le> \<lfloor>q\<rfloor>" "\<lfloor>q\<rfloor> \<le> 100" by linarith+
    with q show ?thesis by (simp add: lint_score_def trunc_rat_def Let_def f64_defs)
  next
    case False
    then have "int_of_f64 (if Fin 100 - ?d < 0 then 0 else Fin 100 - ?d) = 0"
      using d by (cases ?d) (auto simp: f64_defs trunc_rat_def to_f64_def Let_def split: if_splits)
    then show ?thesis by (simp add: lint_score_def)
  qed
  then show "0 \<le> lint_score e w s" "lint_score e w s \<le> 100" by simp_all
qed

lemma count_list_nonneg: "(\<And>x. x \<in> set xs \<Longrightarrow> 0 \<le> f x) \<Longrightarrow> 0 \<le> (\<Sum>x \<leftarrow> xs. f x :: int)"
  by (rule sum_list_nonneg) auto

lemma ci_run_linting_range: "ci_run_linting env = (printed, ok, sc) \<Longrightarrow> 0 \<le> sc \<and> sc \<le> 100"
proof -
  assume r: "ci_run_linting env = (printed, ok, sc)"
  have "0 \<le> ls_Score (run_all e l) \<and> ls_Score (run_all e l) \<le> 100" for e l
  proof -
    have ok: "0 \<le> lr_ErrorCount (the_result e l f)" "0 \<le> lr_WarningCount (the_result e l f)" "0 \<le> lr_StyleCount (the_result e l f)" for f
      using run_cppcheck_ok [OF run_cppcheck_the, of e l f] by (simp_all add: counts_ok_def)
    have "0 \<le> lint_score (\<Sum>f \<leftarrow> fs. lr_ErrorCount (the_result e l f)) (\<Sum>f \<leftarrow> fs. lr_WarningCount (the_result e l f))
        (\<Sum>f \<leftarrow> fs. lr_StyleCount (the_result e l f))
      \<and> lint_score (\<Sum>f \<leftarrow> fs. lr_ErrorCount (the_result e l f)) (\<Sum>f \<leftarrow> fs. lr_WarningCount (the_result e l f))
        (\<Sum>f \<leftarrow> fs. lr_StyleCount (the_result e l f)) \<le> 100" for fs
      by (intro conjI lint_score_range count_list_nonneg ok)
    then show ?thesis
      by (auto simp: run_all_def Let_def run_all_loop calculate_score_def empty_summary_def)
  qed
  then show ?thesis using r by (auto simp: ci_run_linting_def Let_def split: if_splits)
qed

definition tests_ok :: "test_summary \<Rightarrow> bool" where
  "tests_ok t \<longleftrightarrow> 0 \<le> sm_PassedTests t \<and> 0 \<le> sm_FailedTests t \<and> 0 \<le> sm_SkippedTests t
     \<and> sm_TotalTests t = sm_PassedTests t + sm_FailedTests t + sm_SkippedTests t"

lemma run_suite_nonneg:
  "0 \<le> re_PassCount (run_suite env cfg s)" "0 \<le> re_FailCount (run_suite env cfg s)" "0 \<le> re_SkipCount (run_suite env cfg s)"
  by (auto simp: run_suite_def run_unit_tests_def run_integration_tests_def run_performance_tests_def
      run_chaos_tests_def run_go_tests_def Let_def parse_go_test_output_def parse_counts split: option.splits)

lemma ci_tests_three:
  "ci_run_tests env = foldl ci_test_step zero_summary
     (map (\<lambda>(i, s). run_suite (ce_suites env i) ci_runner_config s) [(0, ''unit''), (1, ''integration''), (2, ''performance'')])"
  by (simp add: ci_run_tests_def run_suites_def ci_runner_config_def run_one_def numeral_2_eq_2)

lemma ci_run_tests_ok: "tests_ok (ci_run_tests env)" "0 < sm_TotalTests (ci_run_tests env)"
proof -
  have step: "tests_ok (ci_test_step t (run_suite e c s))" if "tests_ok t" for t e c s
    using that run_suite_nonneg [of e c s] run_suite_ok(3) [of e c s] by (simp add: tests_ok_def ci_test_step_def)
  have "tests_ok zero_summary" by (simp add: tests_ok_def zero_summary_def)
  then show ok: "tests_ok (ci_run_tests env)" by (simp add: ci_tests_three step)
  let ?r = "\<lambda>i s. run_suite (ce_suites env i) ci_runner_config s"
  have five: "re_TestCount (?r 2 ''performance'') = 5" by (simp add: run_suite_def run_performance_tests_def)
  have "0 \<le> re_TestCount (?r i s)" for i s using run_suite_ok(3) run_suite_nonneg by (simp add: add_nonneg_nonneg)
  from this [of 0 "''unit''"] this [of 1 "''integration''"] show "0 < sm_TotalTests (ci_run_tests env)"
    using five by (simp add: ci_tests_three ci_test_step_def zero_summary_def)
qed

text \<open>The grade of a pipeline, whatever was linted and tested.\<close>

definition ci_percentage :: "test_summary \<Rightarrow> f64" where
  "ci_percentage s = (if sm_TotalTests s > 0 then percent_of (sm_PassedTests s) (sm_TotalTests s) else 0)"

lemma ci_percentage_range:
  assumes "tests_ok s" "sm_TotalTests s \<le> 2 ^ 53"
  shows "Fin 0 \<le> ci_percentage s" "ci_percentage s \<le> Fin 100"
proof -
  have "Fin 0 \<le> ci_percentage s \<and> ci_percentage s \<le> Fin 100"
  proof (cases "sm_TotalTests s > 0")
    case True
    then obtain q where "percent_of (sm_PassedTests s) (sm_TotalTests s) = Fin q" "0 \<le> q" "q \<le> 100"
      using percent_of_part [of "sm_PassedTests s" "sm_TotalTests s"] assms by (auto simp: tests_ok_def)
    then show ?thesis using True by (simp add: ci_percentage_def f64_simps)
  qed (simp add: ci_percentage_def f64_defs)
  then show "Fin 0 \<le> ci_percentage s" "ci_percentage s \<le> Fin 100" by simp_all
qed

definition grade_of :: "f64 \<Rightarrow> grade_info" where
  "grade_of x = \<lparr>gi_Score = int_of_f64 x, gi_MaxScore = 100, gi_Percentage = x, gi_LetterGrade = ci_letter x,
     gi_Passed = (Fin 60 \<le> x)\<rparr>"

lemma ci_calculate_grade_eq: "ci_calculate_grade (Some s) l = Inr (grade_of (ci_total_score l (ci_percentage s)))"
  by (simp add: ci_calculate_grade_def ci_percentage_def grade_of_def Let_def)

lemma ci_letter_not_A: "x \<le> Fin 90 \<Longrightarrow> Fin 0 \<le> x \<Longrightarrow> ci_letter x \<noteq> ''A''"
  using f64_between [of 0 x 90] by (auto simp: ci_letter_def f64_simps)

definition json_file :: "ci_result \<Rightarrow> string \<times> string \<Rightarrow> bool" where
  "json_file r f \<longleftrightarrow> (\<exists>s. marshal_indent (json_result r) = Inr s \<and> f = (path_join [''./reports'', ''ci-result.json''], s @ nl))"

text \<open>
  The files of \<open>generateReports\<close>: the two reports and no others, each written when the system
  allows it, the JSON report only if the result can be encoded.
\<close>

definition report_files :: "ci_env \<Rightarrow> ci_result \<Rightarrow> grade_info \<Rightarrow> (string \<times> string) list \<Rightarrow> bool" where
  "report_files env r g files \<longleftrightarrow>
     (\<forall>f \<in> set files. json_file r f \<or> f = (path_join [''./reports'', ''ci-report.html''], ci_html r g))
     \<and> (os_mkdir (ce_os env) ''./reports'' = None \<longrightarrow>
          (os_write (ce_os env) (path_join [''./reports'', ''ci-report.html'']) = None \<longrightarrow>
             (path_join [''./reports'', ''ci-report.html''], ci_html r g) \<in> set files)
          \<and> (\<forall>s. os_write (ce_os env) (path_join [''./reports'', ''ci-result.json'']) = None
               \<and> marshal_indent (json_result r) = Inr s \<longrightarrow> (path_join [''./reports'', ''ci-result.json''], s @ nl) \<in> set files))"

lemma ci_reports_written:
  assumes "cs_Grade r = Some g"
  shows "\<exists>reports files. ci_generate_reports env r = (Inr reports, files) \<and> report_files env r g files
    \<and> (case reports of Inl _ \<Rightarrow> files = [] \<and> os_mkdir (ce_os env) ''./reports'' \<noteq> None | Inr rs \<Rightarrow> rs = map fst files)"
proof (cases "os_mkdir (ce_os env) ''./reports''")
  case (Some e)
  then show ?thesis by (simp add: ci_generate_reports_def report_files_def)
next
  case None
  let ?jp = "path_join [''./reports'', ''ci-result.json'']" and ?hp = "path_join [''./reports'', ''ci-report.html'']"
  let ?opt = "\<lambda>f. case f of None \<Rightarrow> [] | Some x \<Rightarrow> [x]"
  obtain je jf where j: "ci_export_json env r ?jp = (je, jf)" by (cases "ci_export_json env r ?jp") auto
  obtain he hf where h: "write_file (ce_os env) ?hp (ci_html r g) = (he, hf)" by (cases "write_file (ce_os env) ?hp (ci_html r g)") auto
  have jf: "je = None \<longleftrightarrow> jf \<noteq> None" "\<And>f. jf = Some f \<Longrightarrow> json_file r f \<and> fst f = ?jp"
    using j by (auto simp: ci_export_json_def json_file_def split: sum.splits dest: write_file_cases)
  have jw: "jf = Some (?jp, s @ nl)" if "os_write (ce_os env) ?jp = None" "marshal_indent (json_result r) = Inr s" for s
    using j that by (simp add: ci_export_json_def write_file_def)
  have hf: "he = None \<longleftrightarrow> hf \<noteq> None" "\<And>f. hf = Some f \<Longrightarrow> f = (?hp, ci_html r g)"
    using write_file_cases [OF h] by auto
  have hw: "hf = Some (?hp, ci_html r g)" if "os_write (ce_os env) ?hp = None" using h that by (simp add: write_file_def)
  have "ci_generate_reports env r = (Inr (Inr (map fst (?opt jf @ ?opt hf))), ?opt jf @ ?opt hf)"
    using None assms j h jf hf by (auto simp: ci_generate_reports_def ci_export_html_def Let_def split: option.splits)
  moreover have "json_file r f \<or> f = (?hp, ci_html r g)" if "f \<in> set (?opt jf @ ?opt hf)" for f
    using that jf(2) hf(2) by (auto split: option.splits)
  then have "report_files env r g (?opt jf @ ?opt hf)" unfolding report_files_def using jw hw by simp
  ultimately show ?thesis by simp
qed

text \<open>The two stages of the pipeline: what is graded, and what is returned when the posting does not panic.\<close>

definition ci_lint_score :: "ci_env \<Rightarrow> int" where
  "ci_lint_score env = snd (snd (ci_run_linting env))"

definition pipeline_grade :: "ci_env \<Rightarrow> grade_info" where
  "pipeline_grade env = grade_of (ci_total_score (ci_lint_score env) (ci_percentage (ci_run_tests env)))"

definition post_panics :: "ci_config \<Rightarrow> bool" where
  "post_panics cfg \<longleftrightarrow> ci_Platform cfg = PlatformGitHub \<and> \<not> ci_DryRun cfg \<and> length (ci_CommitSHA cfg) < 8"

lemma pipeline_grade_bounds:
  assumes "sm_TotalTests (ci_run_tests env) \<le> 2 ^ 53"
  shows "Fin 45 \<le> gi_Percentage (pipeline_grade env)" "gi_Percentage (pipeline_grade env) \<le> Fin 90"
  using ci_total_bounds [OF _ _ ci_percentage_range [OF ci_run_tests_ok(1) assms]] ci_run_linting_range [of env]
  by (cases "ci_run_linting env"; auto simp: pipeline_grade_def grade_of_def ci_lint_score_def)+

lemma ci_grade_step_fields:
  "cs_Grade (ci_grade_step t l r) = Some (grade_of (ci_total_score l (ci_percentage t)))"
  "cs_Success (ci_grade_step t l r) = gi_Passed (grade_of (ci_total_score l (ci_percentage t)))"
  "cs_ExitCode (ci_grade_step t l r) = (if gi_Passed (grade_of (ci_total_score l (ci_percentage t))) then cs_ExitCode r else 1)"
  "cs_TestResults (ci_grade_step t l r) = cs_TestResults r" "cs_Duration (ci_grade_step t l r) = cs_Duration r"
  "cs_Reports (ci_grade_step t l r) = cs_Reports r"
  by (simp_all add: ci_grade_step_def ci_calculate_grade_eq Let_def)

text \<open>
  The pipeline as the reports and the caller see it: \<open>r\<close> is the result that is returned unless the
  posting panics; the reports show it before its duration and the list of reports are set.
\<close>

definition at_report :: "ci_result \<Rightarrow> ci_result" where
  "at_report r = r\<lparr>cs_Duration := 0, cs_Reports := []\<rparr>"

definition reports_ok :: "ci_env \<Rightarrow> ci_result \<Rightarrow> (string \<times> string) list \<Rightarrow> bool" where
  "reports_ok env r files \<longleftrightarrow> cs_Reports r = map fst files \<and> report_files env (at_report r) (pipeline_grade env) files"

lemma run_pipeline_cases:
  obtains r printed files where
    "\<And>cfg. \<exists>posted. run_pipeline env cfg =
       (if post_panics cfg then (Inl SliceOutOfRange, printed, files) else (Inr r, printed @ posted, files))
       \<and> (ci_DryRun cfg \<longrightarrow> posted = [])"
    "cs_Grade r = Some (pipeline_grade env)" "cs_Success r = gi_Passed (pipeline_grade env)"
    "cs_ExitCode r = (if gi_Passed (pipeline_grade env) then 0 else 1)"
    "cs_TestResults r = ci_run_tests env" "cs_Duration r = ce_elapsed env" "reports_ok env r files"
proof -
  obtain pr ok sc where l: "ci_run_linting env = (pr, ok, sc)" by (cases "ci_run_linting env")
  define r3 where "r3 = ci_grade_step (ci_run_tests env) sc
    ((if ok then \<lparr>cs_Success = False, cs_ExitCode = 0, cs_Duration = 0, cs_TestResults = zero_summary, cs_Grade = None,
                 cs_Reports = [], cs_Errors = [], cs_Timestamp = ce_now env\<rparr>
      else add_ci_error ''code quality checks found issues'' \<lparr>cs_Success = False, cs_ExitCode = 0, cs_Duration = 0,
                 cs_TestResults = zero_summary, cs_Grade = None, cs_Reports = [], cs_Errors = [], cs_Timestamp = ce_now env\<rparr>)
     \<lparr>cs_TestResults := ci_run_tests env\<rparr>)"
  have g: "pipeline_grade env = grade_of (ci_total_score sc (ci_percentage (ci_run_tests env)))"
    by (simp add: pipeline_grade_def ci_lint_score_def l)
  have r3: "cs_Grade r3 = Some (pipeline_grade env)" "cs_Success r3 = gi_Passed (pipeline_grade env)"
    "cs_ExitCode r3 = (if gi_Passed (pipeline_grade env) then 0 else 1)"
    "cs_TestResults r3 = ci_run_tests env" "cs_Duration r3 = 0" "cs_Reports r3 = []"
    unfolding r3_def ci_grade_step_fields g by (simp_all add: add_ci_error_def)
  obtain reports files where rep: "ci_generate_reports env r3 = (Inr reports, files)" "report_files env r3 (pipeline_grade env) files"
    "case reports of Inl _ \<Rightarrow> files = [] \<and> os_mkdir (ce_os env) ''./reports'' \<noteq> None | Inr rs \<Rightarrow> rs = map fst files"
    using ci_reports_written [OF r3(1)] by blast
  define r4 where "r4 = (case reports of Inl e \<Rightarrow> add_ci_error (''report generation failed: '' @ e) r3 | Inr rs \<Rightarrow> r3\<lparr>cs_Reports := rs\<rparr>)"
  have r4: "cs_Grade r4 = Some (pipeline_grade env)" "cs_Success r4 = gi_Passed (pipeline_grade env)"
    "cs_ExitCode r4 = (if gi_Passed (pipeline_grade env) then 0 else 1)"
    "cs_TestResults r4 = ci_run_tests env" "cs_Reports r4 = map fst files"
    using rep(3) by (auto simp: r4_def add_ci_error_def r3 split: sum.splits)
  have run: "\<exists>posted. run_pipeline env cfg =
       (if post_panics cfg then (Inl SliceOutOfRange, pr, files) else (Inr (r4\<lparr>cs_Duration := ce_elapsed env\<rparr>), pr @ posted, files))
       \<and> (ci_DryRun cfg \<longrightarrow> posted = [])" for cfg
  proof -
    have "\<exists>posted. (if \<not> ci_DryRun cfg then ci_post_results cfg else Inr []) =
        (if post_panics cfg then Inl SliceOutOfRange else Inr posted) \<and> (ci_DryRun cfg \<longrightarrow> posted = [])"
      by (cases "ci_Platform cfg") (auto simp: post_panics_def ci_post_results_def sha8_def)
    then obtain posted where post: "(if \<not> ci_DryRun cfg then ci_post_results cfg else Inr []) =
        (if post_panics cfg then Inl SliceOutOfRange else Inr posted)" "ci_DryRun cfg \<longrightarrow> posted = []" by blast
    show ?thesis
      unfolding run_pipeline_def l prod.case Let_def r3_def [symmetric] rep(1) sum.case post(1) r4_def [symmetric] using post(2)
      by (intro exI [of _ posted]) simp
  qed
  have ok: "reports_ok env (r4\<lparr>cs_Duration := ce_elapsed env\<rparr>) files"
  proof (cases reports)
    case (Inl e)
    then have "files = []" "os_mkdir (ce_os env) ''./reports'' \<noteq> None" using rep(3) by simp_all
    then show ?thesis using r4(5) by (auto simp: reports_ok_def report_files_def)
  next
    case (Inr rs)
    then have "r4 = r3\<lparr>cs_Reports := rs\<rparr>" by (simp add: r4_def)
    then have "at_report (r4\<lparr>cs_Duration := ce_elapsed env\<rparr>) = r3" using r3(5,6) by (simp add: at_report_def)
    then show ?thesis using rep(2) r4(5) by (simp add: reports_ok_def)
  qed
  show ?thesis by (rule that [OF run]) (use r4 ok in simp_all)
qed

lemma run_pipeline_panics:
  assumes "post_panics cfg"
  shows "fst (run_pipeline env cfg) = Inl SliceOutOfRange"
proof (rule run_pipeline_cases [of env])
  fix r printed files
  assume "\<And>cfg. \<exists>posted. run_pipeline env cfg =
       (if post_panics cfg then (Inl SliceOutOfRange, printed, files) else (Inr r, printed @ posted, files))
       \<and> (ci_DryRun cfg \<longrightarrow> posted = [])"
  from this [of cfg] assms show ?thesis by auto
qed

lemma run_pipeline_returns:
  assumes "\<not> post_panics cfg"
  obtains r printed files where "run_pipeline env cfg = (Inr r, printed, files)"
    "cs_Grade r = Some (pipeline_grade env)" "cs_Success r = gi_Passed (pipeline_grade env)"
    "cs_ExitCode r = (if gi_Passed (pipeline_grade env) then 0 else 1)"
    "cs_TestResults r = ci_run_tests env" "cs_Duration r = ce_elapsed env"
proof (rule run_pipeline_cases [of env])
  fix r printed files
  assume run: "\<And>cfg. \<exists>posted. run_pipeline env cfg =
       (if post_panics cfg then (Inl SliceOutOfRange, printed, files) else (Inr r, printed @ posted, files))
       \<and> (ci_DryRun cfg \<longrightarrow> posted = [])"
    and f: "cs_Grade r = Some (pipeline_grade env)" "cs_Success r = gi_Passed (pipeline_grade env)"
    "cs_ExitCode r = (if gi_Passed (pipeline_grade env) then 0 else 1)"
    "cs_TestResults r = ci_run_tests env" "cs_Duration r = ce_elapsed env"
  from run [of cfg] assms obtain posted where "run_pipeline env cfg = (Inr r, printed @ posted, files)" by auto
  from that [OF this f] show ?thesis .
qed





subsection \<open>Properties\<close>





definition sample_lint_env :: lint_env where
  "sample_lint_env = \<lparr>le_readdir = (\<lambda>_. None), le_exists = (\<lambda>_. False), le_command = (\<lambda>_. ([], False))\<rparr>"

text \<open>A checkout without tests on a machine without cppcheck.\<close>

definition bare_env :: ci_env where
  "bare_env = \<lparr>ce_workdir = ''/w'', ce_cppcheck = False, ce_lint = sample_lint_env,
     ce_suites = (\<lambda>_. \<lparr>se_missing = (\<lambda>_. True), se_output = (\<lambda>_. []), se_error = (\<lambda>_. None), se_elapsed = 1\<rparr>),
     ce_os = \<lparr>os_mkdir = (\<lambda>_. None), os_write = (\<lambda>_. None)\<rparr>, ce_now = epoch, ce_elapsed = 5\<rparr>"


text \<open>
  The best grade of the pipeline is 90.0, an A-: performance and reliability are constants, so
  no lint score and no test results reach an A; the worst is 45.0, an F.
\<close>
theorem ci_grade_capped:
  assumes "0 \<le> lintScore" "lintScore \<le> 100"
    and "0 \<le> sm_PassedTests s" "sm_PassedTests s \<le> sm_TotalTests s" "sm_TotalTests s \<le> 2 ^ 53"
  shows "\<exists>g. ci_calculate_grade (Some s) lintScore = Inr g \<and> Fin 45 \<le> gi_Percentage g \<and> gi_Percentage g \<le> Fin 90
    \<and> gi_LetterGrade g \<noteq> ''A'' \<and> (gi_Passed g \<longleftrightarrow> gi_LetterGrade g \<noteq> ''F'')
    \<and> (lintScore = 100 \<and> sm_PassedTests s = sm_TotalTests s \<and> 0 < sm_TotalTests s \<longrightarrow>
         gi_Percentage g = Fin 90 \<and> gi_LetterGrade g = ''A-'' \<and> gi_Score g = 90)"
proof -
  have pct: "Fin 0 \<le> ci_percentage s" "ci_percentage s \<le> Fin 100"
    using assms(3-5) percent_of_part [of "sm_PassedTests s" "sm_TotalTests s" "Fin 0 \<le> ci_percentage s \<and> ci_percentage s \<le> Fin 100"]
    by (auto simp: ci_percentage_def f64_simps f64_defs)
  let ?x = "ci_total_score lintScore (ci_percentage s)"
  note b = ci_total_bounds [OF assms(1,2) pct]
  have "Fin 0 \<le> ?x" by (rule f64_le_trans [OF _ b(1)]) (simp add: f64_simps)
  then have letter: "ci_letter ?x \<noteq> ''A''" using ci_letter_not_A b(2) by blast
  have best: "?x = Fin 90" if h: "lintScore = 100" "sm_PassedTests s = sm_TotalTests s" "0 < sm_TotalTests s"
  proof -
    obtain q where "percent_of (sm_TotalTests s) (sm_TotalTests s) = Fin q" "q = 100"
      using percent_of_part [of "sm_TotalTests s" "sm_TotalTests s"] h assms(5) by auto
    then have "ci_percentage s = Fin 100" using h by (simp add: ci_percentage_def)
    moreover have "of_int64 100 = Fin 100" by code_simp
    ultimately show ?thesis by (simp only: ci_total_score_def ci_constants ci_sums h)
  qed
  have ninety: "ci_letter (Fin 90) = ''A-''" "int_of_f64 (Fin 90) = 90" by code_simp+
  show ?thesis
    by (rule exI [of _ "grade_of ?x"])
      (use b letter best ninety in \<open>auto simp: ci_calculate_grade_eq grade_of_def letter_F ci_letter_eq\<close>)
qed

theorem ci_grade_capped_witness:
  "\<exists>g. ci_calculate_grade (Some (zero_summary\<lparr>sm_TotalTests := 4, sm_PassedTests := 4\<rparr>)) 100 = Inr g
    \<and> gi_LetterGrade g = ''A-'' \<and> gi_Score g = 90"
  using ci_grade_capped [of 100 "zero_summary\<lparr>sm_TotalTests := 4, sm_PassedTests := 4\<rparr>"] by auto

text \<open>
  Without any tests and without a linter the pipeline succeeds with its best grade: a missing
  test directory is a passed suite, the performance suite is five constant passes, and a
  missing cppcheck scores 100.
\<close>
theorem ci_nothing_checked_passes:
  assumes "\<forall>i. se_missing (ce_suites env i) = (\<lambda>_. True)" "\<not> ce_cppcheck env"
    and "ci_Platform cfg = PlatformGitHub \<longrightarrow> ci_DryRun cfg \<or> 8 \<le> length (ci_CommitSHA cfg)"
  shows "\<exists>r printed files g. run_pipeline env cfg = (Inr r, printed, files) \<and> cs_Success r \<and> cs_ExitCode r = 0
    \<and> sm_TotalTests (cs_TestResults r) = 5 \<and> sm_PassedTests (cs_TestResults r) = 5
    \<and> cs_Grade r = Some g \<and> gi_LetterGrade g = ''A-'' \<and> gi_Score g = 90"
proof -
  have tests: "sm_TotalTests (ci_run_tests env) = 5" "sm_PassedTests (ci_run_tests env) = 5"
    using assms(1) by (simp_all add: ci_tests_three ci_test_step_def zero_summary_def run_suite_def run_unit_tests_def
        run_integration_tests_def run_performance_tests_def run_go_tests_def Let_def)
  have "percent_of 5 5 = Fin 100" "of_int64 100 = Fin 100" by code_simp+
  then have pct: "ci_percentage (ci_run_tests env) = Fin 100" by (simp only: ci_percentage_def tests) simp
  have lint: "ci_lint_score env = 100" using assms(2) by (simp add: ci_lint_score_def ci_run_linting_def)
  have g: "pipeline_grade env = grade_of (Fin 90)"
    unfolding pipeline_grade_def pct lint by (simp only: ci_total_score_def ci_constants ci_sums \<open>of_int64 100 = Fin 100\<close>)
  have ninety: "ci_letter (Fin 90) = ''A-''" "int_of_f64 (Fin 90) = 90" "Fin 60 \<le> Fin 90" by code_simp+
  have "\<not> post_panics cfg" using assms(3) by (auto simp: post_panics_def)
  then show ?thesis
    by (rule run_pipeline_returns [of cfg env]) (use tests g ninety in \<open>auto simp: grade_of_def\<close>)
qed

theorem ci_nothing_checked_passes_witness:
  "\<exists>r printed files g. run_pipeline bare_env empty_config = (Inr r, printed, files) \<and> cs_Success r
    \<and> cs_Grade r = Some g \<and> gi_LetterGrade g = ''A-''"
proof -
  have "\<forall>i. se_missing (ce_suites bare_env i) = (\<lambda>_. True)" "\<not> ce_cppcheck bare_env"
    "ci_Platform empty_config = PlatformGitHub \<longrightarrow> ci_DryRun empty_config \<or> 8 \<le> length (ci_CommitSHA empty_config)"
    by (simp_all add: bare_env_def empty_config_def)
  from ci_nothing_checked_passes [OF this] show ?thesis by blast
qed

text \<open>
  C19. The \<open>ci\<close> command panics on GitHub and GitLab when the environment has no commit id of at
  least 8 bytes, so a token flag outside of a CI job is enough to crash it; otherwise it exits
  with 0 exactly when the percentage reaches the threshold, whether or not the pipeline
  succeeded, and a threshold above 90 can never be met.
\<close>
theorem run_ci_outcome:
  assumes "cfg = override_config fl (detect_config getenv)" "sm_TotalTests (ci_run_tests env) \<le> 2 ^ 53"
  shows "(ci_Platform cfg \<noteq> PlatformLocal \<and> length (ci_CommitSHA cfg) < 8 \<longrightarrow> run_ci env getenv tp fl = Inl SliceOutOfRange)
    \<and> (ci_Platform cfg = PlatformLocal \<or> 8 \<le> length (ci_CommitSHA cfg) \<longrightarrow>
        (\<exists>code r posted g. run_ci env getenv tp fl = Inr (code, r, posted) \<and> cs_Grade r = Some g
          \<and> code = (if of_int64 (cg_failThreshold fl) \<le> gi_Percentage g then 0 else 1)
          \<and> (90 < cg_failThreshold fl \<and> cg_failThreshold fl \<le> 2 ^ 53 \<longrightarrow> code = 1)
          \<and> (posted \<noteq> None \<longrightarrow> ci_PullRequestID cfg > 0 \<and> ci_Token cfg \<noteq> [])))"
proof (intro conjI impI)
  assume "ci_Platform cfg \<noteq> PlatformLocal \<and> length (ci_CommitSHA cfg) < 8"
  then show "run_ci env getenv tp fl = Inl SliceOutOfRange" by (simp add: run_ci_def Let_def sha8_def flip: assms(1))
next
  assume ok: "ci_Platform cfg = PlatformLocal \<or> 8 \<le> length (ci_CommitSHA cfg)"
  then have "\<not> post_panics cfg" by (auto simp: post_panics_def)
  then obtain r printed files where r: "run_pipeline env cfg = (Inr r, printed, files)" "cs_Grade r = Some (pipeline_grade env)"
    by (rule run_pipeline_returns)
  have "\<exists>posted. ci_post_comment tp cfg r = Inr posted \<and> (posted \<noteq> None \<longrightarrow> ci_PullRequestID cfg > 0 \<and> ci_Token cfg \<noteq> [])"
    using r(2) by (cases "ci_PullRequestID cfg > 0 \<and> ci_Token cfg \<noteq> [] \<and> ci_Platform cfg \<noteq> PlatformLocal") (auto simp: ci_post_comment_def)
  then obtain posted where p: "ci_post_comment tp cfg r = Inr posted" "posted \<noteq> None \<longrightarrow> ci_PullRequestID cfg > 0 \<and> ci_Token cfg \<noteq> []"
    by blast
  obtain q where q: "gi_Percentage (pipeline_grade env) = Fin q" "q \<le> 90"
    using f64_between [OF pipeline_grade_bounds [OF assms(2)]] by blast
  have cap: "\<not> of_int64 (cg_failThreshold fl) \<le> Fin q" if "90 < cg_failThreshold fl" "cg_failThreshold fl \<le> 2 ^ 53"
  proof -
    have "rat_of_int 90 < of_int (cg_failThreshold fl)" using that(1) by (simp only: of_int_less_iff)
    then show ?thesis using that q(2) by (simp add: of_int64_exact f64_simps)
  qed
  have "\<exists>d. (if ci_Platform cfg = PlatformLocal then Inr [] else sha8 (ci_CommitSHA cfg)) = Inr d"
    using ok by (auto simp: sha8_def)
  then have "run_ci env getenv tp fl = Inr (if of_int64 (cg_failThreshold fl) \<le> Fin q then 0 else 1, r, posted)"
    by (auto simp: run_ci_def Let_def r p q(1) simp flip: assms(1))
  then show "\<exists>code r posted g. run_ci env getenv tp fl = Inr (code, r, posted) \<and> cs_Grade r = Some g
          \<and> code = (if of_int64 (cg_failThreshold fl) \<le> gi_Percentage g then 0 else 1)
          \<and> (90 < cg_failThreshold fl \<and> cg_failThreshold fl \<le> 2 ^ 53 \<longrightarrow> code = 1)
          \<and> (posted \<noteq> None \<longrightarrow> ci_PullRequestID cfg > 0 \<and> ci_Token cfg \<noteq> [])"
    using r(2) p(2) q(1) cap by auto
qed

definition token_flags :: ci_flags where
  "token_flags = \<lparr>cg_githubToken = ''t'', cg_gitlabToken = [], cg_failThreshold = 95, cg_prNumber = 1, cg_repo = ''o/r'',
     cg_mrNumber = 0, cg_gitLabProject = []\<rparr>"

definition offline :: transport where
  "offline = \<lparr>tp_bad_request = (\<lambda>_ _. None), tp_do = (\<lambda>_ _. Inl ''no network''), tp_syntax_error = (\<lambda>_. [])\<rparr>"

theorem run_ci_outcome_witness:
  "run_ci bare_env (\<lambda>_. []) offline token_flags = Inl SliceOutOfRange
    \<and> (\<exists>r posted. run_ci bare_env (\<lambda>_. []) offline (token_flags\<lparr>cg_githubToken := []\<rparr>) = Inr (1, r, posted))"
proof -
  have small: "sm_TotalTests (ci_run_tests bare_env) \<le> 2 ^ 53"
    by (simp add: ci_tests_three ci_test_step_def zero_summary_def run_suite_def run_unit_tests_def
        run_integration_tests_def run_performance_tests_def run_go_tests_def Let_def bare_env_def)
  show ?thesis
    using run_ci_outcome [OF refl small, of token_flags "\<lambda>_. []" offline]
      run_ci_outcome [OF refl small, of "token_flags\<lparr>cg_githubToken := []\<rparr>" "\<lambda>_. []" offline]
    by (auto simp: token_flags_def override_config_def detect_config_def empty_config_def)
qed

text \<open>
  The comment that is posted to GitHub or GitLab and the pipeline agree: for the result of a
  pipeline the status of the comment is PASSED exactly when the pipeline succeeded and no test
  failed, although one compares the truncated score with 60 and the other the percentage.
\<close>
theorem ci_comment_agrees:
  assumes "run_pipeline env cfg = (Inr r, printed, files)" "cs_Grade r = Some g" "sm_TotalTests (cs_TestResults r) \<le> 2 ^ 53"
  shows "comment_status (ci_forge_results r g) =
      (if cs_Success r \<and> sm_FailedTests (cs_TestResults r) = 0 then [CHR 0xE2, CHR 0x9C, CHR 0x85] @ '' PASSED''
       else [CHR 0xE2, CHR 0x9D, CHR 0x8C] @ '' FAILED'')"
proof -
  have np: "\<not> post_panics cfg" using assms(1) run_pipeline_panics [of cfg env] by auto
  obtain r' printed' files' where "run_pipeline env cfg = (Inr r', printed', files')"
    "cs_Grade r' = Some (pipeline_grade env)" "cs_Success r' = gi_Passed (pipeline_grade env)"
    "cs_TestResults r' = ci_run_tests env"
    by (rule run_pipeline_returns [OF np, of env])
  then have r: "g = pipeline_grade env" "cs_Success r = gi_Passed g" "cs_TestResults r = ci_run_tests env"
    using assms by auto
  let ?x = "gi_Percentage g"
  have b: "Fin 45 \<le> ?x" "?x \<le> Fin 90" using pipeline_grade_bounds [of env] assms(3) r by simp_all
  have "Fin 0 \<le> ?x" "?x \<le> Fin 100"
    using f64_le_trans [OF _ b(1), of "Fin 0"] f64_le_trans [OF b(2), of "Fin 100"] by (simp_all add: f64_simps)
  then have "int_of_f64 ?x < 60 \<longleftrightarrow> \<not> Fin 60 \<le> ?x" by (rule int_of_f64_60)
  moreover have "gi_Score g = int_of_f64 ?x" "gi_Passed g \<longleftrightarrow> Fin 60 \<le> ?x"
    by (simp_all add: r(1) pipeline_grade_def grade_of_def)
  moreover have "0 \<le> sm_FailedTests (cs_TestResults r)" using ci_run_tests_ok(1) [of env] by (simp add: r(3) tests_ok_def)
  ultimately show ?thesis using r(2) by (auto simp: comment_status_def ci_forge_results_def)
qed

theorem ci_comment_agrees_witness:
  "\<exists>r printed files g. run_pipeline bare_env empty_config = (Inr r, printed, files) \<and> cs_Grade r = Some g
    \<and> comment_status (ci_forge_results r g) =
       (if cs_Success r \<and> sm_FailedTests (cs_TestResults r) = 0 then [CHR 0xE2, CHR 0x9C, CHR 0x85] @ '' PASSED''
        else [CHR 0xE2, CHR 0x9D, CHR 0x8C] @ '' FAILED'')"
proof -
  have "\<not> post_panics empty_config" by (simp add: post_panics_def empty_config_def)
  then obtain r printed files where r: "run_pipeline bare_env empty_config = (Inr r, printed, files)"
    "cs_Grade r = Some (pipeline_grade bare_env)" "cs_TestResults r = ci_run_tests bare_env"
    by (rule run_pipeline_returns)
  have small: "sm_TotalTests (cs_TestResults r) \<le> 2 ^ 53"
    by (simp add: r(3) ci_tests_three ci_test_step_def zero_summary_def run_suite_def run_unit_tests_def
        run_integration_tests_def run_performance_tests_def run_go_tests_def Let_def bare_env_def)
  show ?thesis using r(1,2) ci_comment_agrees [OF r(1,2) small] by blast
qed

end
