(* ===== verification/Contracts.thy ===== *)
theory Contracts
  imports GoSys
begin

text \<open>
  Service contracts, \<^verbatim>\<open>pkg/contracts/types.go\<close> and \<^verbatim>\<open>pkg/contracts/validator.go\<close>, and the
  \<open>validate\<close> command, \<^verbatim>\<open>pkg/cmd/validate.go\<close>. What the file system and the YAML package answer
  is the environment; every check of a contract is the code's.
\<close>

subsection \<open>Contracts\<close>

record signal_handler =
  sg_Behavior :: string
  sg_TimeoutSeconds :: int
  sg_ExpectedExitCode :: int
  sg_ExpectedLogMessage :: string
  sg_ExpectedAction :: string

record signal_config =
  si_SIGTERM :: signal_handler
  si_SIGHUP :: signal_handler
  si_SIGUSR1 :: signal_handler
  si_SIGUSR2 :: signal_handler

text \<open>The message format, any YAML value per key, is kept as text; no check reads it.\<close>

record posix_mq_config =
  mq_QueueName :: string
  mq_MessageFormat :: "string \<rightharpoonup> string"

record directory_config =
  di_Path :: string
  di_Events :: "string list"

record filesystem_config =
  fs_WatchDirectory :: directory_config
  fs_ProcessedDirectory :: directory_config
  fs_ErrorDirectory :: directory_config

record database_config =
  db_Driver :: string
  db_TablesWritten :: "string list"
  db_TablesRead :: "string list"
  db_WALMode :: string
  db_Isolation :: string
  db_ReadOnly :: bool

record tcp_config =
  tc_BindAddress :: string
  tc_Port :: int
  tc_Protocol :: string

record udp_broadcast_config =
  ub_Enabled :: bool
  ub_Port :: int
  ub_IntervalSeconds :: int

record udp_config =
  ud_Broadcast :: udp_broadcast_config

record network_config =
  nw_TCP :: tcp_config
  nw_UDP :: udp_config

record interfaces =
  if_Signals :: signal_config
  if_POSIXMQ :: posix_mq_config
  if_Filesystem :: filesystem_config
  if_Database :: database_config
  if_Network :: network_config

record metric_config =
  me_Target :: f64
  me_Minimum :: f64
  me_Maximum :: f64

record performance =
  pe_ThroughputMBPS :: metric_config
  pe_LatencyFirstRecordSeconds :: metric_config
  pe_MemoryMaxMB :: metric_config
  pe_QueryLatencyMS :: metric_config
  pe_ConcurrentConnections :: metric_config

record contract =
  co_Service :: string
  co_Version :: string
  co_Description :: string
  co_Interfaces :: interfaces
  co_Performance :: performance
  co_Requirements :: "string list"

subsection \<open>Validation\<close>

record contract_result =
  cv_ServiceName :: string
  cv_ContractFile :: string
  cv_Passed :: bool
  cv_Errors :: "string list"
  cv_Warnings :: "string list"
  cv_ChecksPassed :: int
  cv_ChecksFailed :: int
  cv_ChecksTotal :: int

record contract_env =
  cn_read :: "string \<Rightarrow> string + string"
  cn_unmarshal :: "string \<Rightarrow> string + contract"
  cn_exists :: "string \<Rightarrow> bool"

definition load_contract :: "contract_env \<Rightarrow> string \<Rightarrow> string + contract" where
  "load_contract env path = (case cn_read env path of
     Inl e \<Rightarrow> Inl (''failed to read contract file: '' @ e)
   | Inr dat \<Rightarrow> (case cn_unmarshal env dat of
       Inl e \<Rightarrow> Inl (''failed to parse contract yaml: '' @ e)
     | Inr c \<Rightarrow> Inr c))"

definition binary_paths :: "string \<Rightarrow> string list" where
  "binary_paths n =
     [''../../services/'' @ n @ ''/'' @ n, ''../services/'' @ n @ ''/'' @ n, ''./services/'' @ n @ ''/'' @ n,
      ''./services/'' @ n @ ''/ws-'' @ n, ''./'' @ n, ''/usr/local/bin/'' @ n]"

definition check_binary :: "contract_env \<Rightarrow> string \<Rightarrow> string option" where
  "check_binary env n = (if list_ex (cn_exists env) (binary_paths n) then None
     else Some (''service binary not found for '' @ n))"

definition check_signals :: "contract \<Rightarrow> string option" where
  "check_signals c = (let s = if_Signals (co_Interfaces c)
     in if sg_Behavior (si_SIGTERM s) = [] then Some ''sigterm handler not defined''
        else if sg_Behavior (si_SIGHUP s) = [] then Some ''sighup handler not defined''
        else None)"

definition check_interfaces :: "contract \<Rightarrow> string option" where
  "check_interfaces c = (let i = co_Interfaces c
     in if mq_QueueName (if_POSIXMQ i) \<noteq> [] \<or> tc_BindAddress (nw_TCP (if_Network i)) \<noteq> []
           \<or> tc_Protocol (nw_TCP (if_Network i)) \<noteq> [] \<or> ub_Enabled (ud_Broadcast (nw_UDP (if_Network i)))
           \<or> di_Path (fs_WatchDirectory (if_Filesystem i)) \<noteq> [] \<or> db_Driver (if_Database i) \<noteq> []
        then None else Some ''no interfaces defined in contract'')"

text \<open>Go's \<open>==\<close> on floats: NaN differs from everything.\<close>

definition check_performance :: "contract \<Rightarrow> string option" where
  "check_performance c = (if me_Target (pe_ThroughputMBPS (co_Performance c)) = 0
     then Some ''throughput target not defined'' else None)"

text \<open>The effect of one check that fails with an error, and of the last one, which only warns.\<close>

definition add_check :: "string option \<Rightarrow> contract_result \<Rightarrow> contract_result" where
  "add_check err r =
     (let r1 = (case err of
          Some e \<Rightarrow> r\<lparr>cv_Passed := False, cv_Errors := cv_Errors r @ [e]\<rparr>
        | None \<Rightarrow> r\<lparr>cv_ChecksPassed := cv_ChecksPassed r + 1\<rparr>)
      in r1\<lparr>cv_ChecksTotal := cv_ChecksTotal r1 + 1\<rparr>)"

definition add_soft_check :: "string option \<Rightarrow> contract_result \<Rightarrow> contract_result" where
  "add_soft_check err r =
     (let r1 = (case err of
          Some e \<Rightarrow> r\<lparr>cv_Warnings := cv_Warnings r @ [e]\<rparr>
        | None \<Rightarrow> r\<lparr>cv_ChecksPassed := cv_ChecksPassed r + 1\<rparr>)
      in r1\<lparr>cv_ChecksTotal := cv_ChecksTotal r1 + 1\<rparr>)"

definition validate_service :: "contract_env \<Rightarrow> string \<Rightarrow> string \<Rightarrow> contract_result \<times> string option" where
  "validate_service env name path =
     (let r0 = \<lparr>cv_ServiceName = name, cv_ContractFile = path, cv_Passed = True, cv_Errors = [], cv_Warnings = [],
                cv_ChecksPassed = 0, cv_ChecksFailed = 0, cv_ChecksTotal = 0\<rparr>
      in case load_contract env path of
           Inl e \<Rightarrow> (r0\<lparr>cv_Passed := False, cv_Errors := cv_Errors r0 @ [e]\<rparr>, Some e)
         | Inr c \<Rightarrow>
             (let r1 = (if co_Service c \<noteq> name
                   then r0\<lparr>cv_Passed := False, cv_Errors := cv_Errors r0 @
                          [''contract service name mismatch: expected '' @ name @ '', got '' @ co_Service c]\<rparr>
                   else r0);
                  r2 = add_check (check_binary env name) r1;
                  r3 = add_check (check_signals c) r2;
                  r4 = add_check (check_interfaces c) r3;
                  r5 = add_soft_check (check_performance c) r4
              in (r5\<lparr>cv_ChecksFailed := cv_ChecksTotal r5 - cv_ChecksPassed r5\<rparr>, None)))"

definition contract_map :: "string \<rightharpoonup> string" where
  "contract_map = [''ingestion'' \<mapsto> ''ingestion_contract.yaml'', ''aggregation'' \<mapsto> ''aggregation_contract.yaml'',
     ''query'' \<mapsto> ''query_contract.yaml'', ''discovery'' \<mapsto> ''discovery_contract.yaml'', ''cli'' \<mapsto> ''cli_contract.yaml'']"

definition get_contract_path :: "string \<Rightarrow> string" where
  "get_contract_path name = path_join [''contracts'',
     (case contract_map name of Some f \<Rightarrow> f | None \<Rightarrow> name @ ''_contract.yaml'')]"

text \<open>\<open>runValidate\<close>: the validator always returns a result, so only the last return can carry an error.\<close>

definition run_validate :: "contract_env \<Rightarrow> string \<Rightarrow> string \<Rightarrow> contract_result \<times> string option" where
  "run_validate env service contract =
     (let path = (if contract = [] then get_contract_path service else contract)
      in case validate_service env service path of (r, err) \<Rightarrow> (r, if \<not> cv_Passed r then err else None))"

subsection \<open>Properties\<close>

text \<open>
  C39. A contract that can be loaded is put to four checks. It passes exactly when its name is
  the service's and the three hard checks hold; a missing throughput target only warns. The
  counters agree: passed and failed checks make four, and the errors and warnings together
  are the failed checks plus the name mismatch, which is not counted as a check.
\<close>
theorem contract_validation_exact:
  assumes "load_contract env path = Inr c" "validate_service env name path = (r, err)"
  shows "err = None \<and> cv_ChecksTotal r = 4 \<and> cv_ChecksPassed r + cv_ChecksFailed r = 4
    \<and> (cv_Passed r \<longleftrightarrow> co_Service c = name \<and> check_binary env name = None \<and> check_signals c = None \<and> check_interfaces c = None)
    \<and> (cv_Passed r \<longleftrightarrow> cv_Errors r = [])
    \<and> cv_Warnings r = (if me_Target (pe_ThroughputMBPS (co_Performance c)) = 0 then [''throughput target not defined''] else [])
    \<and> int (length (cv_Errors r) + length (cv_Warnings r)) = cv_ChecksFailed r + (if co_Service c = name then 0 else 1)"
  using assms(2) unfolding validate_service_def assms(1) check_performance_def
  by (cases "check_binary env name"; cases "check_signals c"; cases "check_interfaces c";
      cases "me_Target (pe_ThroughputMBPS (co_Performance c)) = 0"; cases "co_Service c = name")
     (simp_all add: add_check_def add_soft_check_def Let_def; clarsimp)+

definition no_signal :: signal_handler where
  "no_signal = \<lparr>sg_Behavior = [], sg_TimeoutSeconds = 0, sg_ExpectedExitCode = 0, sg_ExpectedLogMessage = [], sg_ExpectedAction = []\<rparr>"

definition no_metric :: metric_config where
  "no_metric = \<lparr>me_Target = 0, me_Minimum = 0, me_Maximum = 0\<rparr>"

definition sample_contract :: contract where
  "sample_contract = \<lparr>co_Service = ''query'', co_Version = ''1'', co_Description = [],
     co_Interfaces = \<lparr>if_Signals = \<lparr>si_SIGTERM = no_signal\<lparr>sg_Behavior := ''graceful''\<rparr>, si_SIGHUP = no_signal,
         si_SIGUSR1 = no_signal, si_SIGUSR2 = no_signal\<rparr>,
       if_POSIXMQ = \<lparr>mq_QueueName = ''/q'', mq_MessageFormat = Map.empty\<rparr>,
       if_Filesystem = \<lparr>fs_WatchDirectory = \<lparr>di_Path = [], di_Events = []\<rparr>, fs_ProcessedDirectory = \<lparr>di_Path = [], di_Events = []\<rparr>,
         fs_ErrorDirectory = \<lparr>di_Path = [], di_Events = []\<rparr>\<rparr>,
       if_Database = \<lparr>db_Driver = [], db_TablesWritten = [], db_TablesRead = [], db_WALMode = [], db_Isolation = [], db_ReadOnly = False\<rparr>,
       if_Network = \<lparr>nw_TCP = \<lparr>tc_BindAddress = [], tc_Port = 0, tc_Protocol = []\<rparr>,
         nw_UDP = \<lparr>ud_Broadcast = \<lparr>ub_Enabled = False, ub_Port = 0, ub_IntervalSeconds = 0\<rparr>\<rparr>\<rparr>\<rparr>,
     co_Performance = \<lparr>pe_ThroughputMBPS = no_metric, pe_LatencyFirstRecordSeconds = no_metric, pe_MemoryMaxMB = no_metric,
       pe_QueryLatencyMS = no_metric, pe_ConcurrentConnections = no_metric\<rparr>,
     co_Requirements = []\<rparr>"

definition sample_contract_env :: contract_env where
  "sample_contract_env = \<lparr>cn_read = (\<lambda>_. Inr ''yaml''), cn_unmarshal = (\<lambda>_. Inr sample_contract), cn_exists = (\<lambda>_. True)\<rparr>"

theorem contract_validation_exact_witness:
  "\<exists>r. validate_service sample_contract_env ''query'' ''c.yaml'' = (r, None) \<and> \<not> cv_Passed r
     \<and> cv_ChecksPassed r + cv_ChecksFailed r = 4 \<and> cv_Warnings r = [''throughput target not defined'']"
proof -
  have c: "load_contract sample_contract_env ''c.yaml'' = Inr sample_contract"
    by (simp add: load_contract_def sample_contract_env_def)
  obtain r err where v: "validate_service sample_contract_env ''query'' ''c.yaml'' = (r, err)" by fastforce
  have "check_signals sample_contract \<noteq> None" "me_Target (pe_ThroughputMBPS (co_Performance sample_contract)) = 0"
    by (simp_all add: check_signals_def sample_contract_def no_signal_def no_metric_def Let_def)
  then show ?thesis using contract_validation_exact [OF c v] v by simp
qed

text \<open>
  The \<open>validate\<close> command reports an error only when the contract cannot be loaded: a
  service that fails every check still ends the command without an error.
\<close>
theorem validate_command_error:
  "snd (run_validate env service contract) =
     (case load_contract env (if contract = [] then get_contract_path service else contract) of Inl e \<Rightarrow> Some e | Inr _ \<Rightarrow> None)"
  by (simp add: run_validate_def validate_service_def Let_def split: sum.splits)

text \<open>The table of contract files is redundant: for every service the file is the name with a fixed suffix.\<close>
theorem contract_path_uniform:
  "get_contract_path name = path_join [''contracts'', name @ ''_contract.yaml'']"
  by (simp add: get_contract_path_def contract_map_def)

end
