(* ===== verification/Synth.thy ===== *)
theory Synth
  imports GoTime
begin

text \<open>
  The synthetic weather data, \<^verbatim>\<open>pkg/data/generate.go\<close>: byte sizes as text, the choice of the
  number of stations, the rows and the file. The sine function and the random source
  (\<open>Float64\<close> and \<open>NormFloat64\<close> on a state) are parameters; the arithmetic on what they give is
  the code's, in floats.
\<close>

subsection \<open>Byte sizes\<close>

datatype size_error = InvalidSize string | InvalidNumber string | SizeNotPositive | SizeTooSmall

text \<open>\<open>\s\<close> of a Go regular expression.\<close>

definition rx_space :: "char \<Rightarrow> bool" where
  "rx_space c \<longleftrightarrow> (of_char c :: nat) \<in> {9, 10, 12, 13, 32}"

text \<open>The value of digits with an optional point, and \<open>strconv.ParseFloat\<close> on it: none when it is out of range.\<close>

definition decimal_value :: "string \<Rightarrow> rat" where
  "decimal_value s = (let ip = takeWhile is_digit s; fp = tl (dropWhile is_digit s)
     in of_nat (digits_val ip) + of_nat (digits_val fp) / 10 ^ length fp)"

definition parse_decimal :: "string \<Rightarrow> f64 option" where
  "parse_decimal s = (case to_f64 (decimal_value s) of Fin q \<Rightarrow> Some (Fin q) | _ \<Rightarrow> None)"

text \<open>
  The submatches of \<open>(?i)^\s*(\d+(?:\.\d+)?)\s*([kmg]?b)?\s*$\<close> on ASCII text: every group is
  followed by characters it cannot take itself, so there is one way to match.
\<close>

definition match_size :: "string \<Rightarrow> (string \<times> string) option" where
  "match_size s0 =
     (let s = dropWhile rx_space s0; ip = takeWhile is_digit s; r = dropWhile is_digit s;
          (number, r1) = (case r of
             c # cs \<Rightarrow> (if c = CHR ''.'' \<and> takeWhile is_digit cs \<noteq> []
                        then (ip @ CHR ''.'' # takeWhile is_digit cs, dropWhile is_digit cs) else (ip, r))
           | [] \<Rightarrow> (ip, r));
          unit = rev (dropWhile rx_space (rev (dropWhile rx_space r1)))
      in if ip \<noteq> [] \<and> to_lower unit \<in> {[], ''b'', ''kb'', ''mb'', ''gb''} then Some (number, unit) else None)"

definition unit_multiplier :: "string \<Rightarrow> f64" where
  "unit_multiplier u = (if u = ''kb'' then Fin 1024 else if u = ''mb'' then Fin (1024 * 1024)
     else if u = ''gb'' then Fin (1024 * 1024 * 1024) else Fin 1)"

definition parse_byte_size :: "string \<Rightarrow> size_error + int" where
  "parse_byte_size value =
     (case match_size (trim value) of
        None \<Rightarrow> Inl (InvalidSize value)
      | Some (number, unit) \<Rightarrow>
          (case parse_decimal number of
             None \<Rightarrow> Inl (InvalidNumber number)
           | Some x \<Rightarrow>
               (if x \<le> 0 then Inl SizeNotPositive
                else let bytes = int_of_f64 (x * unit_multiplier (to_lower unit))
                     in if bytes \<le> 0 then Inl SizeTooSmall else Inr bytes)))"

definition human_byte_size :: "int \<Rightarrow> string" where
  "human_byte_size bytes =
     (if bytes \<ge> 1024 * 1024 * 1024 then fmt_f 2 (of_int64 bytes / of_int64 (1024 * 1024 * 1024)) @ ''GB''
      else if bytes \<ge> 1024 * 1024 then fmt_f 2 (of_int64 bytes / of_int64 (1024 * 1024)) @ ''MB''
      else if bytes \<ge> 1024 then fmt_f 2 (of_int64 bytes / of_int64 1024) @ ''KB''
      else fmt_d bytes @ ''B'')"

subsection \<open>Weather\<close>

definition f64_abs :: "f64 \<Rightarrow> f64" where
  "f64_abs x = (case x of Fin q \<Rightarrow> Fin \<bar>q\<bar> | NInf \<Rightarrow> PInf | PInf \<Rightarrow> PInf | NaN \<Rightarrow> NaN)"

text \<open>\<open>math.Mod\<close> by a finite modulus: the remainder with the sign of the first operand, which is exact.\<close>

definition f64_mod :: "f64 \<Rightarrow> rat \<Rightarrow> f64" where
  "f64_mod x m = (case x of Fin q \<Rightarrow> Fin (q - m * of_int (trunc_rat (q / m))) | _ \<Rightarrow> NaN)"

definition clamp :: "f64 \<Rightarrow> f64 \<Rightarrow> f64 \<Rightarrow> f64" where
  "clamp value lo hi = (if value < lo then lo else if value > hi then hi else value)"

record 's weather_env =
  we_sin :: "f64 \<Rightarrow> f64"
  we_float :: "'s \<Rightarrow> f64 \<times> 's"
  we_norm :: "'s \<Rightarrow> f64 \<times> 's"

record weather_params =
  wp_stationIndex :: int
  wp_climateOffset :: f64
  wp_phaseOffset :: f64

record weather_metrics =
  wm_temperatureC :: f64
  wm_humidityPct :: f64
  wm_pressureHPA :: f64
  wm_windSpeedMPS :: f64
  wm_windDirDeg :: int
  wm_rainMM :: f64
  wm_qualityWeight :: f64

text \<open>The constant \<open>math.Pi\<close>, to the digits the package gives.\<close>

definition go_pi :: rat where
  "go_pi = 314159265358979323846264338327950288419716939937510582097494459 / 10 ^ 62"

definition generate_metrics :: "'s weather_env \<Rightarrow> go_time \<Rightarrow> weather_params \<Rightarrow> 's \<Rightarrow> weather_metrics \<times> 's" where
  "generate_metrics w ts p s0 =
     (let two_pi = to_f64 (2 * go_pi);
          yearDayNorm = of_int64 (year_day ts) / to_f64 (36525 / 100);
          hourNorm = of_int64 (clock_hour ts) / Fin 24;
          seasonal = we_sin w (two_pi * (yearDayNorm - to_f64 (25 / 100)) + wp_phaseOffset p);
          diurnal = we_sin w (two_pi * (hourNorm - to_f64 (2 / 10)));
          (n1, s1) = we_norm w s0;
          tempNoise = n1 * to_f64 (12 / 10);
          temperature = to_f64 (145 / 10) + wp_climateOffset p + to_f64 (115 / 10) * seasonal + to_f64 (58 / 10) * diurnal + tempNoise;
          (n2, s2) = we_norm w s1;
          humidityNoise = n2 * Fin 4;
          humidity = clamp (Fin 72 - to_f64 (9 / 10) * (temperature - Fin 15) - Fin 8 * diurnal + humidityNoise) (Fin 12) (Fin 100);
          (n3, s3) = we_norm w s2;
          pressureNoise = n3 * to_f64 (17 / 10);
          pressure = to_f64 (101325 / 100)
            + to_f64 (65 / 10) * we_sin w (two_pi * yearDayNorm + wp_phaseOffset p * to_f64 (35 / 100)) + pressureNoise;
          (n4, s4) = we_norm w s3;
          windBase = Fin 4 + to_f64 (21 / 10) * we_sin w (two_pi * yearDayNorm + to_f64 (11 / 10)) + f64_abs n4 * to_f64 (18 / 10);
          windSpeed = clamp windBase (Fin 0) (Fin 42);
          (u1, s5) = we_float w s4;
          windDirection = int_of_f64 (f64_mod (of_int64 (i64 (clock_hour ts * 13 + wp_stationIndex p * 41)) + u1 * Fin 35) 360);
          rainChance = clamp (to_f64 (8 / 100) + to_f64 (4 / 1000) * (humidity - Fin 55) + to_f64 (3 / 100) * (Fin 1 + seasonal))
            (to_f64 (2 / 100)) (to_f64 (72 / 100));
          (u2, s6) = we_float w s5;
          (rain, s7) = (if u2 < rainChance
            then let (n5, s') = we_norm w s6
                 in (clamp (f64_abs n5 * to_f64 (28 / 10) + to_f64 (2 / 10)) (to_f64 (1 / 10)) (Fin 75), s')
            else (Fin 0, s6))
      in (\<lparr>wm_temperatureC = temperature, wm_humidityPct = humidity, wm_pressureHPA = pressure, wm_windSpeedMPS = windSpeed,
           wm_windDirDeg = windDirection, wm_rainMM = rain, wm_qualityWeight = Fin 1\<rparr>, s7))"

definition build_line :: "'s weather_env \<Rightarrow> go_time \<Rightarrow> string \<Rightarrow> weather_params \<Rightarrow> 's \<Rightarrow> string \<times> 's" where
  "build_line w ts stationID p s =
     (case generate_metrics w ts p s of (m, s') \<Rightarrow>
        (fmt_rfc3339 (to_utc ts) @ '','' @ stationID @ '','' @ fmt_f 2 (wm_temperatureC m) @ '','' @ fmt_f 2 (wm_humidityPct m) @ '',''
           @ fmt_f 2 (wm_pressureHPA m) @ '','' @ fmt_f 2 (wm_windSpeedMPS m) @ '','' @ fmt_d (wm_windDirDeg m) @ '',''
           @ fmt_f 2 (wm_rainMM m) @ nl, s'))"

subsection \<open>Rows and stations\<close>

text \<open>The hours of the row loop: from a start, one hour apart, before an end; in seconds, as both instants share their nanoseconds.\<close>

function hour_steps :: "int \<Rightarrow> int \<Rightarrow> int list" where
  "hour_steps t stop = (if t < stop then t # hour_steps (t + 3600) stop else [])"
  by auto
termination by (relation "measure (\<lambda>(t, stop). nat (stop - t))") auto

declare hour_steps.simps [simp del]

definition hourly_rows :: "go_time \<Rightarrow> go_time \<Rightarrow> int" where
  "hourly_rows start stop = int (length (hour_steps (t_Unix start) (t_Unix stop)))"

definition abs_int64 :: "int \<Rightarrow> int" where
  "abs_int64 v = (if v < 0 then i64 (- v) else v)"

text \<open>The number of stations: the floor or the ceiling of the quotient, whichever misses the size less.\<close>

definition choose_stations :: "int \<Rightarrow> int \<Rightarrow> int" where
  "choose_stations available minOneStation =
     (let approx = of_int64 available / of_int64 minOneStation;
          fl = max 1 (int_of_f64 (f64_floor approx));
          ce = max 1 (int_of_f64 (f64_ceil approx));
          flDelta = abs_int64 (i64 (available - i64 (fl * minOneStation)));
          ceDelta = abs_int64 (i64 (available - i64 (ce * minOneStation)))
      in if ceDelta < flDelta then ce else fl)"

record generate_request =
  gq_OutputPath :: string
  gq_TargetBytes :: int
  gq_StartTime :: go_time
  gq_Years :: int
  gq_TolerancePct :: f64
  gq_StationPrefix :: string
  gq_HeaderWithMeta :: bool

record generate_result =
  gx_OutputPath :: string
  gx_TargetBytes :: int
  gx_ActualBytes :: int
  gx_RowsWritten :: int
  gx_StationsUsed :: int
  gx_Seed :: int
  gx_InTolerance :: bool

text \<open>What the system answers to creating the directory and the file, to the n-th row and to the flush.\<close>

record generate_env =
  ge_mkdir :: "string option"
  ge_create :: "string option"
  ge_header :: "string option"
  ge_row :: "nat \<Rightarrow> string option"
  ge_flush :: "string option"

definition csv_header :: string where
  "csv_header = ''timestamp,station_id,temperature_c,humidity_pct,pressure_hpa,wind_speed_mps,wind_dir_deg,rain_mm'' @ nl"

definition default_request :: "generate_request \<Rightarrow> generate_request" where
  "default_request q =
     (let q1 = (if gq_Years q \<le> 0 then q\<lparr>gq_Years := 100\<rparr> else q);
          q2 = (if is_zero_time (gq_StartTime q1) then q1\<lparr>gq_StartTime := date_utc 1926 1 1\<rparr> else q1);
          q3 = q2\<lparr>gq_StartTime := to_utc (gq_StartTime q2)\<rparr>;
          q4 = (if gq_TolerancePct q3 \<le> 0 then q3\<lparr>gq_TolerancePct := Fin 5\<rparr> else q3)
      in if gq_StationPrefix q4 = [] then q4\<lparr>gq_StationPrefix := ''FAKE''\<rparr> else q4)"

definition draw_params :: "'s weather_env \<Rightarrow> int \<Rightarrow> 's \<Rightarrow> weather_params \<times> 's" where
  "draw_params w i s0 = (let (u1, s1) = we_float w s0; (u2, s2) = we_float w s1
     in (\<lparr>wp_stationIndex = i, wp_climateOffset = u1 * Fin 10 - Fin 5, wp_phaseOffset = u2 * Fin 2 * to_f64 go_pi\<rparr>, s2))"

fun draw_stations :: "'s weather_env \<Rightarrow> nat \<Rightarrow> int \<Rightarrow> 's \<Rightarrow> weather_params list \<times> 's" where
  "draw_stations w 0 i s = ([], s)"
| "draw_stations w (Suc n) i s = (let (p, s1) = draw_params w i s; (ps, s2) = draw_stations w n (i + 1) s1 in (p # ps, s2))"

text \<open>The rows of one station; the state and the lines so far go through the loops.\<close>

definition row_step :: "'s weather_env \<Rightarrow> go_time \<Rightarrow> string \<Rightarrow> weather_params \<Rightarrow> string list \<times> 's \<Rightarrow> int \<Rightarrow> string list \<times> 's" where
  "row_step w start stationID p acc t =
     (let (line, s') = build_line w (start\<lparr>t_Unix := t\<rparr>) stationID p (snd acc) in (fst acc @ [line], s'))"

definition station_rows :: "'s weather_env \<Rightarrow> generate_request \<Rightarrow> string list \<times> 's \<Rightarrow> nat \<times> weather_params \<Rightarrow> string list \<times> 's" where
  "station_rows w q acc ip =
     (let start = gq_StartTime q; stationID = gq_StationPrefix q @ fmt_0d 4 (int (fst ip) + 1)
      in foldl (row_step w start stationID (snd ip)) acc (hour_steps (t_Unix start) (t_Unix (add_years (gq_Years q) start))))"

definition generate_lines :: "'s weather_env \<Rightarrow> generate_request \<Rightarrow> int \<Rightarrow> 's \<Rightarrow> string list \<times> 's" where
  "generate_lines w q stations s =
     (case draw_stations w (nat stations) 0 s of (ps, s') \<Rightarrow> foldl (station_rows w q) ([], s') (enumerate 0 ps))"

text \<open>\<open>GenerateCSV\<close>: an error, or the result with the text of the file and the state of the random source.\<close>

definition generate_csv :: "'s weather_env \<Rightarrow> generate_env \<Rightarrow> int \<Rightarrow> generate_request \<Rightarrow> 's \<Rightarrow> string + generate_result \<times> string \<times> 's" where
  "generate_csv w env seed req s0 =
     (if gq_OutputPath req = [] then Inl ''output path is required''
      else if gq_TargetBytes req \<le> 0 then Inl ''target size must be greater than 0''
      else let q = default_request req;
               rows = hourly_rows (gq_StartTime q) (add_years (gq_Years q) (gq_StartTime q))
           in if rows \<le> 0 then Inl ''invalid row window''
              else case build_line w (gq_StartTime q) (gq_StationPrefix q @ ''0001'')
                     \<lparr>wp_stationIndex = 0, wp_climateOffset = Fin 0, wp_phaseOffset = Fin 0\<rparr> s0 of (sample, s1) \<Rightarrow>
                (let available = gq_TargetBytes q - int (length csv_header);
                     minOne = i64 (int (length sample) * rows)
                 in if available \<le> 0 then Inl ''target size too small for CSV header''
                    else if available < minOne
                    then Inl (''requested size '' @ human_byte_size (gq_TargetBytes q)
                       @ '' is too small for 100 years hourly data (minimum about ''
                       @ human_byte_size (i64 (minOne + int (length csv_header))) @ '')'')
                    else let stations = choose_stations available minOne
                         in case ge_mkdir env of Some e \<Rightarrow> Inl (''creating output directory: '' @ e) | None \<Rightarrow>
                           (case ge_create env of Some e \<Rightarrow> Inl (''creating output file: '' @ e) | None \<Rightarrow>
                           (case ge_header env of Some e \<Rightarrow> Inl (''writing CSV header: '' @ e) | None \<Rightarrow>
                           (case generate_lines w q stations s1 of (ls, s2) \<Rightarrow>
                             (case find (\<lambda>i. ge_row env i \<noteq> None) [0..<length ls] of
                                Some i \<Rightarrow> Inl (''writing CSV row: '' @ the (ge_row env i))
                              | None \<Rightarrow>
                                  (case ge_flush env of Some e \<Rightarrow> Inl (''flushing output: '' @ e) | None \<Rightarrow>
                                    (let content = csv_header @ concat ls; written = int (length content);
                                         tolerance = int_of_f64 (of_int64 (gq_TargetBytes q) * (gq_TolerancePct q / Fin 100))
                                     in Inr (\<lparr>gx_OutputPath = gq_OutputPath q, gx_TargetBytes = gq_TargetBytes q,
                                          gx_ActualBytes = written, gx_RowsWritten = i64 (rows * stations),
                                          gx_StationsUsed = stations, gx_Seed = seed,
                                          gx_InTolerance = (abs_int64 (i64 (written - gq_TargetBytes q)) \<le> tolerance)\<rparr>,
                                        content, s2)))))))))"

subsection \<open>Rows\<close>

lemma hour_steps_eq: "hour_steps t stop = map (\<lambda>i. t + 3600 * int i) [0..<nat ((stop - t + 3599) div 3600)]"
proof (induction t stop rule: hour_steps.induct)
  case (1 t stop)
  show ?case
  proof (cases "t < stop")
    case True
    have "nat ((stop - t + 3599) div 3600) = Suc (nat ((stop - (t + 3600) + 3599) div 3600))"
      using True by (simp add: nat_eq_iff Suc_as_int) linarith
    then show ?thesis
      using True 1 by (simp add: hour_steps.simps [of t] upt_conv_Cons map_Suc_upt [symmetric] o_def algebra_simps del: upt_Suc)
  next
    case False
    then have "(stop - t + 3599) div 3600 \<le> 0" by linarith
    then show ?thesis using False by (simp add: hour_steps.simps [of t])
  qed
qed

lemma hourly_rows_eq: "hourly_rows start stop = max 0 ((t_Unix stop - t_Unix start + 3599) div 3600)"
  by (simp add: hourly_rows_def hour_steps_eq)

lemma draw_stations_length: "length (fst (draw_stations w n i s)) = n"
  by (induction n arbitrary: i s) (simp_all add: case_prod_unfold Let_def)

text \<open>
  The row of station \<open>k\<close> and hour \<open>h\<close>: the time stamp, the station and six values without commas and
  line breaks.
\<close>

definition row_of :: "go_time \<Rightarrow> string \<Rightarrow> int \<Rightarrow> string \<Rightarrow> bool" where
  "row_of start sid t l \<longleftrightarrow> (\<exists>vs. l = fmt_rfc3339 (to_utc (start\<lparr>t_Unix := t\<rparr>)) @ '','' @ sid @ '','' @ join_with '','' vs @ nl
     \<and> length vs = 6 \<and> (\<forall>v \<in> set vs. CHR '','' \<notin> set v \<and> CHR 0x0A \<notin> set v))"

definition csv_row :: "generate_request \<Rightarrow> nat \<Rightarrow> nat \<Rightarrow> string \<Rightarrow> bool" where
  "csv_row q k h l \<longleftrightarrow> row_of (gq_StartTime q) (gq_StationPrefix q @ fmt_0d 4 (int k + 1))
     (t_Unix (gq_StartTime q) + 3600 * int h) l"

text \<open>A line: its only line break is at its end.\<close>

definition one_line :: "string \<Rightarrow> bool" where
  "one_line s \<longleftrightarrow> (\<exists>t. s = t @ nl \<and> CHR 0x0A \<notin> set t)"

lemma plain_number: "CHR '','' \<notin> set (nat_str n)" "CHR 0x0A \<notin> set (nat_str n)"
  using nat_str_digits [of n] by (auto simp: is_digit_def)

lemma plain_padded: "CHR '','' \<notin> set (fmt_d i)" "CHR 0x0A \<notin> set (fmt_d i)" "CHR 0x0A \<notin> set (fmt_0d w i)"
  by (simp_all add: fmt_d_def fmt_0d_def pad_left_def plain_number)

lemma plain_fixed: "CHR '','' \<notin> set (fmt_f p x)" "CHR 0x0A \<notin> set (fmt_f p x)"
proof -
  have "c \<notin> set (fmt_f p (Fin q))" if c: "c = CHR '','' \<or> c = CHR 0x0A" for c q
  proof -
    define s where "s = pad_left (p + 1) CHR ''0'' (nat_str (nat (rne (\<bar>q\<bar> * 10 ^ p))))"
    have "c \<notin> set s" using c plain_number by (auto simp: s_def pad_left_def)
    then have "c \<notin> set (take k s) \<and> c \<notin> set (drop k s)" for k by (meson in_set_takeD in_set_dropD)
    then show ?thesis using c by (auto simp: Let_def s_def)
  qed
  then show "CHR '','' \<notin> set (fmt_f p x)" "CHR 0x0A \<notin> set (fmt_f p x)" by (cases x; simp del: fmt_f.simps(1))+
qed

lemma plain_stamp: "CHR 0x0A \<notin> set (fmt_rfc3339 t)"
  by (simp add: fmt_rfc3339_def fmt_date_def fmt_clock_def fmt_zone_def Let_def plain_padded split: prod.split)

lemma build_line_row: "row_of start sid t (fst (build_line w (start\<lparr>t_Unix := t\<rparr>) sid p s))"
proof -
  obtain m s' where m: "generate_metrics w (start\<lparr>t_Unix := t\<rparr>) p s = (m, s')" by (cases "generate_metrics w (start\<lparr>t_Unix := t\<rparr>) p s")
  show ?thesis unfolding row_of_def
    by (rule exI [of _ "[fmt_f 2 (wm_temperatureC m), fmt_f 2 (wm_humidityPct m), fmt_f 2 (wm_pressureHPA m),
          fmt_f 2 (wm_windSpeedMPS m), fmt_d (wm_windDirDeg m), fmt_f 2 (wm_rainMM m)]"])
       (simp add: build_line_def m plain_fixed plain_padded del: fmt_f.simps)
qed

lemma row_steps_rows:
  "\<exists>ls. fst (foldl (row_step w start sid p) acc ts) = fst acc @ ls \<and> length ls = length ts
     \<and> (\<forall>h < length ts. row_of start sid (ts ! h) (ls ! h))"
proof (induction ts arbitrary: acc)
  case (Cons t ts)
  define l where "l = fst (build_line w (start\<lparr>t_Unix := t\<rparr>) sid p (snd acc))"
  have f: "fst (row_step w start sid p acc t) = fst acc @ [l]" by (simp add: row_step_def l_def case_prod_unfold Let_def)
  obtain ls where ls: "fst (foldl (row_step w start sid p) (row_step w start sid p acc t) ts) = fst acc @ [l] @ ls"
      "length ls = length ts" "\<forall>h < length ts. row_of start sid (ts ! h) (ls ! h)"
    using Cons.IH [of "row_step w start sid p acc t"] f by auto
  have "row_of start sid t l" unfolding l_def by (rule build_line_row)
  then show ?case using ls by (intro exI [of _ "l # ls"]) (auto simp: nth_Cons' less_Suc_eq_0_disj)
qed simp

abbreviation request_rows :: "generate_request \<Rightarrow> int" where
  "request_rows q \<equiv> hourly_rows (gq_StartTime q) (add_years (gq_Years q) (gq_StartTime q))"

lemma station_rows_rows:
  "\<exists>ls. fst (station_rows w q acc (k, p)) = fst acc @ ls \<and> length ls = nat (request_rows q)
     \<and> (\<forall>h < nat (request_rows q). csv_row q k h (ls ! h))"
proof -
  define start where "start = gq_StartTime q"
  define ts where "ts = hour_steps (t_Unix start) (t_Unix (add_years (gq_Years q) start))"
  have ts: "nat (request_rows q) = length ts" "\<And>h. h < length ts \<Longrightarrow> ts ! h = t_Unix start + 3600 * int h"
    by (simp_all add: ts_def start_def hourly_rows_def hour_steps_eq)
  obtain ls where "fst (foldl (row_step w start (gq_StationPrefix q @ fmt_0d 4 (int k + 1)) p) acc ts) = fst acc @ ls"
      "length ls = length ts" "\<forall>h < length ts. row_of start (gq_StationPrefix q @ fmt_0d 4 (int k + 1)) (ts ! h) (ls ! h)"
    using row_steps_rows [of w start _ p acc ts] by blast
  then show ?thesis unfolding ts(1)
    by (intro exI [of _ ls]) (simp add: station_rows_def start_def [symmetric] ts_def [symmetric] csv_row_def ts(2))
qed

lemma stations_rows:
  "\<exists>ls. fst (foldl (station_rows w q) acc (enumerate m ps)) = fst acc @ ls \<and> length ls = length ps * nat (request_rows q)
     \<and> (\<forall>k < length ps. \<forall>h < nat (request_rows q). csv_row q (m + k) h (ls ! (k * nat (request_rows q) + h)))"
proof (induction ps arbitrary: m acc)
  case (Cons p ps)
  let ?n = "nat (request_rows q)"
  obtain l where l: "fst (station_rows w q acc (m, p)) = fst acc @ l" "length l = ?n" "\<forall>h < ?n. csv_row q m h (l ! h)"
    using station_rows_rows [of w q acc m p] by blast
  obtain ls where ls: "fst (foldl (station_rows w q) (station_rows w q acc (m, p)) (enumerate (Suc m) ps)) = fst acc @ l @ ls"
      "length ls = length ps * ?n" "\<forall>k < length ps. \<forall>h < ?n. csv_row q (Suc m + k) h (ls ! (k * ?n + h))"
    using Cons.IH [of "station_rows w q acc (m, p)" "Suc m"] l(1) by auto
  have "csv_row q (m + k) h ((l @ ls) ! (k * ?n + h))" if "k < Suc (length ps)" "h < ?n" for k h
    using that l ls(3) by (cases k) (auto simp: nth_append)
  then show ?case using ls l(2) by (intro exI [of _ "l @ ls"]) simp
qed simp

lemma generate_lines_rows:
  assumes "generate_lines w q n s = (ls, s')"
  shows "length ls = nat n * nat (request_rows q)"
    "k < nat n \<Longrightarrow> h < nat (request_rows q) \<Longrightarrow> csv_row q k h (ls ! (k * nat (request_rows q) + h))"
proof -
  obtain ps s1 where d: "draw_stations w (nat n) 0 s = (ps, s1)" by (cases "draw_stations w (nat n) 0 s")
  have n: "length ps = nat n" using draw_stations_length [of w "nat n" 0 s] d by simp
  obtain ls' where r: "fst (foldl (station_rows w q) ([], s1) (enumerate 0 ps)) = ls'" "length ls' = length ps * nat (request_rows q)"
      "\<forall>k < length ps. \<forall>h < nat (request_rows q). csv_row q (0 + k) h (ls' ! (k * nat (request_rows q) + h))"
    using stations_rows [of w q "([], s1)" 0 ps] by auto
  have "ls' = ls" using assms r(1) by (simp add: generate_lines_def d)
  then show "length ls = nat n * nat (request_rows q)"
    "k < nat n \<Longrightarrow> h < nat (request_rows q) \<Longrightarrow> csv_row q k h (ls ! (k * nat (request_rows q) + h))"
    using r n by simp_all
qed

lemma csv_row_line: "csv_row q k h l \<Longrightarrow> CHR 0x0A \<notin> set (gq_StationPrefix q) \<Longrightarrow> one_line l"
proof -
  assume "csv_row q k h l" and p: "CHR 0x0A \<notin> set (gq_StationPrefix q)"
  then obtain vs where l: "l = (fmt_rfc3339 (to_utc ((gq_StartTime q)\<lparr>t_Unix := t_Unix (gq_StartTime q) + 3600 * int h\<rparr>)) @ '',''
      @ (gq_StationPrefix q @ fmt_0d 4 (int k + 1)) @ '','' @ join_with '','' vs) @ nl" "\<forall>v \<in> set vs. CHR 0x0A \<notin> set v"
    by (auto simp: csv_row_def row_of_def)
  have "CHR 0x0A \<notin> set (join_with '','' vs)" using l(2) by (induction "'',''" vs rule: join_with.induct) auto
  then have "CHR 0x0A \<notin> set (fmt_rfc3339 (to_utc ((gq_StartTime q)\<lparr>t_Unix := t_Unix (gq_StartTime q) + 3600 * int h\<rparr>)) @ '',''
      @ (gq_StationPrefix q @ fmt_0d 4 (int k + 1)) @ '','' @ join_with '','' vs)" using p by (simp add: plain_stamp plain_padded)
  then show ?thesis unfolding one_line_def l(1) by blast
qed

lemma lines_counted: "list_all one_line ls \<Longrightarrow> length (filter (\<lambda>c. c = CHR 0x0A) (concat ls)) = length ls"
proof (induction ls)
  case (Cons l ls)
  then obtain t where t: "l = t @ nl" "CHR 0x0A \<notin> set t" by (auto simp: one_line_def)
  then have "filter (\<lambda>c. c = CHR 0x0A) l = nl" by (auto simp: nl_def filter_empty_conv)
  then show ?case using Cons by (simp add: nl_def)
qed simp

subsection \<open>The number of stations\<close>

text \<open>Rounding a quotient keeps it between its floor and its ceiling, and on its side of the middle.\<close>

lemma round53_floor_ceiling:
  assumes "0 \<le> q" "q \<le> 2 ^ 53"
  shows "of_int \<lfloor>q\<rfloor> \<le> round53 q" "round53 q \<le> of_int \<lceil>q\<rceil>"
proof -
  have "\<lfloor>q\<rfloor> \<le> 2 ^ 53" "\<lceil>q\<rceil> \<le> 2 ^ 53" using assms by (simp_all add: floor_le_iff ceiling_le_iff)
  moreover have "0 \<le> \<lfloor>q\<rfloor>" "0 \<le> \<lceil>q\<rceil>" using assms by linarith+
  ultimately have "round53 (of_int \<lfloor>q\<rfloor>) = of_int \<lfloor>q\<rfloor>" "round53 (of_int \<lceil>q\<rceil>) = of_int \<lceil>q\<rceil>" by simp_all
  then show "of_int \<lfloor>q\<rfloor> \<le> round53 q" "round53 q \<le> of_int \<lceil>q\<rceil>"
    by (auto intro: round53_ge round53_le)
qed

lemma round53_half:
  assumes "0 \<le> n" "n < 2 ^ 52"
  shows "round53 (of_int n + 1 / 2) = of_int n + 1 / 2"
proof -
  have "\<bar>2 * n + 1\<bar> \<le> 2 ^ 53" using assms by simp
  moreover have eq: "rat_of_int (2 * n + 1) * 2 powi (- 1) = of_int n + 1 / 2" by (simp add: power_int_minus)
  ultimately show ?thesis using round53_exact [of "2 * n + 1" "- 1"] unfolding eq by simp
qed

lemma round53_nearest_int:
  assumes "0 \<le> n" "n < 2 ^ 52" "of_int n < q" "q < of_int n + 1"
  shows "of_int n < round53 q \<and> round53 q < of_int n + 1
    \<or> round53 q = of_int n \<and> q \<le> of_int n + 1 / 2 \<or> round53 q = of_int n + 1 \<and> of_int n + 1 / 2 \<le> q"
proof -
  have fc: "\<lfloor>q\<rfloor> = n" "\<lceil>q\<rceil> = n + 1" using assms by linarith+
  have "n + 1 \<le> 2 ^ 52" using assms(2) by simp
  then have "rat_of_int (n + 1) \<le> of_int (2 ^ 52)" by (simp only: of_int_le_iff)
  then have "q \<le> 2 ^ 53" using assms(4) by simp
  then have "of_int n \<le> round53 q" "round53 q \<le> of_int n + 1"
    using round53_floor_ceiling [of q] assms fc by auto
  moreover have "of_int n + 1 / 2 \<le> round53 q" if "of_int n + 1 / 2 \<le> q"
    using that round53_half [OF assms(1,2)] by (rule round53_ge)
  moreover have "round53 q \<le> of_int n + 1 / 2" if "q \<le> of_int n + 1 / 2"
    using that round53_half [OF assms(1,2)] by (rule round53_le)
  ultimately show ?thesis by linarith
qed

text \<open>The distance to a multiple: nearest just below or just above.\<close>

lemma nearest_multiple:
  assumes "0 < m" "n * m \<le> a" "a \<le> (n + 1) * (m::int)"
  shows "\<bar>a - n * m\<bar> \<le> \<bar>a - k * m\<bar> \<or> \<bar>a - (n + 1) * m\<bar> \<le> \<bar>a - k * m\<bar>"
proof (cases "k \<le> n")
  case True
  then have "k * m \<le> n * m" using assms(1) by (simp add: mult_right_mono)
  then show ?thesis using assms by linarith
next
  case False
  then have "(n + 1) * m \<le> k * m" using assms(1) by (simp add: mult_right_mono)
  then show ?thesis using assms by linarith
qed

lemma int_of_floor_ceil:
  assumes "- (2 ^ 63) \<le> n" "n < 2 ^ 63"
  shows "int_of_f64 (Fin (of_int n)) = n"
  using assms by (simp add: Let_def)

lemma delta_exact: "0 \<le> s \<Longrightarrow> s * m \<le> 2 ^ 54 \<Longrightarrow> 0 < m \<Longrightarrow> 0 \<le> a \<Longrightarrow> a \<le> 2 ^ 53
    \<Longrightarrow> abs_int64 (i64 (a - i64 (s * m))) = \<bar>a - s * (m::int)\<bar>"
proof -
  assume *: "0 \<le> s" "s * m \<le> 2 ^ 54" "0 < m" "0 \<le> a" "a \<le> 2 ^ 53"
  define p where "p = s * m"
  have "0 \<le> p" "p \<le> 2 ^ 54" using * by (simp_all add: p_def)
  then have "i64 p = p" "i64 (a - p) = a - p" "i64 (p - a) = p - a" using *(4,5) by (simp_all add: i64_id)
  then show ?thesis by (simp add: abs_int64_def p_def)
qed

text \<open>The two candidates the code compares, by the floor and the ceiling of the rounded quotient.\<close>

lemma choose_stations_eq:
  assumes m: "0 < m" and a: "m \<le> a" "a \<le> 2 ^ 53"
  defines "q \<equiv> rat_of_int a / of_int m"
  defines "x \<equiv> \<lfloor>round53 q\<rfloor>" and "y \<equiv> \<lceil>round53 q\<rceil>"
  shows "choose_stations a m = (if \<bar>a - y * m\<bar> < \<bar>a - x * m\<bar> then y else x)"
    and "1 \<le> x" "x \<le> y" "a div m \<le> x" "y \<le> \<lceil>q\<rceil>" "\<lfloor>q\<rfloor> = a div m"
proof -
  have q1: "1 \<le> q" using m a by (simp add: q_def)
  have "rat_of_int a \<le> of_int (2 ^ 53)" using a(2) by (simp only: of_int_le_iff)
  moreover have "q \<le> rat_of_int a" using m a by (simp add: q_def divide_le_eq mult_le_cancel_left1)
  ultimately have q2: "q \<le> 2 ^ 53" by simp
  show fl: "\<lfloor>q\<rfloor> = a div m" by (simp add: q_def floor_divide_of_int_eq)
  note r = round53_floor_ceiling [OF _ q2]
  show x1: "a div m \<le> x" using r(1) q1 fl by (simp add: x_def le_floor_iff)
  show y1: "y \<le> \<lceil>q\<rceil>" using r(2) q1 by (simp add: y_def ceiling_le_iff)
  show xy: "x \<le> y" unfolding x_def y_def by linarith
  have "1 \<le> a div m" using m a by (metis div_self zdiv_mono1 order_less_imp_not_eq2)
  then show "1 \<le> x" using x1 by simp
  have "\<lceil>q\<rceil> \<le> a div m + 1" using fl by linarith
  then have yb: "y \<le> a div m + 1" using y1 by simp
  have am: "a div m * m \<le> a" using m by (simp add: div_times_less_eq_dividend mult.commute minus_mod_eq_mult_div [symmetric])
  have "y * m \<le> (a div m + 1) * m" using yb m by (simp add: mult_right_mono)
  then have ym: "y * m \<le> 2 ^ 54" using am a by (simp add: distrib_right)
  have "x * m \<le> y * m" using xy m by (simp add: mult_right_mono)
  then have xm: "x * m \<le> 2 ^ 54" using ym by simp
  have "y * 1 \<le> y * m" using m \<open>1 \<le> x\<close> xy by (intro mult_left_mono) auto
  then have small: "x < 2 ^ 63" "y < 2 ^ 63" using ym xy by simp_all
  have "of_int64 a / of_int64 m = Fin (round53 q)"
    using m a q1 q2 by (simp add: f64_simps q_def to_f64_53)
  then show "choose_stations a m = (if \<bar>a - y * m\<bar> < \<bar>a - x * m\<bar> then y else x)"
    using \<open>1 \<le> x\<close> xy small delta_exact [OF _ xm m _ a(2)] delta_exact [OF _ ym m _ a(2)] m a
    by (simp add: choose_stations_def Let_def x_def [symmetric] y_def [symmetric] int_of_floor_ceil del: int_of_f64.simps)
qed

lemma choose_stations_at_least_one: "1 \<le> choose_stations a m"
  by (simp add: choose_stations_def Let_def)

lemma quotient_middle:
  assumes "0 < m"
  shows "rat_of_int a / of_int m \<le> of_int n + 1 / 2 \<Longrightarrow> 2 * a \<le> (2 * n + 1) * m"
    "of_int n + 1 / 2 \<le> rat_of_int a / of_int m \<Longrightarrow> (2 * n + 1) * m \<le> 2 * a"
proof -
  define q where "q = rat_of_int a / of_int m"
  have mq: "rat_of_int (2 * a) = 2 * q * of_int m" "0 \<le> rat_of_int m" using assms by (simp_all add: q_def)
  have below: "2 * q * of_int m \<le> of_int (2 * n + 1) * of_int m" if "q \<le> of_int n + 1 / 2"
    using that mq(2) by (intro mult_right_mono) auto
  have above: "of_int (2 * n + 1) * of_int m \<le> 2 * q * of_int m" if "of_int n + 1 / 2 \<le> q"
    using that mq(2) by (intro mult_right_mono) auto
  note b = below [unfolded mq(1) [symmetric] of_int_mult [symmetric] of_int_le_iff]
    above [unfolded mq(1) [symmetric] of_int_mult [symmetric] of_int_le_iff]
  show "rat_of_int a / of_int m \<le> of_int n + 1 / 2 \<Longrightarrow> 2 * a \<le> (2 * n + 1) * m"
    "of_int n + 1 / 2 \<le> rat_of_int a / of_int m \<Longrightarrow> (2 * n + 1) * m \<le> 2 * a"
    using b by (simp_all only: q_def)
qed

text \<open>
  C21. The number of stations misses the requested size by no more than any other number does: the
  floating-point quotient can be rounded to the wrong side only when both sides are equally far.
\<close>

theorem choose_stations_optimal:
  assumes "0 < m" "m \<le> a" "a \<le> 2 ^ 53"
  shows "\<bar>a - choose_stations a m * m\<bar> \<le> \<bar>a - k * m\<bar>"
proof -
  define n where "n = a div m"
  define q where "q = rat_of_int a / of_int m"
  note eq = choose_stations_eq [OF assms, folded n_def q_def]
  have "a = n * m + a mod m" "0 \<le> a mod m" "a mod m < m" using assms(1) by (simp_all add: n_def)
  then have na: "n * m \<le> a" "a < (n + 1) * m" unfolding distrib_right by linarith+
  have n1: "1 \<le> n" using assms by (metis n_def div_self zdiv_mono1 order_less_imp_not_eq2)
  note near = nearest_multiple [OF assms(1) na(1), of k]
  show ?thesis
  proof (cases "q = of_int n")
    case True
    have "m \<noteq> 0" using assms(1) by simp
    then have "rat_of_int a = of_int (n * m)" using True by (simp add: q_def field_simps)
    then have "a = n * m" by (simp only: of_int_eq_iff)
    moreover have "\<lceil>q\<rceil> = n" using True by simp
    then have "\<lfloor>round53 q\<rfloor> = n" "\<lceil>round53 q\<rceil> = n" using eq(3-5) by linarith+
    ultimately show ?thesis using eq(1) by simp
  next
    case False
    have nq: "of_int n < q" "q < of_int n + 1" using eq(6) False by linarith+
    have "m \<noteq> 1" "n * m \<noteq> a" using False assms(1) by (auto simp: q_def n_def field_simps simp flip: of_int_mult)
    then have "n * 2 \<le> n * m" "n * m < a" using assms(1) n1 na(1) by simp_all
    then have n52: "n < 2 ^ 52" using assms(3) by simp
    note below = quotient_middle(1) [OF assms(1), where a = a and n = n, folded q_def]
    note above = quotient_middle(2) [OF assms(1), where a = a and n = n, folded q_def]
    have ds: "(2 * n + 1) * m = 2 * (n * m) + m" "(n + 1) * m = n * m + m" by (simp_all add: algebra_simps)
    consider (mid) "of_int n < round53 q" "round53 q < of_int n + 1"
      | (lo) "round53 q = of_int n" "q \<le> of_int n + 1 / 2" | (hi) "round53 q = of_int (n + 1)" "of_int n + 1 / 2 \<le> q"
      using round53_nearest_int [OF _ n52 nq] n1 by auto
    then show ?thesis
    proof cases
      case mid
      then have "\<lfloor>round53 q\<rfloor> = n" "\<lceil>round53 q\<rceil> = n + 1" by linarith+
      then show ?thesis using eq(1) near na by (auto simp del: distrib_right)
    next
      case lo
      then have "choose_stations a m = n" using eq(1) by simp
      moreover have "\<bar>a - n * m\<bar> \<le> \<bar>a - (n + 1) * m\<bar>" using below [OF lo(2)] na unfolding ds by linarith
      ultimately show ?thesis using near na by auto
    next
      case hi
      then have "choose_stations a m = n + 1" using eq(1) by simp
      moreover have "\<bar>a - (n + 1) * m\<bar> \<le> \<bar>a - n * m\<bar>" using above [OF hi(2)] na unfolding ds by linarith
      ultimately show ?thesis using near na by auto
    qed
  qed
qed

subsection \<open>Sizes as text\<close>

lemma nat_str_hundred: "1 \<le> n \<Longrightarrow> nat_str (n * 100) = nat_str n @ ''00''"
proof -
  assume n: "1 \<le> n"
  have "nat_str (n * 100) = nat_str (n * 10) @ [digit 0]" using n by (subst nat_str.simps) simp
  moreover have "nat_str (n * 10) = nat_str n @ [digit 0]" using n by (subst nat_str.simps) simp
  ultimately show ?thesis by (simp add: digit_chars)
qed

lemma fmt_f2_int:
  assumes "1 \<le> n"
  shows "fmt_f 2 (Fin (of_nat n)) = nat_str n @ ''.00''"
proof -
  have "rne (\<bar>rat_of_nat n\<bar> * 10 ^ 2) = int (n * 100)" using rne_of_int [of "int (n * 100)"] by simp
  then have eq: "nat_str (nat (rne (\<bar>rat_of_nat n\<bar> * 10 ^ 2))) = nat_str n @ ''00''"
    using nat_str_hundred [OF assms] by (simp only: nat_int)
  have "length (nat_str n) \<noteq> 0" by simp
  then have "pad_left (2 + 1) CHR ''0'' (nat_str n @ ''00'') = nat_str n @ ''00''"
    by (cases "nat_str n") (simp_all add: pad_left_def)
  then show ?thesis by (simp only: fmt_f.simps eq Let_def) simp
qed

lemma digit_not_rx_space: "is_digit c \<Longrightarrow> \<not> rx_space c"
  by (auto simp: is_digit_def rx_space_def)

lemma dropWhile_hd: "s \<noteq> [] \<Longrightarrow> \<not> P (hd s) \<Longrightarrow> dropWhile P s = s"
  by (cases s) auto

lemma nat_str_hd: "is_digit (hd (nat_str n))"
  using nat_str_digits [of n] by simp

lemma dropWhile_nat_str: "(\<And>c cs. s = c # cs \<Longrightarrow> \<not> is_digit c) \<Longrightarrow> dropWhile is_digit (nat_str n @ s) = s"
  using nat_str_digits [of n] by (cases s) (auto simp: dropWhile_append)

lemma trim_size:
  assumes "u \<in> {''B'', ''KB'', ''MB'', ''GB''}"
  shows "trim (nat_str n @ fr @ u) = nat_str n @ fr @ u"
proof -
  have "hd (nat_str n @ fr @ u) = hd (nat_str n)" by simp
  then have "dropWhile is_space (nat_str n @ fr @ u) = nat_str n @ fr @ u"
    using nat_str_hd [of n] digit_not_space by (intro dropWhile_hd) auto
  moreover have "dropWhile is_space (rev (nat_str n @ fr @ u)) = rev (nat_str n @ fr @ u)"
    using assms by (intro dropWhile_hd) (auto simp: is_space_def)
  ultimately show ?thesis by (simp add: trim_def)
qed

lemma match_size_text:
  assumes u: "u \<in> {''B'', ''KB'', ''MB'', ''GB''}" and f: "fr \<in> {[], ''.00''}"
  shows "match_size (nat_str n @ fr @ u) = Some (nat_str n @ fr, u)"
proof -
  have d: "is_digit CHR ''0''" "\<not> is_digit CHR ''B''" "\<not> is_digit CHR ''K''" "\<not> is_digit CHR ''M''" "\<not> is_digit CHR ''G''"
    "\<not> is_digit CHR ''.''" by code_simp+
  have sp: "\<not> rx_space CHR ''B''" "\<not> rx_space CHR ''K''" "\<not> rx_space CHR ''M''" "\<not> rx_space CHR ''G''" by code_simp+
  have lc: "to_lower ''B'' = ''b''" "to_lower ''KB'' = ''kb''" "to_lower ''MB'' = ''mb''" "to_lower ''GB'' = ''gb''" by code_simp+
  have hd: "\<And>c cs. fr @ u = c # cs \<Longrightarrow> \<not> is_digit c" using u f d by auto
  have tw: "takeWhile is_digit (nat_str n @ (fr @ u)) = nat_str n" by (rule takeWhile_nat_str, erule hd)
  have dw: "dropWhile is_digit (nat_str n @ (fr @ u)) = fr @ u" by (rule dropWhile_nat_str, erule hd)
  have "hd (nat_str n @ fr @ u) = hd (nat_str n)" by simp
  then have "dropWhile rx_space (nat_str n @ fr @ u) = nat_str n @ fr @ u"
    using nat_str_hd [of n] digit_not_rx_space by (intro dropWhile_hd) auto
  then show ?thesis
    using u f tw dw by (auto simp: match_size_def Let_def d sp lc)
qed

lemma parse_decimal_text:
  assumes "fr \<in> {[], ''.00''}" "n \<le> 2 ^ 53"
  shows "parse_decimal (nat_str n @ fr) = Some (Fin (of_nat n))"
proof -
  have d: "\<not> is_digit CHR ''.''" "digits_val ''00'' = 0" "digits_val [] = 0" by code_simp+
  have hd: "\<And>c cs. fr = c # cs \<Longrightarrow> \<not> is_digit c" using assms(1) d by auto
  have tw: "takeWhile is_digit (nat_str n @ fr) = nat_str n" by (rule takeWhile_nat_str, erule hd)
  have dw: "dropWhile is_digit (nat_str n @ fr) = fr" by (rule dropWhile_nat_str, erule hd)
  have "decimal_value (nat_str n @ fr) = of_nat n"
    using assms(1) tw dw by (auto simp: decimal_value_def Let_def d)
  moreover have "to_f64 (of_nat n) = Fin (of_nat n)"
    using of_int64_exact [of "int n"] assms(2) by (simp add: of_int64_def)
  ultimately show ?thesis by (simp add: parse_decimal_def)
qed

lemma parse_size_text:
  assumes "u \<in> {''B'', ''KB'', ''MB'', ''GB''}" "fr \<in> {[], ''.00''}" "1 \<le> n" "n < 1024"
  shows "parse_byte_size (nat_str n @ fr @ u)
    = Inr (int n * (if u = ''B'' then 1 else if u = ''KB'' then 1024 else if u = ''MB'' then 1048576 else 1073741824))"
proof -
  have mult: "unit_multiplier (to_lower ''B'') = Fin 1" "unit_multiplier (to_lower ''KB'') = Fin 1024"
    "unit_multiplier (to_lower ''MB'') = Fin 1048576" "unit_multiplier (to_lower ''GB'') = Fin 1073741824"
    by code_simp+
  have "Fin (of_nat n) * Fin (of_nat m) = Fin (of_nat (n * m))" if "m \<le> 1073741824" for m
  proof -
    define k where "k = n * m"
    have "k \<le> 1024 * 1073741824" unfolding k_def using that assms(4) by (intro mult_mono) auto
    then have "\<bar>int k\<bar> \<le> 2 ^ 53" by simp
    from of_int64_exact [OF this] show ?thesis by (simp add: f64_simps of_int64_def k_def)
  qed
  from this [of 1] this [of 1024] this [of 1048576] this [of 1073741824] show ?thesis
    using assms parse_decimal_text [OF assms(2), of n]
    by (auto simp: parse_byte_size_def trim_size match_size_text mult Let_def f64_simps zero_f64_def trunc_rat_def simp flip: of_nat_mult)
qed

lemma human_size_text:
  assumes "1 \<le> n" "n < 1024"
  shows "human_byte_size (int n) = nat_str n @ [] @ ''B''"
    "human_byte_size (int n * 1024) = nat_str n @ ''.00'' @ ''KB''"
    "human_byte_size (int n * 1048576) = nat_str n @ ''.00'' @ ''MB''"
    "human_byte_size (int n * 1073741824) = nat_str n @ ''.00'' @ ''GB''"
proof -
  have q: "of_int64 (int n * m) / of_int64 m = Fin (of_nat n)" if "1 \<le> m" "m \<le> 1073741824" for m
  proof -
    have "int n * m \<le> 1024 * 1073741824" using that assms(2) by (intro mult_mono) auto
    moreover have "0 \<le> int n * m" using that by simp
    ultimately have "\<bar>int n * m\<bar> \<le> 2 ^ 53" "\<bar>m\<bar> \<le> 2 ^ 53" "m \<noteq> 0" using that by (simp_all only: abs_of_nonneg) simp_all
    then have "of_int64 (int n * m) / of_int64 m = to_f64 (of_nat n)"
      using of_int64_exact [of "int n * m"] of_int64_exact [of m] by (simp add: f64_simps)
    then show ?thesis using of_int64_exact [of "int n"] assms(2) by (simp add: of_int64_def)
  qed
  note qs = q [of 1024] q [of 1048576] q [of 1073741824]
  show "human_byte_size (int n) = nat_str n @ [] @ ''B''"
    using assms by (simp add: human_byte_size_def fmt_d_def)
  show "human_byte_size (int n * 1024) = nat_str n @ ''.00'' @ ''KB''"
    using assms qs(1) by (simp add: human_byte_size_def fmt_f2_int del: fmt_f.simps)
  show "human_byte_size (int n * 1048576) = nat_str n @ ''.00'' @ ''MB''"
    using assms qs(2) by (simp add: human_byte_size_def fmt_f2_int del: fmt_f.simps)
  show "human_byte_size (int n * 1073741824) = nat_str n @ ''.00'' @ ''GB''"
    using assms qs(3) by (simp add: human_byte_size_def fmt_f2_int del: fmt_f.simps)
qed

text \<open>
  C23. A size the program prints reads back as itself, for every whole number of bytes, kilo-, mega-
  and gigabytes below 1024: printing picks the unit, two decimals and capital letters, and the
  parser matches all of them.
\<close>

theorem byte_size_roundtrip:
  assumes "1 \<le> n" "n < 1024" "k \<le> 3"
  shows "parse_byte_size (human_byte_size (int n * 1024 ^ k)) = Inr (int n * 1024 ^ k)"
proof -
  note p = parse_size_text [where n = n, OF _ _ assms(1,2)]
  note h = human_size_text [OF assms(1,2)]
  consider "k = 0" | "k = 1" | "k = 2" | "k = 3" using assms(3) by linarith
  then show ?thesis
  proof cases
    case 1
    then show ?thesis using p [of "''B''" "[]"] h(1) by simp
  next
    case 2
    then show ?thesis using p [of "''KB''" "''.00''"] h(2) by simp
  next
    case 3
    then show ?thesis using p [of "''MB''" "''.00''"] h(3) by simp
  next
    case 4
    then show ?thesis using p [of "''GB''" "''.00''"] h(4) by simp
  qed
qed

theorem byte_size_roundtrip_witness:
  "parse_byte_size (human_byte_size (int 250 * 1024 ^ 2)) = Inr (int 250 * 1024 ^ 2)"
  by (rule byte_size_roundtrip) simp_all

text \<open>What is not a positive number of bytes that fits 63 bits is never the result of a parse.\<close>

lemma parse_byte_size_positive: "parse_byte_size s = Inr b \<Longrightarrow> 0 < b \<and> b < 2 ^ 63"
proof -
  assume "parse_byte_size s = Inr b"
  then obtain x where "b = int_of_f64 x" "0 < b"
    by (auto simp: parse_byte_size_def Let_def split: option.splits prod.splits if_splits)
  moreover have "int_of_f64 x < 2 ^ 63" by (cases x) (simp_all add: Let_def)
  ultimately show ?thesis by simp
qed

subsection \<open>The file\<close>

definition csv_rows :: "generate_request \<Rightarrow> int" where
  "csv_rows req = (let q = default_request req in hourly_rows (gq_StartTime q) (add_years (gq_Years q) (gq_StartTime q)))"

text \<open>
  What a generated file consists of, for a result that claims it: the rows of each station, an
  hour apart, from the start of the window to its end.
\<close>

definition csv_ok :: "generate_request \<Rightarrow> generate_result \<Rightarrow> string \<Rightarrow> bool" where
  "csv_ok req r content \<longleftrightarrow> (\<exists>ls. content = csv_header @ concat ls
     \<and> int (length ls) = gx_StationsUsed r * csv_rows req \<and> gx_RowsWritten r = i64 (int (length ls))
     \<and> gx_ActualBytes r = int (length content) \<and> 1 \<le> gx_StationsUsed r \<and> 0 < csv_rows req
     \<and> (\<forall>k h. int k < gx_StationsUsed r \<and> int h < csv_rows req \<longrightarrow>
          csv_row (default_request req) k h (ls ! (k * nat (csv_rows req) + h)))
     \<and> (let q = default_request req; stop = t_Unix (add_years (gq_Years q) (gq_StartTime q)); start = t_Unix (gq_StartTime q)
        in start + 3600 * (csv_rows req - 1) < stop \<and> stop \<le> start + 3600 * csv_rows req
           \<and> (CHR 0x0A \<notin> set (gq_StationPrefix q) \<longrightarrow> list_all one_line ls
                \<and> length (filter (\<lambda>c. c = CHR 0x0A) content) = length ls + 1)))"

lemma generate_csv_result:
  assumes "generate_csv w env seed req s0 = Inr (r, content, s')"
  shows "csv_ok req r content"
proof -
  define q where "q = default_request req"
  define rows where "rows = request_rows q"
  have rows: "0 < rows"
    using assms by (auto simp: generate_csv_def q_def rows_def Let_def split: if_splits)
  obtain st s1 s2 ls where st: "1 \<le> st" "generate_lines w q st s1 = (ls, s2)"
    and r: "gx_StationsUsed r = st" "gx_RowsWritten r = i64 (rows * st)" "content = csv_header @ concat ls"
      "gx_ActualBytes r = int (length content)"
    using assms unfolding generate_csv_def Let_def q_def [symmetric] rows_def [symmetric]
    by (auto split: if_splits prod.splits option.splits) (metis choose_stations_at_least_one)
  note lines = generate_lines_rows [OF st(2), folded rows_def]
  have len: "int (length ls) = st * rows" using lines(1) st(1) rows by simp
  have row: "csv_row q k h (ls ! (k * nat rows + h))" if "int k < st" "int h < rows" for k h
    by (rule lines(2)) (use that in linarith)+
  have ends: "list_all one_line ls" if p: "CHR 0x0A \<notin> set (gq_StationPrefix q)"
  proof -
    have "one_line (ls ! i)" if i: "i < length ls" for i
    proof -
      have "i div nat rows < nat st" using i lines(1) by (simp add: less_mult_imp_div_less)
      then have "csv_row q (i div nat rows) (i mod nat rows) (ls ! (i div nat rows * nat rows + i mod nat rows))"
        using rows by (intro lines(2)) simp_all
      then show ?thesis using csv_row_line p by (simp add: div_mult_mod_eq)
    qed
    then show ?thesis by (simp add: list_all_length)
  qed
  have count: "length (filter (\<lambda>c. c = CHR 0x0A) content) = length ls + 1" if "CHR 0x0A \<notin> set (gq_StationPrefix q)"
    using lines_counted [OF ends [OF that]] by (simp add: r(3) csv_header_def nl_def)
  have rw: "csv_rows req = rows" by (simp add: csv_rows_def q_def rows_def Let_def)
  have "t_Unix (gq_StartTime q) + 3600 * (rows - 1) < t_Unix (add_years (gq_Years q) (gq_StartTime q))"
    "t_Unix (add_years (gq_Years q) (gq_StartTime q)) \<le> t_Unix (gq_StartTime q) + 3600 * rows"
    using rows by (simp_all add: rows_def hourly_rows_eq)
  then show ?thesis unfolding csv_ok_def rw Let_def q_def [symmetric]
    using r rows st(1) len row ends count by (intro exI [of _ ls]) (simp add: mult.commute)
qed

text \<open>
  C22. A successful generation writes the header and then, for every station in turn, one line per
  hour of the window, from its start to its last hour before the end: the time stamp of that
  hour, the prefix with the number of the station, and six values. The result's number of
  stations is at least one, its number of rows is that of the lines and its size the length of the
  file; with a prefix without line breaks, each row is one line and the file has one line more.
\<close>

theorem generate_csv_content:
  assumes "generate_csv w env seed req s0 = Inr (r, content, s')"
  shows "csv_ok req r content"
  using assms by (rule generate_csv_result)

definition calm_weather :: "unit weather_env" where
  "calm_weather = \<lparr>we_sin = (\<lambda>_. Fin 0), we_float = (\<lambda>s. (Fin 0, s)), we_norm = (\<lambda>s. (Fin 0, s))\<rparr>"

definition free_disk :: generate_env where
  "free_disk = \<lparr>ge_mkdir = None, ge_create = None, ge_header = None, ge_row = (\<lambda>_. None), ge_flush = None\<rparr>"

definition one_year_request :: generate_request where
  "one_year_request = \<lparr>gq_OutputPath = ''w.csv'', gq_TargetBytes = 1048576, gq_StartTime = date_utc 2000 1 1, gq_Years = 1,
     gq_TolerancePct = Fin 5, gq_StationPrefix = ''S'', gq_HeaderWithMeta = False\<rparr>"

lemma one_year_defaults: "default_request one_year_request = one_year_request"
  by code_simp

lemma one_year_rows: "hourly_rows (gq_StartTime one_year_request)
    (add_years (gq_Years one_year_request) (gq_StartTime one_year_request)) = 8784"
  unfolding hourly_rows_eq by code_simp


lemma calm_values:
  "to_f64 (29 / 2) + Fin 0 + to_f64 (23 / 2) * Fin 0 + to_f64 (29 / 5) * Fin 0 + Fin 0 * to_f64 (6 / 5) = Fin (29 / 2)"
  "clamp (Fin 72 - to_f64 (9 / 10) * (Fin (29 / 2) - Fin 15) - Fin 8 * Fin 0 + Fin 0 * Fin 4) (Fin 12) (Fin 100)
     = Fin (5098215515671757 / 70368744177664)"
  "to_f64 (4053 / 4) + to_f64 (13 / 2) * Fin 0 + Fin 0 * to_f64 (17 / 10) = Fin (4053 / 4)"
  "clamp (Fin 4 + to_f64 (21 / 10) * Fin 0 + f64_abs (Fin 0) * to_f64 (9 / 5)) (Fin 0) (Fin 42) = Fin 4"
  "int_of_f64 (f64_mod (of_int64 (i64 (clock_hour (date_utc 2000 1 1) * 13)) + Fin 0 * Fin 35) 360) = 0"
  "clamp (f64_abs (Fin 0) * to_f64 (14 / 5) + to_f64 (1 / 5)) (to_f64 (1 / 10)) (Fin 75) = Fin (3602879701896397 / 18014398509481984)"
  "Fin 0 < clamp (to_f64 (2 / 25) + to_f64 (1 / 250) * (Fin (5098215515671757 / 70368744177664) - Fin 55)
     + to_f64 (3 / 100) * (Fin 1 + Fin 0)) (to_f64 (1 / 50)) (to_f64 (18 / 25))"
  by code_simp+

lemma calm_metrics: "generate_metrics calm_weather (date_utc 2000 1 1) \<lparr>wp_stationIndex = 0, wp_climateOffset = Fin 0, wp_phaseOffset = Fin 0\<rparr> s
    = (\<lparr>wm_temperatureC = Fin (29 / 2), wm_humidityPct = Fin (5098215515671757 / 70368744177664), wm_pressureHPA = Fin (4053 / 4),
        wm_windSpeedMPS = Fin 4, wm_windDirDeg = 0, wm_rainMM = Fin (3602879701896397 / 18014398509481984), wm_qualityWeight = Fin 1\<rparr>, ())"
  by (simp add: generate_metrics_def calm_weather_def Let_def calm_values)

lemma calm_rne: "rne (\<bar>29 / 2\<bar> * 10 ^ 2) = 1450" "rne (\<bar>5098215515671757 / 70368744177664\<bar> * 10 ^ 2) = 7245"
    "rne (\<bar>4053 / 4\<bar> * 10 ^ 2) = 101325" "rne (\<bar>4\<bar> * 10 ^ 2) = 400" "rne (\<bar>3602879701896397 / 18014398509481984\<bar> * 10 ^ 2) = 20"
  by code_simp+

lemma calm_texts:
  "fmt_f 2 (Fin (29 / 2)) = ''14.50''" "fmt_f 2 (Fin (5098215515671757 / 70368744177664)) = ''72.45''"
  "fmt_f 2 (Fin (4053 / 4)) = ''1013.25''" "fmt_f 2 (Fin 4) = ''4.00''"
  "fmt_f 2 (Fin (3602879701896397 / 18014398509481984)) = ''0.20''" "fmt_d 0 = ''0''"
  by (simp_all only: fmt_f.simps calm_rne Let_def, simp_all add: pad_left_def nat_str.simps digit_chars fmt_d_def)

lemma calm_time: "civil_of_days (local_secs (to_utc (date_utc 2000 1 1)) div 86400) = (2000, 1, 1)"
    "local_secs (to_utc (date_utc 2000 1 1)) mod 86400 = 0" "t_Offset (to_utc (date_utc 2000 1 1)) = 0"
  by code_simp+

lemma calm_stamp: "fmt_rfc3339 (to_utc (date_utc 2000 1 1)) = ''2000-01-01T00:00:00Z''"
  by (simp add: fmt_rfc3339_def fmt_date_def fmt_clock_def fmt_zone_def calm_time Let_def fmt_0d_def pad_left_def nat_str.simps digit_chars)

lemma calm_line: "length (fst (build_line calm_weather (date_utc 2000 1 1) ''S0001''
     \<lparr>wp_stationIndex = 0, wp_climateOffset = Fin 0, wp_phaseOffset = Fin 0\<rparr> s)) = 59"
  by (simp add: build_line_def calm_metrics calm_texts calm_stamp nl_def del: fmt_f.simps)

lemma one_year_succeeds: "\<exists>r content s'. generate_csv calm_weather free_disk 7 one_year_request s = Inr (r, content, s')"
proof -
  have q: "gq_OutputPath one_year_request \<noteq> []" "gq_TargetBytes one_year_request = 1048576"
    "gq_StationPrefix one_year_request = ''S''" "gq_StartTime one_year_request = date_utc 2000 1 1"
    by (simp_all add: one_year_request_def)
  have d: "ge_mkdir free_disk = None" "ge_create free_disk = None" "ge_header free_disk = None" "ge_flush free_disk = None"
    "find (\<lambda>i. \<exists>y. ge_row free_disk i = Some y) xs = None" for xs
    by (simp_all add: free_disk_def find_None_iff)
  have h: "int (length csv_header) = 97" by (simp add: csv_header_def nl_def)
  have i: "i64 518256 = 518256" by (simp add: i64_id)
  show ?thesis
    using calm_line [of s] one_year_rows
    by (simp add: generate_csv_def one_year_defaults q d h i Let_def case_prod_unfold)
qed

theorem generate_csv_content_witness:
  "\<exists>r content s'. generate_csv calm_weather free_disk 7 one_year_request () = Inr (r, content, s')
     \<and> csv_ok one_year_request r content"
proof -
  obtain r content s' where *: "generate_csv calm_weather free_disk 7 one_year_request () = Inr (r, content, s')"
    using one_year_succeeds [of "()"] by blast
  show ?thesis using * generate_csv_content [OF *] by blast
qed

text \<open>The default window: a hundred years from 1926, 876600 hours.\<close>

lemma default_window: "hourly_rows (date_utc 1926 1 1) (add_years 100 (date_utc 1926 1 1)) = 876600"
  unfolding hourly_rows_eq by code_simp

theorem choose_stations_optimal_witness:
  "\<bar>1000 - choose_stations 1000 300 * 300\<bar> \<le> \<bar>1000 - 4 * (300::int)\<bar>"
  by (rule choose_stations_optimal) simp_all

subsection \<open>The ranges of the values\<close>

lemma clamp_range:
  assumes "lo \<le> hi"
  shows "clamp v (Fin lo) (Fin hi) = NaN \<or> Fin lo \<le> clamp v (Fin lo) (Fin hi) \<and> clamp v (Fin lo) (Fin hi) \<le> Fin hi"
  using assms by (cases v) (auto simp: clamp_def f64_defs)

lemma clock_hour_range: "0 \<le> clock_hour t" "clock_hour t < 24"
proof -
  have "0 \<le> local_secs t mod 86400" "local_secs t mod 86400 < 86400" by simp_all
  then show "0 \<le> clock_hour t" "clock_hour t < 24" unfolding clock_hour_def by linarith+
qed

lemma f64_mod_range:
  assumes "0 \<le> z" "0 < m"
  shows "\<exists>r. f64_mod (Fin z) m = Fin r \<and> 0 \<le> r \<and> r < m"
proof -
  have "of_int \<lfloor>z / m\<rfloor> \<le> z / m" "z / m < of_int \<lfloor>z / m\<rfloor> + 1" by linarith+
  then have "m * of_int \<lfloor>z / m\<rfloor> \<le> z" "z < m * of_int \<lfloor>z / m\<rfloor> + m"
    using assms(2) by (simp_all add: le_divide_eq divide_less_eq distrib_left distrib_right mult.commute)
  moreover have "trunc_rat (z / m) = \<lfloor>z / m\<rfloor>" using assms by (simp add: trunc_rat_def)
  ultimately show ?thesis by (simp add: f64_mod_def)
qed

lemma wind_dir_range:
  assumes "0 \<le> k" "k \<le> 2 ^ 52" "0 \<le> u" "u < 1"
  shows "0 \<le> int_of_f64 (f64_mod (of_int64 k + Fin u * Fin 35) 360)"
    "int_of_f64 (f64_mod (of_int64 k + Fin u * Fin 35) 360) < 360"
proof -
  have self: "Fin x \<le> Fin x" for x by simp
  have r35: "to_f64 35 = Fin 35" "to_f64 0 = Fin 0" using of_int64_exact [of 35] of_int64_exact [of 0] by (simp_all add: of_int64_def)
  have u: "Fin 0 \<le> Fin u * Fin 35" "Fin u * Fin 35 \<le> Fin 35"
    using to_f64_mono [of 0 "u * 35"] to_f64_mono [of "u * 35" 35] assms by (simp_all add: f64_simps r35)
  have k: "of_int64 k = Fin (of_int k)" using assms by (intro of_int64_exact) simp
  have "Fin 0 \<le> of_int64 k + Fin u * Fin 35" using of_int64_nonneg [OF assms(1)] u(1) by (rule f64_nonneg_add)
  moreover have "of_int64 k + Fin u * Fin 35 \<le> Fin (of_int (2 ^ 52)) + Fin 35"
    using f64_add_between(2) [OF self [of "of_int k"] _ u(1,2), of "of_int (2 ^ 52)"] assms(2)
    by (simp only: k f64_simps of_int_le_iff)
  moreover have "Fin (of_int (2 ^ 52)) + Fin 35 = of_int64 (2 ^ 52 + 35)" by (simp add: f64_simps of_int64_def)
  ultimately obtain z where z: "of_int64 k + Fin u * Fin 35 = Fin z" "0 \<le> z"
    using f64_between [of 0 _ "of_int (2 ^ 52 + 35)"] of_int64_exact [of "2 ^ 52 + 35"] by auto
  obtain r where r: "f64_mod (Fin z) 360 = Fin r" "0 \<le> r" "r < 360" using f64_mod_range [OF z(2), of 360] by auto
  then have "0 \<le> \<lfloor>r\<rfloor>" "\<lfloor>r\<rfloor> < 360" by linarith+
  then show "0 \<le> int_of_f64 (f64_mod (of_int64 k + Fin u * Fin 35) 360)"
    "int_of_f64 (f64_mod (of_int64 k + Fin u * Fin 35) 360) < 360"
    using r by (simp_all add: z trunc_rat_def Let_def)
qed

definition ranged :: "f64 \<Rightarrow> f64 \<Rightarrow> f64 \<Rightarrow> bool" where
  "ranged v lo hi \<longleftrightarrow> v = NaN \<or> lo \<le> v \<and> v \<le> hi"

definition metrics_ok :: "weather_metrics \<Rightarrow> bool" where
  "metrics_ok m \<longleftrightarrow> 0 \<le> wm_windDirDeg m \<and> wm_windDirDeg m < 360 \<and> ranged (wm_humidityPct m) (Fin 12) (Fin 100)
     \<and> ranged (wm_windSpeedMPS m) (Fin 0) (Fin 42) \<and> ranged (wm_rainMM m) (Fin 0) (Fin 75)"

lemma ranged_clamp: "lo \<le> hi \<Longrightarrow> ranged (clamp v (Fin lo) (Fin hi)) (Fin lo) (Fin hi)"
  using clamp_range [of lo hi v] by (auto simp: ranged_def)

lemma rain_ranged: "ranged (clamp v (to_f64 (1 / 10)) (Fin 75)) (Fin 0) (Fin 75)"
proof -
  have "to_f64 (1 / 10) = Fin (round53 (1 / 10))" by (rule to_f64_53) simp
  moreover have "0 \<le> round53 (1 / 10)" by (rule round53_nonneg) simp
  moreover have "round53 (1 / 10) \<le> 75" using round53_le [of "1 / 10" 1] round53_of_int [of 1] by simp
  ultimately show ?thesis
    using ranged_clamp [of "round53 (1 / 10)" 75 v] f64_le_trans [of "Fin 0" "to_f64 (1 / 10)"]
    by (auto simp: ranged_def f64_defs)
qed

text \<open>
  Whatever the sine function and the normal noise give, the generated values stay in their
  ranges: the wind direction is a whole number of degrees below 360, humidity, wind speed and rain are
  clamped (or not a number, if the noise was not one). It takes uniform random numbers below 1.
\<close>

theorem generate_metrics_in_range:
  assumes uniform: "\<And>s. \<exists>u. fst (we_float w s) = Fin u \<and> 0 \<le> u \<and> u < 1"
    and index: "0 \<le> wp_stationIndex p" "wp_stationIndex p \<le> 2 ^ 40"
  shows "metrics_ok (fst (generate_metrics w ts p s))"
proof -
  define k where "k = clock_hour ts * 13 + wp_stationIndex p * 41"
  have k: "0 \<le> k" "k \<le> 2 ^ 52" using index clock_hour_range [of ts] by (simp_all add: k_def)
  then have "i64 k = k" by (intro i64_id) simp_all
  then have dir: "0 \<le> int_of_f64 (f64_mod (of_int64 (i64 k) + fst (we_float w s') * Fin 35) 360)"
    "int_of_f64 (f64_mod (of_int64 (i64 k) + fst (we_float w s') * Fin 35) 360) < 360" for s'
    using uniform [of s'] wind_dir_range [OF k] by auto
  have zero: "ranged (Fin 0) (Fin 0) (Fin 75)" by (simp add: ranged_def f64_defs)
  show ?thesis
    using dir rain_ranged zero
    by (simp add: metrics_ok_def generate_metrics_def k_def [symmetric] Let_def case_prod_unfold ranged_clamp)
qed

theorem generate_metrics_in_range_witness:
  "metrics_ok (fst (generate_metrics calm_weather (date_utc 2000 1 1)
     \<lparr>wp_stationIndex = 3, wp_climateOffset = Fin 1, wp_phaseOffset = Fin 2\<rparr> ()))"
  by (rule generate_metrics_in_range) (simp_all add: calm_weather_def)

subsection \<open>The generate command\<close>

text \<open>
  \<^verbatim>\<open>pkg/cmd/generate.go\<close>. The random source is a function of the seed, and the seed of zero is the
  clock; each path has its own answers of the system. The value is the error, if any, and the files written.
\<close>

record generate_flags =
  gf_size :: string
  gf_sizes :: "string list"
  gf_out :: string
  gf_outDir :: string
  gf_start :: string
  gf_seed :: int
  gf_tolerance :: f64
  gf_stationPrefix :: string
  gf_years :: int

definition generate_flags_default :: generate_flags where
  "generate_flags_default = \<lparr>gf_size = [], gf_sizes = [], gf_out = [], gf_outDir = [], gf_start = ''1926-01-01'', gf_seed = 0,
     gf_tolerance = Fin 5, gf_stationPrefix = ''FAKE'', gf_years = 100\<rparr>"

datatype generate_error = BadUsage string | BadStart string | BadSize size_error | BadSizeAt nat string size_error
  | GenerateFailed string | BatchFailed string string

record generated_file =
  gd_request :: generate_request
  gd_result :: generate_result
  gd_content :: string

definition effective_seed :: "int \<Rightarrow> int \<Rightarrow> int" where
  "effective_seed now seed = (if seed = 0 then now else seed)"

definition flags_request :: "generate_flags \<Rightarrow> go_time \<Rightarrow> string \<Rightarrow> int \<Rightarrow> generate_request" where
  "flags_request fl start path bytes = \<lparr>gq_OutputPath = path, gq_TargetBytes = bytes, gq_StartTime = start,
     gq_Years = gf_years fl, gq_TolerancePct = gf_tolerance fl, gq_StationPrefix = gf_stationPrefix fl, gq_HeaderWithMeta = False\<rparr>"

definition safe_name :: "string \<Rightarrow> string" where
  "safe_name sizeText = to_lower (filter (\<lambda>c. c \<noteq> CHR '' '') (trim sizeText))"

definition batch_path :: "generate_flags \<Rightarrow> string \<Rightarrow> string" where
  "batch_path fl sizeText = path_join [gf_outDir fl, ''fake-weather-'' @ safe_name sizeText @ ''.csv'']"

fun generate_batch :: "'s weather_env \<Rightarrow> (string \<Rightarrow> generate_env) \<Rightarrow> generate_flags \<Rightarrow> int \<Rightarrow> go_time \<Rightarrow> nat \<Rightarrow> string list \<Rightarrow> 's
    \<Rightarrow> generated_file list \<Rightarrow> generate_error option \<times> generated_file list" where
  "generate_batch w disk fl seed start i [] s files = (None, files)"
| "generate_batch w disk fl seed start i (sizeText # rest) s files =
     (case parse_byte_size sizeText of
        Inl e \<Rightarrow> (Some (BadSizeAt i sizeText e), files)
      | Inr bytes \<Rightarrow>
          (let path = batch_path fl sizeText; req = flags_request fl start path bytes
           in case generate_csv w (disk path) seed req s of
                Inl e \<Rightarrow> (Some (BatchFailed path e), files)
              | Inr (r, content, s') \<Rightarrow> generate_batch w disk fl seed start (i + 1) rest s'
                  (files @ [\<lparr>gd_request = req, gd_result = r, gd_content = content\<rparr>])))"

definition run_generate :: "'s weather_env \<Rightarrow> (string \<Rightarrow> generate_env) \<Rightarrow> (int \<Rightarrow> 's) \<Rightarrow> int \<Rightarrow> generate_flags
    \<Rightarrow> generate_error option \<times> generated_file list" where
  "run_generate w disk source now fl =
     (if gf_size fl = [] \<and> gf_sizes fl = []
      then (Some (BadUsage ''must provide --size for single generation or --sizes for batch generation''), [])
      else if gf_size fl \<noteq> [] \<and> gf_sizes fl \<noteq> [] then (Some (BadUsage ''use either --size or --sizes, not both''), [])
      else case parse_date10 (gf_start fl) of
        None \<Rightarrow> (Some (BadStart (gf_start fl)), [])
      | Some start \<Rightarrow>
          (let seed = effective_seed now (gf_seed fl)
           in if gf_size fl \<noteq> []
              then if gf_out fl = [] then (Some (BadUsage ''--out is required when using --size''), [])
                   else case parse_byte_size (gf_size fl) of
                          Inl e \<Rightarrow> (Some (BadSize e), [])
                        | Inr bytes \<Rightarrow>
                            (let req = flags_request fl start (gf_out fl) bytes
                             in case generate_csv w (disk (gf_out fl)) seed req (source seed) of
                                  Inl e \<Rightarrow> (Some (GenerateFailed e), [])
                                | Inr (r, content, _) \<Rightarrow> (None, [\<lparr>gd_request = req, gd_result = r, gd_content = content\<rparr>]))
              else if gf_outDir fl = [] then (Some (BadUsage ''--out-dir is required when using --sizes''), [])
              else generate_batch w disk fl seed start 0 (gf_sizes fl) (source seed) []))"

definition file_ok :: "generated_file \<Rightarrow> bool" where
  "file_ok f \<longleftrightarrow> csv_ok (gd_request f) (gd_result f) (gd_content f)"

definition batch_ok :: "nat \<Rightarrow> 'e option \<times> generated_file list \<Rightarrow> bool" where
  "batch_ok n out \<longleftrightarrow> (case out of (e, files) \<Rightarrow>
     list_all file_ok files \<and> (if e = None then length files = n else length files < n))"

lemma generate_batch_ok:
  "list_all file_ok files \<Longrightarrow> batch_ok (length files + length sizes) (generate_batch w disk fl seed start i sizes s files)"
proof (induction w disk fl seed start i sizes s files rule: generate_batch.induct)
  case (2 w disk fl seed start i sizeText rest s files)
  show ?case
  proof (cases "parse_byte_size sizeText")
    case (Inr bytes)
    let ?path = "batch_path fl sizeText"
    let ?req = "flags_request fl start ?path bytes"
    show ?thesis
    proof (cases "generate_csv w (disk ?path) seed ?req s")
      case res: (Inr p)
      obtain r content s' where p: "p = (r, content, s')" by (cases p)
      have "file_ok \<lparr>gd_request = ?req, gd_result = r, gd_content = content\<rparr>"
        using generate_csv_result res p by (simp add: file_ok_def)
      then show ?thesis using 2 Inr res p by (simp add: Let_def)
    qed (use 2 Inr in \<open>simp add: Let_def batch_ok_def\<close>)
  qed (use 2 in \<open>simp add: batch_ok_def\<close>)
qed (simp add: batch_ok_def)

text \<open>
  Whatever the flags and the system answer, every file the command writes is a well-formed one of
  its request; without an error there is one for the size, or one for each of the sizes, and an
  error keeps the files written before it.
\<close>

theorem run_generate_files: "batch_ok (max 1 (length (gf_sizes fl))) (run_generate w disk source now fl)"
proof -
  have batch: "batch_ok (length (gf_sizes fl)) (generate_batch w disk fl seed start 0 (gf_sizes fl) s [])" for seed start s
    using generate_batch_ok [of "[]" "gf_sizes fl"] by simp
  have one: "batch_ok 1 (None, [\<lparr>gd_request = req, gd_result = r, gd_content = content\<rparr>])"
    if "generate_csv w env seed req s = Inr (r, content, s')" for env seed req s r content s'
    using generate_csv_result [OF that] by (simp add: batch_ok_def file_ok_def)
  have none: "batch_ok n (Some e, []) \<longleftrightarrow> 0 < n" for n and e :: generate_error by (simp add: batch_ok_def)
  have len: "gf_sizes fl \<noteq> [] \<Longrightarrow> max (Suc 0) (length (gf_sizes fl)) = length (gf_sizes fl)" by (cases "gf_sizes fl") simp_all
  show ?thesis
    unfolding run_generate_def Let_def
    by (auto simp: none len batch split: option.splits sum.splits prod.splits intro: one [unfolded One_nat_def])
qed

end
