(* ===== verification/GoCsv.thy ===== *)
theory GoCsv
  imports GoText
begin

text \<open>
  The reader of \<open>encoding/csv\<close> with its default settings (comma, no comments, strict quotes, every
  record as long as the first), on a text that arrives and the error that ends it, if any. The
  messages of parse errors are a function of the text from where the record starts.
\<close>

type_synonym body = "string \<times> string option"

datatype csv_answer = CsvRow "string list" | CsvError string | CsvEOF

subsection \<open>Lines\<close>

datatype read_status = ReadOK | ReadEOF | ReadFailed string

definition quote_mark :: char where
  "quote_mark = CHR 0x22"

definition line_feed :: char where
  "line_feed = CHR 0x0A"

definition strip_cr :: "string \<Rightarrow> string" where
  "strip_cr l = (if l \<noteq> [] \<and> last l = CHR 0x0D then butlast l else l)"

text \<open>
  \<open>readLine\<close>: a line with its line feed, a carriage return before it dropped. A last line without a line
  feed is a line unless it is empty; with an error of the body it comes with the error.
\<close>

definition next_line :: "body \<Rightarrow> string \<times> read_status \<times> body" where
  "next_line b = (case b of (s, e) \<Rightarrow>
     (let l = takeWhile (\<lambda>c. c \<noteq> line_feed) s; r = dropWhile (\<lambda>c. c \<noteq> line_feed) s
      in if r \<noteq> [] then (strip_cr l @ [line_feed], ReadOK, (tl r, e))
         else case e of
             None \<Rightarrow> (if l = [] then ([], ReadEOF, ([], e)) else (strip_cr l, ReadOK, ([], e)))
           | Some x \<Rightarrow> (l, ReadFailed x, ([], e))))"

definition drop_feed :: "string \<Rightarrow> string" where
  "drop_feed l = (if l \<noteq> [] \<and> last l = line_feed then butlast l else l)"

lemma next_line_body:
  assumes "next_line b = (l, st, b')"
  shows "snd b' = snd b" "length l + length (fst b') \<le> length (fst b)" "st = ReadEOF \<longleftrightarrow> fst b = [] \<and> snd b = None"
    "st = ReadOK \<Longrightarrow> length (fst b') < length (fst b)"
proof -
  obtain s e where b: "b = (s, e)" by fastforce
  define p r where pr: "p = takeWhile (\<lambda>c. c \<noteq> line_feed) s" "r = dropWhile (\<lambda>c. c \<noteq> line_feed) s"
  have s: "s = p @ r" by (simp add: pr)
  have cr: "length (strip_cr p) \<le> length p" by (simp add: strip_cr_def)
  have n: "next_line (s, e) = (if r \<noteq> [] then (strip_cr p @ [line_feed], ReadOK, (tl r, e))
      else case e of None \<Rightarrow> (if p = [] then ([], ReadEOF, ([], e)) else (strip_cr p, ReadOK, ([], e)))
        | Some x \<Rightarrow> (p, ReadFailed x, ([], e)))"
    unfolding next_line_def b Let_def pr by simp
  then have q: "(if r \<noteq> [] then (strip_cr p @ [line_feed], ReadOK, (tl r, e))
      else case e of None \<Rightarrow> (if p = [] then ([], ReadEOF, ([], e)) else (strip_cr p, ReadOK, ([], e)))
        | Some x \<Rightarrow> (p, ReadFailed x, ([], e))) = (l, st, b')"
    using assms b by simp
  have len: "fst b = p @ r" "snd b = e" using s b by simp_all
  show "snd b' = snd b" using q len by (auto split: if_splits option.splits)
  show "length l + length (fst b') \<le> length (fst b)"
    using q len cr by (cases r) (auto split: if_splits option.splits)
  show "st = ReadEOF \<longleftrightarrow> fst b = [] \<and> snd b = None" using q len by (auto split: if_splits option.splits)
  show "st = ReadOK \<Longrightarrow> length (fst b') < length (fst b)"
    using q len by (cases r) (auto split: if_splits option.splits)
qed

lemma after_mark:
  assumes "c \<in> set l"
  shows "length (tl (dropWhile (\<lambda>x. x \<noteq> c) l)) < length l"
proof -
  have "length (dropWhile (\<lambda>x. x \<noteq> c) l) \<le> length l" by (rule length_dropWhile_le)
  moreover have "dropWhile (\<lambda>x. x \<noteq> c) l \<noteq> []" using assms by (auto simp: dropWhile_eq_Nil_conv)
  ultimately show ?thesis by (cases "dropWhile (\<lambda>x. x \<noteq> c) l") auto
qed

lemma fields_measure:
  "CHR '','' \<in> set line \<Longrightarrow> length (dropWhile (\<lambda>c. c \<noteq> CHR '','') line) - Suc 0 < length line"
  "quote_mark \<in> set line \<Longrightarrow> length (dropWhile (\<lambda>c. c \<noteq> quote_mark) line) - Suc (Suc 0) < length line"
  "line \<noteq> [] \<Longrightarrow> (line', st', b') = next_line b \<Longrightarrow> length line' + length (fst b') < length line + length (fst b)"
proof -
  show "CHR '','' \<in> set line \<Longrightarrow> length (dropWhile (\<lambda>c. c \<noteq> CHR '','') line) - Suc 0 < length line"
    using after_mark [of "CHR '',''" line] by simp
  show "length (dropWhile (\<lambda>c. c \<noteq> quote_mark) line) - Suc (Suc 0) < length line" if "quote_mark \<in> set line"
    using after_mark [OF that] by simp
  show "length line' + length (fst b') < length line + length (fst b)" if "line \<noteq> []" "(line', st', b') = next_line b"
    using that next_line_body(2) [OF that(2) [symmetric]] by (cases line) auto
qed

subsection \<open>Fields\<close>

text \<open>
  What is left of the line, the status of reading it, the rest of the body, the fields so far; within
  quotes also the text of the field so far. The results are the fields and whether the record
  is sound, which a read error is not.
\<close>

function (sequential) parse_fields :: "string \<Rightarrow> read_status \<Rightarrow> body \<Rightarrow> string list \<Rightarrow> (string list \<times> bool \<times> read_status) \<times> body"
  and parse_quoted :: "string \<Rightarrow> read_status \<Rightarrow> body \<Rightarrow> string list \<Rightarrow> string \<Rightarrow> (string list \<times> bool \<times> read_status) \<times> body" where
  "parse_fields line st b fields =
     (if line = [] \<or> hd line \<noteq> quote_mark
      then (let more = (CHR '','' \<in> set line);
                field = (if more then takeWhile (\<lambda>c. c \<noteq> CHR '','') line else drop_feed line)
            in if quote_mark \<in> set field then ((fields, False, st), b)
               else if more then parse_fields (tl (dropWhile (\<lambda>c. c \<noteq> CHR '','') line)) st b (fields @ [field])
               else ((fields @ [field], True, st), b))
      else parse_quoted (tl line) st b fields [])"
| "parse_quoted line st b fields buf =
     (if quote_mark \<in> set line
      then (let got = buf @ takeWhile (\<lambda>c. c \<noteq> quote_mark) line; r = tl (dropWhile (\<lambda>c. c \<noteq> quote_mark) line)
            in if r = [] \<or> r = [line_feed] then ((fields @ [got], True, st), b)
               else if hd r = quote_mark then parse_quoted (tl r) st b fields (got @ [quote_mark])
               else if hd r = CHR '','' then parse_fields (tl r) st b (fields @ [got])
               else ((fields, False, st), b))
      else if line \<noteq> []
      then (if st \<noteq> ReadOK then ((fields, True, st), b)
            else case next_line b of (line', st', b') \<Rightarrow>
              parse_quoted line' (if st' = ReadEOF then ReadOK else st') b' fields (buf @ line))
      else if st = ReadOK then ((fields, False, st), b)
      else ((fields @ [buf], True, st), b))"
  by pat_completeness auto

termination
  by (relation "measure (\<lambda>x. case x of Inl (line, st, b, fields) \<Rightarrow> length line + length (fst b)
        | Inr (line, st, b, fields, buf) \<Rightarrow> length line + length (fst b))")
    (auto simp: fields_measure(1,2) intro!: fields_measure(3))

declare parse_fields.simps [simp del] parse_quoted.simps [simp del]

subsection \<open>Records\<close>

text \<open>The first line that is not empty.\<close>

function (sequential) skip_blank :: "body \<Rightarrow> string \<times> read_status \<times> body" where
  "skip_blank b = (case next_line b of (line, st, b') \<Rightarrow>
     if st = ReadOK \<and> drop_feed line = [] then skip_blank b' else (line, st, b'))"
  by pat_completeness auto

termination
  by (relation "measure (\<lambda>b. length (fst b))") (auto dest: next_line_body(4) [OF sym])

declare skip_blank.simps [simp del]

text \<open>
  \<open>Read\<close> on the body that is left and the number of fields of a record, 0 before the first.
\<close>

definition csv_read :: "(string \<Rightarrow> string) \<Rightarrow> body \<times> nat \<Rightarrow> csv_answer \<times> body \<times> nat" where
  "csv_read msg c = (case c of (b, n) \<Rightarrow>
     (case skip_blank b of (line, st, b1) \<Rightarrow>
        if st = ReadEOF then (CsvEOF, b1, n)
        else case parse_fields line st b1 [] of ((fields, sound, st'), b2) \<Rightarrow>
          (let n' = (if n = 0 then length fields else n)
           in if \<not> sound then (CsvError (msg (fst b)), b2, n')
              else case st' of
                  ReadFailed e \<Rightarrow> (CsvError e, b2, n')
                | _ \<Rightarrow> (if length fields \<noteq> n' then CsvError (msg (fst b)) else CsvRow fields, b2, n'))))"

text \<open>The n-th answer of a reader.\<close>

fun csv_state :: "(string \<Rightarrow> string) \<Rightarrow> body \<Rightarrow> nat \<Rightarrow> body \<times> nat" where
  "csv_state msg b 0 = (b, 0)"
| "csv_state msg b (Suc k) = snd (csv_read msg (csv_state msg b k))"

definition csv_answers :: "(string \<Rightarrow> string) \<Rightarrow> body \<Rightarrow> nat \<Rightarrow> csv_answer" where
  "csv_answers msg b k = fst (csv_read msg (csv_state msg b k))"

subsection \<open>The end of the text\<close>

lemma parse_body:
  "snd (snd (parse_fields line st b fields)) = snd b \<and> length (fst (snd (parse_fields line st b fields))) \<le> length (fst b)"
  "snd (snd (parse_quoted line st b fields buf)) = snd b \<and> length (fst (snd (parse_quoted line st b fields buf))) \<le> length (fst b)"
proof (induction line st b fields and line st b fields buf rule: parse_fields_parse_quoted.induct)
  case (1 line st b fields)
  then show ?case by (simp add: parse_fields.simps [of line] Let_def)
next
  case (2 line st b fields buf)
  show ?case
  proof (cases "quote_mark \<in> set line \<or> line = [] \<or> st \<noteq> ReadOK")
    case True
    then show ?thesis using 2(1,2) by (auto simp: parse_quoted.simps [of line] Let_def)
  next
    case False
    obtain line' st' b' where n: "next_line b = (line', st', b')" by (cases "next_line b")
    then show ?thesis using 2(3) [OF _ _ _ n [symmetric] refl] next_line_body(1,2) [OF n] False
      by (auto simp: parse_quoted.simps [of line])
  qed
qed

lemma skip_blank_body:
  "skip_blank b = (line, st, b') \<Longrightarrow> snd b' = snd b \<and> length (fst b') \<le> length (fst b)
     \<and> (st = ReadEOF \<longrightarrow> b' = ([], None) \<and> snd b = None) \<and> (snd b = None \<longrightarrow> st = ReadEOF \<or> length (fst b') < length (fst b))"
proof (induction b arbitrary: line st b' rule: skip_blank.induct)
  case (1 b)
  obtain l s c where n: "next_line b = (l, s, c)" by (cases "next_line b")
  note nb = next_line_body [OF n]
  show ?case
  proof (cases "s = ReadOK \<and> drop_feed l = []")
    case True
    then have "skip_blank c = (line, st, b')" using 1(2) n by (simp add: skip_blank.simps [of b])
    from 1(1) [OF n [symmetric] refl True this] nb True show ?thesis by auto
  next
    case False
    then have e: "line = l" "st = s" "b' = c" using 1(2) n by (auto simp: skip_blank.simps [of b])
    have "s = ReadFailed x \<Longrightarrow> snd b \<noteq> None" for x using n by (auto simp: next_line_def Let_def split: prod.splits if_splits option.splits)
    then show ?thesis using nb e by (cases b'; cases s) auto
  qed
qed

lemma csv_read_body:
  assumes "csv_read msg (b, n) = (a, b', n')"
  shows "snd b' = snd b" "a = CsvEOF \<Longrightarrow> snd b = None \<and> b' = ([], None)"
    "snd b = None \<Longrightarrow> a \<noteq> CsvEOF \<Longrightarrow> length (fst b') < length (fst b)"
proof -
  obtain line st b1 where sb: "skip_blank b = (line, st, b1)" by (cases "skip_blank b")
  obtain fields sound st' b2 where pf: "parse_fields line st b1 [] = ((fields, sound, st'), b2)" by (cases "parse_fields line st b1 []") auto
  have p: "snd b2 = snd b1" "length (fst b2) \<le> length (fst b1)" using parse_body(1) [of line st b1 "[]"] pf by simp_all
  have r: "if st = ReadEOF then a = CsvEOF \<and> b' = b1 else a \<noteq> CsvEOF \<and> b' = b2"
    using assms by (auto simp: csv_read_def sb pf Let_def split: if_splits read_status.splits)
  note s = skip_blank_body [OF sb]
  show "snd b' = snd b" "a = CsvEOF \<Longrightarrow> snd b = None \<and> b' = ([], None)"
    "snd b = None \<Longrightarrow> a \<noteq> CsvEOF \<Longrightarrow> length (fst b') < length (fst b)"
    using r s p by (auto split: if_splits)
qed

lemma csv_state_error: "snd (fst (csv_state msg b k)) = snd b"
  by (induction k) (auto dest: csv_read_body(1) simp: prod_eq_iff, metis csv_read_body(1) prod.collapse)

text \<open>A text that ends without an error ends for the reader, too; one that ends with an error never does.\<close>

lemma csv_ends:
  assumes "snd b = None"
  shows "\<exists>m > k. csv_answers msg b m = CsvEOF"
proof -
  have "\<exists>m \<ge> j. csv_answers msg b m = CsvEOF" for j
  proof (induction "length (fst (fst (csv_state msg b j)))" arbitrary: j rule: less_induct)
    case less
    obtain c n where c: "csv_state msg b j = (c, n)" by fastforce
    obtain a c' n' where r: "csv_read msg (c, n) = (a, c', n')" by (cases "csv_read msg (c, n)")
    show ?case
    proof (cases "a = CsvEOF")
      case True
      then show ?thesis using c r by (intro exI [of _ j]) (simp add: csv_answers_def)
    next
      case False
      then have "length (fst c') < length (fst c)" using csv_read_body(3) [OF r] csv_state_error [of msg b j] assms c by simp
      then obtain m where "Suc j \<le> m" "csv_answers msg b m = CsvEOF" using less [of "Suc j"] c r by auto
      then show ?thesis by (intro exI [of _ m]) simp
    qed
  qed
  then show ?thesis by (meson Suc_le_lessD)
qed

lemma csv_never_ends:
  assumes "snd b \<noteq> None"
  shows "csv_answers msg b m \<noteq> CsvEOF"
proof -
  obtain c n where c: "csv_state msg b m = (c, n)" by fastforce
  obtain a c' n' where r: "csv_read msg (c, n) = (a, c', n')" by (cases "csv_read msg (c, n)")
  show ?thesis using csv_read_body(2) [OF r] csv_state_error [of msg b m] assms c r by (auto simp: csv_answers_def)
qed

subsection \<open>Quoted rows\<close>

text \<open>A row with every field in quotes, as the archive writes them.\<close>

definition quote_field :: "string \<Rightarrow> string" where
  "quote_field f = quote_mark # concat (map (\<lambda>c. if c = quote_mark then [quote_mark, quote_mark] else [c]) f) @ [quote_mark]"

definition quoted_row :: "string list \<Rightarrow> string" where
  "quoted_row fields = join_with '','' (map quote_field fields) @ [line_feed]"

definition line_field :: "string \<Rightarrow> bool" where
  "line_field f \<longleftrightarrow> line_feed \<notin> set f"

lemma marks: "quote_mark \<noteq> line_feed" "quote_mark \<noteq> CHR '',''" "line_feed \<noteq> CHR '',''" "quote_mark \<noteq> CHR 0x0D" "CHR '','' \<noteq> CHR 0x0D"
  by (simp_all add: quote_mark_def line_feed_def)

lemma parse_quoted_field:
  "parse_quoted (concat (map (\<lambda>c. if c = quote_mark then [quote_mark, quote_mark] else [c]) f) @ quote_mark # t) st b fields buf =
     (if t = [] \<or> t = [line_feed] then ((fields @ [buf @ f], True, st), b)
      else if hd t = quote_mark then parse_quoted (tl t) st b fields (buf @ f @ [quote_mark])
      else if hd t = CHR '','' then parse_fields (tl t) st b (fields @ [buf @ f])
      else ((fields, False, st), b))"
proof (induction "length f" arbitrary: f buf rule: less_induct)
  case less
  define p where "p = takeWhile (\<lambda>c. c \<noteq> quote_mark) f"
  have plain: "concat (map (\<lambda>c. if c = quote_mark then [quote_mark, quote_mark] else [c]) p) = p" "quote_mark \<notin> set p"
  proof -
    have "\<forall>c \<in> set p. c \<noteq> quote_mark" by (auto simp: p_def dest: set_takeWhileD)
    then show "concat (map (\<lambda>c. if c = quote_mark then [quote_mark, quote_mark] else [c]) p) = p" "quote_mark \<notin> set p" by (induction p) auto
  qed
  have first: "takeWhile (\<lambda>c. c \<noteq> quote_mark) (p @ quote_mark # r) = p" "dropWhile (\<lambda>c. c \<noteq> quote_mark) (p @ quote_mark # r) = quote_mark # r" for r
    using plain(2) by (auto simp: takeWhile_append dropWhile_append)
  show ?case
  proof (cases "dropWhile (\<lambda>c. c \<noteq> quote_mark) f")
    case Nil
    then have f: "f = p" by (metis p_def append_Nil2 takeWhile_dropWhile_id)
    show ?thesis unfolding f plain(1) by (subst parse_quoted.simps) (simp add: first Let_def)
  next
    case (Cons c g)
    then have f: "f = p @ quote_mark # g" by (metis (mono_tags, lifting) p_def hd_dropWhile list.sel(1) list.simps(3) takeWhile_dropWhile_id)
    show ?thesis unfolding f map_append concat_append plain(1)
      using less [of g "buf @ p @ [quote_mark]"] marks
      by (subst parse_quoted.simps) (simp add: f first Let_def)
  qed
qed

lemma parse_quoted_row:
  "fs \<noteq> [] \<Longrightarrow> parse_fields (quoted_row fs) st b fields = ((fields @ fs, True, st), b)"
proof (induction fs arbitrary: fields)
  case (Cons f fs)
  show ?case
  proof (cases "fs = []")
    case True
    then show ?thesis using marks
      by (subst parse_fields.simps) (simp add: quoted_row_def quote_field_def parse_quoted_field)
  next
    case False
    then have "quoted_row (f # fs) = quote_field f @ CHR '','' # quoted_row fs" by (cases fs) (simp_all add: quoted_row_def)
    then show ?thesis using Cons False marks
      by (subst parse_fields.simps) (simp add: quote_field_def parse_quoted_field)
  qed
qed simp

lemma quoted_row_line:
  assumes "fs \<noteq> []" "list_all line_field fs"
  shows "next_line (quoted_row fs @ s, e) = (quoted_row fs, ReadOK, (s, e))" "drop_feed (quoted_row fs) \<noteq> []"
proof -
  let ?j = "join_with '','' (map quote_field fs)"
  have j: "?j \<noteq> [] \<and> last ?j = quote_mark \<and> line_feed \<notin> set ?j"
    using assms
  proof (induction fs)
    case (Cons f fs)
    have f: "quote_field f \<noteq> []" "last (quote_field f) = quote_mark" "line_feed \<notin> set (quote_field f)"
      using Cons(3) marks by (auto simp: quote_field_def line_field_def)
    then show ?case using Cons marks by (cases fs) auto
  qed simp
  then have t: "takeWhile (\<lambda>c. c \<noteq> line_feed) (quoted_row fs @ s) = ?j" "dropWhile (\<lambda>c. c \<noteq> line_feed) (quoted_row fs @ s) = line_feed # s"
    by (auto simp: quoted_row_def takeWhile_append dropWhile_append)
  have cr: "strip_cr ?j = ?j" using j marks by (simp add: strip_cr_def)
  show "next_line (quoted_row fs @ s, e) = (quoted_row fs, ReadOK, (s, e))" using t cr by (simp add: next_line_def quoted_row_def)
  show "drop_feed (quoted_row fs) \<noteq> []" using j by (simp add: drop_feed_def quoted_row_def)
qed

lemma quoted_row_read:
  assumes "fs \<noteq> []" "list_all line_field fs"
  shows "csv_read msg ((quoted_row fs @ s, e), n) =
    (if n = 0 \<or> length fs = n then CsvRow fs else CsvError (msg (quoted_row fs @ s)), (s, e), if n = 0 then length fs else n)"
  using quoted_row_line(1) [OF assms, of s e] quoted_row_line(2) [OF assms] parse_quoted_row [OF assms(1), of ReadOK "(s, e)" "[]"]
  by (simp add: csv_read_def skip_blank.simps [of "(quoted_row fs @ s, e)"] Let_def)

lemma csv_read_end: "csv_read msg (([], None), n) = (CsvEOF, ([], None), n)"
  by (simp add: csv_read_def skip_blank.simps next_line_def)

lemma quoted_rows_read:
  assumes "csv_state msg b k = ((concat (map quoted_row rows) @ s, e), n)" "n \<noteq> 0" "\<forall>r \<in> set rows. r \<noteq> [] \<and> list_all line_field r"
  shows "csv_state msg b (k + length rows) = ((s, e), n)
    \<and> (\<forall>i < length rows. \<exists>t. csv_answers msg b (k + i) = (if length (rows ! i) = n then CsvRow (rows ! i) else CsvError t))"
  using assms
proof (induction rows arbitrary: k)
  case (Cons r rows)
  have read: "csv_read msg (csv_state msg b k) = (if length r = n then CsvRow r else CsvError (msg (concat (map quoted_row (r # rows)) @ s)),
      (concat (map quoted_row rows) @ s, e), n)"
    using quoted_row_read [of r msg "concat (map quoted_row rows) @ s" e n] Cons.prems by simp
  then have st: "csv_state msg b (Suc k) = ((concat (map quoted_row rows) @ s, e), n)" by simp
  have IH: "csv_state msg b (Suc k + length rows) = ((s, e), n)
    \<and> (\<forall>i < length rows. \<exists>t. csv_answers msg b (Suc k + i) = (if length (rows ! i) = n then CsvRow (rows ! i) else CsvError t))"
    using Cons.prems by (intro Cons.IH [OF st]) simp_all
  have "\<exists>t. csv_answers msg b (k + i) = (if length ((r # rows) ! i) = n then CsvRow ((r # rows) ! i) else CsvError t)" if "i < length (r # rows)" for i
  proof (cases i)
    case 0
    then show ?thesis using read by (auto simp: csv_answers_def)
  next
    case (Suc j)
    then show ?thesis using IH that by auto
  qed
  then show ?case using IH by simp
qed simp

text \<open>The answers on a file of quoted rows: its first row, every row as long as that one, an error for the others.\<close>

lemma quoted_file_read:
  assumes "\<forall>r \<in> set (header # rows). r \<noteq> [] \<and> list_all line_field r" "b = (concat (map quoted_row (header # rows)), e)"
  shows "csv_answers msg b 0 = CsvRow header"
    "i < length rows \<Longrightarrow> \<exists>t. csv_answers msg b (Suc i) = (if length (rows ! i) = length header then CsvRow (rows ! i) else CsvError t)"
    "e = None \<Longrightarrow> csv_answers msg b (Suc (length rows)) = CsvEOF"
proof -
  have first: "csv_read msg (b, 0) = (CsvRow header, (concat (map quoted_row rows), e), length header)"
    using quoted_row_read [of header msg "concat (map quoted_row rows)" e 0] assms by simp
  then have "csv_state msg b 1 = ((concat (map quoted_row rows) @ [], e), length header)" by simp
  note rs = quoted_rows_read [OF this]
  show "csv_answers msg b 0 = CsvRow header" using first by (simp add: csv_answers_def)
  show "\<exists>t. csv_answers msg b (Suc i) = (if length (rows ! i) = length header then CsvRow (rows ! i) else CsvError t)" if "i < length rows"
    using rs that assms(1) by auto
  show "csv_answers msg b (Suc (length rows)) = CsvEOF" if "e = None"
    using rs that assms(1) by (simp add: csv_answers_def csv_read_end)
qed

end
