(* ===== verification/Noaa.thy ===== *)
theory Noaa
  imports GoTime GoCsv
begin

text \<open>
  The client of the NOAA weather archive, \<^verbatim>\<open>pkg/data/noaa.go\<close>: the station inventory and its
  cache, the station queries, the measurements in CSV and their cache. The disk is a map from
  paths to contents that goes through the operations; what the server sends, the errors of the
  system and the trigonometric functions are parameters. The reader of \<open>encoding/csv\<close> is that of \<open>GoCsv\<close>.
\<close>

subsection \<open>Numbers as text\<close>

text \<open>
  \<open>strconv.ParseFloat\<close>: a decimal float with an optional exponent, an infinity or NaN; hexadecimal
  floats are left out. A number out of range is an error with an infinity as its value.
\<close>

datatype float_parse = FloatSyntax | FloatRange f64 | FloatOk f64

definition read_exponent :: "string \<Rightarrow> int option" where
  "read_exponent r = (case r of
       [] \<Rightarrow> Some 0
     | c # cs \<Rightarrow>
         (let neg = (cs \<noteq> [] \<and> hd cs = CHR ''-''); ds = (if neg \<or> cs \<noteq> [] \<and> hd cs = CHR ''+'' then tl cs else cs)
          in if c \<in> {CHR ''e'', CHR ''E''} \<and> ds \<noteq> [] \<and> list_all is_digit ds
             then Some ((if neg then - 1 else 1) * int (digits_val ds)) else None))"

definition read_decimal :: "string \<Rightarrow> rat option" where
  "read_decimal s =
     (let neg = (s \<noteq> [] \<and> hd s = CHR ''-''); r = (if neg \<or> s \<noteq> [] \<and> hd s = CHR ''+'' then tl s else s);
          ip = takeWhile is_digit r; r1 = dropWhile is_digit r;
          point = (r1 \<noteq> [] \<and> hd r1 = CHR ''.'');
          fp = (if point then takeWhile is_digit (tl r1) else []);
          r2 = (if point then dropWhile is_digit (tl r1) else r1)
      in if ip = [] \<and> fp = [] then None
         else map_option (\<lambda>e. (if neg then - 1 else 1) * of_nat (digits_val (ip @ fp)) * 10 powi (e - int (length fp)))
                (read_exponent r2))"

definition parse_float :: "string \<Rightarrow> float_parse" where
  "parse_float s =
     (let t = to_lower s
      in if t \<in> {''inf'', ''+inf'', ''infinity'', ''+infinity''} then FloatOk PInf
         else if t \<in> {''-inf'', ''-infinity''} then FloatOk NInf
         else if t = ''nan'' then FloatOk NaN
         else case read_decimal s of
                None \<Rightarrow> FloatSyntax
              | Some q \<Rightarrow> (case to_f64 q of Fin x \<Rightarrow> FloatOk (Fin x) | x \<Rightarrow> FloatRange x))"

text \<open>The helper \<open>parseFloat\<close>: errors are ignored, what the parser returns with them is kept.\<close>

definition parse_float_or_zero :: "string \<Rightarrow> f64" where
  "parse_float_or_zero s = (case parse_float (trim s) of FloatSyntax \<Rightarrow> 0 | FloatRange x \<Rightarrow> x | FloatOk x \<Rightarrow> x)"

subsection \<open>Data\<close>

record noaa_client =
  nc_baseURL :: string
  nc_timeout :: int
  nc_cacheDir :: string
  nc_cacheEnabled :: bool
  nc_parallel :: int
  nc_interval :: int
  nc_minFreeSpace :: int

record station =
  st_ID :: string
  st_Name :: string
  st_Country :: string
  st_Latitude :: f64
  st_Longitude :: f64
  st_Elevation :: f64
  st_State :: string
  st_StartDate :: go_time
  st_EndDate :: go_time

record weather_record =
  wr_StationID :: string
  wr_Date :: go_time
  wr_Element :: string
  wr_Value :: f64
  wr_QualityFlag :: string

record noaa_options =
  no_BaseURL :: string
  no_CacheDir :: string
  no_CacheEnabled :: bool
  no_Timeout :: int
  no_Parallel :: int
  no_RequestsPerSec :: f64
  no_MinFreeSpaceGB :: f64

text \<open>The interval of the rate limiter: a second over the rate, in nanoseconds.\<close>

definition limiter_interval :: "f64 \<Rightarrow> int" where
  "limiter_interval rate = int_of_f64 (of_int64 1000000000 / rate)"

definition new_noaa_client :: "noaa_options \<Rightarrow> noaa_client" where
  "new_noaa_client opts =
     (let par = (if no_Parallel opts \<le> 0 then 4 else no_Parallel opts);
          timeout = (if no_Timeout opts \<le> 0 then 30 * 1000000000 else no_Timeout opts);
          rate = (if no_RequestsPerSec opts \<le> 0 then Fin 1 else no_RequestsPerSec opts);
          space = (if no_MinFreeSpaceGB opts \<le> 0 then Fin 1 else no_MinFreeSpaceGB opts)
      in \<lparr>nc_baseURL = no_BaseURL opts, nc_timeout = timeout, nc_cacheDir = no_CacheDir opts,
          nc_cacheEnabled = no_CacheEnabled opts, nc_parallel = par, nc_interval = limiter_interval rate,
          nc_minFreeSpace = int_of_f64 (space * Fin 1024 * Fin 1024 * Fin 1024)\<rparr>)"

subsection \<open>The world of the client\<close>

text \<open>
  The disk maps paths to
  contents; opening a missing path fails, creating one may, and of what is written the disk keeps
  what \<open>ne_store\<close> says (the code does not look at write errors). \<open>ne_csv_error\<close> words the parse errors of the CSV reader.
\<close>

type_synonym disk = "string \<rightharpoonup> string"

record noaa_env =
  ne_get :: "string \<Rightarrow> string + int \<times> string \<times> body"
  ne_request :: "string \<Rightarrow> string option"
  ne_open_error :: "string \<Rightarrow> string"
  ne_create :: "string \<Rightarrow> string option"
  ne_store :: "string \<Rightarrow> string \<Rightarrow> string"
  ne_statfs :: "string \<Rightarrow> string + int \<times> int"
  ne_csv_error :: "string \<Rightarrow> string"

text \<open>\<open>bufio.Scanner\<close> with its default split: lines without their end; a line of 64 KiB or more is an error.\<close>

definition scan_lines :: "string \<Rightarrow> string list" where
  "scan_lines s = (let ls = split_on CHR 0x0A s; ls' = (if last ls = [] then butlast ls else ls)
     in map (\<lambda>l. if l \<noteq> [] \<and> last l = CHR 0x0D then butlast l else l) ls')"

definition scan_error :: "body \<Rightarrow> string option" where
  "scan_error b = (if \<exists>l \<in> set (split_on CHR 0x0A (fst b)). 65536 \<le> length l then Some ''bufio.Scanner: token too long''
     else snd b)"

subsection \<open>The station inventory\<close>

definition date_field :: "string \<Rightarrow> go_time" where
  "date_field s = (let t = trim s in if t = [] then zero_time else case parse_date8 t of Some d \<Rightarrow> d | None \<Rightarrow> zero_time)"

definition parse_station :: "string \<Rightarrow> station option" where
  "parse_station line =
     (if length line < 85 then None
      else let sid = trim (slice_of line 0 11)
           in Some \<lparr>st_ID = sid, st_Name = trim (slice_of line 41 71),
                st_Country = (if length sid \<ge> 2 then slice_of sid 0 2 else []),
                st_Latitude = parse_float_or_zero (slice_of line 12 20),
                st_Longitude = parse_float_or_zero (slice_of line 21 30),
                st_Elevation = parse_float_or_zero (slice_of line 31 37),
                st_State = trim (slice_of line 38 40),
                st_StartDate = (if length line > 90 then date_field (slice_of line 82 90) else zero_time),
                st_EndDate = (if length line > 98 then date_field (slice_of line 91 99) else zero_time)\<rparr>)"

definition parse_stations :: "body \<Rightarrow> string + station list" where
  "parse_stations b = (case scan_error b of
       Some e \<Rightarrow> Inl (''parsing stations: '' @ e)
     | None \<Rightarrow> Inr (List.map_filter parse_station (scan_lines (fst b))))"

text \<open>The widths count bytes here, runes in \<open>fmt\<close>: the same for the ASCII names of the inventory.\<close>

definition station_fields :: "station \<Rightarrow> string" where
  "station_fields s =
     pad_right 11 CHR '' '' (st_ID s) @ '' '' @ pad_left 8 CHR '' '' (fmt_f 4 (st_Latitude s)) @ '' ''
       @ pad_left 9 CHR '' '' (fmt_f 4 (st_Longitude s)) @ '' '' @ pad_left 6 CHR '' '' (fmt_f 1 (st_Elevation s)) @ '' ''
       @ pad_right 2 CHR '' '' (st_State s) @ '' '' @ pad_right 30 CHR '' '' (st_Name s)"

definition station_line :: "station \<Rightarrow> string" where
  "station_line s = station_fields s @ nl"

definition save_stations :: "noaa_env \<Rightarrow> string \<Rightarrow> station list \<Rightarrow> disk \<Rightarrow> disk" where
  "save_stations env path stations d = (case ne_create env path of
       Some e \<Rightarrow> d
     | None \<Rightarrow> d(path \<mapsto> ne_store env path (concat (map station_line stations))))"

definition load_stations_from_cache :: "noaa_env \<Rightarrow> string \<Rightarrow> disk \<Rightarrow> string + station list" where
  "load_stations_from_cache env path d = (case d path of
       None \<Rightarrow> Inl (ne_open_error env path) | Some content \<Rightarrow> parse_stations (content, None))"

definition stations_url :: string where
  "stations_url = ''https://www.ncei.noaa.gov/pub/data/ghcn/daily/ghcnd-stations.txt''"

definition stations_cache :: "noaa_client \<Rightarrow> string" where
  "stations_cache c = path_join [nc_cacheDir c, ''stations.txt'']"

definition load_stations :: "noaa_env \<Rightarrow> noaa_client \<Rightarrow> disk \<Rightarrow> (string + station list) \<times> disk" where
  "load_stations env c d =
     (case (if nc_cacheEnabled c then load_stations_from_cache env (stations_cache c) d else Inl []) of
        Inr stations \<Rightarrow> (Inr stations, d)
      | Inl _ \<Rightarrow>
          (case ne_get env stations_url of
             Inl e \<Rightarrow> (Inl (''downloading station list: '' @ e), d)
           | Inr (code, status, body) \<Rightarrow>
               (if code \<noteq> 200 then (Inl (''server returned '' @ status), d)
                else case parse_stations body of
                       Inl e \<Rightarrow> (Inl e, d)
                     | Inr stations \<Rightarrow>
                         (Inr stations, if nc_cacheEnabled c then save_stations env (stations_cache c) stations d else d))))"

subsection \<open>Station queries\<close>

definition iso_to_fips :: "string \<rightharpoonup> string" where
  "iso_to_fips = map_of
    [(''de'', ''gm''), (''pl'', ''pl''), (''tw'', ''ch''), (''gb'', ''uk''), (''kr'', ''ks''), (''kp'', ''kn''),
     (''bo'', ''bl''), (''br'', ''br''), (''by'', ''bo''), (''cz'', ''ez''), (''eg'', ''eg''), (''gr'', ''gr''),
     (''hr'', ''hr''), (''hu'', ''hu''), (''il'', ''is''), (''ir'', ''ir''), (''jo'', ''jo''), (''ke'', ''ke''),
     (''la'', ''la''), (''lb'', ''le''), (''lk'', ''ce''), (''ly'', ''ly''), (''ma'', ''mo''), (''mm'', ''bm''),
     (''np'', ''np''), (''nz'', ''nz''), (''ph'', ''rp''), (''pk'', ''pk''), (''ro'', ''ro''), (''rs'', ''ri''),
     (''sa'', ''sa''), (''sk'', ''lo''), (''sy'', ''sy''), (''th'', ''th''), (''tz'', ''tz''), (''ua'', ''up''),
     (''vn'', ''vm''), (''ye'', ''ym''), (''zm'', ''za''), (''zw'', ''zi'')]"

definition get_station :: "noaa_env \<Rightarrow> noaa_client \<Rightarrow> string \<Rightarrow> disk \<Rightarrow> (string + station) \<times> disk" where
  "get_station env c sid d = (case load_stations env c d of
       (Inl e, d') \<Rightarrow> (Inl e, d')
     | (Inr stations, d') \<Rightarrow>
         (case find (\<lambda>s. equal_fold (st_ID s) sid) stations of
            Some s \<Rightarrow> (Inr s, d') | None \<Rightarrow> (Inl (''station '' @ sid @ '' not found''), d')))"

definition country_lookup :: "string \<Rightarrow> string" where
  "country_lookup code = (case iso_to_fips (to_lower code) of Some fips \<Rightarrow> fips | None \<Rightarrow> to_lower code)"

definition get_stations_by_country :: "noaa_env \<Rightarrow> noaa_client \<Rightarrow> string \<Rightarrow> disk \<Rightarrow> (string + station list) \<times> disk" where
  "get_stations_by_country env c code d = (case load_stations env c d of
       (Inl e, d') \<Rightarrow> (Inl e, d')
     | (Inr stations, d') \<Rightarrow> (Inr (filter (\<lambda>s. equal_fold (st_Country s) (country_lookup code)) stations), d'))"

record trig =
  tr_sin :: "f64 \<Rightarrow> f64"
  tr_cos :: "f64 \<Rightarrow> f64"
  tr_atan2 :: "f64 \<Rightarrow> f64 \<Rightarrow> f64"
  tr_sqrt :: "f64 \<Rightarrow> f64"
  tr_pi :: f64

definition haversine :: "trig \<Rightarrow> f64 \<Rightarrow> f64 \<Rightarrow> f64 \<Rightarrow> f64 \<Rightarrow> f64" where
  "haversine tr lat1 lon1 lat2 lon2 =
     (let p1 = lat1 * tr_pi tr / Fin 180; p2 = lat2 * tr_pi tr / Fin 180;
          dp = (lat2 - lat1) * tr_pi tr / Fin 180; dl = (lon2 - lon1) * tr_pi tr / Fin 180;
          a = tr_sin tr (dp / Fin 2) * tr_sin tr (dp / Fin 2)
            + tr_cos tr p1 * tr_cos tr p2 * tr_sin tr (dl / Fin 2) * tr_sin tr (dl / Fin 2);
          c = Fin 2 * tr_atan2 tr (tr_sqrt tr a) (tr_sqrt tr (Fin 1 - a))
      in Fin 6371 * c)"

definition get_stations_by_radius :: "noaa_env \<Rightarrow> trig \<Rightarrow> noaa_client \<Rightarrow> f64 \<Rightarrow> f64 \<Rightarrow> f64 \<Rightarrow> disk \<Rightarrow> (string + station list) \<times> disk" where
  "get_stations_by_radius env tr c lat lon radius d = (case load_stations env c d of
       (Inl e, d') \<Rightarrow> (Inl e, d')
     | (Inr stations, d') \<Rightarrow> (Inr (filter (\<lambda>s. haversine tr lat lon (st_Latitude s) (st_Longitude s) \<le> radius) stations), d'))"

subsection \<open>Measurements\<close>

text \<open>The columns that hold values: the even ones from 6 on that have a column after them and are no attributes.\<close>

definition measurement_cols :: "string list \<Rightarrow> (string \<times> nat \<times> nat) list" where
  "measurement_cols header =
     map (\<lambda>i. (header ! i, i, i + 1))
       (filter (\<lambda>i. even i \<and> \<not> has_suffix (header ! i) ''_ATTRIBUTES'' \<and> i + 1 < length header) [6..<length header - 1])"

definition quality_flag :: "string list \<Rightarrow> nat \<Rightarrow> string" where
  "quality_flag row i =
     (if i < length row
      then let parts = split_on CHR '','' (trim (row ! i)) in if length parts \<ge> 2 \<and> parts ! 1 \<noteq> [] then parts ! 1 else []
      else [])"

definition measurement :: "string list \<Rightarrow> go_time \<Rightarrow> string \<times> nat \<times> nat \<Rightarrow> weather_record list" where
  "measurement row date col = (case col of (name, vi, ai) \<Rightarrow>
     (if length row \<le> vi then []
      else let v = trim (row ! vi)
           in if v = [] \<or> v = ''NA'' \<or> v = ''9999'' then []
              else case parse_float v of
                     FloatOk x \<Rightarrow> [\<lparr>wr_StationID = row ! 0, wr_Date = date, wr_Element = name, wr_Value = x,
                                   wr_QualityFlag = quality_flag row ai\<rparr>]
                   | _ \<Rightarrow> []))"

definition row_records :: "(string \<times> nat \<times> nat) list \<Rightarrow> string list \<Rightarrow> weather_record list" where
  "row_records cols row =
     (if length row < 6 then []
      else case parse_date10 (row ! 1) of None \<Rightarrow> [] | Some date \<Rightarrow> concat (map (measurement row date) cols))"

text \<open>The loop of \<open>parseCSV\<close> over the answers of the reader: an error is skipped, only the end of the file stops it.\<close>

partial_function (option) csv_loop ::
    "(nat \<Rightarrow> csv_answer) \<Rightarrow> (string \<times> nat \<times> nat) list \<Rightarrow> nat \<Rightarrow> weather_record list \<Rightarrow> weather_record list option" where
  "csv_loop answers cols n records =
     (case answers n of
        CsvEOF \<Rightarrow> Some records
      | CsvError _ \<Rightarrow> csv_loop answers cols (n + 1) records
      | CsvRow row \<Rightarrow> csv_loop answers cols (n + 1) (records @ row_records cols row))"

declare csv_loop.simps [code]

definition parse_answers :: "(nat \<Rightarrow> csv_answer) \<Rightarrow> (string + weather_record list) option" where
  "parse_answers answers = (case answers 0 of
       CsvEOF \<Rightarrow> Some (Inl ''EOF'')
     | CsvError e \<Rightarrow> Some (Inl e)
     | CsvRow header \<Rightarrow> map_option Inr (csv_loop answers (measurement_cols header) 1 []))"

text \<open>\<open>parseCSV\<close> on what arrives.\<close>

definition parse_csv :: "(string \<Rightarrow> string) \<Rightarrow> body \<Rightarrow> (string + weather_record list) option" where
  "parse_csv msg b = parse_answers (csv_answers msg b)"

definition load_from_cache :: "noaa_env \<Rightarrow> string \<Rightarrow> disk \<Rightarrow> (string + weather_record list) option" where
  "load_from_cache env path d = (case d path of
       None \<Rightarrow> Some (Inl (ne_open_error env path))
     | Some content \<Rightarrow> parse_csv (ne_csv_error env) (content, None))"

definition check_available_space :: "noaa_env \<Rightarrow> noaa_client \<Rightarrow> string \<Rightarrow> string option" where
  "check_available_space env c path = (case ne_statfs env path of
       Inl e \<Rightarrow> Some (''checking disk space: '' @ e)
     | Inr (bavail, bsize) \<Rightarrow>
         (let available = i64 (bavail * bsize)
          in if available < nc_minFreeSpace c
             then Some (''insufficient disk space: '' @ fmt_d (available sdiv (1024 * 1024)) @ '' MB available, ''
                    @ fmt_d (nc_minFreeSpace c sdiv (1024 * 1024)) @ '' MB required'')
             else None))"

definition data_cache :: "noaa_client \<Rightarrow> station \<Rightarrow> string" where
  "data_cache c s = path_join [nc_cacheDir c, st_ID s @ ''.csv'']"

text \<open>
  What follows the wait for the rate limiter. The result is \<open>None\<close> when a parse does not end; the
  cache is written from what arrived, an error of the body aside.
\<close>

definition fetch_station :: "noaa_env \<Rightarrow> noaa_client \<Rightarrow> station \<Rightarrow> disk \<Rightarrow> (string + weather_record list) option \<times> disk" where
  "fetch_station env c s d =
     (let url = nc_baseURL c @ ''/'' @ st_ID s @ ''.csv''
      in case ne_request env url of
           Some e \<Rightarrow> (Some (Inl (''creating request: '' @ e)), d)
         | None \<Rightarrow>
             (case ne_get env url of
                Inl e \<Rightarrow> (Some (Inl (''downloading station data: '' @ e)), d)
              | Inr (code, status, body) \<Rightarrow>
                  (if code \<noteq> 200 then (Some (Inl (''server returned '' @ status)), d)
                   else if nc_cacheEnabled c \<and> data_cache c s \<noteq> [] \<and> ne_create env (data_cache c s) = None
                   then let d' = d(data_cache c s \<mapsto> ne_store env (data_cache c s) (fst body))
                        in (load_from_cache env (data_cache c s) d', d')
                   else (parse_csv (ne_csv_error env) body, d))))"

definition download_station :: "noaa_env \<Rightarrow> noaa_client \<Rightarrow> station \<Rightarrow> disk \<Rightarrow> (string + weather_record list) option \<times> disk" where
  "download_station env c s d =
     (case (if nc_cacheEnabled c then load_from_cache env (data_cache c s) d else Some (Inl [])) of
        None \<Rightarrow> (None, d)
      | Some (Inr records) \<Rightarrow> (Some (Inr records), d)
      | Some (Inl _) \<Rightarrow>
          (case (if nc_cacheEnabled c then check_available_space env c (nc_cacheDir c) else None) of
             Some e \<Rightarrow> (Some (Inl e), d)
           | None \<Rightarrow> fetch_station env c s d))"

subsection \<open>Decimals and floats\<close>

text \<open>A number with few decimals survives being rounded to a float, printed and read again.\<close>

lemma scale_bound:
  assumes "0 < x" "x \<le> 2 ^ 30"
  shows "scale x \<le> - 22"
proof -
  have "scale x \<le> scale (2 ^ 30)" using assms by (rule scale_mono)
  also have "scale (2 ^ 30) = - 22" by code_simp
  finally show ?thesis .
qed

lemma round53_error:
  assumes "\<bar>x\<bar> \<le> 2 ^ 30"
  shows "\<bar>round53 x - x\<bar> \<le> 1 / 2 ^ 23"
proof -
  have pos: "\<bar>round53 x - x\<bar> \<le> 1 / 2 ^ 23" if x: "0 < x" "x \<le> 2 ^ 30" for x
  proof -
    let ?u = "(2::rat) powi scale x"
    have "round53 x - x = (of_int (rne (x / ?u)) - x / ?u) * ?u" by (simp add: round53_scale left_diff_distrib)
    then have "\<bar>round53 x - x\<bar> = \<bar>of_int (rne (x / ?u)) - x / ?u\<bar> * ?u" by (simp add: abs_mult)
    also have "\<dots> \<le> 1 / 2 * ?u" using rne_near [of "x / ?u"] by (intro mult_right_mono) auto
    also have "?u \<le> 2 powi (- 22)" using scale_bound [OF x] by (simp only: powi_2_le_iff)
    also have "1 / 2 * (2::rat) powi (- 22) = 1 / 2 ^ 23" by (simp add: power_int_minus)
    finally show ?thesis by simp
  qed
  show ?thesis
  proof (cases "x = 0")
    case False
    then show ?thesis
      using pos [of x] pos [of "- x"] assms by (cases "0 < x") (auto simp: round53_minus abs_if split: if_splits)
  qed simp
qed

lemma rne_of_near: "\<bar>y - of_int k\<bar> < 1 / 2 \<Longrightarrow> rne y = k"
proof -
  assume y: "\<bar>y - of_int k\<bar> < 1 / 2"
  then have "\<bar>of_int (rne y) - of_int k\<bar> < (1::rat)" using rne_near [of y] by linarith
  then have "\<bar>rat_of_int (rne y - k)\<bar> < 1" by simp
  then have "\<bar>rne y - k\<bar> < 1" by linarith
  then show ?thesis by simp
qed

lemma decimal_survives:
  assumes "p \<le> 4" "\<bar>k\<bar> \<le> 2 ^ 30"
  shows "rne (\<bar>round53 (of_int k / 10 ^ p)\<bar> * 10 ^ p) = \<bar>k\<bar>"
proof -
  define x where "x = rat_of_int k / 10 ^ p"
  have p10: "(1::rat) \<le> 10 ^ p" "(10::rat) ^ p \<le> 10 ^ 4"
    using assms(1) by (simp, intro power_increasing) simp_all
  have "rat_of_int \<bar>k\<bar> \<le> of_int (2 ^ 30)" using assms(2) by (simp only: of_int_le_iff)
  then have k: "\<bar>rat_of_int k\<bar> \<le> 2 ^ 30" by simp
  have "\<bar>x\<bar> \<le> \<bar>rat_of_int k\<bar>" using p10(1) by (simp add: x_def divide_le_eq mult_le_cancel_left1)
  then have "\<bar>x\<bar> \<le> 2 ^ 30" using k by linarith
  from round53_error [OF this] have "\<bar>\<bar>round53 x\<bar> - \<bar>x\<bar>\<bar> \<le> 1 / 2 ^ 23" by linarith
  then have "\<bar>\<bar>round53 x\<bar> - \<bar>x\<bar>\<bar> * 10 ^ p \<le> 1 / 2 ^ 23 * 10 ^ 4" using p10 by (intro mult_mono) auto
  moreover have "\<bar>\<bar>round53 x\<bar> - \<bar>x\<bar>\<bar> * 10 ^ p = \<bar>\<bar>round53 x\<bar> * 10 ^ p - of_int \<bar>k\<bar>\<bar>"
  proof -
    have "\<bar>x\<bar> * 10 ^ p = of_int \<bar>k\<bar>" using p10(1) by (simp add: x_def abs_divide)
    then show ?thesis using p10(1) by (metis abs_mult abs_of_nonneg left_diff_distrib order_trans zero_le_one)
  qed
  ultimately have "\<bar>\<bar>round53 x\<bar> * 10 ^ p - of_int \<bar>k\<bar>\<bar> < 1 / 2" by simp
  then show ?thesis unfolding x_def by (rule rne_of_near)
qed

lemma fmt_f_parts:
  obtains ip fp where "fmt_f p (Fin q) = (if q < 0 then ''-'' else []) @ ip @ CHR ''.'' # fp"
    "ip \<noteq> []" "length fp = p" "list_all is_digit (ip @ fp)" "digits_val (ip @ fp) = nat (rne (\<bar>q\<bar> * 10 ^ p))"
proof -
  define s where "s = pad_left (p + 1) CHR ''0'' (nat_str (nat (rne (\<bar>q\<bar> * 10 ^ p))))"
  have len: "p + 1 \<le> length s" by (simp add: s_def)
  have "is_digit CHR ''0''" by code_simp
  then have "list_all is_digit s" using nat_str_digits by (auto simp: s_def pad_left_def list_all_iff)
  moreover have "digits_val s = nat (rne (\<bar>q\<bar> * 10 ^ p))" by (simp add: s_def pad_left_def digits_val_zeros)
  moreover have "take (length s - p) s @ drop (length s - p) s = s" by simp
  moreover have "fmt_f p (Fin q) = (if q < 0 then ''-'' else []) @ take (length s - p) s @ CHR ''.'' # drop (length s - p) s"
    by (simp only: fmt_f.simps Let_def s_def)
  ultimately show ?thesis using len by (intro that [of "take (length s - p) s" "drop (length s - p) s"]) auto
qed

lemma takeWhile_digits: "list_all is_digit s \<Longrightarrow> \<not> is_digit c \<Longrightarrow> takeWhile is_digit (s @ c # r) = s \<and> dropWhile is_digit (s @ c # r) = c # r"
  by (induction s) simp_all

lemma digits_all: "list_all is_digit s \<Longrightarrow> takeWhile is_digit s = s \<and> dropWhile is_digit s = []"
  by (induction s) simp_all

lemma read_decimal_parts:
  assumes "ip \<noteq> []" "list_all is_digit (ip @ fp)"
  shows "read_decimal ((if neg then ''-'' else []) @ ip @ CHR ''.'' # fp)
    = Some ((if neg then - 1 else 1) * of_nat (digits_val (ip @ fp)) * 10 powi (- int (length fp)))"
proof -
  have d: "list_all is_digit ip" "list_all is_digit fp" using assms(2) by simp_all
  have h: "hd ip \<noteq> CHR ''-''" "hd ip \<noteq> CHR ''+''" using assms(1) d(1) by (cases ip; auto)+
  show ?thesis
    using assms(1) h by (simp add: read_decimal_def Let_def read_exponent_def takeWhile_digits [OF d(1)] digits_all [OF d(2)])
qed

lemma not_a_name: "CHR ''.'' \<in> set s \<Longrightarrow>
    to_lower s \<notin> {''inf'', ''+inf'', ''infinity'', ''+infinity''} \<and> to_lower s \<notin> {''-inf'', ''-infinity''} \<and> to_lower s \<noteq> ''nan''"
proof -
  assume "CHR ''.'' \<in> set s"
  then have "lower_char CHR ''.'' \<in> set (to_lower s)" by (simp add: to_lower_def)
  moreover have "lower_char CHR ''.'' = CHR ''.''" by code_simp
  ultimately have "CHR ''.'' \<in> set (to_lower s)" by simp
  then show ?thesis by auto
qed

lemma trim_padded:
  assumes "s \<noteq> []" "\<not> is_space (hd s)" "\<not> is_space (last s)"
  shows "trim (pad_left w CHR '' '' s) = s" "trim (pad_right w CHR '' '' s) = s"
proof -
  have sp: "is_space CHR '' ''" by code_simp
  have d: "dropWhile is_space (replicate n CHR '' '' @ t) = dropWhile is_space t" for n t by (induction n) (simp_all add: sp)
  have e: "dropWhile is_space t = t" if "t \<noteq> []" "\<not> is_space (hd t)" for t using that by (cases t) auto
  have "dropWhile is_space (s @ t) = s @ t" for t using assms e [of "s @ t"] by simp
  moreover have "dropWhile is_space (rev s) = rev s" using assms e [of "rev s"] by (simp add: hd_rev)
  ultimately show "trim (pad_left w CHR '' '' s) = s" "trim (pad_right w CHR '' '' s) = s"
    using e [OF assms(1,2)] by (simp_all add: trim_def pad_left_def pad_right_def d flip: replicate_append_same)
qed

text \<open>The float nearest to a decimal with \<open>p\<close> places prints and reads back as itself, padded or not.\<close>

lemma decimal_roundtrip:
  assumes "0 < p" "p \<le> 4" "\<bar>k\<bar> \<le> 2 ^ 30"
  shows "parse_float_or_zero (pad_left w CHR '' '' (fmt_f p (to_f64 (of_int k / 10 ^ p)))) = to_f64 (of_int k / 10 ^ p)"
proof -
  define x where "x = round53 (rat_of_int k / 10 ^ p)"
  have p10: "(1::rat) \<le> 10 ^ p" by simp
  have "rat_of_int \<bar>k\<bar> \<le> of_int (2 ^ 30)" using assms(3) by (simp only: of_int_le_iff)
  then have "\<bar>rat_of_int k\<bar> \<le> 2 ^ 30" by simp
  moreover have "\<bar>rat_of_int k / 10 ^ p\<bar> \<le> \<bar>rat_of_int k\<bar>" using p10 by (simp add: divide_le_eq mult_le_cancel_left1)
  ultimately have "\<bar>rat_of_int k / 10 ^ p\<bar> \<le> 2 ^ 53" by simp
  then have x: "to_f64 (of_int k / 10 ^ p) = Fin x" by (simp only: to_f64_53 x_def)
  obtain ip fp where f: "fmt_f p (Fin x) = (if x < 0 then ''-'' else []) @ ip @ CHR ''.'' # fp"
    "ip \<noteq> []" "length fp = p" "list_all is_digit (ip @ fp)" "digits_val (ip @ fp) = nat (rne (\<bar>x\<bar> * 10 ^ p))"
    by (rule fmt_f_parts)
  have N: "nat (rne (\<bar>x\<bar> * 10 ^ p)) = nat \<bar>k\<bar>" using decimal_survives [OF assms(2,3)] by (simp add: x_def)
  have sign: "x < 0 \<Longrightarrow> k < 0" "\<not> x < 0 \<Longrightarrow> 0 \<le> k"
  proof -
    have "0 \<le> k \<Longrightarrow> 0 \<le> x" by (simp add: x_def round53_nonneg)
    then show "x < 0 \<Longrightarrow> k < 0" by linarith
    assume "\<not> x < 0"
    show "0 \<le> k"
    proof (rule ccontr)
      assume "\<not> 0 \<le> k"
      then have "0 \<le> round53 (- (rat_of_int k / 10 ^ p))" by (intro round53_nonneg) (simp add: divide_le_0_iff)
      then have "x = 0" using \<open>\<not> x < 0\<close> by (simp add: x_def round53_minus)
      then have "nat \<bar>k\<bar> = 0" using N by simp
      then show False using \<open>\<not> 0 \<le> k\<close> by simp
    qed
  qed
  have "(if x < 0 then - 1 else 1) * rat_of_nat (nat \<bar>k\<bar>) * 10 powi (- int p) = of_int k / 10 ^ p"
    using sign by (auto simp: power_int_minus divide_inverse)
  then have "read_decimal (fmt_f p (Fin x)) = Some (of_int k / 10 ^ p)"
    unfolding f(1) using read_decimal_parts [OF f(2,4), of "x < 0"] f(3,5) N by simp
  moreover have "CHR ''.'' \<in> set (fmt_f p (Fin x))" unfolding f(1) by simp
  ultimately have "parse_float (fmt_f p (Fin x)) = FloatOk (Fin x)"
    using not_a_name [of "fmt_f p (Fin x)"] x by (simp add: parse_float_def Let_def del: fmt_f.simps)
  moreover have "trim (pad_left w CHR '' '' (fmt_f p (Fin x))) = fmt_f p (Fin x)"
  proof (rule trim_padded)
    have d: "is_digit (hd ip)" "is_digit (last fp)" using f(2,3,4) assms(1) by (auto simp: list_all_iff)
    have ns: "\<not> is_space CHR ''-''" by code_simp
    show "fmt_f p (Fin x) \<noteq> []" "\<not> is_space (hd (fmt_f p (Fin x)))" "\<not> is_space (last (fmt_f p (Fin x)))"
      unfolding f(1) using d f(2,3) assms(1) digit_not_space ns by auto
  qed
  ultimately show ?thesis by (simp add: parse_float_or_zero_def x del: fmt_f.simps)
qed

subsection \<open>The inventory and its cache\<close>

definition tidy_text :: "nat \<Rightarrow> string \<Rightarrow> bool" where
  "tidy_text w t \<longleftrightarrow> length t \<le> w \<and> (t = [] \<or> \<not> is_space (hd t) \<and> \<not> is_space (last t))"

definition tidy_number :: "nat \<Rightarrow> nat \<Rightarrow> f64 \<Rightarrow> bool" where
  "tidy_number w p x \<longleftrightarrow> length (fmt_f p x) \<le> w \<and> (\<exists>k. \<bar>k\<bar> \<le> 2 ^ 30 \<and> x = to_f64 (of_int k / 10 ^ p))"

text \<open>A station whose fields fit the columns of the inventory.\<close>

definition tidy_station :: "station \<Rightarrow> bool" where
  "tidy_station s \<longleftrightarrow> tidy_text 11 (st_ID s) \<and> tidy_text 2 (st_State s) \<and> tidy_text 30 (st_Name s)
     \<and> tidy_number 8 4 (st_Latitude s) \<and> tidy_number 9 4 (st_Longitude s) \<and> tidy_number 6 1 (st_Elevation s)"

lemma trim_tidy: "tidy_text w t \<Longrightarrow> trim (pad_right v CHR '' '' t) = t"
proof (cases "t = []")
  case True
  have "is_space CHR '' ''" by code_simp
  then have "dropWhile is_space (replicate n CHR '' '') = []" for n by (induction n) simp_all
  then show ?thesis using True by (simp add: trim_def pad_right_def)
qed (auto simp: tidy_text_def intro!: trim_padded)

lemma read_tidy: "tidy_number w p x \<Longrightarrow> 0 < p \<Longrightarrow> p \<le> 4 \<Longrightarrow> parse_float_or_zero (pad_left v CHR '' '' (fmt_f p x)) = x"
  by (auto simp: tidy_number_def decimal_roundtrip simp del: fmt_f.simps)

lemma tidy_lengths:
  assumes "tidy_station s"
  shows "length (pad_right 11 CHR '' '' (st_ID s)) = 11" "length (pad_left 8 CHR '' '' (fmt_f 4 (st_Latitude s))) = 8"
    "length (pad_left 9 CHR '' '' (fmt_f 4 (st_Longitude s))) = 9" "length (pad_left 6 CHR '' '' (fmt_f 1 (st_Elevation s))) = 6"
    "length (pad_right 2 CHR '' '' (st_State s)) = 2" "length (pad_right 30 CHR '' '' (st_Name s)) = 30"
  using assms by (simp_all add: tidy_station_def tidy_text_def tidy_number_def)

lemma station_fields_length: "tidy_station s \<Longrightarrow> length (station_fields s) = 71"
  by (simp only: station_fields_def length_append tidy_lengths) simp

lemma slice_middle: "length a = lo \<Longrightarrow> lo + length m = hi \<Longrightarrow> slice_of (a @ m @ b) lo hi = m"
  by (auto simp: slice_of_def)

lemma station_slices:
  assumes "tidy_station s"
  shows "slice_of (station_fields s @ rest) 0 11 = pad_right 11 CHR '' '' (st_ID s)"
    "slice_of (station_fields s @ rest) 12 20 = pad_left 8 CHR '' '' (fmt_f 4 (st_Latitude s))"
    "slice_of (station_fields s @ rest) 21 30 = pad_left 9 CHR '' '' (fmt_f 4 (st_Longitude s))"
    "slice_of (station_fields s @ rest) 31 37 = pad_left 6 CHR '' '' (fmt_f 1 (st_Elevation s))"
    "slice_of (station_fields s @ rest) 38 40 = pad_right 2 CHR '' '' (st_State s)"
    "slice_of (station_fields s @ rest) 41 71 = pad_right 30 CHR '' '' (st_Name s)"
  unfolding station_fields_def
  using tidy_lengths [OF assms]
  by (simp_all add: slice_of_def del: length_pad_left length_pad_right fmt_f.simps)

lemma parse_station_fields:
  assumes "tidy_station s" "14 \<le> length rest" "length rest \<le> 19"
  shows "parse_station (station_fields s @ rest) = Some (s\<lparr>st_Country := (if length (st_ID s) \<ge> 2 then take 2 (st_ID s) else []),
    st_StartDate := zero_time, st_EndDate := zero_time\<rparr>)"
proof -
  have t: "tidy_text 11 (st_ID s)" "tidy_text 2 (st_State s)" "tidy_text 30 (st_Name s)" "tidy_number 8 4 (st_Latitude s)"
    "tidy_number 9 4 (st_Longitude s)" "tidy_number 6 1 (st_Elevation s)"
    using assms(1) by (simp_all add: tidy_station_def)
  have l: "\<not> length (station_fields s @ rest) < 85" "\<not> 90 < length (station_fields s @ rest)" "\<not> 98 < length (station_fields s @ rest)"
    using assms(2,3) station_fields_length [OF assms(1)] by simp_all
  have r: "parse_float_or_zero (pad_left 8 CHR '' '' (fmt_f 4 (st_Latitude s))) = st_Latitude s"
    "parse_float_or_zero (pad_left 9 CHR '' '' (fmt_f 4 (st_Longitude s))) = st_Longitude s"
    "parse_float_or_zero (pad_left 6 CHR '' '' (fmt_f 1 (st_Elevation s))) = st_Elevation s"
    by (rule read_tidy [OF t(4)] read_tidy [OF t(5)] read_tidy [OF t(6)]; simp)+
  have "slice_of (st_ID s) 0 2 = take 2 (st_ID s)" by (simp add: slice_of_def)
  then show ?thesis
    unfolding parse_station_def Let_def station_slices [OF assms(1)] r trim_tidy [OF t(1)] trim_tidy [OF t(2)] trim_tidy [OF t(3)]
    using l by (cases s) simp
qed

text \<open>
  C17. A line in the columns of the inventory, filled up to its 85 characters, reads back as the
  station it was made from: names and codes as they are, the coordinates to the last bit, the
  country from the first two letters of the identifier.
\<close>

theorem station_line_roundtrip:
  assumes "tidy_station s" "14 \<le> length rest" "length rest \<le> 19"
  shows "parse_station (station_fields s @ rest) = Some (s\<lparr>st_Country := (if length (st_ID s) \<ge> 2 then take 2 (st_ID s) else []),
    st_StartDate := zero_time, st_EndDate := zero_time\<rparr>)"
  using assms by (rule parse_station_fields)

definition padded_station :: station where
  "padded_station = \<lparr>st_ID = ''GME00111445'', st_Name = ''BERLIN'', st_Country = ''GM'', st_Latitude = to_f64 (of_int 524639 / 10 ^ 4),
     st_Longitude = to_f64 (of_int 133017 / 10 ^ 4), st_Elevation = to_f64 (of_int 505 / 10 ^ 1), st_State = [],
     st_StartDate = zero_time, st_EndDate = zero_time\<rparr>"

lemma decimal_width:
  assumes "0 < p" "p \<le> 4" "\<bar>k\<bar> \<le> 2 ^ 30"
  shows "length (fmt_f p (to_f64 (of_int k / 10 ^ p))) \<le> 2 + max (p + 1) (length (nat_str (nat \<bar>k\<bar>)))"
proof -
  have "rat_of_int \<bar>k\<bar> \<le> of_int (2 ^ 30)" using assms(3) by (simp only: of_int_le_iff)
  then have "\<bar>rat_of_int k\<bar> \<le> 2 ^ 30" by simp
  moreover have "\<bar>rat_of_int k / 10 ^ p\<bar> \<le> \<bar>rat_of_int k\<bar>" by (simp add: divide_le_eq mult_le_cancel_left1)
  ultimately have "\<bar>rat_of_int k / 10 ^ p\<bar> \<le> 2 ^ 53" by simp
  then have x: "to_f64 (of_int k / 10 ^ p) = Fin (round53 (of_int k / 10 ^ p))" by (rule to_f64_53)
  show ?thesis unfolding x fmt_f.simps Let_def decimal_survives [OF assms(2,3)] by auto
qed

lemma padded_tidy: "tidy_station padded_station"
proof -
  have l: "length (nat_str 524639) = 6" "length (nat_str 133017) = 6" "length (nat_str 505) = 3" by (simp_all add: nat_str.simps)
  have n: "tidy_number 8 4 (to_f64 (of_int 524639 / 10 ^ 4))" "tidy_number 9 4 (to_f64 (of_int 133017 / 10 ^ 4))"
    "tidy_number 6 1 (to_f64 (of_int 505 / 10 ^ 1))"
    unfolding tidy_number_def
    using decimal_width [of 4 524639] decimal_width [of 4 133017] decimal_width [of 1 505] l
    by (intro conjI exI [of _ 524639] exI [of _ 133017] exI [of _ 505]; simp del: fmt_f.simps)+
  have t: "tidy_text 11 ''GME00111445''" "tidy_text 2 []" "tidy_text 30 ''BERLIN''" by code_simp+
  show ?thesis using n t by (simp add: tidy_station_def padded_station_def del: fmt_f.simps)
qed

theorem station_line_roundtrip_witness:
  "parse_station (station_fields padded_station @ '' GSN     10384'') = Some padded_station"
proof -
  have "padded_station\<lparr>st_Country := (if length (st_ID padded_station) \<ge> 2 then take 2 (st_ID padded_station) else []),
      st_StartDate := zero_time, st_EndDate := zero_time\<rparr> = padded_station"
    by (simp add: padded_station_def)
  then show ?thesis using station_line_roundtrip [OF padded_tidy, of "'' GSN     10384''"] by simp
qed

lemma split_on_sep: "set (split_on c (a @ c # b)) = set (split_on c a) \<union> set (split_on c b)"
proof (induction a)
  case (Cons x a)
  show ?case
  proof (cases "x = c")
    case False
    obtain w ws where "split_on c a = w # ws" by (cases "split_on c a") simp_all
    moreover obtain v vs where "split_on c (a @ c # b) = v # vs" by (cases "split_on c (a @ c # b)") simp_all
    moreover have "hd (split_on c (a @ c # b)) = hd (split_on c a) \<and> tl (split_on c (a @ c # b)) = tl (split_on c a) @ split_on c b"
      by (induction a) (auto split: list.splits)
    ultimately show ?thesis using False by auto
  qed (use Cons in auto)
qed simp

lemma split_on_length: "w \<in> set (split_on c s) \<Longrightarrow> length w \<le> length s"
  by (induction s arbitrary: w) (auto split: if_splits list.splits, (fastforce intro: le_SucI)+)

lemma cached_lines_short:
  assumes "\<forall>s \<in> set stations. length (station_fields s) < 85" "w \<in> set (split_on CHR 0x0A (concat (map station_line stations)))"
  shows "length w < 85"
  using assms
proof (induction stations)
  case (Cons s ss)
  have "concat (map station_line (s # ss)) = station_fields s @ CHR 0x0A # concat (map station_line ss)"
    by (simp add: station_line_def nl_def)
  then consider "w \<in> set (split_on CHR 0x0A (station_fields s))" | "w \<in> set (split_on CHR 0x0A (concat (map station_line ss)))"
    using Cons.prems(2) by (auto simp: split_on_sep)
  then show ?case using Cons split_on_length by cases fastforce+
qed simp

lemma scan_lines_short:
  assumes "\<forall>w \<in> set (split_on CHR 0x0A text). length w < n" "l \<in> set (scan_lines text)"
  shows "length l < n"
  using assms by (auto simp: scan_lines_def Let_def dest!: in_set_butlastD split: if_splits; fastforce dest: in_set_butlastD)

lemma parse_short_lines:
  assumes "\<forall>w \<in> set (split_on CHR 0x0A content). length w < 85"
  shows "parse_stations (content, None) = Inr []"
proof -
  have "scan_error (content, None) = None" using assms by (force simp: scan_error_def)
  moreover have "parse_station l = None" if "l \<in> set (scan_lines content)" for l
    using scan_lines_short [OF assms that] by (simp add: parse_station_def)
  then have "List.map_filter parse_station (scan_lines content) = []" by (simp add: List.map_filter_def filter_empty_conv)
  ultimately show ?thesis by (simp add: parse_stations_def)
qed

text \<open>
  C10. The inventory is cached in lines of 71 characters, and the parser skips lines of less than 85:
  once the inventory has been downloaded and cached, every later load succeeds and finds no station.
\<close>

theorem station_cache_forgets:
  assumes "nc_cacheEnabled c" "d (stations_cache c) = None"
    and "ne_create env (stations_cache c) = None" "\<And>t. ne_store env (stations_cache c) t = t"
    and "load_stations env c d = (Inr stations, d')" "\<forall>s \<in> set stations. tidy_station s"
  shows "load_stations env c d' = (Inr [], d')"
proof -
  have "d' (stations_cache c) = Some (concat (map station_line stations))"
    using assms(1-5) by (auto simp: load_stations_def load_stations_from_cache_def save_stations_def split: sum.splits prod.splits if_splits)
  moreover have "\<forall>s \<in> set stations. length (station_fields s) < 85" using assms(6) by (simp add: station_fields_length)
  then have "parse_stations (concat (map station_line stations), None) = Inr []"
    using cached_lines_short by (intro parse_short_lines) blast
  ultimately show ?thesis using assms(1) by (simp add: load_stations_def load_stations_from_cache_def)
qed

definition one_station_body :: body where
  "one_station_body = (station_fields padded_station @ '' GSN     10384'' @ nl, None)"

definition one_station_server :: noaa_env where
  "one_station_server = \<lparr>ne_get = (\<lambda>_. Inr (200, ''200 OK'', one_station_body)), ne_request = (\<lambda>_. None),
     ne_open_error = (\<lambda>_. ''no such file''), ne_create = (\<lambda>_. None), ne_store = (\<lambda>_ s. s),
     ne_statfs = (\<lambda>_. Inr (1000000, 4096)), ne_csv_error = (\<lambda>_. ''parse error'')\<rparr>"

definition caching_client :: noaa_client where
  "caching_client = \<lparr>nc_baseURL = ''https://host'', nc_timeout = 30000000000, nc_cacheDir = ''cache'', nc_cacheEnabled = True,
     nc_parallel = 4, nc_interval = 1000000000, nc_minFreeSpace = 1073741824\<rparr>"

lemma fmt_f_no_newline: "CHR 0x0A \<notin> set (fmt_f p (Fin q))"
proof -
  obtain ip fp where f: "fmt_f p (Fin q) = (if q < 0 then ''-'' else []) @ ip @ CHR ''.'' # fp" "list_all is_digit (ip @ fp)"
    by (rule fmt_f_parts)
  have "CHR 0x0A \<notin> set (ip @ fp)" using f(2) minus_not_digit(5) by (metis list_all_iff)
  then show ?thesis unfolding f(1) by simp
qed

lemma fmt_f_not_newline: "CHR 0x0A \<notin> set (fmt_f p x)"
  using fmt_f_no_newline by (cases x) simp_all

lemma one_station_line: "CHR 0x0A \<notin> set (station_fields padded_station @ '' GSN     10384'')"
  by (simp add: station_fields_def pad_left_def pad_right_def fmt_f_not_newline del: fmt_f.simps)
     (simp add: padded_station_def)

lemma one_station_parses: "parse_stations one_station_body = Inr [padded_station]"
proof -
  let ?l = "station_fields padded_station @ '' GSN     10384''"
  have split: "split_on CHR 0x0A (fst one_station_body) = [?l, []]"
    using split_on_append [OF one_station_line, of "[]"] by (simp add: one_station_body_def nl_def)
  have len: "length ?l = 85" using station_fields_length [OF padded_tidy] by simp
  then have "scan_error one_station_body = None" by (simp add: scan_error_def split) (simp add: one_station_body_def)
  moreover have "last ?l \<noteq> CHR 0x0D" "?l \<noteq> []" by simp_all
  then have "scan_lines (fst one_station_body) = [?l]" by (simp add: scan_lines_def split)
  moreover have "parse_station ?l = Some padded_station"
    using parse_station_fields [OF padded_tidy, of "'' GSN     10384''"] by (simp add: padded_station_def)
  ultimately show ?thesis by (simp add: parse_stations_def List.map_filter_def)
qed

theorem station_cache_forgets_witness:
  "\<exists>d'. load_stations one_station_server caching_client Map.empty = (Inr [padded_station], d')
     \<and> load_stations one_station_server caching_client d' = (Inr [], d')"
proof -
  have load: "load_stations one_station_server caching_client Map.empty = (Inr [padded_station],
      save_stations one_station_server (stations_cache caching_client) [padded_station] Map.empty)"
    using one_station_parses
    by (simp add: load_stations_def load_stations_from_cache_def one_station_server_def caching_client_def)
  have "load_stations one_station_server caching_client (save_stations one_station_server (stations_cache caching_client) [padded_station] Map.empty)
      = (Inr [], save_stations one_station_server (stations_cache caching_client) [padded_station] Map.empty)"
    by (rule station_cache_forgets [OF _ _ _ _ load])
       (simp_all add: one_station_server_def caching_client_def padded_tidy)
  then show ?thesis using load by blast
qed

subsection \<open>The CSV loop\<close>

definition answer_records :: "(string \<times> nat \<times> nat) list \<Rightarrow> csv_answer \<Rightarrow> weather_record list" where
  "answer_records cols a = (case a of CsvRow row \<Rightarrow> row_records cols row | _ \<Rightarrow> [])"

lemma csv_loop_returns:
  assumes "n \<le> m" "answers m = CsvEOF" "\<forall>k. n \<le> k \<and> k < m \<longrightarrow> answers k \<noteq> CsvEOF"
  shows "csv_loop answers cols n records = Some (records @ concat (map (answer_records cols) (map answers [n..<m])))"
  using assms
proof (induction "m - n" arbitrary: n records)
  case 0
  then show ?case by (simp add: csv_loop.simps)
next
  case (Suc d)
  have "n < m" using Suc(2) by simp
  then have up: "[n..<m] = n # [Suc n..<m]" by (rule upt_conv_Cons)
  have IH: "csv_loop answers cols (Suc n) rs = Some (rs @ concat (map (answer_records cols) (map answers [Suc n..<m])))" for rs
    using Suc.hyps(1) [of "Suc n" rs] Suc.hyps(2) Suc.prems \<open>n < m\<close> by simp
  show ?case
    using Suc.prems(3) \<open>n < m\<close> IH by (subst csv_loop.simps, cases "answers n") (auto simp: up answer_records_def)
qed

lemma csv_loop_ends:
  assumes "csv_loop answers cols n records = Some rs"
  shows "\<exists>m\<ge>n. answers m = CsvEOF"
proof (rule csv_loop.raw_induct [where P = "\<lambda>answers cols n records rs. \<exists>m\<ge>n. answers m = CsvEOF", OF _ assms], goal_cases)
  case (1 loop answers' cols' n' records' rs')
  then show ?case by (cases "answers' n'") (fastforce dest: Suc_leD)+
qed

text \<open>A text that ends without an error is read to its end.\<close>

lemma parse_csv_returns: "snd b = None \<Longrightarrow> \<exists>res. parse_csv msg b = Some res"
proof (cases "csv_answers msg b 0")
  case (CsvRow header)
  assume b: "snd b = None"
  define m where "m = (LEAST m. 0 < m \<and> csv_answers msg b m = CsvEOF)"
  have m: "0 < m" "csv_answers msg b m = CsvEOF" using LeastI_ex [OF csv_ends [OF b, of 0 msg]] by (simp_all add: m_def)
  have "\<forall>k. 1 \<le> k \<and> k < m \<longrightarrow> csv_answers msg b k \<noteq> CsvEOF" using not_less_Least by (fastforce simp: m_def)
  then show ?thesis using csv_loop_returns [of 1 m "csv_answers msg b"] m CsvRow by (simp add: parse_csv_def parse_answers_def)
qed (simp_all add: parse_csv_def parse_answers_def)

text \<open>
  Reading measurements ends exactly when the reader reports the end of the file: then the result
  is the records of all well-formed rows before it, in order. An error of the reader that stays,
  a broken connection for one, keeps the loop running for ever. The header alone decides between
  an error and the loop.
\<close>

theorem parse_csv_exact:
  "parse_answers answers = (case answers 0 of
       CsvEOF \<Rightarrow> Some (Inl ''EOF'')
     | CsvError e \<Rightarrow> Some (Inl e)
     | CsvRow header \<Rightarrow>
         (if \<exists>m>0. answers m = CsvEOF
          then Some (Inr (concat (map (answer_records (measurement_cols header)) (map answers [1..<LEAST m. 0 < m \<and> answers m = CsvEOF]))))
          else None))"
proof (cases "answers 0")
  case (CsvRow header)
  show ?thesis
  proof (cases "\<exists>m>0. answers m = CsvEOF")
    case True
    define m where "m = (LEAST m. 0 < m \<and> answers m = CsvEOF)"
    have m: "0 < m" "answers m = CsvEOF" using LeastI_ex [OF True] by (simp_all add: m_def)
    have "\<forall>k. 1 \<le> k \<and> k < m \<longrightarrow> answers k \<noteq> CsvEOF" using not_less_Least by (fastforce simp: m_def)
    then have "csv_loop answers (measurement_cols header) 1 [] =
        Some (concat (map (answer_records (measurement_cols header)) (map answers [1..<m])))"
      using csv_loop_returns [of 1 m answers "measurement_cols header" "[]"] m by simp
    then show ?thesis using CsvRow True by (simp add: parse_answers_def m_def)
  next
    case False
    have "csv_loop answers (measurement_cols header) 1 [] \<noteq> Some rs" for rs
      using csv_loop_ends [of answers "measurement_cols header" 1 "[]" rs] False by (meson less_le_trans zero_less_one)
    then have "csv_loop answers (measurement_cols header) 1 [] = None" by blast
    then show ?thesis using CsvRow False by (simp add: parse_answers_def)
  qed
qed (simp_all add: parse_answers_def)

text \<open>
  C18. The measurements of a text, whatever it is: reading them returns, since the reader comes to the end. On a file of quoted rows, whose fields
  may hold commas and quotation marks, the result is the records of the rows that are as long
  as the header, in order, and the other rows are skipped. If instead the connection breaks after
  the rows, the error is skipped, too, again and again, and the call never returns.
\<close>
theorem parse_csv_text:
  assumes "\<forall>r \<in> set (header # rows). r \<noteq> [] \<and> list_all line_field r"
  shows "(\<exists>res. parse_csv msg (s, None) = Some res)
    \<and> parse_csv msg (concat (map quoted_row (header # rows)), None) =
        Some (Inr (concat (map (row_records (measurement_cols header)) (filter (\<lambda>r. length r = length header) rows))))
    \<and> parse_csv msg (concat (map quoted_row (header # rows)), Some e) = None"
proof (intro conjI)
  show "\<exists>res. parse_csv msg (s, None) = Some res" using parse_csv_returns [of "(s, None)" msg] by simp
  let ?text = "concat (map quoted_row (header # rows))" and ?cols = "measurement_cols header"
  note read = quoted_file_read [OF assms refl]
  define answers where "answers = csv_answers msg (?text, None)"
  have first: "answers 0 = CsvRow header" "answers (Suc (length rows)) = CsvEOF" unfolding answers_def by (rule read(1), rule read(3) [OF refl])
  have each: "answer_records ?cols (answers (Suc i)) = (if length (rows ! i) = length header then row_records ?cols (rows ! i) else [])
      \<and> answers (Suc i) \<noteq> CsvEOF" if "i < length rows" for i
    using read(2) [OF that, of msg None] unfolding answers_def by (auto simp: answer_records_def)
  have "answers k \<noteq> CsvEOF" if "1 \<le> k" "k < Suc (length rows)" for k using each [of "k - 1"] that by simp
  then have "csv_loop answers ?cols 1 [] = Some (concat (map (answer_records ?cols) (map answers [1..<Suc (length rows)])))"
    using csv_loop_returns [of 1 "Suc (length rows)" answers ?cols "[]"] first(2) by simp
  moreover have "map (answer_records ?cols) (map answers [1..<Suc (length rows)]) =
      map (\<lambda>r. if length r = length header then row_records ?cols r else []) rows"
    by (rule nth_equalityI) (simp_all add: each del: upt_Suc)
  moreover have "concat (map (\<lambda>r. if length r = length header then row_records ?cols r else []) rows) =
      concat (map (row_records ?cols) (filter (\<lambda>r. length r = length header) rows))" by (induction rows) simp_all
  ultimately show "parse_csv msg (?text, None) = Some (Inr (concat (map (row_records ?cols) (filter (\<lambda>r. length r = length header) rows))))"
    using first(1) by (simp only: parse_csv_def parse_answers_def answers_def [symmetric] csv_answer.case option.map)
  show "parse_csv msg (?text, Some e) = None"
    using read(1) [of msg "Some e"] csv_loop_ends [of "csv_answers msg (?text, Some e)" ?cols 1 "[]"] csv_never_ends [of "(?text, Some e)" msg]
    by (cases "csv_loop (csv_answers msg (?text, Some e)) ?cols 1 []") (auto simp: parse_csv_def parse_answers_def)
qed

definition sample_header :: "string list" where
  "sample_header = [''STATION'', ''DATE'', ''LATITUDE'', ''LONGITUDE'', ''ELEVATION'', ''NAME'', ''TMAX'', ''TMAX_ATTRIBUTES'']"

definition sample_row :: "string list" where
  "sample_row = [''GME00111445'', ''2024-01-31'', ''52.4675'', ''13.4021'', ''48.0'', ''BERLIN, GM'', ''21.5'', '',,E'']"

theorem parse_csv_text_witness:
  "parse_csv (\<lambda>_. ''wrong number of fields'') (concat (map quoted_row [sample_header, [''GME00111445''], sample_row]), None) =
     Some (Inr (row_records (measurement_cols sample_header) sample_row))
   \<and> parse_csv (\<lambda>_. ''wrong number of fields'') (concat (map quoted_row [sample_header, [''GME00111445''], sample_row]), Some ''connection reset'') = None"
proof -
  have "\<forall>r \<in> set [sample_header, [''GME00111445''], sample_row]. r \<noteq> [] \<and> list_all line_field r"
    by (simp add: sample_header_def sample_row_def line_field_def line_feed_def)
  from parse_csv_text [OF this, where msg = "\<lambda>_. ''wrong number of fields''" and e = "''connection reset''"] show ?thesis
    by (simp add: sample_header_def sample_row_def)
qed


text \<open>What a record comes from: its own row and a value column of the header.\<close>

lemma row_record_origin:
  "r \<in> set (row_records cols row) \<Longrightarrow> wr_StationID r = row ! 0 \<and> parse_date10 (row ! 1) = Some (wr_Date r)
     \<and> (\<exists>vi ai. (wr_Element r, vi, ai) \<in> set cols \<and> vi < length row \<and> parse_float (trim (row ! vi)) = FloatOk (wr_Value r))"
  by (fastforce simp: row_records_def measurement_def Let_def split: if_splits option.splits float_parse.splits)

end
