(* ===== verification/RootCmd.thy ===== *)
theory RootCmd
  imports GoText
begin

text \<open>
  The start of the program, \<^verbatim>\<open>cmd/harness/main.go\<close> and \<^verbatim>\<open>pkg/cmd/root.go\<close>: the persistent flags
  and their bindings, the set-up of the configuration file, the logger of the commands and the
  exit status. The packages cobra and viper, which are not part of the repository, run the two
  hooks, read the file and look settings up: the hooks are run in a list given as an argument,
  the file and the settings are functions of what the code has set up. A log entry is its message
  with its keys and values; how the logger prints it is not modelled.
\<close>

subsection \<open>Log entries and loggers\<close>

datatype log_value = LString string | LInt int | LBool bool | LFloat f64 | LDuration int

datatype log_entry = LogInfo string "(string \<times> log_value) list" | LogWarn string "(string \<times> log_value) list"
  | LogError string "(string \<times> log_value) list"

datatype log_level = DebugLevel | InfoLevel | WarnLevel | ErrorLevel

record logger =
  lg_Level :: log_level
  lg_ReportCaller :: bool

text \<open>\<open>log.New\<close>: the level of a new logger is that of informations.\<close>

definition new_logger :: logger where
  "new_logger = \<lparr>lg_Level = InfoLevel, lg_ReportCaller = False\<rparr>"

subsection \<open>Flags\<close>

datatype flag_value = FString string | FInt int | FBool bool

record persistent_flag =
  pf_Name :: string
  pf_Shorthand :: string
  pf_Default :: flag_value
  pf_Usage :: string

definition root_flags :: "persistent_flag list" where
  "root_flags =
     [\<lparr>pf_Name = ''config'', pf_Shorthand = ''c'', pf_Default = FString [], pf_Usage = ''config file (default is ./config.yaml)''\<rparr>,
      \<lparr>pf_Name = ''log-level'', pf_Shorthand = [], pf_Default = FString ''info'', pf_Usage = ''log level (debug|info|warn|error)''\<rparr>,
      \<lparr>pf_Name = ''parallel'', pf_Shorthand = [], pf_Default = FInt 4, pf_Usage = ''parallelism level''\<rparr>,
      \<lparr>pf_Name = ''output'', pf_Shorthand = [], pf_Default = FString ''console'', pf_Usage = ''output format (console|json|junit|html)''\<rparr>,
      \<lparr>pf_Name = ''verbose'', pf_Shorthand = [], pf_Default = FBool False, pf_Usage = ''detailed output''\<rparr>,
      \<lparr>pf_Name = ''fail-fast'', pf_Shorthand = [], pf_Default = FBool False, pf_Usage = ''stop on first failure''\<rparr>]"

definition lookup_flag :: "string \<Rightarrow> persistent_flag option" where
  "lookup_flag name = find (\<lambda>f. pf_Name f = name) root_flags"

text \<open>The settings bound to a flag.\<close>

definition bound_flags :: "(string \<times> persistent_flag option) list" where
  "bound_flags = map (\<lambda>name. (name, lookup_flag name)) [''log-level'', ''parallel'', ''output'', ''verbose'', ''fail-fast'']"

subsection \<open>The configuration file\<close>

text \<open>What the code has told viper.\<close>

record viper =
  vp_Bound :: "(string \<times> persistent_flag option) list"
  vp_ConfigFile :: string
  vp_ConfigName :: string
  vp_ConfigType :: string
  vp_ConfigPaths :: "string list"
  vp_EnvPrefix :: string
  vp_AutomaticEnv :: bool
  vp_Read :: "string option" \<comment> \<open>the file read\<close>

definition new_viper :: viper where
  "new_viper = \<lparr>vp_Bound = bound_flags, vp_ConfigFile = [], vp_ConfigName = ''config'', vp_ConfigType = [], vp_ConfigPaths = [],
     vp_EnvPrefix = [], vp_AutomaticEnv = False, vp_Read = None\<rparr>"

record root_state =
  rt_Viper :: viper
  rt_Logger :: "logger option"
  rt_Log :: "log_entry list"

definition root_start :: root_state where
  "root_start = \<lparr>rt_Viper = new_viper, rt_Logger = None, rt_Log = []\<rparr>"

text \<open>\<open>read\<close> is \<open>ReadInConfig\<close>: the file it read, if it could.\<close>

definition config_paths :: "string \<Rightarrow> viper \<Rightarrow> viper" where
  "config_paths cfgFile v =
     (if cfgFile \<noteq> [] then v\<lparr>vp_ConfigFile := cfgFile\<rparr>
      else v\<lparr>vp_ConfigName := ''config'', vp_ConfigType := ''yaml'',
             vp_ConfigPaths := vp_ConfigPaths v @ [''.'', ''$HOME/.config/ws-test'', ''/etc/ws-test'']\<rparr>)"

definition init_config :: "(viper \<Rightarrow> string option) \<Rightarrow> string \<Rightarrow> root_state \<Rightarrow> root_state" where
  "init_config read cfgFile st =
     (let v = (config_paths cfgFile (rt_Viper st))\<lparr>vp_EnvPrefix := ''ws_test'', vp_AutomaticEnv := True\<rparr>
      in case read v of
           None \<Rightarrow> st\<lparr>rt_Viper := v\<rparr>
         | Some path \<Rightarrow> st\<lparr>rt_Viper := v\<lparr>vp_Read := Some path\<rparr>,
             rt_Log := rt_Log st @ (if rt_Logger st = None then [] else [LogInfo ''using config file'' [(''path'', LString path)]])\<rparr>)"

subsection \<open>The logger of the commands\<close>

definition level_of :: "string \<Rightarrow> log_level" where
  "level_of s = (if s = ''debug'' then DebugLevel else if s = ''info'' then InfoLevel else if s = ''warn'' then WarnLevel
     else if s = ''error'' then ErrorLevel else InfoLevel)"

definition persistent_pre_run :: "(viper \<Rightarrow> string \<Rightarrow> string) \<Rightarrow> (viper \<Rightarrow> string \<Rightarrow> bool) \<Rightarrow> root_state \<Rightarrow> root_state" where
  "persistent_pre_run getString getBool st =
     (let lg = new_logger\<lparr>lg_Level := level_of (getString (rt_Viper st) ''log-level'')\<rparr>
      in st\<lparr>rt_Logger := Some (if getBool (rt_Viper st) ''verbose'' then lg\<lparr>lg_ReportCaller := True\<rparr> else lg)\<rparr>)"

datatype hook = OnInitialize | PersistentPreRun

text \<open>The two hooks of the root command, in the order of the list.\<close>

fun run_hooks ::
    "(viper \<Rightarrow> string option) \<Rightarrow> (viper \<Rightarrow> string \<Rightarrow> string) \<Rightarrow> (viper \<Rightarrow> string \<Rightarrow> bool) \<Rightarrow> string
       \<Rightarrow> hook list \<Rightarrow> root_state \<Rightarrow> root_state" where
  "run_hooks read getString getBool cfgFile [] st = st"
| "run_hooks read getString getBool cfgFile (OnInitialize # hs) st =
     run_hooks read getString getBool cfgFile hs (init_config read cfgFile st)"
| "run_hooks read getString getBool cfgFile (PersistentPreRun # hs) st =
     run_hooks read getString getBool cfgFile hs (persistent_pre_run getString getBool st)"

subsection \<open>The exit status\<close>

text \<open>\<open>main\<close> after the command: the log line of its own logger, and the status of the process.\<close>

definition harness_main :: "string option \<Rightarrow> log_entry list \<times> int" where
  "harness_main err = (case err of None \<Rightarrow> ([], 0) | Some e \<Rightarrow> ([LogError ''test harness failed'' [(''error'', LString e)]], 1))"

subsection \<open>Lemmas\<close>

lemma level_of_InfoLevel: "level_of s = InfoLevel \<longleftrightarrow> s \<notin> {''debug'', ''warn'', ''error''}"
  by (simp add: level_of_def)

lemma bound_flags_found: "(name, f) \<in> set bound_flags \<Longrightarrow> \<exists>g. f = Some g \<and> pf_Name g = name \<and> g \<in> set root_flags"
  by (auto simp: bound_flags_def lookup_flag_def root_flags_def)

lemma init_config_quiet: "rt_Logger st = None \<Longrightarrow> rt_Log (init_config read cfgFile st) = rt_Log st"
  by (simp add: init_config_def Let_def split: option.split)

text \<open>A list of hooks logs nothing before the logger is there.\<close>

lemma initialize_quiet:
  "set hs \<subseteq> {OnInitialize} \<Longrightarrow> rt_Logger st = None \<Longrightarrow>
     rt_Log (run_hooks read getString getBool cfgFile hs st) = rt_Log st
     \<and> rt_Logger (run_hooks read getString getBool cfgFile hs st) = None"
proof (induction hs arbitrary: st)
  case (Cons h hs)
  then have "rt_Logger (init_config read cfgFile st) = None" by (simp add: init_config_def Let_def split: option.split)
  then show ?case using Cons by (simp add: init_config_quiet)
qed simp

lemma run_hooks_append:
  "run_hooks read getString getBool cfgFile (xs @ ys) st =
     run_hooks read getString getBool cfgFile ys (run_hooks read getString getBool cfgFile xs st)"
proof (induction xs arbitrary: st)
  case (Cons h xs)
  then show ?case by (cases h) simp_all
qed simp

subsection \<open>Properties\<close>

text \<open>
  When the configuration is initialised before the pre-run hook, as cobra does, a command starts
  with a logger whose level is the one set, information for every other word, and the line that
  tells which configuration file is used has not been logged, even if one was read. In the other
  order it would be.
\<close>
theorem command_starts_silent:
  fixes read getString getBool cfgFile
  defines "st \<equiv> run_hooks read getString getBool cfgFile [OnInitialize, PersistentPreRun] root_start"
    and "st' \<equiv> run_hooks read getString getBool cfgFile [PersistentPreRun, OnInitialize] root_start"
  shows "rt_Log st = []
    \<and> rt_Logger st = Some \<lparr>lg_Level = level_of (getString (rt_Viper st) ''log-level''), lg_ReportCaller = getBool (rt_Viper st) ''verbose''\<rparr>
    \<and> vp_Read (rt_Viper st) = vp_Read (rt_Viper st')
    \<and> (rt_Log st' = (case vp_Read (rt_Viper st) of None \<Rightarrow> [] | Some path \<Rightarrow> [LogInfo ''using config file'' [(''path'', LString path)]]))"
  by (auto simp: st_def st'_def root_start_def init_config_def persistent_pre_run_def new_viper_def new_logger_def config_paths_def
      Let_def split: option.split)

end
