(* ===== verification/Download.thy ===== *)
theory Download
  imports Noaa RootCmd
begin

text \<open>
  The concurrent half of \<^verbatim>\<open>pkg/data/noaa.go\<close>, the rate limiter and the download workers as step
  relations, and the \<open>retrieve\<close> command, \<^verbatim>\<open>pkg/cmd/retrieve.go\<close>.
\<close>

subsection \<open>The rate limiter\<close>

text \<open>
  The token channel holds at most one token. \<open>ls_ready\<close> says that the constructor has returned,
  \<open>ls_refill\<close> where the refill goroutine stands, \<open>ls_closed\<close> that the stop channel is closed; the ticks
  of the goroutine and the completed waits are counted.
\<close>

datatype refill = RefillStarted | Refilling | RefillDone | RefillPanicked

record limiter_state =
  ls_interval :: int
  ls_tokens :: nat
  ls_ready :: bool
  ls_refill :: refill
  ls_closed :: bool
  ls_ticks :: nat
  ls_waits :: nat

text \<open>The constructor up to its send of the initial token, which is a step.\<close>

definition new_rate_limiter :: "f64 \<Rightarrow> limiter_state" where
  "new_rate_limiter rate = \<lparr>ls_interval = limiter_interval rate, ls_tokens = 0, ls_ready = False,
     ls_refill = RefillStarted, ls_closed = False, ls_ticks = 0, ls_waits = 0\<rparr>"

text \<open>
  The steps of the constructor, the refill goroutine, the callers of \<open>Wait\<close> and \<open>Stop\<close>. \<open>NewTicker\<close>
  panics on an interval that is not positive, in the goroutine: that ends the process, and no
  step follows.
\<close>

inductive limiter_step :: "limiter_state \<Rightarrow> limiter_state \<Rightarrow> bool" where
  initial_token: "ls_refill s \<noteq> RefillPanicked \<Longrightarrow> \<not> ls_ready s \<Longrightarrow> ls_tokens s < 1 \<Longrightarrow>
    limiter_step s (s\<lparr>ls_tokens := ls_tokens s + 1, ls_ready := True\<rparr>)"
| new_ticker: "ls_refill s = RefillStarted \<Longrightarrow> 0 < ls_interval s \<Longrightarrow> limiter_step s (s\<lparr>ls_refill := Refilling\<rparr>)"
| ticker_panics: "ls_refill s = RefillStarted \<Longrightarrow> ls_interval s \<le> 0 \<Longrightarrow> limiter_step s (s\<lparr>ls_refill := RefillPanicked\<rparr>)"
| tick: "ls_refill s = Refilling \<Longrightarrow>
    limiter_step s (s\<lparr>ls_tokens := (if ls_tokens s < 1 then ls_tokens s + 1 else ls_tokens s), ls_ticks := ls_ticks s + 1\<rparr>)"
| refill_ends: "ls_refill s = Refilling \<Longrightarrow> ls_closed s \<Longrightarrow> limiter_step s (s\<lparr>ls_refill := RefillDone\<rparr>)"
| wait: "ls_refill s \<noteq> RefillPanicked \<Longrightarrow> ls_ready s \<Longrightarrow> 0 < ls_tokens s \<Longrightarrow>
    limiter_step s (s\<lparr>ls_tokens := ls_tokens s - 1, ls_waits := ls_waits s + 1\<rparr>)"
| stop: "ls_refill s \<noteq> RefillPanicked \<Longrightarrow> ls_ready s \<Longrightarrow> \<not> ls_closed s \<Longrightarrow> limiter_step s (s\<lparr>ls_closed := True\<rparr>)"

inductive_cases limiter_stepE: "limiter_step s t"

subsection \<open>Downloads\<close>

record downloader_options =
  do_OutputDir :: string
  do_Format :: string
  do_Parallel :: int
  do_StartDate :: go_time
  do_EndDate :: go_time
  do_Limit :: int

record download_result =
  dr_StationsProcessed :: int
  dr_RecordsDownloaded :: int
  dr_FilesCreated :: int
  dr_TotalBytes :: int
  dr_Errors :: "string list"

record station_download =
  sd_station :: station
  sd_recordCount :: int
  sd_bytes :: int
  sd_err :: "string option"

definition keeps_date :: "downloader_options \<Rightarrow> weather_record \<Rightarrow> bool" where
  "keeps_date opts r \<longleftrightarrow>
     \<not> (\<not> is_zero_time (do_StartDate opts) \<and> time_before (wr_Date r) (do_StartDate opts))
     \<and> \<not> (\<not> is_zero_time (do_EndDate opts) \<and> time_before (do_EndDate opts) (wr_Date r))"

definition filter_by_date :: "downloader_options \<Rightarrow> weather_record list \<Rightarrow> weather_record list" where
  "filter_by_date opts records = filter (keeps_date opts) records"

definition csv_line :: "weather_record \<Rightarrow> string" where
  "csv_line r = wr_StationID r @ '','' @ fmt_date8 (wr_Date r) @ '','' @ wr_Element r @ '','' @ fmt_f 1 (wr_Value r) @ '',,''
     @ wr_QualityFlag r @ '','' @ nl"

definition write_csv :: "noaa_env \<Rightarrow> weather_record list \<Rightarrow> string \<Rightarrow> disk \<Rightarrow> (string + int) \<times> disk" where
  "write_csv env records path d = (case ne_create env path of
       Some e \<Rightarrow> (Inl e, d)
     | None \<Rightarrow> let content = ne_store env path (concat (map csv_line records))
               in (Inr (int (length content)), d(path \<mapsto> content)))"

text \<open>One round of a worker: download, filter, write. No value when the download does not end.\<close>

definition station_job :: "noaa_env \<Rightarrow> noaa_client \<Rightarrow> downloader_options \<Rightarrow> station \<Rightarrow> disk \<Rightarrow> station_download option \<times> disk" where
  "station_job env c opts s d =
     (case download_station env c s d of
        (None, d') \<Rightarrow> (None, d')
      | (Some (Inl e), d') \<Rightarrow> (Some \<lparr>sd_station = s, sd_recordCount = 0, sd_bytes = 0, sd_err = Some e\<rparr>, d')
      | (Some (Inr records), d') \<Rightarrow>
          (let rs = (if \<not> is_zero_time (do_StartDate opts) \<or> \<not> is_zero_time (do_EndDate opts)
                     then filter_by_date opts records else records)
           in case write_csv env rs (path_join [do_OutputDir opts, st_ID s @ ''.csv'']) d' of
                (Inl e, d2) \<Rightarrow> (Some \<lparr>sd_station = s, sd_recordCount = 0, sd_bytes = 0, sd_err = Some e\<rparr>, d2)
              | (Inr n, d2) \<Rightarrow> (Some \<lparr>sd_station = s, sd_recordCount = int (length rs), sd_bytes = n, sd_err = None\<rparr>, d2)))"

text \<open>
  The pool: the channel of stations (filled and closed before the workers matter), what every
  worker holds, the channel of results, the disk. A worker takes a station, finishes it, or ends
  when the channel is empty.
\<close>

datatype worker = Waiting | Holding station | Ended

record pool =
  po_queue :: "station list"
  po_workers :: "worker list"
  po_results :: "station_download list"
  po_disk :: disk

definition worker_count :: "downloader_options \<Rightarrow> station list \<Rightarrow> int" where
  "worker_count opts stations = (if do_Parallel opts > int (length stations) then int (length stations) else do_Parallel opts)"

definition new_pool :: "downloader_options \<Rightarrow> station list \<Rightarrow> disk \<Rightarrow> pool" where
  "new_pool opts stations d = \<lparr>po_queue = stations, po_workers = replicate (nat (worker_count opts stations)) Waiting,
     po_results = [], po_disk = d\<rparr>"

inductive pool_step :: "noaa_env \<Rightarrow> noaa_client \<Rightarrow> downloader_options \<Rightarrow> pool \<Rightarrow> pool \<Rightarrow> bool"
  for env c opts where
  take_station: "i < length (po_workers p) \<Longrightarrow> po_workers p ! i = Waiting \<Longrightarrow> po_queue p = s # rest \<Longrightarrow>
    pool_step env c opts p (p\<lparr>po_queue := rest, po_workers := (po_workers p)[i := Holding s]\<rparr>)"
| finish_station: "i < length (po_workers p) \<Longrightarrow> po_workers p ! i = Holding s \<Longrightarrow>
    station_job env c opts s (po_disk p) = (Some r, d') \<Longrightarrow>
    pool_step env c opts p (p\<lparr>po_workers := (po_workers p)[i := Waiting], po_results := po_results p @ [r], po_disk := d'\<rparr>)"
| worker_ends: "i < length (po_workers p) \<Longrightarrow> po_workers p ! i = Waiting \<Longrightarrow> po_queue p = [] \<Longrightarrow>
    pool_step env c opts p (p\<lparr>po_workers := (po_workers p)[i := Ended]\<rparr>)"

inductive_cases pool_stepE: "pool_step env c opts p p'"

definition all_ended :: "pool \<Rightarrow> bool" where
  "all_ended p \<longleftrightarrow> (\<forall>w \<in> set (po_workers p). w = Ended)"

definition collect_step :: "download_result \<Rightarrow> station_download \<Rightarrow> download_result" where
  "collect_step t r =
     (let t1 = t\<lparr>dr_StationsProcessed := dr_StationsProcessed t + 1,
                 dr_RecordsDownloaded := i64 (dr_RecordsDownloaded t + sd_recordCount r),
                 dr_TotalBytes := i64 (dr_TotalBytes t + sd_bytes r)\<rparr>
      in case sd_err r of Some e \<Rightarrow> t1\<lparr>dr_Errors := dr_Errors t1 @ [e]\<rparr>
                        | None \<Rightarrow> t1\<lparr>dr_FilesCreated := dr_FilesCreated t1 + 1\<rparr>)"

definition collect_results :: "station_download list \<Rightarrow> download_result" where
  "collect_results rs = foldl collect_step
     \<lparr>dr_StationsProcessed = 0, dr_RecordsDownloaded = 0, dr_FilesCreated = 0, dr_TotalBytes = 0, dr_Errors = []\<rparr> rs"

text \<open>What \<open>Download\<close> can return: the collected results of a pool whose workers have ended.\<close>

definition download_returns ::
    "noaa_env \<Rightarrow> noaa_client \<Rightarrow> downloader_options \<Rightarrow> station list \<Rightarrow> disk \<Rightarrow> download_result \<Rightarrow> disk \<Rightarrow> bool" where
  "download_returns env c opts stations d r d' \<longleftrightarrow>
     (\<exists>p. (pool_step env c opts)\<^sup>*\<^sup>* (new_pool opts stations d) p \<and> all_ended p \<and> r = collect_results (po_results p) \<and> d' = po_disk p)"

subsection \<open>The retrieve command\<close>

record retrieve_flags =
  rf_station :: string
  rf_country :: string
  rf_lat :: f64
  rf_lon :: f64
  rf_radius :: f64
  rf_start :: string
  rf_end :: string
  rf_limit :: int
  rf_output :: string
  rf_format :: string
  rf_parallel :: int
  rf_cache :: bool
  rf_cacheDir :: string
  rf_rateLimit :: f64
  rf_minFreeSpaceGB :: f64

definition retrieve_flags_default :: retrieve_flags where
  "retrieve_flags_default = \<lparr>rf_station = [], rf_country = [], rf_lat = Fin 0, rf_lon = Fin 0, rf_radius = Fin 50,
     rf_start = [], rf_end = [], rf_limit = 10000, rf_output = ''./data/csv'', rf_format = ''csv'', rf_parallel = 4,
     rf_cache = False, rf_cacheDir = [], rf_rateLimit = Fin 1, rf_minFreeSpaceGB = Fin 1\<rparr>"

text \<open>What the command can fail with; the text of \<open>time.Parse\<close> for a bad date is left out.\<close>

datatype retrieve_error = BadDate string | HomeError string | MkdirError string | StationError string

text \<open>A date flag: the zero time when it is empty, an error when it is no date.\<close>

definition date_flag :: "string \<Rightarrow> retrieve_error + go_time" where
  "date_flag s = (if s = [] then Inr zero_time else case parse_date10 s of
     Some d \<Rightarrow> Inr d | None \<Rightarrow> Inl (BadDate s))"

definition cache_dir_flag :: "string + string \<Rightarrow> retrieve_flags \<Rightarrow> retrieve_error + string" where
  "cache_dir_flag home fl = (if rf_cacheDir fl \<noteq> [] then Inr (rf_cacheDir fl)
     else map_sum HomeError (\<lambda>h. path_join [h, ''.cache'', ''ws-test'', ''noaa'']) home)"

definition retrieve_client :: "retrieve_flags \<Rightarrow> string \<Rightarrow> noaa_client" where
  "retrieve_client fl cacheDir = new_noaa_client
     \<lparr>no_BaseURL = ''https://www.ncei.noaa.gov/data/global-historical-climatology-network-daily/access/'',
      no_CacheDir = cacheDir, no_CacheEnabled = rf_cache fl, no_Timeout = 30 * 1000000000, no_Parallel = rf_parallel fl,
      no_RequestsPerSec = rf_rateLimit fl, no_MinFreeSpaceGB = rf_minFreeSpaceGB fl\<rparr>"

text \<open>The stations the flags ask for; \<open>None\<close> when they name no mode.\<close>

definition find_stations :: "noaa_env \<Rightarrow> trig \<Rightarrow> noaa_client \<Rightarrow> retrieve_flags \<Rightarrow> disk \<Rightarrow> ((string + station list) \<times> disk) option" where
  "find_stations env tr c fl d =
     (if rf_station fl \<noteq> [] then Some (map_prod (map_sum id (\<lambda>s. [s])) id (get_station env c (rf_station fl) d))
      else if rf_country fl \<noteq> [] then Some (get_stations_by_country env c (rf_country fl) d)
      else if rf_lat fl \<noteq> 0 \<and> rf_lon fl \<noteq> 0
      then Some (get_stations_by_radius env tr c (rf_lat fl) (rf_lon fl) (rf_radius fl) d)
      else None)"

text \<open>The cut to the limit, with the panic of a slice with a negative bound.\<close>

definition limit_stations :: "int \<Rightarrow> station list \<Rightarrow> panic + station list" where
  "limit_stations limit stations =
     (if int (length stations) > limit then if limit < 0 then Inl SliceOutOfRange else Inr (take (nat limit) stations)
      else Inr stations)"

text \<open>
  The command up to its download: a panic, an error, nothing to do, or the download to make. Its
  errors come from the dates, the home directory, the output directory and the station queries.
  With an interval that is not positive the refill goroutine of the client panics beside what
  follows; the plan is that panic then, wherever the command would have got to before it.
\<close>

datatype retrieve_plan = RetrieveError retrieve_error | NothingFound | StartDownload noaa_client downloader_options "station list"

definition plan_retrieve ::
    "noaa_env \<Rightarrow> trig \<Rightarrow> string + string \<Rightarrow> (string \<Rightarrow> string option) \<Rightarrow> retrieve_flags \<Rightarrow> disk \<Rightarrow> panic + retrieve_plan \<times> disk" where
  "plan_retrieve env tr home mkdir fl d =
     (case bind_sum (date_flag (rf_start fl)) (\<lambda>start. bind_sum (date_flag (rf_end fl)) (\<lambda>stop.
             bind_sum (cache_dir_flag home fl) (\<lambda>dir.
               case mkdir (rf_output fl) of Some e \<Rightarrow> Inl (MkdirError e) | None \<Rightarrow> Inr (start, stop, dir)))) of
        Inl e \<Rightarrow> Inr (RetrieveError e, d)
      | Inr (start, stop, dir) \<Rightarrow>
          (let c = retrieve_client fl dir
           in bind_sum (if nc_interval c \<le> 0 then Inl BadTickerInterval else Inr ()) (\<lambda>_.
              case find_stations env tr c fl d of
                None \<Rightarrow> Inr (NothingFound, d)
              | Some (Inl e, d') \<Rightarrow> Inr (RetrieveError (StationError e), d')
              | Some (Inr stations, d') \<Rightarrow>
                  (if stations = [] then Inr (NothingFound, d')
                   else bind_sum (limit_stations (rf_limit fl) stations) (\<lambda>chosen.
                     Inr (StartDownload c \<lparr>do_OutputDir = rf_output fl, do_Format = rf_format fl, do_Parallel = rf_parallel fl,
                       do_StartDate = start, do_EndDate = stop, do_Limit = rf_limit fl\<rparr> chosen, d'))))))"

text \<open>\<open>Duration.Round\<close> to a second, away from zero in the middle; out of range it stays at the ends of the 64 bits.\<close>

definition round_second :: "int \<Rightarrow> int" where
  "round_second t =
     (let m = 1000000000; r = \<bar>t smod m\<bar>
      in if t < 0 then (if 2 * r < m then t + r else if - (2 ^ 63) \<le> t - m + r then t - m + r else - (2 ^ 63))
         else if 2 * r < m then t - r else if t + m - r < 2 ^ 63 then t + m - r else 2 ^ 63 - 1)"

text \<open>The last log lines of the command; the duration is that of the download.\<close>

definition retrieve_report :: "int \<Rightarrow> string \<Rightarrow> download_result \<Rightarrow> log_entry list" where
  "retrieve_report elapsed dir r =
     [LogInfo ''=== download summary ===''
        [(''stations_processed'', LInt (dr_StationsProcessed r)), (''records_downloaded'', LInt (dr_RecordsDownloaded r)),
         (''files_created'', LInt (dr_FilesCreated r)), (''total_size_mb'', LFloat (of_int64 (dr_TotalBytes r) / of_int64 (1024 * 1024))),
         (''duration'', LDuration (round_second elapsed))]]
     @ (if dr_Errors r = [] then []
        else LogWarn ''download completed with errors'' [(''error_count'', LInt (int (length (dr_Errors r))))]
          # map (\<lambda>e. LogError ''  download error'' [(''error'', LString e)]) (dr_Errors r))
     @ [LogInfo ''output saved'' [(''directory'', LString dir)]]"

text \<open>
  What the command can end with: the status of the process, its last log lines and the disk. Only
  what happens before the download is an error of the command.
\<close>

definition retrieve_ends ::
    "noaa_env \<Rightarrow> trig \<Rightarrow> string + string \<Rightarrow> (string \<Rightarrow> string option) \<Rightarrow> int \<Rightarrow> retrieve_flags \<Rightarrow> disk \<Rightarrow>
       int \<Rightarrow> log_entry list \<Rightarrow> disk \<Rightarrow> bool" where
  "retrieve_ends env tr home mkdir elapsed fl d status entries d' \<longleftrightarrow>
     (case plan_retrieve env tr home mkdir fl d of
        Inl p \<Rightarrow> False
      | Inr (RetrieveError e, d1) \<Rightarrow> status = 1 \<and> entries = [] \<and> d' = d1
      | Inr (NothingFound, d1) \<Rightarrow> status = 0 \<and> entries = [] \<and> d' = d1
      | Inr (StartDownload c opts chosen, d1) \<Rightarrow>
          (\<exists>r. download_returns env c opts chosen d1 r d' \<and> status = 0 \<and> entries = retrieve_report elapsed (rf_output fl) r))"

subsection \<open>The token bucket\<close>

text \<open>The channel never holds more than one token, and every wait is paid by a tick or by the initial token.\<close>

definition limiter_inv :: "limiter_state \<Rightarrow> bool" where
  "limiter_inv s \<longleftrightarrow> ls_tokens s \<le> 1 \<and> ls_waits s + ls_tokens s \<le> ls_ticks s + of_bool (ls_ready s)
     \<and> (ls_waits s > 0 \<or> ls_closed s \<longrightarrow> ls_ready s)"

lemma limiter_inv_step: "limiter_step s t \<Longrightarrow> limiter_inv s \<Longrightarrow> limiter_inv t"
  by (auto elim!: limiter_stepE simp: limiter_inv_def split: if_splits)

lemma limiter_inv_reachable: "limiter_step\<^sup>*\<^sup>* s t \<Longrightarrow> limiter_inv s \<Longrightarrow> limiter_inv t"
  by (induction rule: rtranclp_induct) (auto intro: limiter_inv_step)

lemma new_limiter_inv: "limiter_inv (new_rate_limiter rate)"
  by (simp add: new_rate_limiter_def limiter_inv_def)

lemma limiter_balance_step:
  "limiter_step s t \<Longrightarrow> ls_ready s \<Longrightarrow> ls_ready t \<and> ls_waits t + ls_tokens t + ls_ticks s \<le> ls_waits s + ls_tokens s + ls_ticks t"
  by (auto elim!: limiter_stepE split: if_splits)

lemma limiter_balance:
  assumes "limiter_step\<^sup>*\<^sup>* s t" "ls_ready s"
  shows "ls_ready t \<and> ls_waits t + ls_tokens t + ls_ticks s \<le> ls_waits s + ls_tokens s + ls_ticks t"
  using assms(1)
proof (induction rule: rtranclp_induct)
  case base
  then show ?case using assms(2) by simp
next
  case (step t u)
  then show ?case using limiter_balance_step [of t u] by linarith
qed

text \<open>
  C11. The limiter is a token bucket of size one: between any two moments of a run, the number of
  requests that pass is at most the number of ticks in between plus one.
\<close>

theorem rate_limiter_bound:
  assumes "limiter_step\<^sup>*\<^sup>* (new_rate_limiter rate) s" "ls_ready s" "limiter_step\<^sup>*\<^sup>* s t"
  shows "ls_waits t - ls_waits s \<le> ls_ticks t - ls_ticks s + 1"
proof -
  have "ls_tokens s \<le> 1"
    using limiter_inv_reachable [OF assms(1) new_limiter_inv] by (simp add: limiter_inv_def)
  then show ?thesis using limiter_balance [OF assms(3,2)] by linarith
qed

text \<open>A limiter that has just handed out its first token.\<close>

definition first_limiter :: limiter_state where
  "first_limiter = new_rate_limiter (Fin 1)"

lemma first_limiter_ready: "limiter_step\<^sup>*\<^sup>* first_limiter (first_limiter\<lparr>ls_tokens := 1, ls_ready := True\<rparr>)"
  using r_into_rtranclp [of limiter_step, OF limiter_step.initial_token [of first_limiter]]
  by (simp add: first_limiter_def new_rate_limiter_def)

lemma first_limiter_wait: "limiter_step\<^sup>*\<^sup>* (first_limiter\<lparr>ls_tokens := 1, ls_ready := True\<rparr>)
    (first_limiter\<lparr>ls_tokens := 0, ls_ready := True, ls_waits := 1\<rparr>)"
  using r_into_rtranclp [of limiter_step, OF limiter_step.wait [of "first_limiter\<lparr>ls_tokens := 1, ls_ready := True\<rparr>"]]
  by (simp add: first_limiter_def new_rate_limiter_def)

theorem rate_limiter_bound_witness:
  "ls_waits (first_limiter\<lparr>ls_tokens := 0, ls_ready := True, ls_waits := 1\<rparr>)
     - ls_waits (first_limiter\<lparr>ls_tokens := 1, ls_ready := True\<rparr>)
   \<le> ls_ticks (first_limiter\<lparr>ls_tokens := 0, ls_ready := True, ls_waits := 1\<rparr>)
     - ls_ticks (first_limiter\<lparr>ls_tokens := 1, ls_ready := True\<rparr>) + 1"
  by (rule rate_limiter_bound [OF first_limiter_ready [unfolded first_limiter_def] _ first_limiter_wait [unfolded first_limiter_def],
        folded first_limiter_def]) simp

lemma limiter_stuck_step: "limiter_step s t \<Longrightarrow> \<not> ls_ready s \<and> 0 < ls_tokens s \<Longrightarrow> \<not> ls_ready t \<and> 0 < ls_tokens t"
  by (auto elim!: limiter_stepE split: if_splits)

lemma limiter_stuck: "limiter_step\<^sup>*\<^sup>* s t \<Longrightarrow> \<not> ls_ready s \<Longrightarrow> 0 < ls_tokens s \<Longrightarrow> \<not> ls_ready t"
proof -
  assume "limiter_step\<^sup>*\<^sup>* s t" "\<not> ls_ready s" "0 < ls_tokens s"
  then have "\<not> ls_ready t \<and> 0 < ls_tokens t" by (induction rule: rtranclp_induct) (auto dest: limiter_stuck_step)
  then show ?thesis by simp
qed

text \<open>With an interval that is not positive, the goroutine can only panic, and never ticks.\<close>

definition doomed :: "limiter_state \<Rightarrow> bool" where
  "doomed s \<longleftrightarrow> ls_interval s \<le> 0 \<and> ls_ticks s = 0 \<and> (ls_refill s = RefillStarted \<or> ls_refill s = RefillPanicked)"

lemma doomed_step: "limiter_step s t \<Longrightarrow> doomed s \<Longrightarrow> doomed t"
  by (auto elim!: limiter_stepE simp: doomed_def)

lemma doomed_reachable: "limiter_step\<^sup>*\<^sup>* s t \<Longrightarrow> doomed s \<Longrightarrow> doomed t"
  by (induction rule: rtranclp_induct) (auto intro: doomed_step)

lemma limiter_interval_fast:
  assumes "2 * 10 ^ 9 \<le> q"
  shows "limiter_interval (Fin q) = 0"
proof -
  have q: "0 < q" "q \<noteq> 0" using assms by auto
  have "1000000000 / q \<le> 1 / 2" using assms q by (simp add: field_simps)
  moreover have "0 \<le> 1000000000 / q" using q by simp
  ultimately have "0 \<le> round53 (1000000000 / q)" "round53 (1000000000 / q) \<le> round53 (1 / 2)"
    "to_f64 (1000000000 / q) = Fin (round53 (1000000000 / q))"
    by (auto intro: round53_mono round53_nonneg to_f64_53)
  moreover have "round53 (1 / 2) = 1 / 2" by code_simp
  moreover have "of_int64 1000000000 = Fin 1000000000" by code_simp
  ultimately show ?thesis using q by (simp add: limiter_interval_def f64_simps trunc_rat_def floor_eq_iff)
qed

text \<open>
  C16. The refill goroutine starts before the constructor puts the initial token. If its first tick
  comes earlier, the channel is full, nobody can take from it yet, and the constructor never
  returns: from there on no run reaches a ready limiter. A rate that makes the interval zero or
  negative, as two requests per nanosecond or more do, makes the goroutine panic instead: it can
  do so at any moment of a run that it has not ended, never ticks, and lets at most one request pass.
\<close>
theorem rate_limiter_init_stuck:
  assumes "s0 = new_rate_limiter rate"
  shows "(0 < limiter_interval rate \<longrightarrow>
      (\<exists>s. limiter_step\<^sup>*\<^sup>* s0 s \<and> \<not> (\<exists>t. limiter_step\<^sup>*\<^sup>* s t \<and> ls_ready t)))
    \<and> (limiter_interval rate \<le> 0 \<longrightarrow> (\<forall>t. limiter_step\<^sup>*\<^sup>* s0 t \<longrightarrow> ls_ticks t = 0 \<and> ls_waits t \<le> 1
         \<and> (if ls_refill t = RefillPanicked then \<not> (\<exists>u. limiter_step t u)
            else limiter_step t (t\<lparr>ls_refill := RefillPanicked\<rparr>))))
    \<and> (\<forall>q \<ge> 2 * 10 ^ 9. rate = Fin q \<longrightarrow> limiter_interval rate = 0)"
proof (intro conjI impI allI)
  assume i: "0 < limiter_interval rate"
  let ?r = "s0\<lparr>ls_refill := Refilling\<rparr>"
  let ?s = "?r\<lparr>ls_tokens := (if ls_tokens ?r < 1 then ls_tokens ?r + 1 else ls_tokens ?r), ls_ticks := ls_ticks ?r + 1\<rparr>"
  have "limiter_step s0 ?r" using i by (intro limiter_step.new_ticker) (simp_all add: assms new_rate_limiter_def)
  moreover have "limiter_step ?r ?s" by (rule limiter_step.tick) simp
  moreover have "\<not> ls_ready t" if "limiter_step\<^sup>*\<^sup>* ?s t" for t
    by (rule limiter_stuck [OF that]) (simp_all add: assms new_rate_limiter_def)
  ultimately show "\<exists>s. limiter_step\<^sup>*\<^sup>* s0 s \<and> \<not> (\<exists>t. limiter_step\<^sup>*\<^sup>* s t \<and> ls_ready t)"
    by (meson converse_rtranclp_into_rtranclp r_into_rtranclp)
next
  fix t assume i: "limiter_interval rate \<le> 0" and run: "limiter_step\<^sup>*\<^sup>* s0 t"
  have d: "doomed t" using doomed_reachable [OF run] i by (simp add: assms doomed_def new_rate_limiter_def)
  then show "ls_ticks t = 0" by (simp add: doomed_def)
  then show "ls_waits t \<le> 1"
    using limiter_inv_reachable [OF run [unfolded assms] new_limiter_inv] by (auto simp: limiter_inv_def split: if_splits)
  show "if ls_refill t = RefillPanicked then \<not> (\<exists>u. limiter_step t u) else limiter_step t (t\<lparr>ls_refill := RefillPanicked\<rparr>)"
    using d limiter_step.ticker_panics [of t] by (auto simp: doomed_def elim: limiter_stepE)
next
  fix q assume "2 * 10 ^ 9 \<le> q" "rate = Fin q"
  then show "limiter_interval rate = 0" using limiter_interval_fast by simp
qed

theorem rate_limiter_init_stuck_witness:
  "(\<exists>s. limiter_step\<^sup>*\<^sup>* first_limiter s \<and> \<not> (\<exists>t. limiter_step\<^sup>*\<^sup>* s t \<and> ls_ready t))
    \<and> limiter_step (new_rate_limiter (Fin 2000000000)) (new_rate_limiter (Fin 2000000000)\<lparr>ls_refill := RefillPanicked\<rparr>)"
proof -
  have "0 < limiter_interval (Fin 1)" by code_simp
  moreover have "limiter_interval (Fin 2000000000) \<le> 0"
    using rate_limiter_init_stuck [OF refl, of "Fin 2000000000"] by simp
  ultimately show ?thesis
    using rate_limiter_init_stuck [OF refl, of "Fin 1"] rate_limiter_init_stuck [OF refl, of "Fin 2000000000"]
    by (auto simp: first_limiter_def new_rate_limiter_def)
qed

subsection \<open>The pool\<close>

fun held :: "worker \<Rightarrow> station list" where
  "held (Holding s) = [s]"
| "held _ = []"

fun work_left :: "worker \<Rightarrow> nat" where
  "work_left (Holding _) = 3"
| "work_left Waiting = 1"
| "work_left Ended = 0"

definition pool_stations :: "pool \<Rightarrow> station multiset" where
  "pool_stations p = mset (po_queue p) + mset (concat (map held (po_workers p))) + mset (map sd_station (po_results p))"

definition pool_size :: "pool \<Rightarrow> nat" where
  "pool_size p = 3 * length (po_queue p) + sum_list (map work_left (po_workers p))"

lemma station_job_station: "station_job env c opts s d = (Some r, d') \<Longrightarrow> sd_station r = s"
  by (auto simp: station_job_def Let_def split: prod.splits option.splits sum.splits if_splits)

lemma mset_held_update:
  assumes "i < length ws"
  shows "mset (concat (map held (ws[i := w]))) + mset (held (ws ! i)) = mset (concat (map held ws)) + mset (held w)"
  using assms
proof (induction ws arbitrary: i)
  case (Cons v ws)
  show ?case
  proof (cases i)
    case (Suc k)
    then show ?thesis using Cons.IH [of k] Cons.prems by (simp add: add.assoc)
  qed (simp add: ac_simps)
qed simp

lemma work_left_update:
  assumes "i < length ws"
  shows "sum_list (map work_left (ws[i := w])) + work_left (ws ! i) = sum_list (map work_left ws) + work_left w"
  using assms
proof (induction ws arbitrary: i)
  case (Cons v ws)
  show ?case
  proof (cases i)
    case (Suc k)
    then show ?thesis using Cons.IH [of k] Cons.prems by (simp add: add.assoc)
  qed simp
qed simp

text \<open>Every station is in the queue, in the hands of one worker or among the results; workers only end on an empty queue.\<close>

definition pool_inv :: "station list \<Rightarrow> nat \<Rightarrow> pool \<Rightarrow> bool" where
  "pool_inv stations n p \<longleftrightarrow> pool_stations p = mset stations \<and> length (po_workers p) = n
     \<and> (Ended \<in> set (po_workers p) \<longrightarrow> po_queue p = [])"

lemma pool_step_inv:
  assumes "pool_step env c opts p p'" "pool_inv stations n p"
  shows "pool_inv stations n p'"
  using assms(1)
proof (cases rule: pool_step.cases)
  case (take_station i s rest)
  then show ?thesis
    using assms(2) mset_held_update [of i "po_workers p" "Holding s"] set_update_subset_insert [of "po_workers p" i "Holding s"]
    by (auto simp: pool_inv_def pool_stations_def)
next
  case (finish_station i s r d')
  then have "mset (concat (map held (po_workers p))) = add_mset s (mset (concat (map held ((po_workers p)[i := Waiting]))))"
    using mset_held_update [of i "po_workers p" Waiting] by simp
  then show ?thesis
    using finish_station assms(2) set_update_subset_insert [of "po_workers p" i Waiting] station_job_station
    by (auto simp: pool_inv_def pool_stations_def)
next
  case (worker_ends i)
  then show ?thesis
    using assms(2) mset_held_update [of i "po_workers p" Ended]
    by (auto simp: pool_inv_def pool_stations_def)
qed

lemma pool_inv_reachable: "(pool_step env c opts)\<^sup>*\<^sup>* p p' \<Longrightarrow> pool_inv stations n p \<Longrightarrow> pool_inv stations n p'"
  by (induction rule: rtranclp_induct) (auto intro: pool_step_inv)

lemma new_pool_inv: "pool_inv stations (nat (worker_count opts stations)) (new_pool opts stations d)"
  by (simp add: pool_inv_def pool_stations_def new_pool_def)

lemma pool_step_size:
  assumes "pool_step env c opts p p'"
  shows "pool_size p' < pool_size p"
  using assms
proof (cases rule: pool_step.cases)
  case (take_station i s rest)
  then show ?thesis using work_left_update [of i "po_workers p" "Holding s"] by (simp add: pool_size_def)
next
  case (finish_station i s r d')
  then show ?thesis using work_left_update [of i "po_workers p" Waiting] by (simp add: pool_size_def)
next
  case (worker_ends i)
  then show ?thesis using work_left_update [of i "po_workers p" Ended] by (simp add: pool_size_def)
qed

lemma pool_steps_bound: "(pool_step env c opts ^^ k) p p' \<Longrightarrow> k + pool_size p' \<le> pool_size p"
proof (induction k arbitrary: p')
  case (Suc k)
  then obtain q where "(pool_step env c opts ^^ k) p q" "pool_step env c opts q p'" by auto
  then show ?case using Suc.IH [of q] pool_step_size [of env c opts q p'] by simp
qed simp

lemma pool_progress:
  assumes "\<And>s d. fst (station_job env c opts s d) \<noteq> None" "\<not> all_ended p"
  shows "\<exists>p'. pool_step env c opts p p'"
proof -
  obtain i where i: "i < length (po_workers p)" "po_workers p ! i \<noteq> Ended"
    using assms(2) by (auto simp: all_ended_def in_set_conv_nth)
  show ?thesis
  proof (cases "po_workers p ! i")
    case (Holding s)
    obtain r d' where "station_job env c opts s (po_disk p) = (Some r, d')"
      using assms(1) [of s "po_disk p"] by (cases "station_job env c opts s (po_disk p)") auto
    then show ?thesis using pool_step.finish_station [OF i(1) Holding] by blast
  next
    case Waiting
    then show ?thesis
      using pool_step.take_station [OF i(1) Waiting] pool_step.worker_ends [OF i(1) Waiting] by (cases "po_queue p") blast+
  qed (use i in simp)
qed

lemma pool_terminates:
  assumes "\<And>s d. fst (station_job env c opts s d) \<noteq> None"
  shows "\<exists>p'. (pool_step env c opts)\<^sup>*\<^sup>* p p' \<and> all_ended p'"
proof (induction "pool_size p" arbitrary: p rule: less_induct)
  case less
  show ?case
  proof (cases "all_ended p")
    case False
    then obtain q where q: "pool_step env c opts p q" using pool_progress [OF assms] by blast
    then obtain p' where "(pool_step env c opts)\<^sup>*\<^sup>* q p'" "all_ended p'" using less pool_step_size by blast
    then show ?thesis using q by (meson converse_rtranclp_into_rtranclp)
  qed blast
qed

interpretation collected: counter_pair collect_step dr_FilesCreated "\<lambda>t. int (length (dr_Errors t))" "\<lambda>r. sd_err r = None"
  by unfold_locales (auto simp: collect_step_def Let_def split: option.splits)

lemma collect_processed: "dr_StationsProcessed (foldl collect_step t rs) = dr_StationsProcessed t + int (length rs)"
  by (induction rs arbitrary: t) (auto simp: collect_step_def Let_def split: option.splits)

lemma new_pool_size: "pool_size (new_pool opts stations d) = 3 * length stations + nat (worker_count opts stations)"
  by (simp add: pool_size_def new_pool_def sum_list_replicate)

lemma ended_pool_results:
  assumes "pool_inv stations n p" "all_ended p" "0 < n"
  shows "mset (map sd_station (po_results p)) = mset stations"
proof -
  have "po_workers p ! 0 \<in> set (po_workers p)" using assms(1,3) by (intro nth_mem) (simp add: pool_inv_def)
  then have queue: "po_queue p = []" using assms(1,2) by (auto simp: pool_inv_def all_ended_def)
  have none: "concat (map held (po_workers p)) = []" using assms(2) by (auto simp: all_ended_def)
  have "pool_stations p = mset (map sd_station (po_results p))" unfolding pool_stations_def none queue by simp
  then show ?thesis using assms(1) by (simp add: pool_inv_def)
qed

lemma download_stations:
  assumes "download_returns env c opts stations d r d'" "0 < do_Parallel opts"
  shows "\<exists>rs. mset (map sd_station rs) = mset stations \<and> r = collect_results rs
    \<and> dr_StationsProcessed r = int (length stations)
    \<and> dr_FilesCreated r + int (length (dr_Errors r)) = int (length stations)"
proof -
  obtain p where p: "(pool_step env c opts)\<^sup>*\<^sup>* (new_pool opts stations d) p" "all_ended p"
    "r = collect_results (po_results p)"
    using assms(1) by (auto simp: download_returns_def)
  have inv: "pool_inv stations (nat (worker_count opts stations)) p" by (rule pool_inv_reachable [OF p(1) new_pool_inv])
  have ms: "mset (map sd_station (po_results p)) = mset stations"
  proof (cases "stations = []")
    case True
    then show ?thesis using inv by (simp add: pool_inv_def pool_stations_def)
  next
    case False
    then have "0 < nat (worker_count opts stations)" using assms(2) by (simp add: worker_count_def)
    then show ?thesis by (rule ended_pool_results [OF inv p(2)])
  qed
  then have "length (po_results p) = length stations" by (metis length_map size_mset)
  then show ?thesis
    using ms p(3) collected.cnt_sum collect_processed by (intro exI [of _ "po_results p"]) (simp add: collect_results_def)
qed

text \<open>
  C4. However the workers interleave, a download with at least one worker works on every station
  exactly once: its counters add up to the number of stations, with one file or one error for each.
\<close>

theorem download_complete:
  assumes "download_returns env c opts stations d r d'" "0 < do_Parallel opts"
  shows "\<exists>rs. mset (map sd_station rs) = mset stations \<and> r = collect_results rs
    \<and> dr_StationsProcessed r = int (length stations)
    \<and> dr_FilesCreated r + int (length (dr_Errors r)) = int (length stations)"
  using assms by (rule download_stations)

text \<open>If no body of the server breaks off, every job returns: the reader comes to the end of whatever text.\<close>

lemma station_job_returns:
  assumes "\<And>url code status body. ne_get env url = Inr (code, status, body) \<Longrightarrow> snd body = None"
  shows "fst (station_job env c opts s d) \<noteq> None"
proof -
  have cache: "load_from_cache env path d' \<noteq> None" for path d'
    using parse_csv_returns [of "(_, None)" "ne_csv_error env"] by (auto simp: load_from_cache_def split: option.split)
  have "fst (fetch_station env c s d') \<noteq> None" for d'
    using cache assms parse_csv_returns [of _ "ne_csv_error env"]
    by (fastforce simp: fetch_station_def Let_def split: option.split sum.split prod.split)
  then have "fst (download_station env c s d) \<noteq> None"
    using cache [of "data_cache c s" d] by (auto simp: download_station_def split: option.split sum.split)
  then show ?thesis by (auto simp: station_job_def Let_def split: prod.split option.split sum.split)
qed

text \<open>
  C15. A run of the workers is never longer than three steps per station and one per worker, and if no
  body the server sends breaks off in the middle, it can always go on to the end, whatever the texts are.
\<close>
theorem download_ends:
  assumes "\<And>url code status body. ne_get env url = Inr (code, status, body) \<Longrightarrow> snd body = None"
  shows "(\<exists>r d'. download_returns env c opts stations d r d')
    \<and> (\<forall>k p. (pool_step env c opts ^^ k) (new_pool opts stations d) p \<longrightarrow>
          k \<le> 3 * length stations + nat (worker_count opts stations) \<and> (\<exists>p'. (pool_step env c opts)\<^sup>*\<^sup>* p p' \<and> all_ended p'))"
  using pool_terminates [OF station_job_returns [OF assms]] pool_steps_bound [of _ env c opts "new_pool opts stations d"]
  unfolding download_returns_def new_pool_size by fastforce

text \<open>Without a positive number of workers nobody takes the stations: the download returns at once, with no error and nothing done.\<close>

theorem download_without_workers:
  assumes "do_Parallel opts \<le> 0"
  shows "download_returns env c opts stations d r d' \<longleftrightarrow> r = collect_results [] \<and> d' = d"
proof -
  have w: "po_workers (new_pool opts stations d) = []" using assms by (simp add: new_pool_def worker_count_def)
  have "\<not> pool_step env c opts (new_pool opts stations d) p" for p by (auto elim!: pool_stepE simp: w)
  then have "(pool_step env c opts)\<^sup>*\<^sup>* (new_pool opts stations d) p \<longleftrightarrow> p = new_pool opts stations d" for p
    by (metis converse_rtranclpE rtranclp.rtrancl_refl)
  then show ?thesis by (auto simp: download_returns_def all_ended_def w) (simp_all add: new_pool_def)
qed

definition closed_server :: noaa_env where
  "closed_server = \<lparr>ne_get = (\<lambda>_. Inl ''connection refused''), ne_request = (\<lambda>_. None), ne_open_error = (\<lambda>_. ''no such file''),
     ne_create = (\<lambda>_. None), ne_store = (\<lambda>_ s. s), ne_statfs = (\<lambda>_. Inr (1000000, 4096)), ne_csv_error = (\<lambda>_. ''parse error'')\<rparr>"

definition plain_options :: "int \<Rightarrow> downloader_options" where
  "plain_options n = \<lparr>do_OutputDir = ''out'', do_Format = ''csv'', do_Parallel = n, do_StartDate = zero_time,
     do_EndDate = zero_time, do_Limit = 10\<rparr>"

definition plain_client :: noaa_client where
  "plain_client = retrieve_client retrieve_flags_default ''cache''"

definition sample_station :: "string \<Rightarrow> station" where
  "sample_station sid = \<lparr>st_ID = sid, st_Name = ''NAME'', st_Country = take 2 sid, st_Latitude = Fin 1, st_Longitude = Fin 2,
     st_Elevation = Fin 3, st_State = [], st_StartDate = zero_time, st_EndDate = zero_time\<rparr>"

lemma closed_jobs: "fst (station_job closed_server plain_client opts s d) \<noteq> None"
  by (simp add: station_job_def download_station_def fetch_station_def plain_client_def retrieve_client_def new_noaa_client_def
      retrieve_flags_default_def closed_server_def Let_def split: prod.splits)

theorem download_complete_witness:
  "\<exists>r d'. download_returns closed_server plain_client (plain_options 2) [sample_station ''A'', sample_station ''B''] Map.empty r d'
     \<and> dr_StationsProcessed r = 2 \<and> dr_FilesCreated r + int (length (dr_Errors r)) = 2"
proof -
  obtain p where "(pool_step closed_server plain_client (plain_options 2))\<^sup>*\<^sup>*
      (new_pool (plain_options 2) [sample_station ''A'', sample_station ''B''] Map.empty) p" "all_ended p"
    using pool_terminates [OF closed_jobs] by blast
  then have *: "download_returns closed_server plain_client (plain_options 2) [sample_station ''A'', sample_station ''B''] Map.empty
      (collect_results (po_results p)) (po_disk p)" unfolding download_returns_def by blast
  show ?thesis using * download_complete [OF *] by (auto simp: plain_options_def)
qed

theorem download_ends_witness:
  "\<exists>r d'. download_returns closed_server plain_client (plain_options 2) [sample_station ''A''] Map.empty r d'"
  using download_ends [of closed_server plain_client "plain_options 2" "[sample_station ''A'']" Map.empty] by (simp add: closed_server_def)

theorem download_without_workers_witness:
  "download_returns closed_server plain_client (plain_options 0) [sample_station ''A''] Map.empty (collect_results []) Map.empty"
  by (subst download_without_workers) (simp_all add: plain_options_def)

subsection \<open>The plan of a retrieval\<close>

lemma default_rate: "rf_rateLimit fl = Fin 0 \<Longrightarrow> nc_interval (retrieve_client fl dir) = 1000000000"
proof -
  assume "rf_rateLimit fl = Fin 0"
  moreover have "limiter_interval (Fin 1) = 1000000000" by code_simp
  ultimately show ?thesis by (simp add: retrieve_client_def new_noaa_client_def Let_def f64_defs)
qed

lemma limit_stations_cases:
  "limit_stations n sts = (if n < 0 then Inl SliceOutOfRange else Inr (take (nat n) sts))"
  by (auto simp: limit_stations_def)

text \<open>
  A retrieval that gets as far as the download works on the first stations that its one search
  mode found, at most as many as the limit says (the limit counts stations), with a limiter whose ticker is
  valid; a negative limit never gets there. A rate of zero is no exception: the limiter
  then lets one request per second pass.
\<close>

theorem retrieve_plan_sound:
  assumes "plan_retrieve env tr home mkdir fl d = Inr (StartDownload c opts chosen, d')"
  shows "0 < nc_interval c \<and> 0 \<le> rf_limit fl \<and> do_Parallel opts = rf_parallel fl \<and> mkdir (rf_output fl) = None
    \<and> (\<exists>stations. find_stations env tr c fl d = Some (Inr stations, d') \<and> stations \<noteq> [] \<and> chosen = take (nat (rf_limit fl)) stations)
    \<and> (rf_rateLimit fl = Fin 0 \<longrightarrow> nc_interval c = 1000000000)"
proof -
  obtain start stop dir where flags: "date_flag (rf_start fl) = Inr start" "date_flag (rf_end fl) = Inr stop"
    "cache_dir_flag home fl = Inr dir" "mkdir (rf_output fl) = None"
    using assms unfolding plan_retrieve_def
    by (auto simp: bind_sum_Inr_iff split: sum.splits option.splits)
  have c: "c = retrieve_client fl dir" "0 < nc_interval c"
    using assms flags by (auto simp: plan_retrieve_def Let_def bind_simps split: option.splits sum.splits prod.splits if_splits)
  obtain stations where st: "find_stations env tr c fl d = Some (Inr stations, d')" "stations \<noteq> []"
    "limit_stations (rf_limit fl) stations = Inr chosen" "do_Parallel opts = rf_parallel fl"
    using assms flags c by (auto simp: plan_retrieve_def Let_def bind_simps split: option.splits sum.splits prod.splits if_splits)
  have "rf_rateLimit fl = Fin 0 \<Longrightarrow> nc_interval c = 1000000000" using default_rate [of fl dir] c(1) by simp
  then show ?thesis using c(2) st flags(4) by (auto simp: limit_stations_cases split: if_splits)
qed

text \<open>The error lines at the end of a retrieval are the errors of its download.\<close>

definition is_error :: "log_entry \<Rightarrow> bool" where
  "is_error l \<longleftrightarrow> (case l of LogError _ _ \<Rightarrow> True | _ \<Rightarrow> False)"

lemma retrieve_report_errors:
  "length (filter is_error (retrieve_report elapsed dir r)) = length (dr_Errors r)"
proof -
  have "filter is_error (map (\<lambda>e. LogError ''  download error'' [(''error'', LString e)]) es) =
      map (\<lambda>e. LogError ''  download error'' [(''error'', LString e)]) es" for es
    by (induction es) (simp_all add: is_error_def)
  then show ?thesis by (simp add: retrieve_report_def is_error_def)
qed

text \<open>
  The status of a retrieval tells nothing about its download: it is 1 exactly if the command fails
  before, and 0 even if no station could be downloaded. What failed is in the log, one line for
  every chosen station without a file.
\<close>
theorem retrieve_status:
  assumes "retrieve_ends env tr home mkdir elapsed fl d status entries d'" "0 < rf_parallel fl"
  shows "(status = 0 \<or> status = 1) \<and> (status = 1 \<longleftrightarrow> (\<exists>e d1. plan_retrieve env tr home mkdir fl d = Inr (RetrieveError e, d1)))
    \<and> (\<forall>c opts chosen d1. plan_retrieve env tr home mkdir fl d = Inr (StartDownload c opts chosen, d1) \<longrightarrow>
         (\<exists>r. entries = retrieve_report elapsed (rf_output fl) r
            \<and> dr_FilesCreated r + int (length (filter is_error entries)) = int (length chosen)))"
proof (intro conjI allI impI)
  show "status = 0 \<or> status = 1" "status = 1 \<longleftrightarrow> (\<exists>e d1. plan_retrieve env tr home mkdir fl d = Inr (RetrieveError e, d1))"
    using assms(1) by (auto simp: retrieve_ends_def split: sum.splits prod.splits retrieve_plan.splits)
  fix c opts chosen d1
  assume p: "plan_retrieve env tr home mkdir fl d = Inr (StartDownload c opts chosen, d1)"
  then obtain r where r: "download_returns env c opts chosen d1 r d'" "entries = retrieve_report elapsed (rf_output fl) r"
    using assms(1) by (auto simp: retrieve_ends_def)
  have "do_Parallel opts = rf_parallel fl" using retrieve_plan_sound [OF p] by simp
  then have "dr_FilesCreated r + int (length (dr_Errors r)) = int (length chosen)"
    using download_stations [OF r(1)] assms(2) by auto
  then show "\<exists>r. entries = retrieve_report elapsed (rf_output fl) r
      \<and> dr_FilesCreated r + int (length (filter is_error entries)) = int (length chosen)"
    using r(2) retrieve_report_errors by auto
qed

definition one_station_flags :: retrieve_flags where
  "one_station_flags = retrieve_flags_default\<lparr>rf_station := ''GME00111445'', rf_rateLimit := Fin 0\<rparr>"

definition no_trig :: trig where
  "no_trig = \<lparr>tr_sin = id, tr_cos = id, tr_atan2 = (\<lambda>_ x. x), tr_sqrt = id, tr_pi = Fin 3\<rparr>"

lemma one_station_plan: "\<exists>c opts. plan_retrieve one_station_server no_trig (Inr ''/home/u'') (\<lambda>_. None) one_station_flags Map.empty
    = Inr (StartDownload c opts [padded_station], Map.empty) \<and> nc_interval c = 1000000000"
proof -
  let ?c = "retrieve_client one_station_flags (path_join [''/home/u'', ''.cache'', ''ws-test'', ''noaa''])"
  have i: "nc_interval ?c = 1000000000" using default_rate [of one_station_flags] by (simp add: one_station_flags_def)
  have "load_stations one_station_server ?c Map.empty = (Inr [padded_station], Map.empty)"
    using one_station_parses
    by (simp add: load_stations_def one_station_server_def retrieve_client_def new_noaa_client_def one_station_flags_def
        retrieve_flags_default_def Let_def)
  then have "find_stations one_station_server no_trig ?c one_station_flags Map.empty = Some (Inr [padded_station], Map.empty)"
    by (simp add: find_stations_def get_station_def one_station_flags_def padded_station_def)
  then show ?thesis
    using i by (simp add: plan_retrieve_def date_flag_def cache_dir_flag_def limit_stations_def Let_def one_station_flags_def
      retrieve_flags_default_def)
qed

theorem retrieve_plan_sound_witness:
  "\<exists>c opts. plan_retrieve one_station_server no_trig (Inr ''/home/u'') (\<lambda>_. None) one_station_flags Map.empty
      = Inr (StartDownload c opts [padded_station], Map.empty) \<and> 0 < nc_interval c \<and> do_Parallel opts = 4"
proof -
  obtain c opts where p: "plan_retrieve one_station_server no_trig (Inr ''/home/u'') (\<lambda>_. None) one_station_flags Map.empty
      = Inr (StartDownload c opts [padded_station], Map.empty)" using one_station_plan by blast
  show ?thesis using p retrieve_plan_sound [OF p] by (auto simp: one_station_flags_def retrieve_flags_default_def)
qed

end
