(* ===== verification/Commands.thy ===== *)
theory Commands
  imports TestRunner Report Benchmark MockServer
begin

text \<open>
  Three commands over the components: \<open>test\<close> (\<^verbatim>\<open>pkg/cmd/test.go\<close>) runs the suites and writes the
  reports, \<open>benchmark\<close> (\<^verbatim>\<open>pkg/cmd/benchmark.go\<close>) chooses a benchmark, \<open>mock\<close> (\<^verbatim>\<open>pkg/cmd/mock.go\<close>)
  starts mock servers and stops them again. Their log lines are left out.
\<close>

subsection \<open>The test command\<close>

record test_flags =
  tf_service :: "string list"
  tf_suite :: "string list"
  tf_testName :: string
  tf_parallel :: int
  tf_watch :: bool
  tf_useMocks :: "string list"

definition test_flags_default :: test_flags where
  "test_flags_default = \<lparr>tf_service = [], tf_suite = [''all''], tf_testName = [], tf_parallel = 4, tf_watch = False, tf_useMocks = []\<rparr>"

text \<open>The runner's configuration: the test directory and the name of a single test are not passed on.\<close>

definition test_config :: "bool \<Rightarrow> test_flags \<Rightarrow> runner_config" where
  "test_config verbose fl = \<lparr>rc_Suites = tf_suite fl, rc_Services = tf_service fl, rc_Parallel = tf_parallel fl,
     rc_Verbose = verbose, rc_UseMocks = tf_useMocks fl, rc_TestDir = []\<rparr>"

definition result_status :: "suite_result \<Rightarrow> test_status" where
  "result_status r = (if re_Passed r then StatusPass else StatusFail)"

text \<open>The reporter is made with the runner; the clock of the n-th added test is \<open>now n\<close>.\<close>

definition report_results :: "(nat \<Rightarrow> go_time) \<Rightarrow> suite_result list \<Rightarrow> test_suite" where
  "report_results now results = foldl (\<lambda>rep r. add_test (now (length (ts_Tests rep))) (re_Suite r) ''test'' (re_Duration r) (result_status r) [] rep)
     (new_reporter (now 0) ''Weather Station Tests'') results"

text \<open>The exports that the output format asks for, in order; their errors are logged only.\<close>

definition write_reports :: "os_answers \<Rightarrow> string \<Rightarrow> test_suite \<Rightarrow> file_result list" where
  "write_reports os fmt rep =
     (if fmt = ''junit'' \<or> fmt = ''all'' then [export_junit os [] ''test-results.xml'' rep] else [])
     @ (if fmt = ''html'' \<or> fmt = ''all'' then [export_html os ''test-results.html'' rep] else [])
     @ (if fmt = ''json'' \<or> fmt = ''all'' then [export_json os ''test-results.json'' rep] else [])"

text \<open>The exit status, the summary line and the exports.\<close>

definition run_test_command ::
    "(nat \<Rightarrow> suite_env) \<Rightarrow> os_answers \<Rightarrow> (nat \<Rightarrow> go_time) \<Rightarrow> bool \<Rightarrow> string \<Rightarrow> test_flags \<Rightarrow> int \<times> string \<times> file_result list" where
  "run_test_command envs os now verbose fmt fl =
     (let results = run_suites envs (test_config verbose fl);
          allPassed = list_all re_Passed results
      in (if allPassed then 0 else 1, summary results,
          if fmt \<noteq> ''console'' then write_reports os fmt (report_results now results) else []))"

subsection \<open>The benchmark command\<close>

record benchmark_flags =
  bf_duration :: int
  bf_load :: int
  bf_target :: string

definition benchmark_target :: "benchmark_flags \<Rightarrow> service_target" where
  "benchmark_target fl = \<lparr>st_Name = bf_target fl, st_Endpoint = ''http://localhost'', st_Port = 8080, st_Operation = bf_target fl\<rparr>"

definition benchmark_config :: "benchmark_flags \<Rightarrow> bench_config" where
  "benchmark_config fl = \<lparr>bc_Duration = bf_duration fl, bc_Concurrency = bf_load fl, bc_WarmUp = 10 * 1000000000, bc_Target = bf_target fl,
     bc_Operation = [], bc_PayloadSize = 0\<rparr>"

text \<open>What the command can print: the result of the benchmark its target selects.\<close>

definition run_benchmark_command :: "benchmark_flags \<Rightarrow> bench_result \<Rightarrow> bool" where
  "run_benchmark_command fl res \<longleftrightarrow>
     (\<exists>r'. let runner = Benchmark.new_runner; cfg = benchmark_config fl
      in if bf_target fl \<in> {''s1'', ''ingestion'', ''ingest''} then run_ingest_benchmark cfg runner r' res
         else if bf_target fl \<in> {''s3'', ''s3_api'', ''query''} then run_query_benchmark cfg runner r' res
         else run_load_benchmark (benchmark_target fl) cfg runner r' res)"

subsection \<open>The mock command\<close>

record mock_flags =
  mf_services :: "string list"
  mf_ports :: "int list"
  mf_persist :: bool

definition mock_port :: "int list \<Rightarrow> nat \<Rightarrow> int" where
  "mock_port ports i = (if i < length ports then ports ! i else 9000 + int i)"

definition mock_server :: "int list \<Rightarrow> nat \<Rightarrow> server" where
  "mock_server ports i =
     foldl (\<lambda>s t. case default_handlers t of None \<Rightarrow> s | Some h \<Rightarrow> register_handler s t h)
       (new_server \<lparr>cf_Address = ''localhost'', cf_Port = mock_port ports i, cf_Protocol = ''tcp'', cf_MaxClients = 0, cf_Timeout = 0\<rparr>)
       [0x01, 0x02, 0x05]"

text \<open>
  The start loop, given what listening answers for each service: the error of the first server
  that does not start, and the servers started before it.
\<close>

fun start_mocks :: "int list \<Rightarrow> (nat \<Rightarrow> string option) \<Rightarrow> nat \<Rightarrow> string list \<Rightarrow> server list \<Rightarrow> string option \<times> server list" where
  "start_mocks ports listen i [] servers = (None, servers)"
| "start_mocks ports listen i (service # rest) servers =
     (case server_start (listen i) (mock_server ports i) of
        (Some e, _) \<Rightarrow> (Some e, servers)
      | (None, s) \<Rightarrow> start_mocks ports listen (i + 1) rest (servers @ [s]))"

definition stop_mocks :: "server list \<Rightarrow> panic + server list" where
  "stop_mocks servers = map_sum_list server_stop servers"

text \<open>
  The command: while it runs, the servers go on by themselves (\<open>meanwhile\<close> says to what). After a failed start and, with \<open>--persist\<close>,
  after the signal it stops them; otherwise it returns as they are.
\<close>

definition run_mock :: "mock_flags \<Rightarrow> (nat \<Rightarrow> string option) \<Rightarrow> (server \<Rightarrow> server) \<Rightarrow> panic + string option \<times> server list" where
  "run_mock fl listen meanwhile =
     (case start_mocks (mf_ports fl) listen 0 (mf_services fl) [] of
        (err, servers) \<Rightarrow>
          (if err \<noteq> None \<or> mf_persist fl
           then bind_sum (stop_mocks (map meanwhile servers)) (\<lambda>stopped. Inr (err, stopped))
           else Inr (err, map meanwhile servers)))"

subsection \<open>Lemmas\<close>

lemma report_results_tests:
  "map tc_Status (ts_Tests (foldl (\<lambda>rep r. add_test (now (length (ts_Tests rep))) (re_Suite r) ''test'' (re_Duration r) (result_status r) [] rep) rep rs))
     = map tc_Status (ts_Tests rep) @ map result_status rs"
  by (induction rs arbitrary: rep) (simp_all add: add_test_def)

lemma report_statuses: "map tc_Status (ts_Tests (report_results now rs)) = map result_status rs"
  by (simp add: report_results_def report_results_tests new_reporter_def)

lemma filter_status: "length (filter (\<lambda>t. P (tc_Status t)) ts) = length (filter P (map tc_Status ts))"
  by (simp add: filter_map o_def)

lemma report_counts:
  "tt_Total (get_stats (report_results now rs)) = int (length rs)"
  "tt_Passed (get_stats (report_results now rs)) = int (length (filter re_Passed rs))"
  "tt_Failed (get_stats (report_results now rs)) = int (length (filter (\<lambda>r. \<not> re_Passed r) rs))"
proof -
  have "length (ts_Tests (report_results now rs)) = length rs" using arg_cong [OF report_statuses, of length now rs] by simp
  then show "tt_Total (get_stats (report_results now rs)) = int (length rs)" by (simp add: get_stats_counts)
  show "tt_Passed (get_stats (report_results now rs)) = int (length (filter re_Passed rs))"
    by (simp add: get_stats_counts filter_status [where P = "\<lambda>s. s = StatusPass"] report_statuses filter_map o_def result_status_def)
  show "tt_Failed (get_stats (report_results now rs)) = int (length (filter (\<lambda>r. \<not> re_Passed r) rs))"
    by (simp add: get_stats_counts filter_status [where P = "\<lambda>s. s = StatusFail"] report_statuses filter_map o_def result_status_def if_distrib)
qed

text \<open>
  The test command ends with status 0 exactly if its report counts no failed suite, and the
  report has one test per suite that ran: the suite passed, or it failed. The console format
  writes no file, the others at most one each.
\<close>

theorem test_command_report:
  "let results = run_suites envs (test_config verbose fl);
       stats = get_stats (report_results now results);
       out = run_test_command envs os now verbose fmt fl
   in (fst out = 0 \<longleftrightarrow> tt_Failed stats = 0) \<and> tt_Total stats = int (length results)
      \<and> tt_Passed stats + tt_Failed stats = tt_Total stats
      \<and> length (snd (snd out)) = (if fmt = ''all'' then 3 else of_bool (fmt \<in> {''junit'', ''html'', ''json''}))"
proof -
  let ?rs = "run_suites envs (test_config verbose fl)"
  have "list_all re_Passed ?rs \<longleftrightarrow> filter (\<lambda>r. \<not> re_Passed r) ?rs = []" by (simp add: list_all_iff filter_empty_conv)
  moreover have "length (filter re_Passed ?rs) + length (filter (\<lambda>r. \<not> re_Passed r) ?rs) = length ?rs"
    by (rule sum_length_filter_compl)
  ultimately show ?thesis
    by (auto simp: run_test_command_def Let_def report_counts write_reports_def)
qed

text \<open>
  With its default flags, in a directory without any tests, the command passes: the suites without a
  directory pass, and the five tests of the performance suite are constants.
\<close>

theorem test_command_nothing_run:
  assumes "\<And>n dir. se_missing (envs n) dir"
  shows "fst (run_test_command envs os now verbose fmt test_flags_default) = 0
    \<and> su_tests (summary_totals (run_suites envs (test_config verbose test_flags_default))) = 5
    \<and> su_passed (summary_totals (run_suites envs (test_config verbose test_flags_default))) = 5"
proof -
  have "run_suites envs (test_config verbose test_flags_default) =
    [(fresh_result ''unit'')\<lparr>re_Duration := se_elapsed (envs 0)\<rparr>, (fresh_result ''integration'')\<lparr>re_Duration := se_elapsed (envs 1)\<rparr>,
     run_performance_tests\<lparr>re_Duration := se_elapsed (envs 2)\<rparr>]"
    by (simp add: run_suites_def test_config_def test_flags_default_def run_one_def run_suite_def run_unit_tests_def
        run_integration_tests_def run_go_tests_def assms numeral_2_eq_2)
  then show ?thesis
    by (simp add: run_test_command_def Let_def summary_totals_def summary_step_def run_performance_tests_def fresh_result_def)
qed

definition empty_dir :: suite_env where
  "empty_dir = \<lparr>se_missing = (\<lambda>_. True), se_output = (\<lambda>_. []), se_error = (\<lambda>_. None), se_elapsed = 7\<rparr>"

theorem test_command_nothing_run_witness:
  "fst (run_test_command (\<lambda>_. empty_dir) \<lparr>os_mkdir = (\<lambda>_. None), os_write = (\<lambda>_. None)\<rparr> (\<lambda>_. epoch) False ''all''
     test_flags_default) = 0"
  using test_command_nothing_run [of "\<lambda>_. empty_dir"] by (simp add: empty_dir_def)

text \<open>What the reporter of the command holds of the results.\<close>

lemma report_durations:
  "map tc_Duration (ts_Tests (foldl (\<lambda>rep r. add_test (now (length (ts_Tests rep))) (re_Suite r) ''test'' (re_Duration r) (result_status r) [] rep) rep rs))
     = map tc_Duration (ts_Tests rep) @ map re_Duration rs"
  "ts_Duration (foldl (\<lambda>rep r. add_test (now (length (ts_Tests rep))) (re_Suite r) ''test'' (re_Duration r) (result_status r) [] rep) rep rs)
     = ts_Duration rep"
  by (induction rs arbitrary: rep) (simp_all add: add_test_def)

lemma report_int64:
  assumes "\<And>r. r \<in> set rs \<Longrightarrow> \<bar>re_Duration r\<bar> \<le> 2 ^ 63"
  shows "int64_durations (report_results now rs)"
proof -
  have "map tc_Duration (ts_Tests (report_results now rs)) = map re_Duration rs" "ts_Duration (report_results now rs) = 0"
    by (simp_all add: report_results_def report_durations new_reporter_def)
  moreover have "\<bar>d\<bar> \<le> 2 ^ 63" if "d \<in> set (map re_Duration rs)" for d using that assms by auto
  ultimately show ?thesis by (metis abs_zero image_eqI int64_durations_def list.set_map zero_le_numeral zero_le_power)
qed

lemma run_suites_duration: "r \<in> set (run_suites envs cfg) \<Longrightarrow> \<exists>n. re_Duration r = se_elapsed (envs n)"
  by (auto simp: run_suites_closed run_suite_ok)

text \<open>
  C27. The test command from the suites to the files. With the format for all reports, on a system that
  lets it write, it writes the three files; the XML file reads back with one test case per suite
  that ran and the number of the suites that failed, and the status of the process is 0
  exactly if that number in the file is 0; the JSON file reads back as the same report.
\<close>
theorem test_command_files:
  fixes envs verbose fl
  defines "results \<equiv> run_suites envs (test_config verbose fl)"
  assumes "willing os" "\<And>n. \<bar>se_elapsed (envs n)\<bar> \<le> 2 ^ 63" "length results \<le> 2 ^ 53"
  shows "\<exists>x h j as bs props' cases v.
      run_test_command envs os now verbose ''all'' fl =
        (if map_of bs ''failures'' = Some ''0'' then 0 else 1, summary results,
         [(None, Some (''test-results.xml'', x)), (None, Some (''test-results.html'', h)), (None, Some (''test-results.json'', j))])
      \<and> parse_xml x = Some (Elem ''testsuites'' as [Elem ''testsuite'' bs (Elem ''properties'' [] props' # cases)])
      \<and> map_of bs ''tests'' = Some (fmt_d (int (length results))) \<and> length cases = length results
      \<and> map_of bs ''failures'' = Some (fmt_d (int (length (filter (\<lambda>r. \<not> re_Passed r) results))))
      \<and> parse_json j = Some v \<and> report_read (report_results now results) v"
proof -
  let ?rep = "report_results now results"
  have len: "length (ts_Tests ?rep) = length results" using arg_cong [OF report_statuses, of length now results] by simp
  obtain x as bs props' cases where x: "export_junit os [] ''test-results.xml'' ?rep = export_report os ''junit'' ''test-results.xml'' x"
    "parse_xml x = Some (Elem ''testsuites'' as [Elem ''testsuite'' bs (Elem ''properties'' [] props' # cases)])"
    "map_of bs ''tests'' = Some (fmt_d (int (length results)))" "length cases = length results"
    "map_of bs ''failures'' = Some (fmt_d (int (length (filter (\<lambda>r. \<not> re_Passed r) results))))"
    using junit_text [of os "[]" "''test-results.xml''" ?rep] unfolding len report_counts xml_clean_fmt_d
    by (metis len list_all2_lengthD)
  have "int64_durations ?rep"
    using assms(3) run_suites_duration by (intro report_int64) (metis results_def)
  then obtain j v where j: "export_json os ''test-results.json'' ?rep = export_report os ''json'' ''test-results.json'' j"
    "parse_json j = Some v" "report_read ?rep v"
    using json_text [of ?rep os "''test-results.json''"] len assms(4) by auto
  have zero: "fmt_d (int n) = ''0'' \<longleftrightarrow> n = 0" for n using fmt_d_inject [of "int n" 0] by (simp add: fmt_d_def nat_str.simps [of 0] digit_0)
  have "list_all re_Passed results \<longleftrightarrow> map_of bs ''failures'' = Some ''0''"
    by (simp add: x(5) zero list_all_iff filter_empty_conv)
  then have "run_test_command envs os now verbose ''all'' fl =
        (if map_of bs ''failures'' = Some ''0'' then 0 else 1, summary results,
         [(None, Some (''test-results.xml'', x)), export_html os ''test-results.html'' ?rep, (None, Some (''test-results.json'', j))])"
    unfolding run_test_command_def results_def [symmetric] Let_def
    by (simp add: write_reports_def x(1) j(1) export_report_willing [OF assms(2)])
  moreover obtain h where "export_html os ''test-results.html'' ?rep = (None, Some (''test-results.html'', h))"
    by (simp add: export_html_def export_report_willing [OF assms(2)])
  ultimately show ?thesis using x(2-5) j(2,3) by (intro exI conjI) auto
qed

definition failing_dir :: suite_env where
  "failing_dir = \<lparr>se_missing = (\<lambda>_. False), se_output = (\<lambda>_. ''--- FAIL: TestX (0.00s)''), se_error = (\<lambda>_. Some ''exit status 1''), se_elapsed = 7\<rparr>"

theorem test_command_files_witness:
  "fst (run_test_command (\<lambda>_. failing_dir) \<lparr>os_mkdir = (\<lambda>_. None), os_write = (\<lambda>_. None)\<rparr> (\<lambda>_. epoch) False ''all''
     test_flags_default) = 1"
proof -
  have "map re_Passed (run_suites (\<lambda>_. failing_dir) (test_config False test_flags_default)) = [False, False, True]"
    by (simp add: run_suites_closed test_config_def test_flags_default_def expand_suite_def run_suite_ok(2) run_suite_def run_unit_tests_def
        run_integration_tests_def run_go_tests_def run_performance_tests_def failing_dir_def Let_def)
  then have l: "length (filter (\<lambda>r. \<not> re_Passed r) (run_suites (\<lambda>_. failing_dir) (test_config False test_flags_default))) = 2"
    "length (run_suites (\<lambda>_. failing_dir) (test_config False test_flags_default)) \<le> 2 ^ 53"
    by (auto simp: map_eq_Cons_conv)
  have "fmt_d 2 \<noteq> ''0''" by code_simp
  then show ?thesis
    using test_command_files [where envs = "\<lambda>_. failing_dir" and os = "\<lparr>os_mkdir = (\<lambda>_. None), os_write = (\<lambda>_. None)\<rparr>"
        and verbose = False and fl = test_flags_default and now = "\<lambda>_. epoch", OF _ _ l(2)] l(1)
    by (auto simp: willing_def failing_dir_def)
qed

subsection \<open>The mock command stops what it starts\<close>

definition live :: "server \<Rightarrow> bool" where
  "live s \<longleftrightarrow> sv_Started s \<and> \<not> sv_StopClosed s"

definition down :: "server \<Rightarrow> bool" where
  "down s \<longleftrightarrow> \<not> sv_Started s \<and> \<not> sv_Listening s \<and> sv_Sessions s = Map.empty"

lemma mock_server_fresh: "\<not> sv_Started (mock_server ports i) \<and> \<not> sv_StopClosed (mock_server ports i)"
  by (simp add: mock_server_def default_handlers_def register_handler_def)

lemma start_mocks_live:
  assumes "list_all live servers"
  shows "list_all live (snd (start_mocks ports listen i services servers))
    \<and> (fst (start_mocks ports listen i services servers) = None
       \<longrightarrow> length (snd (start_mocks ports listen i services servers)) = length servers + length services)"
  using assms
proof (induction ports listen i services servers rule: start_mocks.induct)
  case (2 ports listen i service rest servers)
  show ?case
  proof (cases "listen i")
    case None
    then show ?thesis using 2 mock_server_fresh [of ports i] by (simp add: server_start_def live_def)
  next
    case (Some e)
    then show ?thesis using 2 mock_server_fresh [of ports i] by (simp add: server_start_def)
  qed
qed simp

lemma stop_live: "live s \<Longrightarrow> \<exists>s'. server_stop s = Inr s' \<and> down s'"
  by (simp add: server_stop_def live_def down_def)

lemma stop_mocks_down: "list_all live servers \<Longrightarrow> \<exists>stopped. stop_mocks servers = Inr stopped \<and> list_all down stopped \<and> length stopped = length servers"
proof (induction servers)
  case (Cons s ss)
  then show ?case using stop_live [of s] by (fastforce simp: stop_mocks_def)
qed (simp add: stop_mocks_def)

text \<open>
  The mock command never panics. If a server cannot be started, or after the signal, every server
  that was started has been stopped and has lost its sessions and its listener; without \<open>--persist\<close> all are started
  and the command returns at once, leaving them as they are.
\<close>

theorem mock_command_stops:
  assumes "\<And>s. live s \<Longrightarrow> live (meanwhile s)"
  shows "\<exists>err servers. run_mock fl listen meanwhile = Inr (err, servers)
    \<and> (err = None \<longrightarrow> length servers = length (mf_services fl))
    \<and> (if err \<noteq> None \<or> mf_persist fl then list_all down servers else list_all live servers)"
proof -
  obtain err servers where st: "start_mocks (mf_ports fl) listen 0 (mf_services fl) [] = (err, servers)" by fastforce
  then have l: "list_all live servers" "err = None \<Longrightarrow> length servers = length (mf_services fl)"
    using start_mocks_live [of "[]" "mf_ports fl" listen 0 "mf_services fl"] by simp_all
  then have m: "list_all live (map meanwhile servers)" using assms by (auto simp: list_all_iff)
  show ?thesis
  proof (cases "err \<noteq> None \<or> mf_persist fl")
    case True
    obtain stopped where "stop_mocks (map meanwhile servers) = Inr stopped" "list_all down stopped" "length stopped = length servers"
      using stop_mocks_down [OF m] by auto
    then show ?thesis using True l by (intro exI [of _ err] exI [of _ stopped]) (auto simp: run_mock_def st)
  next
    case False
    then show ?thesis using l m by (intro exI [of _ err] exI [of _ "map meanwhile servers"]) (simp add: run_mock_def st)
  qed
qed

theorem mock_command_stops_witness:
  "\<exists>servers. run_mock \<lparr>mf_services = [''s3'', ''s4''], mf_ports = [9001], mf_persist = False\<rparr> (\<lambda>i. if i = 1 then Some ''in use'' else None) id
     = Inr (Some ''failed to listen: in use'', servers) \<and> list_all down servers"
proof -
  let ?fl = "\<lparr>mf_services = [''s3'', ''s4''], mf_ports = [9001], mf_persist = False\<rparr>" and ?l = "\<lambda>i. if i = (1::nat) then Some ''in use'' else None"
  have err: "fst (start_mocks (mf_ports ?fl) ?l 0 (mf_services ?fl) []) = Some ''failed to listen: in use''"
    using mock_server_fresh [of "[9001]" 0] mock_server_fresh [of "[9001]" "Suc 0"] by (simp add: server_start_def)
  obtain e servers where r: "run_mock ?fl ?l id = Inr (e, servers)" "if e \<noteq> None \<or> mf_persist ?fl then list_all down servers else list_all live servers"
    using mock_command_stops [of id ?fl ?l] by auto
  have "e = Some ''failed to listen: in use''"
    using r(1) err by (auto simp: run_mock_def bind_sum_Inr_iff split: prod.splits if_splits)
  then show ?thesis using r by simp
qed

end
