(* ===== verification/Config.thy ===== *)
theory Config
  imports GoTime
begin

text \<open>
  The types of the configuration, \<^verbatim>\<open>pkg/config/types.go\<close>, and its duration fields: a wrapper around
  \<open>time.Duration\<close> with a text form for YAML. \<open>MarshalText\<close> prints (\<open>fmt_duration\<close> of \<open>GoTime\<close>),
  \<open>UnmarshalText\<close> parses with \<open>time.ParseDuration\<close>, which is here as package \<open>time\<close> has it: signed
  sequences of numbers with units, unsigned 64-bit sums, fractions through floats.
  The theorem is that the text form loses nothing, for every duration there is.
\<close>

subsection \<open>time.ParseDuration\<close>

text \<open>\<open>time.quote\<close>: the bytes that do not print are escaped one by one.\<close>

definition quote_byte :: "char \<Rightarrow> string" where
  "quote_byte c = (let n = of_char c :: nat in
     if n \<ge> 128 \<or> n < 32 then [CHR 0x5C, CHR ''x'', hex_digit (n div 16), hex_digit (n mod 16)]
     else if n = 0x22 \<or> n = 0x5C then [CHR 0x5C, c] else [c])"

definition time_quote :: "string \<Rightarrow> string" where
  "time_quote s = dq @ concat (map quote_byte s) @ dq"

text \<open>Both spellings of the micro sign, two bytes each.\<close>

definition unit_map :: "string \<Rightarrow> nat option" where
  "unit_map u =
     (if u = ''ns'' then Some 1
      else if u = ''us'' \<or> u = [CHR 0xC2, CHR 0xB5] @ ''s'' \<or> u = [CHR 0xCE, CHR 0xBC] @ ''s'' then Some 1000
      else if u = ''ms'' then Some 1000000
      else if u = ''s'' then Some 1000000000
      else if u = ''m'' then Some 60000000000
      else if u = ''h'' then Some 3600000000000
      else None)"

fun leading_int :: "nat \<Rightarrow> string \<Rightarrow> (nat \<times> string) option" where
  "leading_int x [] = Some (x, [])"
| "leading_int x (c # cs) =
     (if \<not> is_digit c then Some (x, c # cs)
      else if 2 ^ 63 div 10 < x then None
      else let y = x * 10 + digit_val c in if 2 ^ 63 < y then None else leading_int y cs)"

text \<open>Digits beyond the range are read and dropped; \<open>ov\<close> is the flag of the loop that says so.\<close>

fun leading_fraction :: "nat \<Rightarrow> f64 \<Rightarrow> bool \<Rightarrow> string \<Rightarrow> nat \<times> f64 \<times> string" where
  "leading_fraction x sc ov [] = (x, sc, [])"
| "leading_fraction x sc ov (c # cs) =
     (if \<not> is_digit c then (x, sc, c # cs)
      else if ov \<or> (2 ^ 63 - 1) div 10 < x then leading_fraction x sc True cs
      else let y = x * 10 + digit_val c in
        if 2 ^ 63 < y then leading_fraction x sc True cs else leading_fraction y (sc * Fin 10) False cs)"

text \<open>One number with its unit: the nanoseconds and the rest of the text, or an error.\<close>

definition parse_elem :: "string \<Rightarrow> string \<Rightarrow> string + nat \<times> string" where
  "parse_elem orig s =
     (let invalid = Inl (''time: invalid duration '' @ time_quote orig) in
      if s = [] \<or> \<not> (hd s = CHR ''.'' \<or> is_digit (hd s)) then invalid
      else (case leading_int 0 s of
        None \<Rightarrow> invalid
      | Some (v, s1) \<Rightarrow>
          let dot = (s1 \<noteq> [] \<and> hd s1 = CHR ''.'');
              (f, sc, s2) = (if dot then leading_fraction 0 (Fin 1) False (tl s1) else (0, Fin 1, s1));
              pre = (length s1 \<noteq> length s);
              post = (dot \<and> length s2 \<noteq> length (tl s1));
              u = takeWhile (\<lambda>c. c \<noteq> CHR ''.'' \<and> \<not> is_digit c) s2
          in if \<not> pre \<and> \<not> post then invalid
             else if u = [] then Inl (''time: missing unit in duration '' @ time_quote orig)
             else (case unit_map u of
               None \<Rightarrow> Inl (''time: unknown unit '' @ time_quote u @ '' in duration '' @ time_quote orig)
             | Some un \<Rightarrow>
                 let w = v * un + (if 0 < f then nat (int_of_f64 (of_int64 (int f) * (of_int64 (int un) / sc))) else 0)
                 in if 2 ^ 63 div un < v \<or> 0 < f \<and> 2 ^ 63 < w then invalid else Inr (w, drop (length u) s2))))"

lemma leading_int_length: "leading_int x s = Some (v, r) \<Longrightarrow> length r \<le> length s"
  by (induction x s rule: leading_int.induct) (auto simp: Let_def split: if_splits)

lemma leading_fraction_length: "leading_fraction x sc ov s = (f, sc', r) \<Longrightarrow> length r \<le> length s"
  by (induction x sc ov s rule: leading_fraction.induct) (auto simp: Let_def split: if_splits)

text \<open>Every element takes at least the byte of its unit.\<close>

lemma parse_elem_progress:
  assumes "parse_elem orig s = Inr (v, r)"
  shows "length r < length s"
proof -
  obtain n s1 where li: "leading_int 0 s = Some (n, s1)"
    using assms by (auto simp: parse_elem_def Let_def split: if_splits option.splits)
  obtain f sc s2 where s2: "(if s1 \<noteq> [] \<and> hd s1 = CHR ''.'' then leading_fraction 0 (Fin 1) False (tl s1) else (0, Fin 1, s1)) = (f, sc, s2)"
    by (metis prod_cases3)
  have "length s2 \<le> length s1" using s2 leading_fraction_length [of 0 "Fin 1" False "tl s1" f sc s2] by (auto split: if_splits)
  moreover have "length s1 \<le> length s" using leading_int_length [OF li] .
  moreover have "r = drop (length (takeWhile (\<lambda>c. c \<noteq> CHR ''.'' \<and> \<not> is_digit c) s2)) s2"
      "takeWhile (\<lambda>c. c \<noteq> CHR ''.'' \<and> \<not> is_digit c) s2 \<noteq> []"
    using assms li s2 by (auto simp: parse_elem_def Let_def split: if_splits option.splits)
  ultimately show ?thesis by (cases s2) auto
qed

text \<open>The sum of the elements, in a \<open>uint64\<close>.\<close>

function parse_elems :: "string \<Rightarrow> nat \<Rightarrow> string \<Rightarrow> string + nat" where
  "parse_elems orig d s =
     (if s = [] then Inr d
      else (case parse_elem orig s of
        Inl e \<Rightarrow> Inl e
      | Inr (v, r) \<Rightarrow>
          let d' = (d + v) mod 2 ^ 64
          in if 2 ^ 63 < d' then Inl (''time: invalid duration '' @ time_quote orig)
             else parse_elems orig d' r))"
  by pat_completeness auto

termination by (relation "measure (\<lambda>(_, _, s). length s)") (auto dest: parse_elem_progress)

declare parse_elems.simps [simp del]

definition ParseDuration :: "string \<Rightarrow> string + int" where
  "ParseDuration orig =
     (let signed = (orig \<noteq> [] \<and> (hd orig = CHR ''-'' \<or> hd orig = CHR ''+''));
          neg = (signed \<and> hd orig = CHR ''-''); s = (if signed then tl orig else orig);
          invalid = Inl (''time: invalid duration '' @ time_quote orig)
      in if s = ''0'' then Inr 0
         else if s = [] then invalid
         else case parse_elems orig 0 s of
           Inl e \<Rightarrow> Inl e
         | Inr d \<Rightarrow> if neg then Inr (- int d) else if 2 ^ 63 - 1 < d then invalid else Inr (int d))"

subsection \<open>The wrapper\<close>

record duration =
  du_Duration :: int

text \<open>On an error \<open>ParseDuration\<close> returns zero, which is stored.\<close>

definition UnmarshalText :: "string \<Rightarrow> duration \<Rightarrow> duration \<times> string option" where
  "UnmarshalText raw d = (case ParseDuration raw of
     Inl e \<Rightarrow> (d\<lparr>du_Duration := 0\<rparr>, Some e) | Inr n \<Rightarrow> (d\<lparr>du_Duration := n\<rparr>, None))"

definition MarshalText :: "duration \<Rightarrow> string \<times> string option" where
  "MarshalText d = (fmt_duration (du_Duration d), None)"

subsection \<open>The configuration types\<close>

text \<open>
  The configuration the types describe. Every field is unexported, so no decoder of another package
  can fill one; the types before the types that hold them, and a map of Go as a map.
\<close>

record outputconfig =
  oc_format :: string
  oc_verbose :: bool
  oc_colors :: bool
  oc_timestamp :: bool

record loggingconfig =
  lc_level :: string
  lc_file :: string

record globalconfig =
  gc_timeout :: duration
  gc_retries :: int
  gc_parallel :: int
  gc_output :: outputconfig
  gc_logging :: loggingconfig

record healthcheckconfig =
  hc_typ :: string
  hc_endpoint :: string
  hc_interval :: duration
  hc_retries :: int

record portconfig =
  pc_query :: int
  pc_metrics :: int
  pc_beacon :: int
  pc_health :: int
  pc_replication :: int

record resourceconfig =
  rc_memorymax :: string
  rc_cpumax :: f64

record serviceconfig =
  sc_name :: string
  sc_binary :: string
  sc_config :: string
  sc_timeout :: duration
  sc_dependson :: "string list"
  sc_healthcheck :: healthcheckconfig
  sc_ports :: portconfig
  sc_resources :: resourceconfig
  sc_networkmode :: string

record databaseconfig =
  dc_driver :: string
  dc_freshpertest :: bool
  dc_tempdir :: string

record testcontainersconfig =
  tc_enabled :: bool
  tc_provider :: string
  tc_database :: databaseconfig

record criterionconfig =
  crc_points :: int
  crc_check :: string
  crc_test :: string
  crc_target :: int
  crc_unit :: string

record categoryconfig =
  cgc_weight :: int
  cgc_criteria :: "string \<rightharpoonup> criterionconfig"

record thresholdconfig =
  thc_distinction :: int
  thc_merit :: int
  thc_pass :: int

record gradingconfig =
  grc_mustpass :: "string list"
  grc_categories :: "string \<rightharpoonup> categoryconfig"
  grc_thresholds :: thresholdconfig

record stepconfig =
  stc_action :: string
  stc_target :: string
  stc_duration :: duration
  stc_query :: string
  stc_expected :: string
  stc_params :: "string \<rightharpoonup> string"

record scenarioconfig =
  snc_description :: string
  snc_duration :: duration
  snc_steps :: "stepconfig list"

record chaosconfig =
  chc_scenarios :: "string \<rightharpoonup> scenarioconfig"

record protocolconfig =
  prc_versions :: "string list"
  prc_fuzziterations :: int
  prc_propertytests :: int

record githubconfig =
  ghc_enabled :: bool
  ghc_postprcomments :: bool
  ghc_commenttemplate :: string

record gitlabconfig =
  glc_enabled :: bool
  glc_postmrcomments :: bool
  glc_commenttemplate :: string

record ciconfig =
  cic_github :: githubconfig
  cic_gitlab :: gitlabconfig

record noaaconfig =
  nc_baseurl :: string
  nc_cachedir :: string
  nc_cacheenabled :: bool
  nc_timeout :: duration
  nc_parallel :: int

subsection \<open>Reading back what was printed\<close>

definition no_digit :: "string \<Rightarrow> bool" where
  "no_digit r \<longleftrightarrow> r = [] \<or> \<not> is_digit (hd r)"

lemma leading_int_digits:
  "list_all is_digit ds \<Longrightarrow> no_digit r \<Longrightarrow> x * 10 ^ length ds + digits_val ds \<le> 2 ^ 63 \<Longrightarrow>
   leading_int x (ds @ r) = Some (x * 10 ^ length ds + digits_val ds, r)"
proof (induction ds arbitrary: x)
  case Nil
  then show ?case by (cases r) (auto simp: no_digit_def)
next
  case (Cons c ds)
  have y: "(x * 10 + digit_val c) * 10 ^ length ds + digits_val ds \<le> 2 ^ 63"
    using Cons.prems(3) by (simp add: digits_val_Cons algebra_simps)
  have "x * 10 + digit_val c \<le> (x * 10 + digit_val c) * 10 ^ length ds" by simp
  also have "\<dots> \<le> 2 ^ 63" using y by linarith
  finally have "x * 10 + digit_val c \<le> 2 ^ 63" .
  moreover from this have "\<not> 2 ^ 63 div 10 < x" by simp
  ultimately have "leading_int x ((c # ds) @ r) = leading_int (x * 10 + digit_val c) (ds @ r)"
    using Cons.prems(1) by (simp add: Let_def)
  moreover have "x * 10 ^ length (c # ds) + digits_val (c # ds) = (x * 10 + digit_val c) * 10 ^ length ds + digits_val ds"
    by (simp add: digits_val_Cons algebra_simps)
  ultimately show ?case using Cons.IH [OF _ Cons.prems(2) y] Cons.prems(1) by simp
qed

lemma leading_fraction_digits:
  "list_all is_digit ds \<Longrightarrow> no_digit r \<Longrightarrow> i + length ds \<le> 9 \<Longrightarrow> x < 10 ^ i \<Longrightarrow>
   leading_fraction x (Fin (10 ^ i)) False (ds @ r)
     = (x * 10 ^ length ds + digits_val ds, Fin (10 ^ (i + length ds)), r)"
proof (induction ds arbitrary: x i)
  case Nil
  then show ?case by (cases r) (auto simp: no_digit_def)
next
  case (Cons c ds)
  have i: "i \<le> 8" using Cons.prems(3) by simp
  have "digit_val c < 10" using Cons.prems(1) by (simp add: digit_val_def is_digit_def) linarith
  then have y: "x * 10 + digit_val c < 10 ^ Suc i" using Cons.prems(4) by simp
  have "(10::nat) ^ Suc i \<le> 10 ^ 9" using i by (intro power_increasing) auto
  then have small: "x * 10 + digit_val c < 10 ^ 9" using y by linarith
  have "(10::int) ^ Suc i \<le> 10 ^ 9" using i by (intro power_increasing) auto
  then have "to_f64 (rat_of_int (10 ^ Suc i)) = Fin (of_int (10 ^ Suc i))"
    using of_int64_exact [of "10 ^ Suc i"] unfolding of_int64_def by simp
  then have "Fin (10 ^ i) * Fin 10 = Fin (10 ^ Suc i)" by (simp add: f64_simps mult.commute)
  then have "leading_fraction x (Fin (10 ^ i)) False ((c # ds) @ r)
      = leading_fraction (x * 10 + digit_val c) (Fin (10 ^ Suc i)) False (ds @ r)"
    using Cons.prems(1) small by (simp add: Let_def)
  moreover have "x * 10 ^ length (c # ds) + digits_val (c # ds) = (x * 10 + digit_val c) * 10 ^ length ds + digits_val ds"
    by (simp add: digits_val_Cons algebra_simps)
  ultimately show ?case using Cons.IH [of "Suc i" "x * 10 + digit_val c"] Cons.prems y by simp
qed

lemma fraction_digits:
  assumes "0 < p"
  obtains ds where "fraction p w = (if ds = [] then [] else CHR ''.'' # ds)" "list_all is_digit ds" "length ds \<le> p"
    "digits_val ds * 10 ^ (p - length ds) = w mod 10 ^ p"
proof -
  define pad where "pad = pad_left p CHR ''0'' (nat_str (w mod 10 ^ p))"
  define ds where "ds = rev (dropWhile (\<lambda>c. c = CHR ''0'') (rev pad))"
  define zs where "zs = takeWhile (\<lambda>c. c = CHR ''0'') (rev pad)"
  have "rev pad = zs @ rev ds" by (simp add: zs_def ds_def)
  then have pad: "pad = ds @ rev zs" by (metis rev_append rev_rev_ident)
  have "length (nat_str (w mod 10 ^ p)) \<le> p" using assms by (intro length_nat_str_le) auto
  then have len: "length pad = p" by (simp add: pad_def)
  have "zs = replicate (length zs) CHR ''0''" by (rule replicate_eqI) (auto simp: zs_def dest: set_takeWhileD)
  then have zs: "rev zs = replicate (length zs) CHR ''0''" by (metis rev_replicate)
  have val: "digits_val pad = w mod 10 ^ p" by (simp add: pad_def pad_left_def digits_val_zeros)
  have "digits_val (replicate n CHR ''0'') = 0" for n using digits_val_zeros [of n "[]"] by simp
  then have "digits_val pad = digits_val ds * 10 ^ length zs" unfolding pad zs by (simp add: digits_val_append)
  moreover have "length zs = p - length ds" using len unfolding pad by simp
  moreover have "list_all is_digit pad"
    using nat_str_digits [of "w mod 10 ^ p"] by (auto simp: pad_def pad_left_def list_all_iff is_digit_def)
  then have "list_all is_digit ds" unfolding pad by simp
  moreover have "length ds \<le> p" using len unfolding pad by simp
  moreover have "fraction p w = (if ds = [] then [] else CHR ''.'' # ds)"
    by (simp add: fraction_def Let_def ds_def pad_def)
  ultimately show ?thesis using val that by metis
qed

lemma fraction_0 [simp]: "fraction 0 w = []"
  by (simp add: fraction_def pad_left_def nat_str.simps [of 0] digit_chars)

lemma to_f64_nat: "n \<le> 10 ^ 9 \<Longrightarrow> to_f64 (of_nat n) = Fin (of_nat n)"
  using of_int64_exact [of "int n"] by (simp add: of_int64_def)

text \<open>The float arithmetic of a printed fraction is exact: unit and scale are powers of ten.\<close>

lemma fraction_float:
  assumes "p \<le> 9" "k \<le> p" "f * 10 ^ (p - k) < 10 ^ p"
  shows "nat (int_of_f64 (of_int64 (int f) * (of_int64 (int (10 ^ p)) / Fin (10 ^ k)))) = f * 10 ^ (p - k)"
proof -
  have le: "(10::nat) ^ i \<le> 10 ^ 9" if "i \<le> p" for i using that assms(1) by (intro power_increasing) auto
  have "f \<le> f * 10 ^ (p - k)" by simp
  then have fb: "f * 10 ^ (p - k) \<le> 10 ^ 9" "f \<le> 10 ^ 9" using assms(3) le [of p] by linarith+
  have unit: "of_int64 (int (10 ^ p)) = Fin (of_nat (10 ^ p))" "of_int64 (int f) = Fin (of_nat f)"
    using to_f64_nat [OF le [of p]] to_f64_nat [OF fb(2)] by (simp_all add: of_int64_def)
  have "(10::rat) ^ p = 10 ^ (p - k) * 10 ^ k" using assms(2) by (simp flip: power_add)
  then have "(10::rat) ^ p / 10 ^ k = of_nat (10 ^ (p - k))" by simp
  then have "Fin (of_nat (10 ^ p)) / Fin (10 ^ k) = Fin (of_nat (10 ^ (p - k)))"
    using to_f64_nat [OF le [of "p - k"]] by (simp add: f64_simps)
  then have "of_int64 (int f) * (of_int64 (int (10 ^ p)) / Fin (10 ^ k)) = Fin (of_nat (f * 10 ^ (p - k)))"
    using to_f64_nat [OF fb(1)] unfolding unit by (simp add: f64_simps)
  moreover have "nat (int_of_f64 (Fin (of_nat n))) = n" if "n \<le> 10 ^ 9" for n
    using trunc_rat_of_int [of "int n"] that by (simp add: Let_def)
  ultimately show ?thesis by (simp only: fb(1))
qed

lemma unit_map_pos: "unit_map u = Some un \<Longrightarrow> 0 < un"
  by (auto simp: unit_map_def split: if_splits)

text \<open>A printed number with its unit reads back.\<close>

lemma parse_elem_number:
  assumes u: "unit_map u = Some un" "list_all (\<lambda>c. c \<noteq> CHR ''.'' \<and> \<not> is_digit c) u" "u \<noteq> []"
    and rest: "rest = [] \<or> is_digit (hd rest)"
    and p: "0 < p \<Longrightarrow> un = 10 ^ p" "p \<le> 9"
    and range: "v * un + w mod 10 ^ p \<le> 2 ^ 63"
  shows "parse_elem orig (nat_str v @ fraction p w @ u @ rest) = Inr (v * un + w mod 10 ^ p, rest)"
proof -
  obtain ds where ds: "fraction p w = (if ds = [] then [] else CHR ''.'' # ds)" "list_all is_digit ds" "length ds \<le> p"
      "digits_val ds * 10 ^ (p - length ds) = w mod 10 ^ p"
    by (cases "p = 0") (auto elim: fraction_digits [of p w])
  let ?tail = "fraction p w @ u @ rest"
  have hdu: "hd (u @ rest) = hd u" "hd u \<noteq> CHR ''.''" "\<not> is_digit (hd u)" using u(2,3) by (cases u; simp)+
  have pos: "0 < un" using unit_map_pos [OF u(1)] .
  have vun: "v * un \<le> 2 ^ 63" using range by linarith
  have "v \<le> v * un" using pos by simp
  then have "v \<le> 2 ^ 63" using vun by linarith
  moreover have "no_digit ?tail" using ds(1) hdu u(3) by (simp add: no_digit_def)
  ultimately have li: "leading_int 0 (nat_str v @ ?tail) = Some (v, ?tail)"
    using leading_int_digits [of "nat_str v" ?tail 0] nat_str_digits [of v] by (simp add: list_all_iff)
  have frac: "(if ?tail \<noteq> [] \<and> hd ?tail = CHR ''.'' then leading_fraction 0 (Fin 1) False (tl ?tail) else (0, Fin 1, ?tail))
      = (digits_val ds, Fin (10 ^ length ds), u @ rest)"
  proof (cases "ds = []")
    case True
    then show ?thesis using ds(1) hdu by simp
  next
    case False
    have "no_digit (u @ rest)" using hdu u(3) by (simp add: no_digit_def)
    then show ?thesis
      using leading_fraction_digits [of ds "u @ rest" 0 0] ds(1,2,3) p(2) False by simp
  qed
  have tw: "takeWhile (\<lambda>c. c \<noteq> CHR ''.'' \<and> \<not> is_digit c) (u @ rest) = u"
    using u(2) rest by (cases rest) (auto simp: takeWhile_append list_all_iff)
  have "v \<le> 2 ^ 63 div un" using vun pos by (simp add: less_eq_div_iff_mult_less_eq)
  then have vlim: "\<not> 2 ^ 63 div un < v" by simp
  have add: "(if 0 < digits_val ds then nat (int_of_f64 (of_int64 (int (digits_val ds)) * (of_int64 (int un) / Fin (10 ^ length ds)))) else 0)
      = w mod 10 ^ p"
  proof (cases "0 < digits_val ds")
    case True
    then have "0 < p" using ds(3) by (cases ds) auto
    then show ?thesis using True fraction_float [OF p(2) ds(3)] ds(4) p(1) by simp
  next
    case False
    then show ?thesis using ds(4) by simp
  qed
  have head: "hd (nat_str v @ ?tail) = hd (nat_str v)" "is_digit (hd (nat_str v))" "nat_str v @ ?tail \<noteq> []"
    using nat_str_digits [of v] hd_in_set [OF nat_str_nonempty] by simp_all
  show ?thesis
    using range vlim u(3) unfolding parse_elem_def head li option.case prod.case Let_def frac
    by (simp only: tw u(1) option.case add) (simp add: head(2))
qed

lemma parse_elems_step:
  assumes "parse_elem orig s = Inr (v, r)" "d + v \<le> 2 ^ 63"
  shows "parse_elems orig d s = parse_elems orig (d + v) r"
proof -
  have "s \<noteq> []" using parse_elem_progress [OF assms(1)] by auto
  moreover have "(d + v) mod 2 ^ 64 = d + v" using assms(2) by (intro mod_less) simp
  ultimately show ?thesis using assms by (simp add: parse_elems.simps [of orig d s] Let_def)
qed

lemma parse_elems_Nil [simp]: "parse_elems orig d [] = Inr d"
  by (simp add: parse_elems.simps)

lemma parse_elems_number:
  assumes "unit_map u = Some un" "list_all (\<lambda>c. c \<noteq> CHR ''.'' \<and> \<not> is_digit c) u" "u \<noteq> []"
    and "rest = [] \<or> is_digit (hd rest)" "0 < p \<Longrightarrow> un = 10 ^ p" "p \<le> 9" "d + (v * un + w mod 10 ^ p) \<le> 2 ^ 63"
  shows "parse_elems orig d (nat_str v @ fraction p w @ u @ rest) = parse_elems orig (d + (v * un + w mod 10 ^ p)) rest"
  using assms by (intro parse_elems_step parse_elem_number) auto

lemmas parse_whole = parse_elems_number [where p = 0, simplified]
lemmas parse_last = parse_elems_number [where rest = "[]", simplified]

lemma unit_letters:
  "list_all (\<lambda>c. c \<noteq> CHR ''.'' \<and> \<not> is_digit c) ''ns''" "list_all (\<lambda>c. c \<noteq> CHR ''.'' \<and> \<not> is_digit c) ''ms''"
  "list_all (\<lambda>c. c \<noteq> CHR ''.'' \<and> \<not> is_digit c) ([CHR 0xC2, CHR 0xB5] @ ''s'')"
  "list_all (\<lambda>c. c \<noteq> CHR ''.'' \<and> \<not> is_digit c) ''s''" "list_all (\<lambda>c. c \<noteq> CHR ''.'' \<and> \<not> is_digit c) ''m''"
  "list_all (\<lambda>c. c \<noteq> CHR ''.'' \<and> \<not> is_digit c) ''h''"
  by code_simp+

lemma unit_values:
  "unit_map ''ns'' = Some 1" "unit_map ''ms'' = Some 1000000" "unit_map ([CHR 0xC2, CHR 0xB5] @ ''s'') = Some 1000"
  "unit_map ''s'' = Some 1000000000" "unit_map ''m'' = Some 60000000000" "unit_map ''h'' = Some 3600000000000"
  by (simp_all add: unit_map_def)

text \<open>The text of a positive number of nanoseconds, without the sign.\<close>

definition magnitude_text :: "nat \<Rightarrow> string" where
  "magnitude_text u =
     (if u < 1000 then nat_str u @ ''ns''
      else if u < 1000000 then nat_str (u div 1000) @ fraction 3 u @ [CHR 0xC2, CHR 0xB5] @ ''s''
      else if u < 1000000000 then nat_str (u div 1000000) @ fraction 6 u @ ''ms''
      else let s = u div 1000000000; m = s div 60; h = m div 60
           in (if h > 0 then nat_str h @ ''h'' else []) @ (if m > 0 then nat_str (m mod 60) @ ''m'' else [])
              @ nat_str (s mod 60) @ fraction 9 u @ ''s'')"

lemma fmt_duration_text:
  "d \<noteq> 0 \<Longrightarrow> fmt_duration d = (if d < 0 then ''-'' else []) @ magnitude_text (nat \<bar>d\<bar>)"
  by (simp add: fmt_duration_def magnitude_text_def Let_def)

lemma hd_nat_str: "is_digit (hd (nat_str n))" "is_digit (hd (nat_str n @ t))"
  using nat_str_digits [of n] hd_in_set [OF nat_str_nonempty] by simp_all

lemma magnitude_text_hd: "is_digit (hd (magnitude_text u))" "magnitude_text u \<noteq> []"
  by (simp_all add: magnitude_text_def Let_def hd_nat_str del: hd_append2)

lemma parse_clock:
  assumes "u \<le> 2 ^ 63" "u = s * 1000000000 + w" "w < 1000000000" "s = m * 60 + sec" "m = h * 60 + mi"
  shows "parse_elems orig 0 ((if h > 0 then nat_str h @ ''h'' else []) @ (if m > 0 then nat_str mi @ ''m'' else [])
     @ nat_str sec @ fraction 9 u @ ''s'') = Inr u"
proof -
  let ?sec = "nat_str sec @ fraction 9 u @ ''s''"
  let ?min = "(if m > 0 then nat_str mi @ ''m'' else []) @ ?sec"
  have w: "u mod 10 ^ 9 = w" using assms(2,3) by simp
  have last: "parse_elems orig d ?sec = Inr (d + (sec * 1000000000 + w))"
    if "d + (sec * 1000000000 + w) \<le> 2 ^ 63" for d
    using parse_last [OF unit_values(4) unit_letters(4), where p = 9 and w = u and v = sec and d = d] that w by simp
  have mid: "parse_elems orig d ?min = Inr (d + (mi * 60000000000 + (sec * 1000000000 + w)))"
    if "d + (mi * 60000000000 + (sec * 1000000000 + w)) \<le> 2 ^ 63" for d
  proof (cases "m > 0")
    case True
    have "parse_elems orig d (nat_str mi @ ''m'' @ ?sec) = parse_elems orig (d + mi * 60000000000) ?sec"
      using that by (intro parse_whole [OF unit_values(5) unit_letters(5)]) (simp_all add: hd_nat_str)
    then show ?thesis using True that last [of "d + mi * 60000000000"] by simp
  next
    case False
    then show ?thesis using last [of d] that assms(5) by simp
  qed
  have u: "u = h * 3600000000000 + (mi * 60000000000 + (sec * 1000000000 + w))" using assms(2,4,5) by simp
  show ?thesis
  proof (cases "h > 0")
    case True
    have "is_digit (hd ?min)" "?min \<noteq> []" by (simp_all add: hd_nat_str del: hd_append2)
    then have "parse_elems orig 0 (nat_str h @ ''h'' @ ?min) = parse_elems orig (0 + h * 3600000000000) ?min"
      using assms(1) u by (intro parse_whole [OF unit_values(6) unit_letters(6)]) simp_all
    then show ?thesis using True mid [of "h * 3600000000000"] assms(1) u by simp
  next
    case False
    then show ?thesis using mid [of 0] assms(1) u by simp
  qed
qed

lemma parse_magnitude:
  assumes "0 < u" "u \<le> 2 ^ 63"
  shows "parse_elems orig 0 (magnitude_text u) = Inr u"
proof -
  consider "u < 1000" | "1000 \<le> u" "u < 1000000" | "1000000 \<le> u" "u < 1000000000" | "1000000000 \<le> u" by linarith
  then show ?thesis
  proof cases
    case 1
    then show ?thesis
      using parse_last [OF unit_values(1) unit_letters(1), where p = 0 and v = u and d = 0 and orig = orig and w = 0]
      by (simp add: magnitude_text_def)
  next
    case 2
    then show ?thesis
      using parse_last [OF unit_values(3) unit_letters(3), where p = 3 and v = "u div 1000" and w = u and d = 0 and orig = orig]
      by (simp add: magnitude_text_def)
  next
    case 3
    then show ?thesis
      using parse_last [OF unit_values(2) unit_letters(2), where p = 6 and v = "u div 1000000" and w = u and d = 0 and orig = orig]
      by (simp add: magnitude_text_def)
  next
    case 4
    define s m where "s = u div 1000000000" and "m = s div 60"
    have "magnitude_text u = (if m div 60 > 0 then nat_str (m div 60) @ ''h'' else [])
        @ (if m > 0 then nat_str (m mod 60) @ ''m'' else []) @ nat_str (s mod 60) @ fraction 9 u @ ''s''"
      unfolding magnitude_text_def s_def m_def Let_def using 4 by simp
    moreover have "parse_elems orig 0 ((if m div 60 > 0 then nat_str (m div 60) @ ''h'' else [])
        @ (if m > 0 then nat_str (m mod 60) @ ''m'' else []) @ nat_str (s mod 60) @ fraction 9 u @ ''s'') = Inr u"
      by (rule parse_clock [OF assms(2), where s = s and w = "u mod 1000000000"]) (simp_all add: s_def m_def)
    ultimately show ?thesis by (simp only:)
  qed
qed

lemma bare_zero: "parse_elems [] 0 ''0'' \<noteq> Inr u"
proof -
  have "is_digit CHR ''0''" by (simp add: is_digit_def)
  then have "parse_elem [] ''0'' = Inl (''time: missing unit in duration '' @ time_quote [])"
    by (simp add: parse_elem_def digit_val_def)
  then show ?thesis by (simp add: parse_elems.simps [of "[]" 0 "''0''"])
qed

text \<open>
  C24. The text form of a duration loses nothing: every 64-bit number of nanoseconds, the smallest
  one included, is marshalled to a text that unmarshals to it without an error, whatever the
  wrapper held before.
\<close>
theorem duration_text_roundtrip:
  assumes "- (2 ^ 63) \<le> du_Duration d" "du_Duration d < 2 ^ 63"
  shows "snd (MarshalText d) = None \<and> UnmarshalText (fst (MarshalText d)) old = (old\<lparr>du_Duration := du_Duration d\<rparr>, None)"
proof -
  let ?n = "du_Duration d"
  have "ParseDuration (fmt_duration ?n) = Inr ?n"
  proof (cases "?n = 0")
    case True
    have "parse_elems ''0s'' 0 ''0s'' = Inr 0"
      using parse_last [OF unit_values(4) unit_letters(4), where p = 0 and v = 0 and d = 0 and orig = "''0s''" and w = 0]
      by (simp add: nat_str.simps [of 0] digit_chars)
    then show ?thesis using True by (simp add: ParseDuration_def fmt_duration_def)
  next
    case False
    let ?u = "nat \<bar>?n\<bar>"
    have u: "0 < ?u" "?u \<le> 2 ^ 63" using False assms by auto
    have "hd (magnitude_text ?u) \<noteq> CHR ''-''" "hd (magnitude_text ?u) \<noteq> CHR ''+''"
      using magnitude_text_hd(1) [of ?u] by auto
    moreover have "magnitude_text ?u \<noteq> ''0''"
      using parse_magnitude [OF u, of "[]"] bare_zero [of ?u] by auto
    ultimately show ?thesis
      using parse_magnitude [OF u, of "fmt_duration ?n"] False assms magnitude_text_hd(2) [of ?u]
      by (auto simp: ParseDuration_def fmt_duration_text Let_def)
  qed
  then show ?thesis by (simp add: MarshalText_def UnmarshalText_def)
qed

theorem duration_text_roundtrip_witness:
  "UnmarshalText (fst (MarshalText \<lparr>du_Duration = - 90061000000001\<rparr>)) \<lparr>du_Duration = 7\<rparr>
     = (\<lparr>du_Duration = - 90061000000001\<rparr>, None)"
  using duration_text_roundtrip [of "\<lparr>du_Duration = - 90061000000001\<rparr>" "\<lparr>du_Duration = 7\<rparr>"] by simp

end
