(* ===== verification/TestDb.thy ===== *)
theory TestDb
  imports GoSys "HOL-Library.State_Monad"
begin

text \<open>
  The test databases of \<^verbatim>\<open>pkg/testcontainers/database.go\<close>: a SQLite file that is created fresh and
  removed when it is closed. The code is a sequence of calls of \<open>os\<close> and \<open>database/sql\<close>; the state
  threaded through it is the history of these calls, and a parameter answers each call from the
  history up to it (so that the file system and the database behind the answers can be any). The
  lemmas are about the calls made and the results returned, for all answers.
\<close>

subsection \<open>Calls and answers\<close>

datatype sql_value = SNull | SInt int | SText string

datatype db_call =
    CMkdirAll string
  | CRemove string
  | COpen string
  | CPing
  | CExec string "sql_value list"
  | CQuery string "sql_value list"
  | CCloseRows
  | CCloseDB

type_synonym db_history = "db_call list"

text \<open>
  What the last call of a history is answered: an error or none, and the rows of a query. The
  process has a number and a directory for temporary files.
\<close>

record db_answers =
  da_TempDir :: string
  da_Getpid :: int
  da_error :: "db_history \<Rightarrow> string option"
  da_rows :: "db_history \<Rightarrow> string + sql_value list list"

definition call :: "db_call \<Rightarrow> (db_history \<Rightarrow> 'a) \<Rightarrow> (db_history, 'a) state" where
  "call c answer = State (\<lambda>h. (answer (h @ [c]), h @ [c]))"

abbreviation pure :: "'a \<Rightarrow> (db_history, 'a) state" where
  "pure \<equiv> State_Monad.return"

definition ask :: "db_answers \<Rightarrow> db_call \<Rightarrow> (db_history, string option) state" where
  "ask a c = call c (da_error a)"

definition ask_rows :: "db_answers \<Rightarrow> string \<Rightarrow> sql_value list \<Rightarrow> (db_history, string + sql_value list list) state" where
  "ask_rows a query args = call (CQuery query args) (da_rows a)"

text \<open>A call whose answer is not looked at.\<close>

definition tell :: "db_call \<Rightarrow> (db_history, unit) state" where
  "tell c = call c (\<lambda>_. ())"

subsection \<open>The database\<close>

record database =
  db_path :: string
  db_db :: bool
  db_tempDir :: string

text \<open>\<open>db_db\<close> says that the handle is set; a method on a nil handle panics.\<close>

definition with_handle :: "database \<Rightarrow> (db_history, 'a) state \<Rightarrow> (db_history, panic + 'a) state" where
  "with_handle d m = (if db_db d then do { x \<leftarrow> m; pure (Inr x) } else pure (Inl NilDereference))"

record database_options =
  dbo_TempDir :: string
  dbo_Driver :: string
  dbo_InitScript :: string

definition db_open :: "db_answers \<Rightarrow> database \<Rightarrow> (db_history, string option \<times> database) state" where
  "db_open a d = do {
     err \<leftarrow> ask a (COpen (db_path d @ ''?_journal_mode=WAL&_synchronous=NORMAL''));
     case err of
       Some e \<Rightarrow> pure (Some (''failed to open database: '' @ e), d)
     | None \<Rightarrow> do {
         ping \<leftarrow> ask a CPing;
         case ping of
           Some e \<Rightarrow> do { tell CCloseDB; pure (Some (''failed to ping database: '' @ e), d) }
         | None \<Rightarrow> pure (None, d\<lparr>db_db := True\<rparr>) } }"

definition db_exec :: "db_answers \<Rightarrow> string \<Rightarrow> sql_value list \<Rightarrow> database \<Rightarrow> (db_history, panic + string option) state" where
  "db_exec a query args d = with_handle d (ask a (CExec query args))"

definition db_query :: "db_answers \<Rightarrow> string \<Rightarrow> sql_value list \<Rightarrow> database \<Rightarrow> (db_history, panic + string + sql_value list list) state" where
  "db_query a query args d = with_handle d (ask_rows a query args)"

text \<open>\<open>QueryRow\<close> sends the query; its error and its row wait in the \<open>Row\<close> for the \<open>Scan\<close>.\<close>

definition db_query_row :: "db_answers \<Rightarrow> string \<Rightarrow> sql_value list \<Rightarrow> database \<Rightarrow> (db_history, panic + string + sql_value list list) state" where
  "db_query_row a query args d = with_handle d (ask_rows a query args)"

definition get_path :: "database \<Rightarrow> string" where
  "get_path d = db_path d"

definition get_db :: "database \<Rightarrow> bool" where
  "get_db d = db_db d"

text \<open>\<open>Close\<close> ignores every error.\<close>

definition db_close :: "database \<Rightarrow> (db_history, unit) state" where
  "db_close d = do {
     (if db_db d then tell CCloseDB else pure ());
     tell (CRemove (db_path d));
     tell (CRemove (db_path d @ ''-shm''));
     tell (CRemove (db_path d @ ''-wal'')) }"

definition db_file :: "db_answers \<Rightarrow> database_options \<Rightarrow> string" where
  "db_file a opts = path_join [if dbo_TempDir opts = [] then da_TempDir a else dbo_TempDir opts, ''ws-test-'' @ fmt_d (da_Getpid a) @ ''.db'']"

definition new_database :: "db_answers \<Rightarrow> database_options \<Rightarrow> (db_history, panic + string + database) state" where
  "new_database a opts = do {
     let tempDir = (if dbo_TempDir opts = [] then da_TempDir a else dbo_TempDir opts);
     mk \<leftarrow> ask a (CMkdirAll tempDir);
     case mk of
       Some e \<Rightarrow> pure (Inr (Inl (''failed to create temp directory: '' @ e)))
     | None \<Rightarrow> do {
         tell (CRemove (db_file a opts));
         r \<leftarrow> db_open a \<lparr>db_path = db_file a opts, db_db = False, db_tempDir = tempDir\<rparr>;
         (case r of
           (Some e, d) \<Rightarrow> pure (Inr (Inl e))
         | (None, d) \<Rightarrow>
             if dbo_InitScript opts = [] then pure (Inr (Inr d))
             else do {
               x \<leftarrow> db_exec a (dbo_InitScript opts) [] d;
               (case x of
                 Inl p \<Rightarrow> pure (Inl p)
               | Inr (Some e) \<Rightarrow> do { db_close d; pure (Inr (Inl (''failed to initialize database: '' @ e))) }
               | Inr None \<Rightarrow> pure (Inr (Inr d))) }) } }"

subsection \<open>Rows\<close>

text \<open>
  \<open>Scan\<close> of a row into one variable: a row of another width, a null and a text that is no
  number are errors. A number is scanned into a string as its decimal text.
\<close>

datatype db_error = DriverError string | NoRows | ScanError

fun scan_string :: "sql_value list \<Rightarrow> string option" where
  "scan_string [SText s] = Some s"
| "scan_string [SInt n] = Some (fmt_d n)"
| "scan_string _ = None"

fun scan_int :: "sql_value list \<Rightarrow> int option" where
  "scan_int [SInt n] = Some n"
| "scan_int [SText s] = (case atoi s of Inl _ \<Rightarrow> None | Inr n \<Rightarrow> Some n)"
| "scan_int _ = None"

text \<open>\<open>QueryRow(...).Scan(&count)\<close>: the first row; a failed scan leaves the zero.\<close>

definition query_count :: "db_answers \<Rightarrow> string \<Rightarrow> sql_value list \<Rightarrow> (db_history, int \<times> db_error option) state" where
  "query_count a query args = do {
     r \<leftarrow> ask_rows a query args;
     tell CCloseRows;
     pure (case r of
         Inl e \<Rightarrow> (0, Some (DriverError e))
       | Inr [] \<Rightarrow> (0, Some NoRows)
       | Inr (row # _) \<Rightarrow> (case scan_int row of None \<Rightarrow> (0, Some ScanError) | Some n \<Rightarrow> (n, None))) }"

definition table_exists :: "db_answers \<Rightarrow> string \<Rightarrow> database \<Rightarrow> (db_history, panic + db_error + bool) state" where
  "table_exists a tableName d = with_handle d (do {
     r \<leftarrow> query_count a (''SELECT COUNT(*) FROM sqlite_master WHERE type='' @ [CHR 0x27] @ ''table'' @ [CHR 0x27] @ '' AND name=?'') [SText tableName];
     pure (case r of (_, Some e) \<Rightarrow> Inl e | (n, None) \<Rightarrow> Inr (0 < n)) })"

definition get_row_count :: "db_answers \<Rightarrow> string \<Rightarrow> database \<Rightarrow> (db_history, panic + int \<times> db_error option) state" where
  "get_row_count a tableName d = with_handle d (query_count a (''SELECT COUNT(*) FROM '' @ tableName) [])"

definition import_csv :: "string \<Rightarrow> string \<Rightarrow> string option" where
  "import_csv tableName csvPath = Some ''csv import not yet implemented''"

text \<open>\<open>Reset\<close>: a name that cannot be scanned is skipped, a table that cannot be emptied is only logged.\<close>

fun delete_all :: "db_answers \<Rightarrow> string list \<Rightarrow> (db_history, unit) state" where
  "delete_all a [] = pure ()"
| "delete_all a (t # ts) = do { ask a (CExec (''DELETE FROM '' @ t) []); delete_all a ts }"

definition table_names_query :: string where
  "table_names_query = ''SELECT name FROM sqlite_master WHERE type='' @ [CHR 0x27] @ ''table'' @ [CHR 0x27]"

definition db_reset :: "db_answers \<Rightarrow> database \<Rightarrow> (db_history, panic + string option) state" where
  "db_reset a d = with_handle d (do {
     r \<leftarrow> ask_rows a table_names_query [];
     case r of
       Inl e \<Rightarrow> pure (Some (''failed to get table names: '' @ e))
     | Inr rows \<Rightarrow> do { delete_all a (List.map_filter scan_string rows); tell CCloseRows; pure None } })"

subsection \<open>The standard schema\<close>

definition test_schema :: string where
  "test_schema = concat [nl, ''CREATE TABLE IF NOT EXISTS weather_data ('', nl, ''    id INTEGER PRIMARY KEY AUTOINCREMENT,'',
     nl, ''    station_id INTEGER NOT NULL,'', nl, ''    timestamp INTEGER NOT NULL,'', nl,
     ''    temperature REAL,'', nl, ''    humidity REAL,'', nl, ''    pressure REAL,'', nl,
     ''    wind_speed REAL,'', nl, ''    wind_direction REAL,'', nl, ''    precipitation REAL,'', nl,
     ''    location_lat REAL,'', nl, ''    location_lon REAL,'', nl,
     ''    data_quality INTEGER DEFAULT 0,'', nl, ''    source_file TEXT,'', nl,
     ''    imported_at INTEGER DEFAULT (strftime('', [CHR 0x27], ''%s', 'now')),'', nl,
     ''    UNIQUE(station_id, timestamp)'', nl, '');'', nl, nl,
     ''CREATE INDEX IF NOT EXISTS idx_weather_station_time ON weather_data(station_id, timestamp);'', nl,
     ''CREATE INDEX IF NOT EXISTS idx_weather_time ON weather_data(timestamp);'', nl, nl,
     ''CREATE TABLE IF NOT EXISTS ingest_log ('', nl, ''    id INTEGER PRIMARY KEY AUTOINCREMENT,'', nl,
     ''    filename TEXT NOT NULL,'', nl, ''    started_at INTEGER NOT NULL,'', nl,
     ''    completed_at INTEGER,'', nl, ''    records_processed INTEGER DEFAULT 0,'', nl,
     ''    records_failed INTEGER DEFAULT 0,'', nl, ''    status TEXT NOT NULL,'', nl,
     ''    error_message TEXT'', nl, '');'', nl, nl, ''CREATE TABLE IF NOT EXISTS hourly_stats ('', nl,
     ''    id INTEGER PRIMARY KEY AUTOINCREMENT,'', nl, ''    station_id INTEGER NOT NULL,'', nl,
     ''    hour INTEGER NOT NULL,'', nl, ''    metric_name TEXT NOT NULL,'', nl, ''    min_val REAL,'', nl,
     ''    max_val REAL,'', nl, ''    avg_val REAL,'', nl, ''    count INTEGER,'', nl,
     ''    computed_at INTEGER DEFAULT (strftime('', [CHR 0x27], ''%s', 'now')),'', nl,
     ''    UNIQUE(station_id, hour, metric_name)'', nl, '');'', nl, nl,
     ''CREATE INDEX IF NOT EXISTS idx_hourly_station_time ON hourly_stats(station_id, hour);'', nl, nl,
     ''CREATE TABLE IF NOT EXISTS peer_stations ('', nl, ''    station_id INTEGER PRIMARY KEY,'', nl,
     ''    hostname TEXT NOT NULL,'', nl, ''    ip_address TEXT,'', nl, ''    query_port INTEGER,'', nl,
     ''    replication_port INTEGER,'', nl, ''    first_seen INTEGER,'', nl, ''    last_seen INTEGER,'',
     nl, ''    last_beacon INTEGER,'', nl, ''    is_leader BOOLEAN DEFAULT 0,'', nl,
     ''    is_healthy BOOLEAN DEFAULT 0,'', nl, ''    capabilities INTEGER DEFAULT 0'', nl, '');'', nl]"

definition create_test_database :: "db_answers \<Rightarrow> (db_history, panic + string + database) state" where
  "create_test_database a = new_database a \<lparr>dbo_TempDir = [], dbo_Driver = [], dbo_InitScript = test_schema\<rparr>"

subsection \<open>The calls that are made\<close>

lemma run_calls [simp]:
  "run_state (call c f) h = (f (h @ [c]), h @ [c])"
  "run_state (ask a c) h = (da_error a (h @ [c]), h @ [c])"
  "run_state (ask_rows a q args) h = (da_rows a (h @ [CQuery q args]), h @ [CQuery q args])"
  "run_state (tell c) h = ((), h @ [c])"
  "run_state (pure x) h = (x, h)"
  by (simp_all add: call_def ask_def ask_rows_def tell_def State_Monad.return_def)

lemma run_with_handle [simp]:
  "run_state (with_handle d m) h = (if db_db d then case run_state m h of (x, h') \<Rightarrow> (Inr x, h') else (Inl NilDereference, h))"
  by (simp add: with_handle_def split: prod.splits)

lemma run_close:
  "run_state (db_close d) h = ((), h @ (if db_db d then [CCloseDB] else []) @
     [CRemove (db_path d), CRemove (db_path d @ ''-shm''), CRemove (db_path d @ ''-wal'')])"
  by (simp add: db_close_def)

lemma run_delete_all: "run_state (delete_all a ts) h = ((), h @ map (\<lambda>t. CExec (''DELETE FROM '' @ t) []) ts)"
  by (induction ts arbitrary: h) simp_all

lemma run_reset:
  "db_db d \<Longrightarrow> run_state (db_reset a d) h =
     (case da_rows a (h @ [CQuery table_names_query []]) of
        Inl e \<Rightarrow> (Inr (Some (''failed to get table names: '' @ e)), h @ [CQuery table_names_query []])
      | Inr rows \<Rightarrow> (Inr None, h @ [CQuery table_names_query []] @
          map (\<lambda>t. CExec (''DELETE FROM '' @ t) []) (List.map_filter scan_string rows) @ [CCloseRows]))"
  by (simp add: db_reset_def run_delete_all split: sum.splits)

lemma run_query_count:
  "run_state (query_count a q args) h = (case da_rows a (h @ [CQuery q args]) of
       Inl e \<Rightarrow> (0, Some (DriverError e))
     | Inr [] \<Rightarrow> (0, Some NoRows)
     | Inr (row # _) \<Rightarrow> (case scan_int row of None \<Rightarrow> (0, Some ScanError) | Some n \<Rightarrow> (n, None)), h @ [CQuery q args, CCloseRows])"
  by (simp add: query_count_def)

subsection \<open>Handles\<close>

text \<open>The database handles a stretch of calls leaves open: opened without an error, not yet closed.\<close>

fun handles :: "db_answers \<Rightarrow> db_history \<Rightarrow> db_history \<Rightarrow> int" where
  "handles a h [] = 0"
| "handles a h (c # cs) =
     (case c of COpen _ \<Rightarrow> if da_error a (h @ [c]) = None then 1 else 0 | CCloseDB \<Rightarrow> - 1 | _ \<Rightarrow> 0) + handles a (h @ [c]) cs"

lemma handles_append: "handles a h (cs @ ds) = handles a h cs + handles a (h @ cs) ds"
  by (induction cs arbitrary: h) simp_all

text \<open>What a user of a database can do with it; \<open>run_ops\<close> stops at a panic.\<close>

datatype db_op =
    OpExec string "sql_value list"
  | OpQuery string "sql_value list"
  | OpQueryRow string "sql_value list"
  | OpTableExists string
  | OpRowCount string
  | OpReset

definition forget :: "(db_history, panic + 'a) state \<Rightarrow> (db_history, panic option) state" where
  "forget m = do { r \<leftarrow> m; pure (case r of Inl p \<Rightarrow> Some p | Inr _ \<Rightarrow> None) }"

fun run_op :: "db_answers \<Rightarrow> database \<Rightarrow> db_op \<Rightarrow> (db_history, panic option) state" where
  "run_op a d (OpExec q args) = forget (db_exec a q args d)"
| "run_op a d (OpQuery q args) = forget (db_query a q args d)"
| "run_op a d (OpQueryRow q args) = forget (db_query_row a q args d)"
| "run_op a d (OpTableExists t) = forget (table_exists a t d)"
| "run_op a d (OpRowCount t) = forget (get_row_count a t d)"
| "run_op a d OpReset = forget (db_reset a d)"

fun run_ops :: "db_answers \<Rightarrow> database \<Rightarrow> db_op list \<Rightarrow> (db_history, panic option) state" where
  "run_ops a d [] = pure None"
| "run_ops a d (x # xs) = do { p \<leftarrow> run_op a d x; (case p of Some _ \<Rightarrow> pure p | None \<Rightarrow> run_ops a d xs) }"

fun statement_call :: "db_call \<Rightarrow> bool" where
  "statement_call (CExec _ _) = True"
| "statement_call (CQuery _ _) = True"
| "statement_call CCloseRows = True"
| "statement_call _ = False"

lemma handles_statements: "list_all statement_call cs \<Longrightarrow> handles a h cs = 0"
proof (induction cs arbitrary: h)
  case (Cons c cs)
  then show ?case by (cases c) simp_all
qed simp

lemma run_op_statements:
  assumes "db_db d"
  shows "\<exists>cs. run_state (run_op a d x) h = (None, h @ cs) \<and> list_all statement_call cs"
proof (cases x)
  case OpReset
  then show ?thesis using assms run_reset [OF assms, of a h]
    by (auto simp: forget_def list_all_iff split: sum.splits)
qed (use assms in \<open>auto simp: forget_def db_exec_def db_query_def db_query_row_def table_exists_def get_row_count_def run_query_count split: prod.splits\<close>)

lemma run_ops_statements:
  assumes "db_db d"
  shows "\<exists>cs. run_state (run_ops a d xs) h = (None, h @ cs) \<and> list_all statement_call cs"
proof (induction xs arbitrary: h)
  case (Cons x xs)
  obtain cs where cs: "run_state (run_op a d x) h = (None, h @ cs)" "list_all statement_call cs"
    using run_op_statements [OF assms] by blast
  obtain ds where ds: "run_state (run_ops a d xs) (h @ cs) = (None, (h @ cs) @ ds)" "list_all statement_call ds"
    using Cons by blast
  have "run_state (run_ops a d (x # xs)) h = (None, h @ cs @ ds)" using cs(1) ds(1) by simp
  then show ?case using cs(2) ds(2) by fastforce
qed simp

definition last_three :: "db_history \<Rightarrow> db_history" where
  "last_three h = drop (length h - 3) h"

lemma last_three_append [simp]: "last_three (h @ [x, y, z]) = [x, y, z]"
  by (simp add: last_three_def)

lemma run_new_database:
  "run_state (new_database a opts) h =
     (let mk = CMkdirAll (if dbo_TempDir opts = [] then da_TempDir a else dbo_TempDir opts); f = db_file a opts;
          op = COpen (f @ ''?_journal_mode=WAL&_synchronous=NORMAL''); d = \<lparr>db_path = f, db_db = True, db_tempDir = (if dbo_TempDir opts = [] then da_TempDir a else dbo_TempDir opts)\<rparr>;
          script = CExec (dbo_InitScript opts) []
      in case da_error a (h @ [mk]) of
           Some e \<Rightarrow> (Inr (Inl (''failed to create temp directory: '' @ e)), h @ [mk])
         | None \<Rightarrow> (case da_error a (h @ [mk, CRemove f, op]) of
           Some e \<Rightarrow> (Inr (Inl (''failed to open database: '' @ e)), h @ [mk, CRemove f, op])
         | None \<Rightarrow> (case da_error a (h @ [mk, CRemove f, op, CPing]) of
           Some e \<Rightarrow> (Inr (Inl (''failed to ping database: '' @ e)), h @ [mk, CRemove f, op, CPing, CCloseDB])
         | None \<Rightarrow> if dbo_InitScript opts = [] then (Inr (Inr d), h @ [mk, CRemove f, op, CPing])
                   else (case da_error a (h @ [mk, CRemove f, op, CPing, script]) of
           Some e \<Rightarrow> (Inr (Inl (''failed to initialize database: '' @ e)),
                      h @ [mk, CRemove f, op, CPing, script, CCloseDB, CRemove f, CRemove (f @ ''-shm''), CRemove (f @ ''-wal'')])
         | None \<Rightarrow> (Inr (Inr d), h @ [mk, CRemove f, op, CPing, script])))))"
  by (simp add: new_database_def db_open_def db_exec_def run_close Let_def split: option.splits)

lemma new_database_handles:
  "case run_state (new_database a opts) h of
     (Inl p, h1) \<Rightarrow> False
   | (Inr (Inl e), h1) \<Rightarrow> \<exists>cs. h1 = h @ cs \<and> handles a h cs = 0
   | (Inr (Inr d), h1) \<Rightarrow> db_db d \<and> db_path d = db_file a opts \<and>
       (\<exists>mk rest. h1 = h @ mk # CRemove (db_path d) # rest \<and> handles a h (mk # CRemove (db_path d) # rest) = 1)"
  by (auto simp: run_new_database Let_def split: option.splits)

text \<open>What is run on an open database and then closed, from a history with one handle.\<close>

lemma session_closes:
  assumes db: "db_db d" and one: "handles a h bs = 1"
  shows "\<exists>cs. run_state (run_ops a d ops) (h @ bs) = (None, h @ bs @ cs)
    \<and> (\<exists>ds. run_state (db_close d) (h @ bs @ cs) = ((), h @ ds) \<and> handles a h ds = 0
        \<and> last_three (h @ ds) = [CRemove (db_path d), CRemove (db_path d @ ''-shm''), CRemove (db_path d @ ''-wal'')])"
proof -
  let ?fin = "[CCloseDB, CRemove (db_path d), CRemove (db_path d @ ''-shm''), CRemove (db_path d @ ''-wal'')]"
  obtain cs where cs: "run_state (run_ops a d ops) (h @ bs) = (None, (h @ bs) @ cs)" "list_all statement_call cs"
    using run_ops_statements [OF db] by blast
  have "handles a h (bs @ cs @ ?fin) = 0"
    using one handles_statements [OF cs(2), where a = a and h = "h @ bs"] by (simp add: handles_append)
  moreover have "last_three (h @ bs @ cs @ ?fin) = tl ?fin"
    using last_three_append [of "h @ bs @ cs @ [CCloseDB]"] by simp
  moreover have "run_state (db_close d) (h @ bs @ cs) = ((), h @ bs @ cs @ ?fin)" using db by (simp add: run_close)
  ultimately show ?thesis using cs(1) by (intro exI [of _ cs] conjI exI [of _ "bs @ cs @ ?fin"]) simp_all
qed

text \<open>
  C20. Databases leave nothing behind. \<open>NewDatabase\<close> never panics; on an error no handle stays open;
  otherwise it has removed an old file of the name before it opened its own, and whatever
  statements are run, none panics, and \<open>Close\<close> closes the handle and removes the file with
  both files of its journal, last of all.
\<close>
theorem database_lifecycle:
  "case run_state (new_database a opts) h of
     (Inl p, h1) \<Rightarrow> False
   | (Inr (Inl e), h1) \<Rightarrow> \<exists>cs. h1 = h @ cs \<and> handles a h cs = 0
   | (Inr (Inr d), h1) \<Rightarrow> db_path d = db_file a opts \<and>
       (\<exists>mk rest. h1 = h @ mk # CRemove (db_path d) # rest \<and> handles a h (mk # CRemove (db_path d) # rest) = 1) \<and>
       (\<forall>ops. case run_state (do { p \<leftarrow> run_ops a d ops; db_close d; pure p }) h1 of (p, h2) \<Rightarrow>
          p = None \<and> (\<exists>cs. h2 = h @ cs \<and> handles a h cs = 0)
          \<and> last_three h2 = [CRemove (db_path d), CRemove (db_path d @ ''-shm''), CRemove (db_path d @ ''-wal'')])"
proof -
  obtain r h1 where new: "run_state (new_database a opts) h = (r, h1)" by (cases "run_state (new_database a opts) h")
  note made = new_database_handles [where a = a and opts = opts and h = h, unfolded new prod.case]
  show ?thesis
  proof (cases r)
    case (Inl p)
    then show ?thesis using made by simp
  next
    case r: (Inr q)
    show ?thesis
    proof (cases q)
      case (Inl e)
      then show ?thesis unfolding new r using made r by simp
    next
      case q: (Inr d)
      then obtain mk rest where d: "db_db d" "db_path d = db_file a opts" "h1 = h @ mk # CRemove (db_path d) # rest"
          "handles a h (mk # CRemove (db_path d) # rest) = 1" using made r by auto
      have "\<forall>ops. case run_state (do { p \<leftarrow> run_ops a d ops; db_close d; pure p }) h1 of (p, h2) \<Rightarrow>
          p = None \<and> (\<exists>cs. h2 = h @ cs \<and> handles a h cs = 0)
          \<and> last_three h2 = [CRemove (db_path d), CRemove (db_path d @ ''-shm''), CRemove (db_path d @ ''-wal'')]"
      proof
        fix ops
        obtain cs ds where run: "run_state (run_ops a d ops) h1 = (None, h1 @ cs)" "run_state (db_close d) (h1 @ cs) = ((), h @ ds)"
          and fin: "handles a h ds = 0" "last_three (h @ ds) = [CRemove (db_path d), CRemove (db_path d @ ''-shm''), CRemove (db_path d @ ''-wal'')]"
          using session_closes [OF d(1,4), of ops] unfolding d(3) append_assoc by blast
        show "case run_state (do { p \<leftarrow> run_ops a d ops; db_close d; pure p }) h1 of (p, h2) \<Rightarrow>
          p = None \<and> (\<exists>cs. h2 = h @ cs \<and> handles a h cs = 0)
          \<and> last_three h2 = [CRemove (db_path d), CRemove (db_path d @ ''-shm''), CRemove (db_path d @ ''-wal'')]"
          using run fin by auto
      qed
      then show ?thesis unfolding new r q prod.case sum.case using d(2,3,4) by blast
    qed
  qed
qed

text \<open>
  \<open>Reset\<close> asks for the names of the tables and deletes from each of them, in the order of the
  answer. It fails exactly when the names cannot be had; it reports success even if no deletion
  succeeds.
\<close>
theorem reset_reports_success:
  assumes "db_db d"
  shows "case run_state (db_reset a d) h of (r, h1) \<Rightarrow>
     (case da_rows a (h @ [CQuery table_names_query []]) of
        Inl e \<Rightarrow> r = Inr (Some (''failed to get table names: '' @ e))
      | Inr rows \<Rightarrow> r = Inr None \<and>
          filter (\<lambda>c. \<exists>q args. c = CExec q args) (drop (length h) h1)
            = map (\<lambda>t. CExec (''DELETE FROM '' @ t) []) (List.map_filter scan_string rows))"
  using run_reset [OF assms, where a = a and h = h] by (auto simp: filter_map o_def split: sum.splits)

definition locked_tables :: db_answers where
  "locked_tables = \<lparr>da_TempDir = ''/tmp'', da_Getpid = 7,
     da_error = (\<lambda>h. case last h of CExec _ _ \<Rightarrow> Some ''database is locked'' | _ \<Rightarrow> None),
     da_rows = (\<lambda>_. Inr [[SText ''ingest_log''], [SNull], [SText ''peer_stations'']])\<rparr>"

theorem reset_reports_success_witness:
  "case run_state (db_reset locked_tables \<lparr>db_path = ''t.db'', db_db = True, db_tempDir = ''/tmp''\<rparr>) [CPing] of (r, h1) \<Rightarrow>
     r = Inr None \<and> filter (\<lambda>c. \<exists>q args. c = CExec q args) (drop 1 h1)
       = [CExec ''DELETE FROM ingest_log'' [], CExec ''DELETE FROM peer_stations'' []]"
  using reset_reports_success [where d = "\<lparr>db_path = ''t.db'', db_db = True, db_tempDir = ''/tmp''\<rparr>" and a = locked_tables and h = "[CPing]"]
  by (simp add: locked_tables_def map_filter_def split: prod.splits)

end
