(* ===== verification/Testlib.thy ===== *)
theory Testlib
  imports GoText
begin

text \<open>
  The assertions of \<^verbatim>\<open>pkg/testlib/assertions.go\<close>. An assertion gets values of any type and calls
  back into the test it runs in; the model returns its answer with the calls it makes, so that the
  test (any implementation of \<open>TestingT\<close>) stays a parameter. The locale \<open>assertion\<close> is the contract
  all of them share.
\<close>

subsection \<open>Values\<close>

datatype int_kind = KInt | KInt8 | KInt16 | KInt32 | KInt64 | KUint | KUint8 | KUint16 | KUint32 | KUint64

text \<open>
  Values of interface type: no value at all, numbers, strings, booleans, errors; pointers with their type,
  nil or an address and what is there; slices and maps, which may be nil too (a map as its keys and values in
  turn, by the order of the keys); structs with their type and fields.
\<close>

datatype go_value =
    GNil
  | GInt int_kind int
  | GFloat32 f64
  | GFloat64 f64
  | GString string
  | GBool bool
  | GPtr string "(nat \<times> go_value) option"
  | GSlice string "go_value list option"
  | GMap string "go_value list option"
  | GStruct string "go_value list"

text \<open>
  \<open>reflect.DeepEqual\<close>: same type, then equal contents; a nil slice or map equals only a nil one,
  a pointer also equals one to an equal value, and NaN equals nothing.
\<close>

fun deep_equal :: "go_value \<Rightarrow> go_value \<Rightarrow> bool"
  and deep_equal_all :: "go_value list \<Rightarrow> go_value list \<Rightarrow> bool" where
  "deep_equal GNil w = (w = GNil)"
| "deep_equal (GInt k m) w = (w = GInt k m)"
| "deep_equal (GFloat32 x) w = (x \<noteq> NaN \<and> w = GFloat32 x)"
| "deep_equal (GFloat64 x) w = (x \<noteq> NaN \<and> w = GFloat64 x)"
| "deep_equal (GString s) w = (w = GString s)"
| "deep_equal (GBool b) w = (w = GBool b)"
| "deep_equal (GPtr s p) w = (case p of
      None \<Rightarrow> w = GPtr s None
    | Some (a, v) \<Rightarrow> (case w of GPtr t (Some (b, u)) \<Rightarrow> s = t \<and> (a = b \<or> deep_equal v u) | _ \<Rightarrow> False))"
| "deep_equal (GSlice s p) w = (case p of
      None \<Rightarrow> w = GSlice s None
    | Some vs \<Rightarrow> (case w of GSlice t (Some us) \<Rightarrow> s = t \<and> deep_equal_all vs us | _ \<Rightarrow> False))"
| "deep_equal (GMap s p) w = (case p of
      None \<Rightarrow> w = GMap s None
    | Some vs \<Rightarrow> (case w of GMap t (Some us) \<Rightarrow> s = t \<and> deep_equal_all vs us | _ \<Rightarrow> False))"
| "deep_equal (GStruct s vs) w = (case w of GStruct t us \<Rightarrow> s = t \<and> deep_equal_all vs us | _ \<Rightarrow> False)"
| "deep_equal_all [] us = (us = [])"
| "deep_equal_all (v # vs) us = (case us of [] \<Rightarrow> False | u # us' \<Rightarrow> deep_equal v u \<and> deep_equal_all vs us')"

subsection \<open>Assertions\<close>

datatype fmt_arg = ArgText string | ArgValue go_value

text \<open>The calls an assertion makes on its test.\<close>

datatype t_call = Errorf string "fmt_arg list" | FailNow | LogText string

type_synonym verdict = "bool \<times> t_call list"

text \<open>The messages of the caller, joined and followed by a colon; as a text of its own for the boolean assertions.\<close>

definition msg_prefix :: "string list \<Rightarrow> string" where
  "msg_prefix msg = (if msg \<noteq> [] then join_with '' '' msg @ '': '' else [])"

definition msg_or :: "string \<Rightarrow> string list \<Rightarrow> string" where
  "msg_or d msg = (if msg \<noteq> [] then join_with '' '' msg else d)"

definition assert_equal :: "go_value \<Rightarrow> go_value \<Rightarrow> string list \<Rightarrow> verdict" where
  "assert_equal expected actual msg =
     (if deep_equal expected actual then (True, [])
      else (False, [Errorf ''%sexpected %v but got %v'' [ArgText (msg_prefix msg), ArgValue expected, ArgValue actual]]))"

definition assert_not_equal :: "go_value \<Rightarrow> go_value \<Rightarrow> string list \<Rightarrow> verdict" where
  "assert_not_equal expected actual msg =
     (if \<not> deep_equal expected actual then (True, [])
      else (False, [Errorf ''%sexpected values to be different but both are %v'' [ArgText (msg_prefix msg), ArgValue expected]]))"

definition assert_true :: "bool \<Rightarrow> string list \<Rightarrow> verdict" where
  "assert_true b msg = (if b then (True, []) else (False, [Errorf (msg_or ''expected true but got false'' msg) []]))"

definition assert_false :: "bool \<Rightarrow> string list \<Rightarrow> verdict" where
  "assert_false b msg = (if \<not> b then (True, []) else (False, [Errorf (msg_or ''expected false but got true'' msg) []]))"

text \<open>Nil is the missing value or a pointer that is nil; slices and maps are not looked into.\<close>

fun is_nil :: "go_value \<Rightarrow> bool" where
  "is_nil GNil = True"
| "is_nil (GPtr t p) = (p = None)"
| "is_nil _ = False"

definition assert_nil :: "go_value \<Rightarrow> string list \<Rightarrow> verdict" where
  "assert_nil v msg = (if is_nil v then (True, [])
     else (False, [Errorf ''%sexpected nil but got %v'' [ArgText (msg_prefix msg), ArgValue v]]))"

definition assert_not_nil :: "go_value \<Rightarrow> string list \<Rightarrow> verdict" where
  "assert_not_nil v msg = (if \<not> is_nil v then (True, [])
     else (False, [Errorf ''%sexpected not nil but got nil'' [ArgText (msg_prefix msg)]]))"

definition assert_text :: "bool \<Rightarrow> string \<Rightarrow> string \<Rightarrow> string \<Rightarrow> string list \<Rightarrow> verdict" where
  "assert_text holds what s sub msg = (if holds then (True, [])
     else (False, [Errorf (''%sexpected string to '' @ what @ '' %q but it didn'' @ [CHR 0x27] @ ''t'' @ [CHR 0x0A] @ ''string: %q'')
       [ArgText (msg_prefix msg), ArgText sub, ArgText s]]))"

definition assert_contains :: "string \<Rightarrow> string \<Rightarrow> string list \<Rightarrow> verdict" where
  "assert_contains s sub msg = assert_text (contains s sub) ''contain'' s sub msg"

definition assert_has_prefix :: "string \<Rightarrow> string \<Rightarrow> string list \<Rightarrow> verdict" where
  "assert_has_prefix s pre msg = assert_text (prefix pre s) ''start with'' s pre msg"

definition assert_has_suffix :: "string \<Rightarrow> string \<Rightarrow> string list \<Rightarrow> verdict" where
  "assert_has_suffix s suf msg = assert_text (has_suffix s suf) ''end with'' s suf msg"

fun to_float64 :: "go_value \<Rightarrow> f64 option" where
  "to_float64 (GInt _ n) = Some (of_int64 n)"
| "to_float64 (GFloat32 x) = Some x"
| "to_float64 (GFloat64 x) = Some x"
| "to_float64 _ = None"

definition assert_order :: "(f64 \<Rightarrow> f64 \<Rightarrow> bool) \<Rightarrow> string \<Rightarrow> go_value \<Rightarrow> go_value \<Rightarrow> string list \<Rightarrow> verdict" where
  "assert_order rel sign a b msg =
     (case (to_float64 a, to_float64 b) of
        (Some x, Some y) \<Rightarrow>
          (if rel x y then (True, [])
           else (False, [Errorf (''%sexpected %v '' @ sign @ '' %v'') [ArgText (msg_prefix msg), ArgValue a, ArgValue b]]))
      | _ \<Rightarrow> (False, [Errorf ''cannot compare non-numeric values: %v, %v'' [ArgValue a, ArgValue b]]))"

definition assert_greater :: "go_value \<Rightarrow> go_value \<Rightarrow> string list \<Rightarrow> verdict" where
  "assert_greater = assert_order (\<lambda>x y. y < x) ''>''"

definition assert_less :: "go_value \<Rightarrow> go_value \<Rightarrow> string list \<Rightarrow> verdict" where
  "assert_less = assert_order (\<lambda>x y. x < y) ''<''"

text \<open>An error is its text, no error is none.\<close>

definition assert_no_error :: "string option \<Rightarrow> string list \<Rightarrow> verdict" where
  "assert_no_error err msg = (case err of
       None \<Rightarrow> (True, [])
     | Some e \<Rightarrow> (False, [Errorf ''%sunexpected error: %v'' [ArgText (msg_prefix msg), ArgText e]]))"

definition assert_error :: "string option \<Rightarrow> string list \<Rightarrow> verdict" where
  "assert_error err msg = (if err \<noteq> None then (True, [])
     else (False, [Errorf ''%sexpected error but got nil'' [ArgText (msg_prefix msg)]]))"

definition assert_error_contains :: "string option \<Rightarrow> string \<Rightarrow> string list \<Rightarrow> verdict" where
  "assert_error_contains err sub msg = (case err of
       None \<Rightarrow> (False, [Errorf ''%sexpected error containing %q but got nil'' [ArgText (msg_prefix msg), ArgText sub]])
     | Some e \<Rightarrow> (if contains e sub then (True, [])
         else (False, [Errorf ''%sexpected error containing %q but got: %v'' [ArgText (msg_prefix msg), ArgText sub, ArgText e]])))"

definition fail_now :: "string list \<Rightarrow> t_call list" where
  "fail_now msg = [Errorf (msg_or ''test failed'' msg) [], FailNow]"

definition skip_test :: "string list \<Rightarrow> t_call list" where
  "skip_test msg = [LogText (msg_or ''test skipped'' msg)]"

subsection \<open>The contract\<close>

text \<open>
  What a test relies on: an assertion that holds leaves the test alone, one that does not reports
  one error. \<open>judge\<close> is the condition it asserts.
\<close>

locale assertion =
  fixes check :: "'a \<Rightarrow> string list \<Rightarrow> verdict"
    and judge :: "'a \<Rightarrow> bool"
  assumes answer: "fst (check x msg) = judge x"
    and quiet: "judge x \<Longrightarrow> snd (check x msg) = []"
    and loud: "\<not> judge x \<Longrightarrow> \<exists>f args. snd (check x msg) = [Errorf f args]"
begin

lemma calls_iff: "snd (check x msg) = [] \<longleftrightarrow> judge x"
  using quiet [of x msg] loud [of x msg] by (cases "judge x") auto

lemma one_call: "length (snd (check x msg)) = (if judge x then 0 else 1)"
  using quiet [of x msg] loud [of x msg] by auto

text \<open>A test that makes a list of assertions has as many errors as assertions that do not hold.\<close>

lemma errors_counted: "length (concat (map (\<lambda>x. snd (check x msg)) xs)) = length (filter (\<lambda>x. \<not> judge x) xs)"
  by (induction xs) (simp_all add: one_call)

lemma passes_iff: "concat (map (\<lambda>x. snd (check x msg)) xs) = [] \<longleftrightarrow> list_all judge xs"
  by (induction xs) (simp_all add: calls_iff)

end

lemmas assert_defs = assert_equal_def assert_not_equal_def assert_true_def assert_false_def assert_nil_def assert_not_nil_def
  assert_text_def assert_contains_def assert_has_prefix_def assert_has_suffix_def assert_order_def assert_greater_def
  assert_less_def assert_no_error_def assert_error_def assert_error_contains_def

text \<open>Any assertion of the library, with its arguments, and the condition it stands for.\<close>

datatype claim =
    AEqual go_value go_value | ANotEqual go_value go_value | ATrue bool | AFalse bool | ANil go_value | ANotNil go_value
  | AContains string string | AHasPrefix string string | AHasSuffix string string
  | AGreater go_value go_value | ALess go_value go_value
  | ANoError "string option" | AError "string option" | AErrorContains "string option" string

fun run_claim :: "claim \<Rightarrow> string list \<Rightarrow> verdict" where
  "run_claim (AEqual v w) msg = assert_equal v w msg"
| "run_claim (ANotEqual v w) msg = assert_not_equal v w msg"
| "run_claim (ATrue b) msg = assert_true b msg"
| "run_claim (AFalse b) msg = assert_false b msg"
| "run_claim (ANil v) msg = assert_nil v msg"
| "run_claim (ANotNil v) msg = assert_not_nil v msg"
| "run_claim (AContains s t) msg = assert_contains s t msg"
| "run_claim (AHasPrefix s t) msg = assert_has_prefix s t msg"
| "run_claim (AHasSuffix s t) msg = assert_has_suffix s t msg"
| "run_claim (AGreater v w) msg = assert_greater v w msg"
| "run_claim (ALess v w) msg = assert_less v w msg"
| "run_claim (ANoError e) msg = assert_no_error e msg"
| "run_claim (AError e) msg = assert_error e msg"
| "run_claim (AErrorContains e t) msg = assert_error_contains e t msg"

definition ordered :: "go_value \<Rightarrow> go_value \<Rightarrow> bool" where
  "ordered v w \<longleftrightarrow> (\<exists>x y. to_float64 v = Some x \<and> to_float64 w = Some y \<and> x < y)"

fun claim_holds :: "claim \<Rightarrow> bool" where
  "claim_holds (AEqual v w) = deep_equal v w"
| "claim_holds (ANotEqual v w) = (\<not> deep_equal v w)"
| "claim_holds (ATrue b) = b"
| "claim_holds (AFalse b) = (\<not> b)"
| "claim_holds (ANil v) = is_nil v"
| "claim_holds (ANotNil v) = (\<not> is_nil v)"
| "claim_holds (AContains s t) = (\<exists>a b. s = a @ t @ b)"
| "claim_holds (AHasPrefix s t) = (\<exists>b. s = t @ b)"
| "claim_holds (AHasSuffix s t) = (\<exists>a. s = a @ t)"
| "claim_holds (AGreater v w) = ordered w v"
| "claim_holds (ALess v w) = ordered v w"
| "claim_holds (ANoError e) = (e = None)"
| "claim_holds (AError e) = (e \<noteq> None)"
| "claim_holds (AErrorContains e t) = (\<exists>a b. e = Some (a @ t @ b))"

text \<open>A test body that makes assertions one after the other, each with its messages, and ignores their answers.\<close>

definition run_claims :: "(claim \<times> string list) list \<Rightarrow> t_call list" where
  "run_claims cs = concat (map (\<lambda>(c, msg). snd (run_claim c msg)) cs)"

interpretation claims: assertion run_claim claim_holds
proof unfold_locales
  show "fst (run_claim x msg) = claim_holds x" for x msg
    by (cases x) (auto simp: assert_defs ordered_def contains_iff has_suffix_def suffix_def prefix_def split: option.splits)
  show "claim_holds x \<Longrightarrow> snd (run_claim x msg) = []" for x msg
    by (cases x) (auto simp: assert_defs ordered_def contains_iff has_suffix_def suffix_def prefix_def split: option.splits)
  show "\<not> claim_holds x \<Longrightarrow> \<exists>f args. snd (run_claim x msg) = [Errorf f args]" for x msg
    by (cases x) (auto simp: assert_defs ordered_def contains_iff has_suffix_def suffix_def prefix_def split: option.splits)
qed

text \<open>
  A test reports exactly one error for each of its assertions that does not hold, and none if all
  hold, whatever the messages are; the answer of an assertion is whether its condition holds.
\<close>

theorem assertions_report:
  "length (run_claims cs) = length (filter (\<lambda>(c, msg). \<not> claim_holds c) cs)
   \<and> (run_claims cs = [] \<longleftrightarrow> list_all (\<lambda>(c, msg). claim_holds c) cs)
   \<and> map (\<lambda>(c, msg). fst (run_claim c msg)) cs = map (\<lambda>(c, msg). claim_holds c) cs"
  by (induction cs) (auto simp: run_claims_def claims.one_call claims.calls_iff claims.answer)

text \<open>
  Greater and Less compare as floats. On integers up to 2 to the 53 that is the order of the integers, of whatever kinds they
  are; above, different integers become the same float, and neither is greater. No value is greater than and less than another.
\<close>

theorem greater_exact:
  assumes "\<bar>m\<bar> \<le> 2 ^ 53" "\<bar>n\<bar> \<le> 2 ^ 53"
  shows "(fst (assert_greater (GInt k m) (GInt l n) msg) \<longleftrightarrow> n < m) \<and> (fst (assert_less (GInt k m) (GInt l n) msg) \<longleftrightarrow> m < n)
    \<and> \<not> fst (assert_greater (GInt KInt64 (2 ^ 53 + 1)) (GInt KInt64 (2 ^ 53)) msg)
    \<and> \<not> fst (assert_equal (GInt KInt64 (2 ^ 53 + 1)) (GInt KInt64 (2 ^ 53)) msg)"
proof -
  have "of_int64 (2 ^ 53 + 1) = of_int64 (2 ^ 53)" by code_simp
  then show ?thesis using assms by (simp add: assert_defs f64_simps)
qed

theorem greater_exact_witness: "fst (assert_greater (GInt KInt 5) (GInt KUint8 3) [])"
  using greater_exact [of 5 3 KInt KUint8 "[]"] by simp

text \<open>Equality is reflexive on every value without a NaN, and symmetric.\<close>

fun nan_free :: "go_value \<Rightarrow> bool"
  and nan_free_all :: "go_value list \<Rightarrow> bool" where
  "nan_free (GFloat32 x) = (x \<noteq> NaN)"
| "nan_free (GFloat64 x) = (x \<noteq> NaN)"
| "nan_free (GSlice s p) = (case p of None \<Rightarrow> True | Some vs \<Rightarrow> nan_free_all vs)"
| "nan_free (GMap s p) = (case p of None \<Rightarrow> True | Some vs \<Rightarrow> nan_free_all vs)"
| "nan_free (GStruct s vs) = nan_free_all vs"
| "nan_free _ = True"
| "nan_free_all [] = True"
| "nan_free_all (v # vs) = (nan_free v \<and> nan_free_all vs)"

theorem equal_itself: "fst (assert_equal v v msg) \<longleftrightarrow> nan_free v"
proof -
  have "deep_equal v v = nan_free v" "deep_equal_all vs vs = nan_free_all vs" for v vs
    by (induction v and vs rule: nan_free_nan_free_all.induct) (auto split: option.splits)
  then show ?thesis by (simp add: assert_equal_def)
qed

text \<open>A nil slice is not nil for the library, nor equal to an empty one.\<close>

lemma nil_slice_not_nil:
  "\<not> fst (assert_nil (GSlice ''[]int'' None) msg)" "fst (assert_not_nil (GSlice ''[]int'' None) msg)"
  "\<not> fst (assert_equal (GSlice ''[]int'' None) (GSlice ''[]int'' (Some [])) msg)"
  by (simp_all add: assert_defs)

end
