(* ===== verification/BaseTest.thy ===== *)
theory BaseTest
  imports TestDb ServiceManager Testlib
begin

text \<open>
  The fixture of the harness' own tests, \<^verbatim>\<open>tests/basetest.go\<close>: a test database (\<open>TestDb\<close>) and a
  service manager (\<open>ServiceManager\<close>), set up and torn down together, with assertions of
  \<open>Testlib\<close> on the database. A method records the calls it makes on its test; a fatal one ends
  the goroutine of the test, which is a result of its own.
\<close>

subsection \<open>The fixture\<close>

record base_test =
  bt_Cancelled :: bool
  bt_DB :: "database option"
  bt_SvcManager :: "manager option"

datatype 'a test_flow = Goes 'a | Exits | Panics panic

definition new_base_test :: base_test where
  "new_base_test = \<lparr>bt_Cancelled = False, bt_DB = None, bt_SvcManager = None\<rparr>"

definition fatalf :: "string \<Rightarrow> fmt_arg list \<Rightarrow> t_call list" where
  "fatalf msg args = [Errorf msg args, FailNow]"

definition fixture_setup :: "db_answers \<Rightarrow> base_test \<Rightarrow> (db_history, unit test_flow \<times> t_call list \<times> base_test) state" where
  "fixture_setup a bt = do {
     r \<leftarrow> create_test_database a;
     pure (case r of
         Inl p \<Rightarrow> (Panics p, [], bt)
       | Inr (Inl e) \<Rightarrow> (Exits, fatalf ''failed to create test database: %v'' [ArgText e], bt)
       | Inr (Inr d) \<Rightarrow> (Goes (), [], bt\<lparr>bt_DB := Some d, bt_SvcManager := Some new_manager\<rparr>)) }"

text \<open>\<open>names\<close> is the order in which \<open>StopAll\<close> ranges over the services.\<close>

definition fixture_teardown :: "(nat \<Rightarrow> proc_env) \<Rightarrow> string list \<Rightarrow> base_test \<Rightarrow> (db_history, base_test) state" where
  "fixture_teardown envs names bt = do {
     let mgr = map_option (stop_all envs names) (bt_SvcManager bt);
     (case bt_DB bt of None \<Rightarrow> pure () | Some d \<Rightarrow> db_close d);
     pure (bt\<lparr>bt_Cancelled := True, bt_SvcManager := mgr\<rparr>) }"

definition start_service :: "proc_env \<Rightarrow> string \<Rightarrow> service_config \<Rightarrow> base_test \<Rightarrow> service option test_flow \<times> t_call list \<times> base_test" where
  "start_service env name cfg bt =
     (case bt_SvcManager bt of
        None \<Rightarrow> (Panics NilDereference, [], bt)
      | Some m \<Rightarrow> (case manager_start env name cfg m of ((svc, err), m') \<Rightarrow>
          (case err of
             Some e \<Rightarrow> (Exits, fatalf ''failed to start service %s: %v'' [ArgText name, ArgText e], bt\<lparr>bt_SvcManager := Some m'\<rparr>)
           | None \<Rightarrow> (Goes svc, [], bt\<lparr>bt_SvcManager := Some m'\<rparr>))))"

text \<open>A failed stop is only logged.\<close>

definition stop_service :: "proc_env \<Rightarrow> string \<Rightarrow> base_test \<Rightarrow> unit test_flow \<times> t_call list \<times> base_test" where
  "stop_service env name bt =
     (case bt_SvcManager bt of
        None \<Rightarrow> (Panics NilDereference, [], bt)
      | Some m \<Rightarrow> (case manager_stop env name m of (err, m', _) \<Rightarrow>
          (Goes (), (case err of Some e \<Rightarrow> [LogText (''warning: failed to stop service '' @ name @ '': '' @ e)] | None \<Rightarrow> []),
           bt\<lparr>bt_SvcManager := Some m'\<rparr>)))"

fun db_error_text :: "db_error \<Rightarrow> string" where
  "db_error_text (DriverError e) = e"
| "db_error_text NoRows = ''sql: no rows in result set''"
| "db_error_text ScanError = ''sql: Scan error''"

definition assert_row_count :: "db_answers \<Rightarrow> string \<Rightarrow> int \<Rightarrow> base_test \<Rightarrow> (db_history, unit test_flow \<times> t_call list) state" where
  "assert_row_count a table expected bt =
     (case bt_DB bt of
        None \<Rightarrow> pure (Panics NilDereference, [])
      | Some d \<Rightarrow> do {
          r \<leftarrow> get_row_count a table d;
          pure (case r of
              Inl p \<Rightarrow> (Panics p, [])
            | Inr (_, Some e) \<Rightarrow> (Exits, fatalf ''failed to get row count: %v'' [ArgText (db_error_text e)])
            | Inr (n, None) \<Rightarrow> (Goes (), snd (assert_equal (GInt KInt expected) (GInt KInt n) [''row count in '' @ table]))) })"

definition assert_table_exists :: "db_answers \<Rightarrow> string \<Rightarrow> base_test \<Rightarrow> (db_history, unit test_flow \<times> t_call list) state" where
  "assert_table_exists a table bt =
     (case bt_DB bt of
        None \<Rightarrow> pure (Panics NilDereference, [])
      | Some d \<Rightarrow> do {
          r \<leftarrow> table_exists a table d;
          pure (case r of
              Inl p \<Rightarrow> (Panics p, [])
            | Inr (Inl e) \<Rightarrow> (Exits, fatalf ''failed to check table existence: %v'' [ArgText (db_error_text e)])
            | Inr (Inr b) \<Rightarrow> (Goes (), snd (assert_true b [''table '' @ table @ '' should exist'']))) })"

subsection \<open>Fixture files\<close>

definition load_fixture :: "(string \<Rightarrow> string + string) \<Rightarrow> string \<Rightarrow> string test_flow \<times> t_call list" where
  "load_fixture readFile filename =
     (case readFile (path_join [''testdata'', filename]) of
        Inl e \<Rightarrow> (Exits, fatalf ''failed to load fixture %s: %v'' [ArgText filename, ArgText e])
      | Inr content \<Rightarrow> (Goes content, []))"

definition copy_csv_fixture :: "(string \<Rightarrow> string + string) \<Rightarrow> os_answers \<Rightarrow> string \<Rightarrow> string
    \<Rightarrow> string test_flow \<times> t_call list \<times> (string \<times> string) option" where
  "copy_csv_fixture readFile os filename destDir =
     (let destPath = path_join [destDir, filename] in
      case readFile (path_join [''testdata'', ''csv'', filename]) of
        Inl e \<Rightarrow> (Exits, fatalf ''failed to read csv fixture %s: %v'' [ArgText filename, ArgText e], None)
      | Inr content \<Rightarrow> (case write_file os destPath content of
            (Some e, f) \<Rightarrow> (Exits, fatalf ''failed to write csv to %s: %v'' [ArgText destPath, ArgText e], f)
          | (None, f) \<Rightarrow> (Goes destPath, [], f)))"

subsection \<open>Waiting\<close>

text \<open>
  \<open>WaitForCondition\<close>: the n-th round asks the condition, then the clock, and sleeps 100 ms.
  The condition may hold at any round or never; the value is \<open>None\<close> when the loop does not end.
\<close>

partial_function (option) wait_loop ::
    "(nat \<Rightarrow> bool) \<Rightarrow> (nat \<Rightarrow> int) \<Rightarrow> int \<Rightarrow> string \<Rightarrow> nat \<Rightarrow> (unit test_flow \<times> t_call list) option" where
  "wait_loop condition elapsed timeout msg n =
     (if condition n then Some (Goes (), [])
      else if elapsed n > timeout then Some (Exits, fatalf ''timeout waiting for condition: %s'' [ArgText msg])
      else wait_loop condition elapsed timeout msg (Suc n))"

definition wait_for_condition :: "(nat \<Rightarrow> bool) \<Rightarrow> (nat \<Rightarrow> int) \<Rightarrow> int \<Rightarrow> string \<Rightarrow> (unit test_flow \<times> t_call list) option" where
  "wait_for_condition condition elapsed timeout msg = wait_loop condition elapsed timeout msg 0"

definition log_test :: "string \<Rightarrow> t_call list" where
  "log_test msg = [LogText msg]"

subsection \<open>Properties\<close>

lemma wait_loop_result:
  assumes tick: "\<And>k. elapsed k + 100000000 \<le> elapsed (Suc k)"
  shows "\<exists>k \<ge> n. (\<forall>i. n \<le> i \<and> i < k \<longrightarrow> \<not> condition i \<and> elapsed i \<le> timeout) \<and>
     (condition k \<and> wait_loop condition elapsed timeout msg n = Some (Goes (), [])
      \<or> \<not> condition k \<and> elapsed k > timeout
        \<and> wait_loop condition elapsed timeout msg n = Some (Exits, fatalf ''timeout waiting for condition: %s'' [ArgText msg]))"
proof (induction "nat (timeout - elapsed n + 1)" arbitrary: n rule: less_induct)
  case less
  show ?case
  proof (cases "condition n \<or> elapsed n > timeout")
    case True
    then show ?thesis by (intro exI [of _ n]) (subst (1 2) wait_loop.simps, auto)
  next
    case False
    have "nat (timeout - elapsed (Suc n) + 1) < nat (timeout - elapsed n + 1)" using False tick [of n] by linarith
    then obtain k where k: "Suc n \<le> k" "\<forall>i. Suc n \<le> i \<and> i < k \<longrightarrow> \<not> condition i \<and> elapsed i \<le> timeout"
       "condition k \<and> wait_loop condition elapsed timeout msg (Suc n) = Some (Goes (), [])
      \<or> \<not> condition k \<and> elapsed k > timeout
        \<and> wait_loop condition elapsed timeout msg (Suc n) = Some (Exits, fatalf ''timeout waiting for condition: %s'' [ArgText msg])"
      using less [of "Suc n"] by blast
    moreover have "wait_loop condition elapsed timeout msg n = wait_loop condition elapsed timeout msg (Suc n)"
      using False by (subst wait_loop.simps) auto
    moreover have "\<forall>i. n \<le> i \<and> i < k \<longrightarrow> \<not> condition i \<and> elapsed i \<le> timeout"
      using k(2) False by (metis not_less not_less_eq_eq le_antisym)
    ultimately show ?thesis by (intro exI [of _ k]) auto
  qed
qed

text \<open>
  \<open>WaitForCondition\<close> returns: as every round sleeps 100 ms, it ends in the first round in which
  the condition holds or the clock has passed the timeout, well in the former case and with
  the failure of the test in the latter.
\<close>
theorem wait_returns:
  assumes "\<And>k. elapsed k + 100000000 \<le> elapsed (Suc k)"
  shows "\<exists>k. (\<forall>i < k. \<not> condition i \<and> elapsed i \<le> timeout) \<and>
     (condition k \<and> wait_for_condition condition elapsed timeout msg = Some (Goes (), [])
      \<or> \<not> condition k \<and> elapsed k > timeout
        \<and> wait_for_condition condition elapsed timeout msg = Some (Exits, fatalf ''timeout waiting for condition: %s'' [ArgText msg]))"
  using wait_loop_result [of elapsed 0 condition timeout msg, OF assms] by (auto simp: wait_for_condition_def)

theorem wait_returns_witness:
  "wait_for_condition (\<lambda>_. False) (\<lambda>k. int k * 200000000) 300000000 ''ready''
     = Some (Exits, fatalf ''timeout waiting for condition: %s'' [ArgText ''ready''])"
  using wait_returns [where elapsed = "\<lambda>k. int k * 200000000" and condition = "\<lambda>_. False" and timeout = 300000000 and msg = "''ready''"]
  by auto

text \<open>
  C38. The fixture cleans up after itself. If the set-up stops the test, no database handle is open.
  Otherwise the test has a database and an empty manager; after any statements on the
  database, and with whatever services the manager has by then, the tear-down closes the handle
  and removes the files of the database, and leaves no service registered if each process can
  be signalled or killed.
\<close>
theorem fixture_cleans_up:
  "case run_state (fixture_setup a new_base_test) h of ((flow, calls, bt), h1) \<Rightarrow>
     (\<forall>p. flow \<noteq> Panics p)
     \<and> (flow = Exits \<longrightarrow> FailNow \<in> set calls \<and> bt = new_base_test \<and> (\<exists>cs. h1 = h @ cs \<and> handles a h cs = 0))
     \<and> (flow = Goes () \<longrightarrow> bt_SvcManager bt = Some new_manager \<and>
         (\<exists>d. bt_DB bt = Some d \<and>
           (\<forall>ops m names envs. service_names m names \<longrightarrow>
              (case run_state (do { p \<leftarrow> run_ops a d ops; bt' \<leftarrow> fixture_teardown envs names (bt\<lparr>bt_SvcManager := Some m\<rparr>); pure (p, bt') }) h1 of
                 ((p, bt'), h2) \<Rightarrow> p = None \<and> bt_Cancelled bt' \<and> (\<exists>cs. h2 = h @ cs \<and> handles a h cs = 0)
                   \<and> last_three h2 = [CRemove (db_path d), CRemove (db_path d @ ''-shm''), CRemove (db_path d @ ''-wal'')]
                   \<and> ((\<forall>n pid. pe_signal (envs n) pid SIGTERM = None \<or> pe_kill (envs n) pid = None)
                        \<longrightarrow> map_option mg_services (bt_SvcManager bt') = Some Map.empty)))))"
proof -
  obtain r h1 where new: "run_state (create_test_database a) h = (r, h1)" by (cases "run_state (create_test_database a) h")
  note made = new_database_handles [where a = a and h = h and opts = "\<lparr>dbo_TempDir = [], dbo_Driver = [], dbo_InitScript = test_schema\<rparr>",
      folded create_test_database_def, unfolded new prod.case]
  show ?thesis
  proof (cases "\<exists>d. r = Inr (Inr d)")
    case False
    then show ?thesis using made
      by (auto simp: fixture_setup_def new fatalf_def new_base_test_def split: sum.splits)
  next
    case True
    then obtain d where r: "r = Inr (Inr d)" by blast
    then obtain mk rest where d: "db_db d" "h1 = h @ mk # CRemove (db_path d) # rest" "handles a h (mk # CRemove (db_path d) # rest) = 1"
      using made by auto
    have set: "run_state (fixture_setup a new_base_test) h
        = ((Goes (), [], new_base_test\<lparr>bt_DB := Some d, bt_SvcManager := Some new_manager\<rparr>), h1)"
      by (simp add: fixture_setup_def new r)
    have clean: "case run_state (do { p \<leftarrow> run_ops a d ops; bt' \<leftarrow> fixture_teardown envs names (bt\<lparr>bt_SvcManager := Some m\<rparr>); pure (p, bt') }) h1 of
                 ((p, bt'), h2) \<Rightarrow> p = None \<and> bt_Cancelled bt' \<and> (\<exists>cs. h2 = h @ cs \<and> handles a h cs = 0)
                   \<and> last_three h2 = [CRemove (db_path d), CRemove (db_path d @ ''-shm''), CRemove (db_path d @ ''-wal'')]
                   \<and> ((\<forall>n pid. pe_signal (envs n) pid SIGTERM = None \<or> pe_kill (envs n) pid = None)
                        \<longrightarrow> map_option mg_services (bt_SvcManager bt') = Some Map.empty)"
      if names: "service_names m names" and bt: "bt_DB bt = Some d" for ops m names envs bt
    proof -
      obtain cs ds where run: "run_state (run_ops a d ops) h1 = (None, h1 @ cs)" "run_state (db_close d) (h1 @ cs) = ((), h @ ds)"
        and fin: "handles a h ds = 0" "last_three (h @ ds) = [CRemove (db_path d), CRemove (db_path d @ ''-shm''), CRemove (db_path d @ ''-wal'')]"
        using session_closes [OF d(1,3), of ops] unfolding d(2) append_assoc by blast
      have "run_state (do { p \<leftarrow> run_ops a d ops; bt' \<leftarrow> fixture_teardown envs names (bt\<lparr>bt_SvcManager := Some m\<rparr>); pure (p, bt') }) h1
          = ((None, bt\<lparr>bt_Cancelled := True, bt_SvcManager := Some (stop_all envs names m)\<rparr>), h @ ds)"
        using run bt by (simp add: fixture_teardown_def)
      then show ?thesis using fin stop_all_empties [OF names, of envs] by auto
    qed
    show ?thesis unfolding set prod.case
      by (intro conjI impI allI exI [of _ d] clean) (simp_all add: new_base_test_def)
  qed
qed

definition calm_answers :: db_answers where
  "calm_answers = \<lparr>da_TempDir = ''/tmp'', da_Getpid = 7, da_error = (\<lambda>_. None), da_rows = (\<lambda>_. Inr [])\<rparr>"

theorem fixture_cleans_up_witness:
  "case run_state (fixture_setup calm_answers new_base_test) [] of ((flow, calls, bt), h1) \<Rightarrow>
     flow = Goes () \<and>
     (case run_state (fixture_teardown (\<lambda>_. calm_env) [''ingestion''] (bt\<lparr>bt_SvcManager := Some one_service\<rparr>)) h1 of (bt', h2) \<Rightarrow>
        handles calm_answers [] h2 = 0 \<and> map_option mg_services (bt_SvcManager bt') = Some Map.empty)"
proof -
  obtain bt h1 where set: "run_state (fixture_setup calm_answers new_base_test) [] = ((Goes (), [], bt), h1)"
    by (cases "test_schema = []") (simp_all add: fixture_setup_def create_test_database_def run_new_database calm_answers_def Let_def)
  obtain bt' h2 where tear: "run_state (fixture_teardown (\<lambda>_. calm_env) [''ingestion''] (bt\<lparr>bt_SvcManager := Some one_service\<rparr>)) h1 = (bt', h2)"
    by (cases "run_state (fixture_teardown (\<lambda>_. calm_env) [''ingestion''] (bt\<lparr>bt_SvcManager := Some one_service\<rparr>)) h1")
  have "dom (mg_services one_service) = {''ingestion''}"
    by (simp add: one_service_def manager_start_def new_manager_def calm_env_def Let_def)
  then have names: "service_names one_service [''ingestion'']" by (simp add: service_names_def)
  have kill: "\<forall>n pid. pe_signal ((\<lambda>_. calm_env) n) pid SIGTERM = None \<or> pe_kill ((\<lambda>_. calm_env) n) pid = None"
    by (simp add: calm_env_def)
  from fixture_cleans_up [where a = calm_answers and h = "[]", unfolded set prod.case]
  obtain d where "\<forall>ops m names envs. service_names m names \<longrightarrow>
      (case run_state (do { p \<leftarrow> run_ops calm_answers d ops; bt' \<leftarrow> fixture_teardown envs names (bt\<lparr>bt_SvcManager := Some m\<rparr>); pure (p, bt') }) h1 of
         ((p, bt'), h2) \<Rightarrow> p = None \<and> bt_Cancelled bt' \<and> (\<exists>cs. h2 = [] @ cs \<and> handles calm_answers [] cs = 0)
           \<and> last_three h2 = [CRemove (db_path d), CRemove (db_path d @ ''-shm''), CRemove (db_path d @ ''-wal'')]
           \<and> ((\<forall>n pid. pe_signal (envs n) pid SIGTERM = None \<or> pe_kill (envs n) pid = None)
                \<longrightarrow> map_option mg_services (bt_SvcManager bt') = Some Map.empty))"
    by blast
  from this [THEN spec, of "[]", THEN spec, of one_service, THEN spec, of "[''ingestion'']", THEN spec, of "\<lambda>_. calm_env", THEN mp, OF names]
  show ?thesis
    using kill by (simp add: set tear)
qed

end
