(* ===== verification/GradeCmd.thy ===== *)
theory GradeCmd
  imports Grading Report RootCmd
begin

text \<open>
  The whole \<open>grade\<close> command, \<^verbatim>\<open>pkg/cmd/grade.go\<close>: what it logs, the export of the grade, and the
  test report of the detailed mode. The calculator and the export are those of \<open>Grading\<close>, the
  reporter that of \<open>Report\<close>; log entries and the exit status of the program are those of \<open>RootCmd\<close>.
\<close>

subsection \<open>Flags\<close>

record grade_flags =
  gf_student :: string
  gf_detailed :: bool
  gf_format :: string
  gf_output :: string

text \<open>The defaults of the flags.\<close>

definition default_grade_flags :: grade_flags where
  "default_grade_flags = \<lparr>gf_student = [], gf_detailed = False, gf_format = ''console'', gf_output = ''./reports''\<rparr>"

text \<open>The student of a run without a name.\<close>

definition student_of :: "grade_flags \<Rightarrow> string" where
  "student_of fl = (if gf_student fl = [] then ''anonymous'' else gf_student fl)"

subsection \<open>The assessment\<close>

definition log_category :: "category_result \<Rightarrow> log_entry" where
  "log_category cat = LogInfo (concat [''  '', (if ca_Pass cat then tick else cross), '' '', cr_Name (ca_Criterion cat), '': '',
      fmt_d (ca_Score cat), ''/'', fmt_d (ca_MaxPoints cat), (if cr_MustPass (ca_Criterion cat) then '' [MUST PASS]'' else [])]) []"

definition log_assessment :: "grade \<Rightarrow> log_entry list" where
  "log_assessment g =
     [LogInfo ''=== weather station - final assessment ==='' [],
      LogInfo ''student'' [(''name'', LString (sb_StudentName (gr_Submission g)))],
      LogInfo ''score'' [(''points'', LInt (gr_TotalScore g)), (''total'', LInt (gr_MaxScore g))],
      LogInfo ''percentage'' [(''value'', LString (fmt_f 1 (gr_Percentage g) @ ''%''))],
      LogInfo ''letter_grade'' [(''value'', LString (gr_LetterGrade g))],
      LogInfo ''status'' [(''passed'', LBool (gr_Passed g))],
      LogInfo ''breakdown'' []]
     @ map log_category (gr_Categories g)"

definition log_details :: "grade \<Rightarrow> log_entry list" where
  "log_details g = LogInfo ''detailed feedback'' [] # map (\<lambda>note. LogInfo note []) (gr_DetailedNotes g)
     @ map (\<lambda>fb. LogInfo ''feedback'' [(''message'', LString fb)]) (gr_Feedback g)"

subsection \<open>The test report of the detailed mode\<close>

text \<open>Its results are constants; the clock of the n-th call is \<open>now n\<close>.\<close>

definition grade_test_report :: "(nat \<Rightarrow> go_time) \<Rightarrow> test_suite" where
  "grade_test_report now =
     (let r0 = new_reporter (now 0) ''Weather Station Tests'';
          r1 = add_pass (now 1) ''test_s1_compilation'' ''compilation'' 2000000000 r0;
          r2 = add_pass (now 2) ''test_s2_compilation'' ''compilation'' 2000000000 r1;
          r3 = add_pass (now 3) ''test_s3_compilation'' ''compilation'' 2000000000 r2;
          r4 = add_pass (now 4) ''test_s4_compilation'' ''compilation'' 2000000000 r3;
          r5 = add_pass (now 5) ''test_csv_ingestion'' ''functionality'' 5000000000 r4;
          r6 = add_pass (now 6) ''test_query_api'' ''functionality'' 3000000000 r5
      in add_fail (now 7) ''test_s4_discovery'' ''functionality'' 5000000000 ''connection timeout after 5s'' r6)"

definition log_export :: "string \<Rightarrow> string \<Rightarrow> file_result \<Rightarrow> log_entry" where
  "log_export kind path res = (case fst res of
     Some e \<Rightarrow> LogError (''failed to export '' @ kind @ '' report'') [(''error'', LString e)]
   | None \<Rightarrow> LogInfo (kind @ '' report exported'') [(''path'', LString path)])"

definition written :: "file_result list \<Rightarrow> (string \<times> string) list" where
  "written rs = concat (map (\<lambda>r. case snd r of None \<Rightarrow> [] | Some f \<Rightarrow> [f]) rs)"

definition export_test_report :: "os_answers \<Rightarrow> string \<Rightarrow> test_suite \<Rightarrow> log_entry list \<times> (string \<times> string) list" where
  "export_test_report os dir rep =
     (if dir = [] then ([], [])
      else let jp = path_join [dir, ''test-results.xml'']; j = export_junit os [] jp rep;
               hp = path_join [dir, ''test-results.html'']; h = export_html os hp rep
           in ([log_export ''junit'' jp j, log_export ''html'' hp h], written [j, h]))"

subsection \<open>The command\<close>

text \<open>Its error, what it logs, and the files it writes.\<close>

definition grade_command ::
    "os_answers \<Rightarrow> (nat \<Rightarrow> go_time) \<Rightarrow> go_time \<Rightarrow> grade_flags \<Rightarrow> string option \<times> log_entry list \<times> (string \<times> string) list" where
  "grade_command os now start fl =
     (let student = student_of fl; l0 = [LogInfo ''grading student'' [(''student'', LString student)]]
      in case calculate start (run_grade_calculator start student) of
           Inl e \<Rightarrow> (Some e, l0 @ [LogError ''failed to calculate grade'' [(''error'', LString e)]], [])
         | Inr g \<Rightarrow>
             (let l1 = l0 @ log_assessment g @ (if gf_detailed fl then log_details g else []);
                  path = path_join [gf_output fl, student @ ''-grade.'' @ gf_format fl];
                  res = (if gf_output fl = [] then (None, None) else grade_export os (gf_format fl) path g)
              in case fst res of
                   Some e \<Rightarrow> (Some e, l1 @ [LogError ''failed to export grade'' [(''error'', LString e)]], written [res])
                 | None \<Rightarrow>
                     (let l2 = l1 @ (if gf_output fl = [] then [] else [LogInfo ''grade exported'' [(''path'', LString path)]]);
                          (l3, fs) = (if gf_detailed fl then export_test_report os (gf_output fl) (grade_test_report now) else ([], []))
                      in (None, l2 @ l3, written [res] @ fs))))"

subsection \<open>Lemmas\<close>

lemma test_report_counts:
  "length (ts_Tests (grade_test_report now)) = 7" "tt_Failed (get_stats (grade_test_report now)) = 1"
  by (simp_all add: grade_test_report_def add_fail_def add_pass_def add_test_def new_reporter_def get_stats_counts Let_def)

lemma small_numbers: "xml_clean (fmt_d 7) = ''7''" "xml_clean (fmt_d 1) = ''1''"
  by code_simp+

lemma export_file_willing: "willing os \<Longrightarrow> export_file os path s = (None, Some (path, s))"
  by (simp add: willing_def export_file_def write_file_def Let_def)

lemma grade_export_willing:
  "willing os \<Longrightarrow> format \<in> {''json'', ''html'', ''text'', ''txt''} \<Longrightarrow> \<exists>s. grade_export os format path g = (None, Some (path, s))"
  by (auto simp: grade_export_def export_file_willing)

lemma export_test_report_willing:
  assumes "willing os" "dir \<noteq> []"
  shows "\<exists>s h as bs kids. snd (export_test_report os dir (grade_test_report now)) =
      [(path_join [dir, ''test-results.xml''], s), (path_join [dir, ''test-results.html''], h)]
    \<and> parse_xml s = Some (Elem ''testsuites'' as [Elem ''testsuite'' bs kids])
    \<and> map_of bs ''tests'' = Some ''7'' \<and> map_of bs ''failures'' = Some ''1''"
proof -
  let ?r = "grade_test_report now" and ?jp = "path_join [dir, ''test-results.xml'']"
  obtain s as bs props kids where j: "export_junit os [] ?jp ?r = export_report os ''junit'' ?jp s"
    "parse_xml s = Some (Elem ''testsuites'' as [Elem ''testsuite'' bs (Elem ''properties'' [] props # kids)])"
    "map_of bs ''tests'' = Some ''7''" "map_of bs ''failures'' = Some ''1''"
    using junit_text [of os "[]" ?jp ?r] by (auto simp: test_report_counts small_numbers)
  then show ?thesis using assms by (auto simp: export_test_report_def export_html_def written_def export_report_willing Let_def)
qed

text \<open>Whatever happens to the files, the assessment is logged before.\<close>

lemma assessment_logged:
  assumes g: "calculate start (run_grade_calculator start (student_of fl)) = Inr g" and l: "l \<in> set (log_assessment g)"
  shows "l \<in> set (fst (snd (grade_command os now start fl)))"
  using l by (auto simp: grade_command_def g Let_def split: option.split prod.split)

lemma writes_grade:
  assumes "willing os" "gf_output fl \<noteq> []" "gf_format fl \<in> {''json'', ''html'', ''text'', ''txt''}"
    "calculate start (run_grade_calculator start (student_of fl)) = Inr g"
  shows "\<exists>entries s t h as bs kids. grade_command os now start fl = (None, entries,
        (path_join [gf_output fl, student_of fl @ ''-grade.'' @ gf_format fl], s) #
        (if gf_detailed fl then [(path_join [gf_output fl, ''test-results.xml''], t), (path_join [gf_output fl, ''test-results.html''], h)]
         else []))
    \<and> parse_xml t = Some (Elem ''testsuites'' as [Elem ''testsuite'' bs kids])
    \<and> map_of bs ''tests'' = Some ''7'' \<and> map_of bs ''failures'' = Some ''1''"
proof -
  let ?path = "path_join [gf_output fl, student_of fl @ ''-grade.'' @ gf_format fl]"
  obtain s where s: "grade_export os (gf_format fl) ?path g = (None, Some (?path, s))"
    using grade_export_willing [OF assms(1,3)] by blast
  obtain l t h as bs kids where t: "export_test_report os (gf_output fl) (grade_test_report now) =
      (l, [(path_join [gf_output fl, ''test-results.xml''], t), (path_join [gf_output fl, ''test-results.html''], h)])"
    "parse_xml t = Some (Elem ''testsuites'' as [Elem ''testsuite'' bs kids])"
    "map_of bs ''tests'' = Some ''7''" "map_of bs ''failures'' = Some ''1''"
    using export_test_report_willing [OF assms(1,2), of now] by (metis prod.collapse)
  have "\<exists>entries. grade_command os now start fl = (None, entries, (?path, s) #
      (if gf_detailed fl then [(path_join [gf_output fl, ''test-results.xml''], t), (path_join [gf_output fl, ''test-results.html''], h)]
       else []))"
    unfolding grade_command_def Let_def assms(4) sum.case if_not_P [OF assms(2)] s t(1) by (simp add: written_def)
  then show ?thesis using t(2-4) by blast
qed

subsection \<open>Properties\<close>

text \<open>
  C28. The grade command always assesses and logs that the student passed, whatever happens to the
  files. With an output directory and a format the export does not know, as with the default
  flags, it then fails (the process with status 1) before any file is written, the test report of the detailed mode included;
  with a known format and a system that lets it write, it writes the grade and, in the detailed
  mode, a test report of seven tests, one of which failed.
\<close>
theorem grade_command_outcome:
  "case grade_command os now start fl of (err, entries, files) \<Rightarrow>
     LogInfo ''status'' [(''passed'', LBool True)] \<in> set entries
   \<and> (gf_output fl = [] \<longrightarrow> snd (harness_main err) = 0 \<and> files = [])
   \<and> (gf_output fl \<noteq> [] \<and> gf_format fl \<notin> {''json'', ''html'', ''text'', ''txt''} \<longrightarrow>
        err = Some (''unsupported format: '' @ gf_format fl) \<and> files = [] \<and> snd (harness_main err) = 1)
   \<and> (gf_output fl \<noteq> [] \<and> gf_format fl \<in> {''json'', ''html'', ''text'', ''txt''} \<and> willing os \<longrightarrow>
        snd (harness_main err) = 0 \<and> map fst files = path_join [gf_output fl, student_of fl @ ''-grade.'' @ gf_format fl]
          # (if gf_detailed fl then map (\<lambda>f. path_join [gf_output fl, f]) [''test-results.xml'', ''test-results.html''] else [])
        \<and> (gf_detailed fl \<longrightarrow> (\<exists>as bs kids. parse_xml (snd (files ! 1)) = Some (Elem ''testsuites'' as [Elem ''testsuite'' bs kids])
             \<and> map_of bs ''tests'' = Some ''7'' \<and> map_of bs ''failures'' = Some ''1'')))"
proof -
  obtain g where g: "calculate start (run_grade_calculator start (student_of fl)) = Inr g" "gr_Passed g"
    using run_grade_reports [of start "student_of fl"] by blast
  have passed: "LogInfo ''status'' [(''passed'', LBool True)] \<in> set (log_assessment g)" using g(2) by (simp add: log_assessment_def)
  let ?path = "path_join [gf_output fl, student_of fl @ ''-grade.'' @ gf_format fl]"
  consider "gf_output fl = []" | "gf_output fl \<noteq> []" "gf_format fl \<notin> {''json'', ''html'', ''text'', ''txt''}"
    | "gf_output fl \<noteq> []" "gf_format fl \<in> {''json'', ''html'', ''text'', ''txt''}" by blast
  then show ?thesis
  proof cases
    case 1
    then show ?thesis using passed by (simp add: grade_command_def g(1) Let_def export_test_report_def written_def harness_main_def)
  next
    case 2
    then have "grade_export os (gf_format fl) ?path g = (Some (''unsupported format: '' @ gf_format fl), None)"
      by (simp add: grade_export_def)
    then show ?thesis using passed 2 by (simp add: grade_command_def g(1) Let_def written_def harness_main_def)
  next
    case 3
    have "LogInfo ''status'' [(''passed'', LBool True)] \<in> set (fst (snd (grade_command os now start fl)))"
      by (rule assessment_logged [OF g(1) passed])
    moreover have "fst (grade_command os now start fl) = None"
        "map fst (snd (snd (grade_command os now start fl))) = ?path # (if gf_detailed fl
           then map (\<lambda>f. path_join [gf_output fl, f]) [''test-results.xml'', ''test-results.html''] else [])"
        "gf_detailed fl \<Longrightarrow> \<exists>as bs kids. parse_xml (snd (snd (snd (grade_command os now start fl)) ! 1)) =
           Some (Elem ''testsuites'' as [Elem ''testsuite'' bs kids]) \<and> map_of bs ''tests'' = Some ''7'' \<and> map_of bs ''failures'' = Some ''1''"
      if w: "willing os"
      using writes_grade [OF w 3 g(1), of now] by auto
    ultimately show ?thesis using 3(1,2) by (simp add: case_prod_unfold harness_main_def)
  qed
qed

theorem grade_command_outcome_witness:
  "\<exists>entries. grade_command \<lparr>os_mkdir = (\<lambda>_. None), os_write = (\<lambda>_. None)\<rparr> (\<lambda>_. epoch) epoch default_grade_flags =
     (Some ''unsupported format: console'', entries, [])"
  using grade_command_outcome [where os = "\<lparr>os_mkdir = (\<lambda>_. None), os_write = (\<lambda>_. None)\<rparr>" and now = "\<lambda>_. epoch"
      and start = epoch and fl = default_grade_flags]
  by (auto simp: default_grade_flags_def split: prod.splits)

end
