(* ===== verification/Spec2Isabelle.thy ===== *)
theory Spec2Isabelle
  imports MockServer Grading Benchmark TestRunner VersionMatrix Linter Chaos PropTest Fuzz Ci Contracts Synth
    Download Commands Config BaseTest GradeCmd RootCmd
begin

text \<open>
  A verification development for the Go test harness of a weather-station course,
  \<^verbatim>\<open>src/test-harness\<close>: the program that starts the services of the station, talks to them over
  their binary protocol, tests, benchmarks, lints and disturbs them, grades the result and
  writes the reports.

  \<^bold>\<open>The layers.\<close>
  \<^item> \<open>Prelude\<close> holds bytes, the panics of Go, checked slices, machine integers (\<open>i64\<close>) and the
    contracts of counting loops (the locales \<open>counter\<close> and \<open>counter_pair\<close>, one interpretation per
    statistics loop of the program). \<open>Scale\<close> is the contract of a letter scale, interpreted on the
    three scales of the program.
  \<^item> \<open>Float64\<close> is \<open>float64\<close>: exact rationals rounded to 53 bits, with infinities and NaN.
    \<open>GoText\<close> is the part of \<open>fmt\<close> and \<open>strings\<close> the program uses, \<open>GoSys\<close> its clock, calendar
    and paths, and what writing a file can answer, \<open>GoTime\<close> durations, instants and dates as text,
    \<open>GoRand\<close> the random source as a tape of numbers.
  \<^item> The encodings of the standard library that the program writes or reads: \<open>GoUtf8\<close> (runes, clean
    UTF-8), \<open>GoJson\<close> (trees, the text of the encoder, a parser of the whole grammar), \<open>GoFloat\<close> (the
    shortest decimal of a float), \<open>GoMarshal\<close> (marshalling, unmarshalling into a struct), \<open>GoXml\<close>
    (escaping, indented elements, a parser of what the encoder writes), \<open>GoCsv\<close> (the reader of rows). Each has its round trip.
  \<^item> One theory per component: its records and datatypes, one definition per Go function, its
    lemmas and its properties.

  \<^bold>\<open>The components.\<close>
  \<^item> \<open>Protocol\<close> (\<^verbatim>\<open>pkg/protocol/validator.go\<close>): header and message validation, encoding, the stream
    loop over any \<open>io.Reader\<close> (locale \<open>byte_source\<close>), the compliance report.
  \<^item> \<open>MockServer\<close> (\<^verbatim>\<open>pkg/mock/server.go\<close>): the message path, and the life cycle of the server and
    its goroutines as a step relation, in which each accept loop has a program counter. It speaks the protocol of \<open>Protocol\<close>, or means to.
  \<^item> \<open>Grading\<close> (\<^verbatim>\<open>pkg/grading/calculator.go\<close>): the calculation in floats, the
    exports byte for byte. \<open>GradeCmd\<close> (\<^verbatim>\<open>pkg/cmd/grade.go\<close>): the whole command, with what it logs and
    the files it writes.
  \<^item> \<open>Benchmark\<close> (\<^verbatim>\<open>pkg/benchmark/runner.go\<close>): workers that interleave on shared metrics,
    percentiles by a bubble sort.
  \<^item> \<open>Report\<close> (\<^verbatim>\<open>pkg/report/reporter.go\<close>): the suite, its statistics, the JUnit, JSON and HTML
    exports. \<open>TestRunner\<close> (\<^verbatim>\<open>pkg/testrunner/runner.go\<close>) runs suites and parses the go tool's output.
  \<^item> \<open>VersionMatrix\<close> (\<^verbatim>\<open>pkg/version/matrix.go\<close>): the compatibility table and the matrix run.
  \<^item> \<open>Linter\<close> (\<^verbatim>\<open>pkg/linter/linter.go\<close>, \<^verbatim>\<open>pkg/cmd/lint.go\<close>): parsers of tool output, score, grade.
  \<^item> \<open>ServiceManager\<close> (\<^verbatim>\<open>pkg/services/manager.go\<close>) and \<open>Chaos\<close> (\<^verbatim>\<open>pkg/chaos/engineer.go\<close>,
    \<^verbatim>\<open>pkg/cmd/chaos.go\<close>): the engineer works on any service manager (locale \<open>service_ops\<close>); the
    adapter of the command interprets it on the manager.
  \<^item> \<open>PropTest\<close> (\<^verbatim>\<open>pkg/property/testing.go\<close>): generators, shrinkers and the run loop. \<open>Fuzz\<close>
    (\<^verbatim>\<open>pkg/fuzz/fuzzer.go\<close>): the mutation strategies and the run over any target.
  \<^item> \<open>Forge\<close> (\<^verbatim>\<open>pkg/github/client.go\<close>, \<^verbatim>\<open>pkg/gitlab/client.go\<close>): requests and payloads over any
    transport. \<open>Ci\<close> (\<^verbatim>\<open>pkg/ci/client.go\<close>, \<^verbatim>\<open>pkg/cmd/ci.go\<close>): the pipeline, which runs \<open>Linter\<close>
    and the tests, grades, reports and posts. \<open>Contracts\<close> (\<^verbatim>\<open>pkg/contracts\<close>,
    \<^verbatim>\<open>pkg/cmd/validate.go\<close>): the checks of a service contract.
  \<^item> \<open>Synth\<close> (\<^verbatim>\<open>pkg/data/generate.go\<close>, \<^verbatim>\<open>pkg/cmd/generate.go\<close>): synthetic weather of a wanted
    size. \<open>Noaa\<close> (\<^verbatim>\<open>pkg/data/noaa.go\<close>): the station inventory, its cache, the queries, the
    measurements; \<open>Download\<close> (same file, \<^verbatim>\<open>pkg/cmd/retrieve.go\<close>): the rate limiter and the
    download workers as step relations, and the command over them.
  \<^item> \<open>Testlib\<close> (\<^verbatim>\<open>pkg/testlib/assertions.go\<close>): assertions with the calls they make on their test
    (locale \<open>assertion\<close>). \<open>TestDb\<close> (\<^verbatim>\<open>pkg/testcontainers/database.go\<close>): test databases as
    sequences of calls, in a state monad over their history. \<open>BaseTest\<close> (\<^verbatim>\<open>tests/basetest.go\<close>):
    the fixture that puts databases, service manager and assertions together.
  \<^item> \<open>Commands\<close> (\<^verbatim>\<open>pkg/cmd/test.go\<close>, \<^verbatim>\<open>benchmark.go\<close>, \<^verbatim>\<open>mock.go\<close>): the commands over the test
    runner, the benchmark runner and the mock server. \<open>Config\<close> (\<^verbatim>\<open>pkg/config/types.go\<close>): the
    configuration types and the text form of durations. \<open>RootCmd\<close> (\<^verbatim>\<open>pkg/cmd/root.go\<close>,
    \<^verbatim>\<open>cmd/harness/main.go\<close>): flags, configuration file, logger and exit status.

  \<^bold>\<open>What the lemmas show.\<close> Round trips of every text the program writes and reads back (messages,
  station lines, measurements, sizes, durations, tool output, JUnit and JSON reports, payloads); invariants of the concurrent parts over all
  interleavings (mock server, benchmark workers, download workers, rate limiter); exact results
  of the calculations, errors and panics included (grades, percentiles, CI verdicts, contract
  checks); termination of the loops that end, and the inputs on which the others do not; resources
  released on every path (test databases, the fixture).

  \<^bold>\<open>Conventions.\<close> A Go struct is a record, a pointer that may be nil an option, an error its text in
  a sum or an option, a panic a value of \<open>panic\<close>. \<open>int\<close> and \<open>int64\<close> are integers, wrapped by \<open>i64\<close>
  where they can overflow; fixed-width unsigned fields are words. What the operating system, a
  clock, a random source or an external tool answers is an argument (records such as \<open>os_answers\<close>,
  \<open>proc_env\<close>, \<open>lint_env\<close>, \<open>suite_env\<close>, \<open>db_answers\<close>, a tape of random numbers). Loops are recursion; the loops
  that may run for ever (\<open>stream_loop\<close>, \<open>csv_loop\<close>) or end by the clock only (\<open>service_kill_loop\<close>, \<open>wait_loop\<close>) are
  partial functions whose value is \<open>None\<close> when they do not return; the time of the latter moves with their
  sleeps, and an argument says how much passes beside them. Fuel appears only where the code counts itself down (iterations, shrinks).

  \<^bold>\<open>Bounds.\<close> The parsers of \<open>GoJson\<close> and \<open>GoXml\<close> take a number that bounds their calls; the public
  functions start them with one more than the text can need (\<open>layout_parse_json\<close>, \<open>xml_roundtrip\<close>). Hypotheses
  such as at most \<open>2 ^ 53\<close> tests keep conversions of counts to floats exact.

  \<^bold>\<open>Not modelled.\<close> How the loggers print their entries, and the log entries of the commands other
  than \<open>grade\<close> and the end of \<open>retrieve\<close>, whose texts nothing else depends on; how cobra parses flags and
  viper reads its file (\<open>RootCmd\<close> has them as parameters); the YAML parser of the contracts; the wording
  of syntax errors of \<open>encoding/json\<close> and \<open>encoding/csv\<close> (functions given to the model) and the nesting
  limit of 10000 of the JSON reader; TLS of the mock server, and its \<open>LastSeen\<close> times, which are never read;
  the signal handler of \<open>retrieve\<close>, which makes the requests under way fail; the tests of the harness themselves.
\<close>

end
